(* ===== verification/Prelude.thy ===== *)
theory Prelude
  imports Main "HOL-Library.Word" "HOL-Library.Monad_Syntax"
begin

text \<open>
  Shared vocabulary of the development: the C and C++ library operations the sources use
  on characters, \<open>std::string\<close> values and integers, and the lemma collections the
  component theories share.

  A \<open>std::string\<close>, a byte buffer and a C string are all a char list (a \<open>char\<close>
  of HOL is a byte).  Indices are \<open>nat\<close>; where the code computes an index in
  \<open>size_t\<close> and the wrap-around can be reached, the wrap is written out
  (\<open>size_minus\<close>) or the value is kept as a \<open>64 word\<close>.
\<close>

named_theorems str_simps \<open>unfolding rules of the string operations\<close>
named_theorems idx_simps \<open>reads and edits of \<open>pre @ s\<close> at \<open>length pre + k\<close>\<close>
named_theorems len_intros \<open>length bounds of the string operations\<close>

section \<open>Characters\<close>

abbreviation NUL :: char where "NUL \<equiv> CHR 0x00"
abbreviation SQ :: char where "SQ \<equiv> CHR 0x27"
abbreviation DQ :: char where "DQ \<equiv> CHR 0x22"
abbreviation BSL :: char where "BSL \<equiv> CHR 0x5C"
abbreviation LF :: char where "LF \<equiv> CHR 0x0A"
abbreviation CR :: char where "CR \<equiv> CHR 0x0D"
abbreviation TAB :: char where "TAB \<equiv> CHR 0x09"
abbreviation SPC :: char where "SPC \<equiv> CHR 0x20"

text \<open>A byte read through \<open>unsigned char\<close>, and one read through the signed
  \<open>char\<close> of the x86 and x86-64 ABIs.\<close>

definition byte :: "char \<Rightarrow> nat" where
  "byte c = of_char c"

definition schar :: "char \<Rightarrow> int" where
  "schar c = (if byte c < 128 then int (byte c) else int (byte c) - 256)"

definition is_digit :: "char \<Rightarrow> bool" where
  "is_digit c \<longleftrightarrow> 48 \<le> byte c \<and> byte c \<le> 57"

definition is_upper :: "char \<Rightarrow> bool" where
  "is_upper c \<longleftrightarrow> 65 \<le> byte c \<and> byte c \<le> 90"

definition is_lower :: "char \<Rightarrow> bool" where
  "is_lower c \<longleftrightarrow> 97 \<le> byte c \<and> byte c \<le> 122"

text \<open>\<open>tolower\<close> of the C locale.\<close>

definition tolower :: "char \<Rightarrow> char" where
  "tolower c = (if is_upper c then char_of (byte c + 32) else c)"

lemma byte_less [simp]: "byte c < 256"
  unfolding byte_def by (rule nat_of_char_less_256)

lemma byte_char_of [simp]: "n < 256 \<Longrightarrow> byte (char_of n) = n"
  by (simp add: byte_def)

lemma byte_inject [simp]: "byte c = byte d \<longleftrightarrow> c = d"
  by (simp add: byte_def)

lemma tolower_idem [simp]: "tolower (tolower c) = tolower c"
  by (simp add: tolower_def is_upper_def)

lemma tolower_not_upper [simp]: "\<not> is_upper (tolower c)"
  by (simp add: tolower_def is_upper_def)

section \<open>Strings\<close>

text \<open>\<open>s[i]\<close>: the terminating NUL at \<open>i = size()\<close>; beyond it the read is
  undefined behaviour, which \<open>rd\<close> reports as \<open>None\<close>.\<close>

definition at :: "string \<Rightarrow> nat \<Rightarrow> char" where
  "at s i = (if i < length s then s ! i else NUL)"

definition rd :: "string \<Rightarrow> nat \<Rightarrow> char option" where
  "rd s i = (if i \<le> length s then Some (at s i) else None)"

text \<open>\<open>size() - k\<close> in \<open>size_t\<close>.\<close>

definition size_minus :: "string \<Rightarrow> nat \<Rightarrow> nat" where
  "size_minus s k = (if k \<le> length s then length s - k else 2 ^ 64 + length s - k)"

text \<open>\<open>s.erase(pos, n)\<close> and \<open>s.substr(pos, n)\<close> for \<open>pos \<le> size()\<close>.\<close>

definition erase :: "string \<Rightarrow> nat \<Rightarrow> nat \<Rightarrow> string" where
  "erase s pos n = take pos s @ drop (pos + n) s"

definition substr :: "string \<Rightarrow> nat \<Rightarrow> nat \<Rightarrow> string" where
  "substr s pos n = take n (drop pos s)"

text \<open>The C string that starts at the first byte of \<open>s\<close>: up to the first NUL.\<close>

definition cstr :: "string \<Rightarrow> string" where
  "cstr s = takeWhile (\<lambda>c. c \<noteq> NUL) s"

text \<open>\<open>find\<close> of a single character or of a predicate from an index on;
  \<open>None\<close> is \<open>npos\<close>.\<close>

fun find_idx :: "(char \<Rightarrow> bool) \<Rightarrow> string \<Rightarrow> nat option" where
  "find_idx P [] = None"
| "find_idx P (c # cs) = (if P c then Some 0 else map_option Suc (find_idx P cs))"

definition find_from :: "(char \<Rightarrow> bool) \<Rightarrow> string \<Rightarrow> nat \<Rightarrow> nat option" where
  "find_from P s i = map_option (\<lambda>k. i + k) (find_idx P (drop i s))"

fun find_last_idx :: "(char \<Rightarrow> bool) \<Rightarrow> string \<Rightarrow> nat option" where
  "find_last_idx P [] = None"
| "find_last_idx P (c # cs) =
     (case find_last_idx P cs of Some k \<Rightarrow> Some (Suc k) | None \<Rightarrow> if P c then Some 0 else None)"

text \<open>\<open>std::isspace\<close> of the C locale, \<open>strcasecmp(a, b) == 0\<close>.\<close>

definition c_isspace :: "char \<Rightarrow> bool" where
  "c_isspace c \<longleftrightarrow> byte c = 32 \<or> (9 \<le> byte c \<and> byte c \<le> 13)"

definition strcaseeq :: "string \<Rightarrow> string \<Rightarrow> bool" where
  "strcaseeq a b \<longleftrightarrow> map tolower (cstr a) = map tolower (cstr b)"

subsection \<open>Decimal numbers\<close>

fun digits_of :: "nat \<Rightarrow> string" where
  "digits_of n = (if n < 10 then [char_of (48 + n)]
     else digits_of (n div 10) @ [char_of (48 + n mod 10)])"

declare digits_of.simps [simp del]

text \<open>\<open>printf("%d")\<close> and \<open>ostream << int\<close>.\<close>

definition dec :: "int \<Rightarrow> string" where
  "dec i = (if i < 0 then CHR ''-'' # digits_of (nat (- i)) else digits_of (nat i))"

definition dec_nat :: "nat \<Rightarrow> string" where
  "dec_nat n = digits_of n"

fun atoi_digits :: "nat \<Rightarrow> string \<Rightarrow> nat" where
  "atoi_digits acc [] = acc"
| "atoi_digits acc (c # cs) =
     (if is_digit c then atoi_digits (10 * acc + (byte c - 48)) cs else acc)"

text \<open>\<open>atoi\<close>: leading white space, an optional sign, then digits.  The value is the
  integer denoted (C leaves values outside \<open>int\<close> undefined).\<close>

definition atoi :: "string \<Rightarrow> int" where
  "atoi s = (case dropWhile c_isspace s of
       [] \<Rightarrow> 0
     | c # cs \<Rightarrow>
         if c = CHR ''-'' then - int (atoi_digits 0 cs)
         else if c = CHR ''+'' then int (atoi_digits 0 cs)
         else int (atoi_digits 0 (c # cs)))"

subsection \<open>Formatted output and files\<close>

text \<open>\<open>snprintf(q, n, ...)\<close>: at most \<open>n - 1\<close> characters are stored.\<close>

definition snprintf :: "nat \<Rightarrow> string \<Rightarrow> string" where
  "snprintf n s = take (n - 1) s"

text \<open>The lines \<open>std::getline\<close> delivers.\<close>

fun getlines :: "string \<Rightarrow> string list" where
  "getlines [] = []"
| "getlines (c # s) =
     (if c = LF then [] # getlines s
      else case getlines s of
             [] \<Rightarrow> [[c]]
           | l # ls \<Rightarrow> (c # l) # ls)"

subsection \<open>Lemmas\<close>

lemma at_less [str_simps]: "i < length s \<Longrightarrow> at s i = s ! i"
  by (simp add: at_def)

lemma at_end [simp]: "length s \<le> i \<Longrightarrow> at s i = NUL"
  by (simp add: at_def)

lemma at_Cons_0 [simp]: "at (c # s) 0 = c"
  by (simp add: at_def)

lemma at_Cons_Suc [simp]: "at (c # s) (Suc i) = at s i"
  by (simp add: at_def)

lemma rd_Some [simp]: "i \<le> length s \<Longrightarrow> rd s i = Some (at s i)"
  by (simp add: rd_def)

lemma rd_None [simp]: "length s < i \<Longrightarrow> rd s i = None"
  by (simp add: rd_def)

lemma size_minus_le [simp]: "k \<le> length s \<Longrightarrow> size_minus s k = length s - k"
  by (simp add: size_minus_def)

lemma size_minus_1 [simp]: "s \<noteq> [] \<Longrightarrow> size_minus s (Suc 0) = length s - 1"
  by (cases s) (auto simp: size_minus_def)

lemma not_less_minus [simp]: "\<not> (n::nat) < n - k"
  by simp

lemma length_erase [simp]:
  "pos \<le> length s \<Longrightarrow> length (erase s pos n) = length s - min n (length s - pos)"
  by (auto simp: erase_def)

lemma length_erase_le [len_intros, simp]: "length (erase s pos n) \<le> length s"
  by (auto simp: erase_def)

lemma erase_0 [simp]: "erase s pos 0 = s"
  by (simp add: erase_def)

lemma take_erase [simp]: "k \<le> pos \<Longrightarrow> take k (erase s pos n) = take k s"
  by (auto simp: erase_def min_def)

lemma erase_ge_len: "length s \<le> pos \<Longrightarrow> erase s pos n = s"
  by (simp add: erase_def)

lemma length_substr [simp]: "length (substr s pos n) = min n (length s - pos)"
  by (simp add: substr_def min.commute)

lemma length_cstr [len_intros, simp]: "length (cstr s) \<le> length s"
  by (simp add: cstr_def length_takeWhile_le)

lemma cstr_no_NUL [simp]: "NUL \<notin> set (cstr s)"
  by (auto simp: cstr_def dest: set_takeWhileD)

lemma cstr_id: "NUL \<notin> set s \<Longrightarrow> cstr s = s"
  unfolding cstr_def takeWhile_eq_all_conv by blast

lemma cstr_append_NUL: "NUL \<notin> set s \<Longrightarrow> cstr (s @ NUL # t) = s"
  unfolding cstr_def by (induction s) auto

lemma find_idx_Some: "find_idx P s = Some k \<Longrightarrow>
    k < length s \<and> P (s ! k) \<and> (\<forall>j<k. \<not> P (s ! j))"
proof (induction s arbitrary: k)
  case Nil
  then show ?case by simp
next
  case (Cons c s)
  show ?case
  proof (cases "P c")
    case True
    with Cons.prems show ?thesis by simp
  next
    case False
    with Cons.prems obtain j where j: "find_idx P s = Some j" "k = Suc j" by auto
    from Cons.IH [OF j(1)] False j(2) show ?thesis
      by (auto simp: nth_Cons split: nat.split)
  qed
qed

lemma find_idx_None: "find_idx P s = None \<longleftrightarrow> (\<forall>c\<in>set s. \<not> P c)"
  by (induction s) auto

lemma find_from_bounds: "find_from P s i = Some k \<Longrightarrow> i \<le> k \<and> k < length s \<and> P (s ! k)"
  by (auto simp: find_from_def dest!: find_idx_Some)

lemma is_digit_char_of: "(d::nat) < 10 \<Longrightarrow> is_digit (char_of (48 + d))"
  by (simp add: is_digit_def)

lemma digits_of_nonempty [simp]: "digits_of n \<noteq> []"
  by (cases "n < 10") (simp_all add: digits_of.simps [of n])

lemma digits_of_digits: "c \<in> set (digits_of n) \<Longrightarrow> is_digit c"
proof (induction n rule: digits_of.induct)
  case (1 n)
  show ?case
  proof (cases "n < 10")
    case True
    with "1.prems" show ?thesis
      by (subst (asm) digits_of.simps) (auto intro: is_digit_char_of)
  next
    case False
    with "1.prems" have "c \<in> set (digits_of (n div 10)) \<or> c = char_of (48 + n mod 10)"
      by (subst (asm) digits_of.simps) auto
    with "1.IH" [OF False] show ?thesis
      by (auto intro: is_digit_char_of)
  qed
qed

lemma atoi_digits_append:
  "\<forall>c\<in>set s. is_digit c \<Longrightarrow> atoi_digits acc (s @ t) = atoi_digits (atoi_digits acc s) t"
  by (induction s arbitrary: acc) auto

lemma atoi_digits_digits_of: "atoi_digits 0 (digits_of n) = n"
proof (induction n rule: digits_of.induct)
  case (1 n)
  show ?case
  proof (cases "n < 10")
    case True
    then show ?thesis by (subst digits_of.simps) (simp add: is_digit_char_of)
  next
    case False
    then have "atoi_digits 0 (digits_of n) = 10 * (n div 10) + n mod 10"
      using "1.IH" [OF False]
      by (subst digits_of.simps)
         (simp add: atoi_digits_append digits_of_digits is_digit_char_of)
    then show ?thesis by simp
  qed
qed

text \<open>Printing and reading back: the decimal printer is injective.\<close>

lemma atoi_dec: "atoi (dec i) = i"
proof (cases "i < 0")
  case True
  then show ?thesis
    by (simp add: dec_def atoi_def c_isspace_def byte_def atoi_digits_digits_of)
next
  case False
  obtain d ds where d: "digits_of (nat i) = d # ds"
    by (cases "digits_of (nat i)") auto
  have "is_digit d" using digits_of_digits [of d "nat i"] d by simp
  then have "\<not> c_isspace d" and "d \<noteq> CHR ''-''" and "d \<noteq> CHR ''+''"
    by (auto simp: is_digit_def c_isspace_def byte_def)
  with False d atoi_digits_digits_of [of "nat i"] show ?thesis
    by (simp add: dec_def atoi_def)
qed

lemma dec_inject [simp]: "dec i = dec j \<longleftrightarrow> i = j"
  by (metis atoi_dec)

lemma dec_no_comma: "CHR '','' \<notin> set (dec i)"
  using digits_of_digits [of "CHR '',''"]
  by (auto simp: dec_def is_digit_def byte_def)

subsection \<open>A string seen from an index\<close>

text \<open>The index loops of the sources are analysed with the string split at the loop
  index: \<open>pre\<close> is final, \<open>s\<close> is still to be read.\<close>

lemma at_append [idx_simps]: "at (pre @ s) (length pre + k) = at s k"
  by (simp add: at_def nth_append)

lemma at_append_0 [idx_simps]: "at (pre @ s) (length pre) = at s 0"
  by (simp add: at_def nth_append)

lemma at_append_Suc [idx_simps]: "at (pre @ s) (Suc (length pre + k)) = at s (Suc k)"
  by (metis add_Suc_right at_append)

lemma at_append_1 [idx_simps]: "at (pre @ s) (Suc (length pre)) = at s 1"
  by (metis One_nat_def add.right_neutral add_Suc_right at_append)

lemma erase_append [idx_simps]: "erase (pre @ s) (length pre + k) n = pre @ erase s k n"
  by (simp add: erase_def)

lemma erase_append_0 [idx_simps]: "erase (pre @ s) (length pre) n = pre @ drop n s"
  by (simp add: erase_def)

lemma erase_append_1 [idx_simps]: "erase (pre @ s) (Suc (length pre)) n = pre @ erase s 1 n"
  by (metis One_nat_def add.right_neutral add_Suc_right erase_append)

lemma erase_Cons_Suc [simp]: "erase (c # s) (Suc k) n = c # erase s k n"
  by (simp add: erase_def)

lemma erase_at_0 [simp]: "erase s 0 n = drop n s"
  by (simp add: erase_def)

lemma snoc_shift: "pre @ c # s = (pre @ [c]) @ s"
  by simp

text \<open>Conditions with C's short-circuit evaluation over reads that may be undefined.\<close>

definition rd_is :: "string \<Rightarrow> nat \<Rightarrow> char \<Rightarrow> bool option" where
  "rd_is s i c = map_option (\<lambda>x. x = c) (rd s i)"

definition sc_and :: "bool option \<Rightarrow> bool option \<Rightarrow> bool option" where
  "sc_and a b = (case a of None \<Rightarrow> None | Some x \<Rightarrow> if x then b else Some False)"

definition sc_or :: "bool option \<Rightarrow> bool option \<Rightarrow> bool option" where
  "sc_or a b = (case a of None \<Rightarrow> None | Some x \<Rightarrow> if x then Some True else b)"

lemma rd_is_Some [simp]: "i \<le> length s \<Longrightarrow> rd_is s i c = Some (at s i = c)"
  by (simp add: rd_is_def)

lemma rd_is_None [simp]: "length s < i \<Longrightarrow> rd_is s i c = None"
  by (simp add: rd_is_def)

lemma rd_is_SomeD: "rd_is s i c = Some b \<Longrightarrow> i \<le> length s \<and> b = (at s i = c)"
  by (cases "i \<le> length s") auto

lemma sc_and_simps [simp]:
  "sc_and None b = None" "sc_and (Some True) b = b" "sc_and (Some False) b = Some False"
  by (simp_all add: sc_and_def)

lemma sc_or_simps [simp]:
  "sc_or None b = None" "sc_or (Some True) b = Some True" "sc_or (Some False) b = b"
  by (simp_all add: sc_or_def)

lemma sc_and_SomeD: "sc_and a b = Some x \<Longrightarrow> \<exists>y. a = Some y"
  by (cases a) auto

lemma at_nonNUL_less: "at s i \<noteq> NUL \<Longrightarrow> i < length s"
  by (auto simp: at_def split: if_splits)

section \<open>Bytes as integers\<close>

text \<open>\<open>data[2]<<16 | data[1]<<8 | data[0]\<close>: three bytes, no overflow.\<close>

definition le24 :: "string \<Rightarrow> nat \<Rightarrow> nat" where
  "le24 s i = 65536 * byte (at s (i + 2)) + 256 * byte (at s (i + 1)) + byte (at s i)"

lemma le24_bound: "le24 s i < 2 ^ 24"
proof -
  have "byte (at s (i + 2)) \<le> 255" "byte (at s (i + 1)) \<le> 255" "byte (at s i) \<le> 255"
    using byte_less [of "at s (i + 2)"] byte_less [of "at s (i + 1)"] byte_less [of "at s i"]
    by linarith+
  then show ?thesis unfolding le24_def by simp
qed

end
