(* ===== verification/Buffer.thy ===== *)
theory Buffer
  imports Prelude
begin

text \<open>
  The byte queue \<open>Buffer\<close> of buffer.hpp and buffer.cpp: every connection owns four of
  them (request and response, in and out).  The locale \<open>byte_queue\<close> is the contract
  the proxy relies on: appended bytes leave in order, and popping moves a prefix.
\<close>

section \<open>The class\<close>

record Buffer =
  buff :: string

definition new_Buffer :: Buffer where
  "new_Buffer = \<lparr>buff = []\<rparr>"

text \<open>\<open>append(const char *data, int size)\<close>: the caller guarantees that \<open>data\<close>
  has at least \<open>size\<close> bytes.\<close>

definition Buffer_append :: "Buffer \<Rightarrow> string \<Rightarrow> int \<Rightarrow> Buffer" where
  "Buffer_append b data n =
     (if n \<le> 0 then b else b\<lparr>buff := buff b @ take (nat n) data\<rparr>)"

definition Buffer_append_str :: "Buffer \<Rightarrow> string \<Rightarrow> Buffer" where
  "Buffer_append_str b s = b\<lparr>buff := buff b @ s\<rparr>"

definition chop_back :: "Buffer \<Rightarrow> int \<Rightarrow> Buffer" where
  "chop_back b n =
     (if n \<le> 0 then b else b\<lparr>buff := erase (buff b) 0 (nat n)\<rparr>)"

text \<open>The length argument of \<open>substr\<close>, \<open>assign\<close> and \<open>erase\<close> is a
  \<open>size_t\<close>: a negative \<open>int\<close> becomes a count larger than any buffer.\<close>

definition count_of_int :: "int \<Rightarrow> nat" where
  "count_of_int n = (if n < 0 then nat (2 ^ 64 + n) else nat n)"

definition pop :: "Buffer \<Rightarrow> string \<Rightarrow> int \<Rightarrow> bool \<Rightarrow> string \<times> Buffer" where
  "pop b res size_arg appendval =
     (let n = count_of_int size_arg;
          res' = (if appendval then res @ substr (buff b) 0 n else substr (buff b) 0 n)
      in (res', b\<lparr>buff := erase (buff b) 0 n\<rparr>))"

definition raw :: "Buffer \<Rightarrow> string" where
  "raw b = buff b"

text \<open>\<open>(unsigned)_buff.find(value, start)\<close>: \<open>npos\<close> truncates to
  \<open>2 ^ 32 - 1\<close>.\<close>

fun find_sub :: "string \<Rightarrow> string \<Rightarrow> nat option" where
  "find_sub v s = (if take (length v) s = v then Some 0
     else case s of [] \<Rightarrow> None | c # cs \<Rightarrow> map_option Suc (find_sub v cs))"

declare find_sub.simps [simp del]

definition FindSubString :: "Buffer \<Rightarrow> string \<Rightarrow> nat \<Rightarrow> nat" where
  "FindSubString b value start =
     (if length (buff b) < start then 2 ^ 32 - 1
      else case find_sub value (drop start (buff b)) of
             Some k \<Rightarrow> (start + k) mod 2 ^ 32 | None \<Rightarrow> 2 ^ 32 - 1)"

definition Buffer_size :: "Buffer \<Rightarrow> int" where
  "Buffer_size b = int (length (buff b))"

section \<open>The queue contract\<close>

locale byte_queue =
  fixes contents :: "'b \<Rightarrow> string"
    and enq :: "'b \<Rightarrow> string \<Rightarrow> 'b"
    and deq :: "'b \<Rightarrow> nat \<Rightarrow> string \<times> 'b"
  assumes contents_enq: "contents (enq b s) = contents b @ s"
    and contents_deq: "fst (deq b n) @ contents (snd (deq b n)) = contents b"
    and deq_length: "length (fst (deq b n)) = min n (length (contents b))"
begin

lemma deq_take: "fst (deq b n) = take n (contents b)"
proof -
  have "take (length (fst (deq b n))) (fst (deq b n) @ contents (snd (deq b n)))
      = take (length (fst (deq b n))) (contents b)"
    by (simp only: contents_deq)
  then have "fst (deq b n) = take (min n (length (contents b))) (contents b)"
    by (simp add: deq_length)
  then show ?thesis by (simp add: min_def)
qed

lemma deq_rest: "contents (snd (deq b n)) = drop n (contents b)"
proof -
  have "take n (contents b) @ contents (snd (deq b n)) = contents b"
    using contents_deq [of b n] by (simp only: deq_take)
  also have "\<dots> = take n (contents b) @ drop n (contents b)"
    by (simp only: append_take_drop_id)
  finally show ?thesis by (simp only: same_append_eq)
qed

text \<open>Moving \<open>n\<close> bytes from one queue to the next neither loses, duplicates nor
  reorders a byte of the stream that passes through both.\<close>

lemma transfer_conserves:
  "contents (enq out (fst (deq inq n))) @ contents (snd (deq inq n))
     = contents out @ contents inq"
  by (simp add: contents_enq contents_deq)

lemma transfer_length:
  "length (contents (enq out (fst (deq inq n)))) + length (contents (snd (deq inq n)))
     = length (contents out) + length (contents inq)"
  by (metis length_append transfer_conserves)

end

lemma pop_int: "pop b res (int n) False =
    (take n (buff b), b\<lparr>buff := drop n (buff b)\<rparr>)"
  by (simp add: pop_def count_of_int_def substr_def erase_def)

interpretation buf: byte_queue buff Buffer_append_str "\<lambda>b n. pop b [] (int n) False"
  by unfold_locales (simp_all add: Buffer_append_str_def pop_int min.commute)

lemma Buffer_append_all: "Buffer_append b s (int (length s)) = Buffer_append_str b s"
  by (simp add: Buffer_append_def Buffer_append_str_def)

lemma buff_Buffer_append_str [simp]: "buff (Buffer_append_str b s) = buff b @ s"
  by (simp add: Buffer_append_str_def)

lemma buff_new_Buffer [simp]: "buff new_Buffer = []"
  by (simp add: new_Buffer_def)

lemma Buffer_eqI: "buff b = buff c \<Longrightarrow> b = (c :: Buffer)"
  by simp

lemma buff_chop_back: "buff (chop_back b n) = drop (nat n) (buff b)"
  by (simp add: chop_back_def erase_def)

lemma find_sub_Some: "find_sub v s = Some k \<Longrightarrow> \<exists>t. s = take k s @ v @ t"
proof (induction v s arbitrary: k rule: find_sub.induct)
  case (1 v s)
  show ?case
  proof (cases "take (length v) s = v")
    case True
    with "1.prems" have "k = 0" by (simp add: find_sub.simps [of v s])
    with True show ?thesis by (metis append_Nil append_take_drop_id take0)
  next
    case False
    with "1.prems" obtain c cs j where s: "s = c # cs" "find_sub v cs = Some j" "k = Suc j"
      by (auto simp: find_sub.simps [of v s] split: list.splits)
    from "1.IH" [OF False s(1,2)] obtain t where "cs = take j cs @ v @ t" by blast
    with s show ?thesis by (metis append_Cons take_Suc_Cons)
  qed
qed

text \<open>A transfer between two buffers, the step by which every request and response
  byte moves through the proxy (\<open>pop\<close> from one queue, \<open>append\<close> to the next),
  conserves the byte stream, for any number of bytes.\<close>

theorem buffer_transfer_conserves:
  "buff (Buffer_append_str out (fst (pop inq [] (int n) False)))
     @ buff (snd (pop inq [] (int n) False)) = buff out @ buff inq"
  by (rule buf.transfer_conserves)

end
