(* ===== verification/StrMisc.thy ===== *)
theory StrMisc
  imports Buffer
begin

text \<open>
  The string functions of misc.cpp: number printing, line trimming, the configuration line
  parser, tokenising, and the two searches that extract the statement kind and the table of
  a query.
\<close>

section \<open>The functions\<close>

definition itoa :: "int \<Rightarrow> string" where
  "itoa i = dec i"

definition ltoa :: "int \<Rightarrow> string" where
  "ltoa i = dec i"

definition lltoa :: "int \<Rightarrow> string" where
  "lltoa i = dec i"

definition blank :: "char \<Rightarrow> bool" where
  "blank c \<longleftrightarrow> c = SPC \<or> c = TAB \<or> c = CR \<or> c = LF"

text \<open>\<open>str.substr(0, com-1)\<close> with \<open>com = 0\<close> passes \<open>npos\<close>, the whole
  string.\<close>

definition TrimStr :: "string \<Rightarrow> string" where
  "TrimStr str =
     (let str = (case find_from (\<lambda>c. c = CHR ''#'') str 0 of
                   Some com \<Rightarrow> if com = 0 then str else substr str 0 (com - 1)
                 | None \<Rightarrow> str)
      in case (find_from (\<lambda>c. \<not> blank c) str 0,
               find_last_idx (\<lambda>c. \<not> (blank c \<or> c = CHR ''#'')) str) of
           (Some start, Some end) \<Rightarrow> substr str start (end + 1)
         | _ \<Rightarrow> [])"

definition key_char :: "char \<Rightarrow> bool" where
  "key_char c \<longleftrightarrow> is_lower c \<or> is_upper c \<or> c = CHR ''_''"

definition value_char :: "char \<Rightarrow> bool" where
  "value_char c \<longleftrightarrow> is_lower c \<or> is_upper c \<or> is_digit c \<or> c = BSL \<or>
     c \<in> set ''_:#$&/@!%.-''"

definition sp_tab :: "char \<Rightarrow> bool" where
  "sp_tab c \<longleftrightarrow> c = SPC \<or> c = TAB"

definition ParseConfLine :: "string \<Rightarrow> (string \<times> string) option" where
  "ParseConfLine str =
     (let k = takeWhile key_char str;
          r = dropWhile sp_tab (dropWhile key_char str)
      in if at r 0 \<noteq> CHR ''='' then None
         else let v = takeWhile value_char (dropWhile sp_tab (drop 1 r))
              in if v \<noteq> [] \<and> k \<noteq> [] then Some (k, v) else None)"

definition str_lowercase :: "string \<Rightarrow> string" where
  "str_lowercase s = map tolower s"

function CutStringToVector :: "string \<Rightarrow> char \<Rightarrow> string list" where
  "CutStringToVector str sep =
     (case find_idx (\<lambda>c. c = sep) str of
        Some i \<Rightarrow> take i str # CutStringToVector (drop (i + 1) str) sep
      | None \<Rightarrow> if length str > 0 then [str] else [])"
  by pat_completeness auto
termination
  by (relation "measure (\<lambda>(str, sep). length str)") (auto dest!: find_idx_Some)

declare CutStringToVector.simps [simp del]

text \<open>\<open>TrimString\<close> walks the string from both ends at once, with one flag and one
  counter per end.\<close>

fun TrimString_loop :: "char \<Rightarrow> string \<Rightarrow> string \<Rightarrow> bool \<Rightarrow> bool \<Rightarrow> nat \<Rightarrow> nat \<Rightarrow> nat \<times> nat" where
  "TrimString_loop sep (c # cs) (d # ds) checkFirst checkLast start end =
     (if checkFirst \<or> checkLast then
        (let (cf, start') = (if checkFirst then (if c \<noteq> sep then (False, start) else (True, start + 1))
                             else (False, start));
             (cl, end') = (if checkLast then (if d \<noteq> sep then (False, end) else (True, end - 1))
                           else (False, end))
         in TrimString_loop sep cs ds cf cl start' end')
      else (start, end))"
| "TrimString_loop sep _ _ checkFirst checkLast start end = (start, end)"

text \<open>On a string of separators only \<open>end - start\<close> wraps to a large count and
  \<open>start = size()\<close>, so \<open>substr\<close> is empty: truncating subtraction gives the same.\<close>

definition TrimString :: "string \<Rightarrow> char \<Rightarrow> string" where
  "TrimString value sep =
     (let (start, end) = TrimString_loop sep value (rev value) True True 0 (length value)
      in substr value start (end - start))"

fun TrimRight_loop :: "char \<Rightarrow> string \<Rightarrow> nat \<Rightarrow> nat" where
  "TrimRight_loop sep [] end = end"
| "TrimRight_loop sep (d # ds) end = (if d \<noteq> sep then end else TrimRight_loop sep ds (end - 1))"

definition TrimRightString :: "string \<Rightarrow> char \<Rightarrow> string" where
  "TrimRightString value sep = substr value 0 (TrimRight_loop sep (rev value) (length value))"

fun TrimLeft_loop :: "char \<Rightarrow> string \<Rightarrow> nat \<Rightarrow> nat" where
  "TrimLeft_loop sep [] start = start"
| "TrimLeft_loop sep (c # cs) start = (if c \<noteq> sep then start else TrimLeft_loop sep cs (start + 1))"

definition TrimLeftString :: "string \<Rightarrow> char \<Rightarrow> string" where
  "TrimLeftString value sep =
     (let start = TrimLeft_loop sep value 0 in substr value start (length value - start))"

text \<open>\<open>regex_search\<close> of an alternation of words, ignoring case: the leftmost
  position, and there the first alternative that matches.\<close>

definition prefix_ci :: "string \<Rightarrow> string \<Rightarrow> bool" where
  "prefix_ci w s \<longleftrightarrow> length w \<le> length s \<and> map tolower (take (length w) s) = w"

fun search_alt :: "string list \<Rightarrow> string \<Rightarrow> string" where
  "search_alt ws [] = []"
| "search_alt ws (c # cs) =
     (case find (\<lambda>w. prefix_ci w (c # cs)) ws of
        Some w \<Rightarrow> take (length w) (c # cs)
      | None \<Rightarrow> search_alt ws cs)"

definition permiss_words :: "string list" where
  "permiss_words = [''select'', ''delete'', ''update'', ''insert'', ''drop'', ''truncate'', ''create'']"

definition table_words :: "string list" where
  "table_words = [''admin'', ''info'', ''alert'', ''query'', ''alert_group'', ''proxy'', ''db_perm'']"

definition search_per :: "string \<Rightarrow> string" where
  "search_per query_sql = search_alt permiss_words query_sql"

definition search_table :: "string \<Rightarrow> string" where
  "search_table query_sql = search_alt table_words query_sql"

section \<open>Their properties\<close>

lemma find_last_idx_Some: "find_last_idx P s = Some k \<Longrightarrow> k < length s \<and> P (s ! k)"
  by (induction s arbitrary: k) (auto split: option.splits if_splits)

lemma str_lowercase_idem [simp]: "str_lowercase (str_lowercase s) = str_lowercase s"
  by (simp add: str_lowercase_def)

lemma length_str_lowercase [simp]: "length (str_lowercase s) = length s"
  by (simp add: str_lowercase_def)

lemma str_lowercase_append: "str_lowercase (s @ t) = str_lowercase s @ str_lowercase t"
  by (simp add: str_lowercase_def)

lemma length_TrimStr [len_intros]: "length (TrimStr s) \<le> length s"
  by (auto simp: TrimStr_def Let_def substr_def split: option.splits)

lemma TrimRight_loop_eq:
  "length ds \<le> end \<Longrightarrow>
     TrimRight_loop sep ds end = end - length (takeWhile (\<lambda>c. c = sep) ds)"
  by (induction ds arbitrary: "end") auto

lemma TrimLeft_loop_eq:
  "TrimLeft_loop sep cs start = start + length (takeWhile (\<lambda>c. c = sep) cs)"
  by (induction cs arbitrary: start) auto

lemma TrimString_loop_eq:
  assumes "length cs = length ds" "length ds \<le> end"
  shows "TrimString_loop sep cs ds cf cl start end =
     (if cf then start + length (takeWhile (\<lambda>c. c = sep) cs) else start,
      if cl then end - length (takeWhile (\<lambda>c. c = sep) ds) else end)"
  using assms
  by (induction sep cs ds cf cl start "end" rule: TrimString_loop.induct)
     (auto simp: Let_def split: if_splits)

lemma drop_takeWhile_len: "drop (length (takeWhile P s)) s = dropWhile P s"
  by (induction s) auto

lemma take_rev_takeWhile:
  "take (length s - length (takeWhile P (rev s))) s = rev (dropWhile P (rev s))"
proof -
  have "rev s = takeWhile P (rev s) @ dropWhile P (rev s)" by simp
  then have "s = rev (dropWhile P (rev s)) @ rev (takeWhile P (rev s))"
    by (metis rev_append rev_rev_ident)
  then show ?thesis
    by (metis (no_types, lifting) append_eq_conv_conj diff_add_inverse2 length_append length_rev)
qed

lemma TrimRightString_spec:
  "TrimRightString s sep = rev (dropWhile (\<lambda>c. c = sep) (rev s))"
  by (simp add: TrimRightString_def substr_def TrimRight_loop_eq take_rev_takeWhile)

lemma TrimLeftString_spec: "TrimLeftString s sep = dropWhile (\<lambda>c. c = sep) s"
  by (simp add: TrimLeftString_def Let_def substr_def TrimLeft_loop_eq drop_takeWhile_len)

lemma search_alt_Nil_iff:
  "[] \<notin> set ws \<Longrightarrow>
   search_alt ws s = [] \<longleftrightarrow> (\<forall>w\<in>set ws. \<forall>i. \<not> prefix_ci w (drop i s))"
proof (induction s)
  case Nil
  then show ?case by (auto simp: prefix_ci_def)
next
  case (Cons c cs)
  have split_drop: "(\<forall>i. \<not> prefix_ci w (drop i (c # cs))) \<longleftrightarrow>
      \<not> prefix_ci w (c # cs) \<and> (\<forall>i. \<not> prefix_ci w (drop i cs))" for w
    by (metis drop0 drop_Suc_Cons not0_implies_Suc)
  show ?case
  proof (cases "find (\<lambda>w. prefix_ci w (c # cs)) ws")
    case None
    then have "search_alt ws (c # cs) = search_alt ws cs" by simp
    with None Cons show ?thesis by (simp only:) (auto simp: find_None_iff split_drop)
  next
    case (Some w)
    then have "w \<in> set ws" "prefix_ci w (c # cs)" by (auto simp: find_Some_iff)
    with Some Cons.prems have "search_alt ws (c # cs) \<noteq> []" by auto
    moreover have "prefix_ci w (drop 0 (c # cs))" using \<open>prefix_ci w (c # cs)\<close> by simp
    ultimately show ?thesis using \<open>w \<in> set ws\<close> by blast
  qed
qed

section \<open>Properties\<close>

lemma takeWhile_all_then:
  "\<forall>c\<in>set k. P c \<Longrightarrow> \<not> P (at r 0) \<Longrightarrow> takeWhile P (k @ r) = k"
  by (cases r) (simp_all add: takeWhile_append2)

lemma dropWhile_all_then:
  "\<forall>c\<in>set k. P c \<Longrightarrow> \<not> P (at r 0) \<Longrightarrow> dropWhile P (k @ r) = r"
  by (cases r) (simp_all add: dropWhile_append2 dropWhile_append3)

lemma char_classes [simp]:
  "\<not> key_char (CHR ''='')" "\<not> sp_tab (CHR ''='')" "\<not> key_char SPC" "\<not> key_char TAB"
  by (auto simp: key_char_def sp_tab_def is_lower_def is_upper_def byte_def)

lemma value_not_sp_tab: "value_char c \<Longrightarrow> \<not> sp_tab c"
  by (auto simp: value_char_def sp_tab_def is_lower_def is_upper_def is_digit_def byte_def)

lemma sp_tab_not_key: "sp_tab c \<Longrightarrow> \<not> key_char c"
  by (auto simp: sp_tab_def)

text \<open>\<open>ParseConfLine\<close> reads back every line of the shape key, blanks, equals sign,
  blanks, value, and a rest that no value character starts.\<close>

theorem ParseConfLine_roundtrip:
  assumes "k \<noteq> []" "\<forall>c\<in>set k. key_char c" "\<forall>c\<in>set b1. sp_tab c" "\<forall>c\<in>set b2. sp_tab c"
    and "v \<noteq> []" "\<forall>c\<in>set v. value_char c" "\<not> value_char (at rest 0)"
  shows "ParseConfLine (k @ b1 @ CHR ''='' # b2 @ v @ rest) = Some (k, v)"
proof -
  let ?r1 = "b1 @ CHR ''='' # b2 @ v @ rest"
  have "\<not> key_char (at ?r1 0)" using assms(3) by (cases b1) (auto dest: sp_tab_not_key)
  then have k: "takeWhile key_char (k @ ?r1) = k" "dropWhile key_char (k @ ?r1) = ?r1"
    using assms(2) by (blast intro: takeWhile_all_then dropWhile_all_then)+
  have e: "dropWhile sp_tab ?r1 = CHR ''='' # b2 @ v @ rest"
    by (rule dropWhile_all_then) (use assms(3) in auto)
  have "\<not> sp_tab (at (v @ rest) 0)" using assms(5,6) by (cases v) (auto dest: value_not_sp_tab)
  then have "dropWhile sp_tab (b2 @ v @ rest) = v @ rest"
    using assms(4) by (rule dropWhile_all_then [rotated])
  moreover have "takeWhile value_char (v @ rest) = v"
    using assms(6,7) by (rule takeWhile_all_then)
  ultimately show ?thesis
    using k e assms(1,5) by (simp only: ParseConfLine_def Let_def) simp
qed

theorem ParseConfLine_roundtrip_witness:
  "ParseConfLine (''db_port'' @ '' '' @ CHR ''='' # [TAB] @ ''3306'' @ '' x'') = Some (''db_port'', ''3306'')"
  by (rule ParseConfLine_roundtrip)
     (simp_all add: key_char_def value_char_def sp_tab_def is_lower_def is_upper_def is_digit_def byte_def)

text \<open>The inverse of \<open>CutStringToVector\<close>: the parts joined by the separator.\<close>

fun join_with :: "char \<Rightarrow> string list \<Rightarrow> string" where
  "join_with sep [] = []"
| "join_with sep [p] = p"
| "join_with sep (p # ps) = p @ sep # join_with sep ps"

lemma find_idx_first: "sep \<notin> set p \<Longrightarrow> find_idx (\<lambda>c. c = sep) (p @ sep # s) = Some (length p)"
  by (induction p) auto

lemma find_idx_absent: "sep \<notin> set p \<Longrightarrow> find_idx (\<lambda>c. c = sep) p = None"
  by (auto simp: find_idx_None)

text \<open>\<open>CutStringToVector\<close> recovers every list of parts from its joined text, when
  no part holds the separator and the last is not empty.\<close>

theorem CutStringToVector_join:
  assumes "\<forall>p\<in>set ps. sep \<notin> set p" "ps \<noteq> []" "last ps \<noteq> []"
  shows "CutStringToVector (join_with sep ps) sep = ps"
  using assms
proof (induction sep ps rule: join_with.induct)
  case (2 sep p)
  then show ?case by (subst CutStringToVector.simps) (simp add: find_idx_absent)
next
  case (3 sep p p' ps)
  then have "CutStringToVector (join_with sep (p' # ps)) sep = p' # ps" by simp
  with 3(2) show ?case
    by (subst CutStringToVector.simps) (simp add: find_idx_first)
qed simp

theorem CutStringToVector_join_witness:
  "CutStringToVector (join_with (CHR ''&'') [''a'', [], ''b'']) (CHR ''&'') = [''a'', [], ''b'']"
  by (rule CutStringToVector_join) simp_all

text \<open>One simultaneous walk from both ends with shared bounds trims exactly what
  the left and the right trimming functions remove, also on a string of separators.\<close>

theorem TrimString_both: "TrimString s sep = TrimLeftString (TrimRightString s sep) sep"
proof -
  let ?P = "\<lambda>c. c = sep"
  let ?t = "rev (dropWhile ?P (rev s))" and ?a = "length (takeWhile ?P s)"
  have "TrimString s sep = drop ?a (take (length s - length (takeWhile ?P (rev s))) s)"
    by (simp add: TrimString_def TrimString_loop_eq substr_def drop_take diff_commute)
  also have "\<dots> = drop ?a ?t" by (simp only: take_rev_takeWhile)
  also have "\<dots> = dropWhile ?P ?t"
  proof (cases "dropWhile ?P (rev s)")
    case (Cons x xs)
    then have "x \<noteq> sep" using hd_dropWhile [of ?P "rev s"] by simp
    have "s = ?t @ rev (takeWhile ?P (rev s))"
      by (metis rev_append rev_rev_ident takeWhile_dropWhile_id)
    then have "takeWhile ?P s = takeWhile ?P ?t"
      using takeWhile_append1 [of x ?t ?P] Cons \<open>x \<noteq> sep\<close> by (metis in_set_conv_decomp rev.simps(2))
    then show ?thesis by (simp only: drop_takeWhile_len)
  next
    case Nil
    then show ?thesis by (simp only: rev.simps drop_Nil dropWhile.simps)
  qed
  finally show ?thesis by (simp only: TrimLeftString_spec TrimRightString_spec)
qed

end
