(* ===== verification/Normalization.thy ===== *)
theory Normalization
  imports StrMisc
begin

text \<open>
  Query normalisation (normalization.cpp): a query becomes the pattern that the whitelist
  and the blacklist are matched against.  Each pass edits the string in place through an
  index; the model keeps the index loops.  A read beyond the terminating NUL is undefined
  and yields \<open>None\<close>: it happens where \<open>size() - 1\<close> wraps on an empty string.
\<close>

section \<open>The passes\<close>

text \<open>\<open>query[i]\<close> is a signed \<open>char\<close> on the supported targets, so the comparison
  with \<open>0xA0\<close> is one between a value of at most 127 and 160.\<close>

definition sql_space :: "char \<Rightarrow> bool" where
  "sql_space c \<longleftrightarrow> schar c = 32 \<or> schar c = 160 \<or> (8 < schar c \<and> schar c < 14)"

definition is_eol :: "char \<Rightarrow> bool" where
  "is_eol c \<longleftrightarrow> c = CR \<or> c = LF"

subsection \<open>Quoted text\<close>

function lookForChar_loop :: "string \<Rightarrow> char \<Rightarrow> nat \<Rightarrow> bool \<Rightarrow> nat" where
  "lookForChar_loop query delimeter j quoted =
     (if j < length query then
        if query ! j = delimeter \<and> \<not> quoted then
          if j + 1 \<ge> length query then j
          else if query ! (j + 1) = delimeter \<and> (delimeter = SQ \<or> delimeter = DQ)
            then lookForChar_loop query delimeter (j + 2) quoted
          else j
        else if query ! j = BSL \<and> \<not> quoted
          then lookForChar_loop query delimeter (j + 1) True
        else lookForChar_loop query delimeter (j + 1) False
      else j)"
  by pat_completeness auto
termination by (relation "measure (\<lambda>(query, d, j, q). length query - j)") auto

declare lookForChar_loop.simps [simp del]

definition lookForChar :: "string \<Rightarrow> nat \<Rightarrow> char \<Rightarrow> nat" where
  "lookForChar query start delimeter = lookForChar_loop query delimeter (start + 1) False"

function removeQuotedText_loop :: "nat \<Rightarrow> bool \<Rightarrow> string \<Rightarrow> string" where
  "removeQuotedText_loop i quoted query =
     (if i < length query then
        if query ! i = SQ \<and> \<not> quoted then
          (let j = lookForChar query i SQ
           in removeQuotedText_loop (i + 1) quoted (erase (query[i := CHR ''?'']) (i + 1) (j - i)))
        else if query ! i = DQ \<and> \<not> quoted then
          (let j = lookForChar query i DQ
           in removeQuotedText_loop (i + 1) quoted (erase (query[i := CHR ''?'']) (i + 1) (j - i)))
        else if query ! i = BSL \<and> \<not> quoted then removeQuotedText_loop (i + 1) True query
        else removeQuotedText_loop (i + 1) False query
      else query)"
  by pat_completeness auto
termination
  by (relation "measure (\<lambda>(i, quoted, query). length query - i)")
     (auto intro!: diff_less_mono2 simp: Suc_le_eq less_diff_conv)

declare removeQuotedText_loop.simps [simp del]

definition removeQuotedText :: "string \<Rightarrow> string" where
  "removeQuotedText query = removeQuotedText_loop 0 False query"

subsection \<open>Comments\<close>

function cpp_scan :: "string \<Rightarrow> nat \<Rightarrow> nat" where
  "cpp_scan query j =
     (if j < size_minus query 1 \<and> at query j \<noteq> CHR ''*'' \<and> at query (j + 1) \<noteq> CHR ''/''
      then cpp_scan query (j + 1) else j)"
  by pat_completeness auto
termination by (relation "measure (\<lambda>(query, j). size_minus query 1 - j)") auto

declare cpp_scan.simps [simp del]

function removeCppComment_loop :: "nat \<Rightarrow> string \<Rightarrow> string option" where
  "removeCppComment_loop i query =
     (if i < size_minus query 1 then
        (case sc_and (rd_is query i (CHR ''/'')) (rd_is query (i + 1) (CHR ''*'')) of
           None \<Rightarrow> None
         | Some False \<Rightarrow> removeCppComment_loop (i + 1) query
         | Some True \<Rightarrow>
             (let j = cpp_scan query (i + 2) in
              case sc_and (rd_is query j (CHR ''*'')) (rd_is query (j + 1) (CHR ''/'')) of
                None \<Rightarrow> None
              | Some True \<Rightarrow>
                  removeCppComment_loop (i + 1)
                    (if j \<noteq> i + 2 then erase (query[i + 2 := SPC]) (i + 3) (j - i - 3) else query)
              | Some False \<Rightarrow> removeCppComment_loop (i + 1) (erase query (i + 2) (j - i + 2))))
      else Some query)"
  by pat_completeness auto
termination
proof (relation "measure (\<lambda>(i, query). length query + 1 - i)", goal_cases)
  case 1
  show ?case by simp
qed (auto dest!: sc_and_SomeD rd_is_SomeD intro!: diff_le_mono le_trans [OF length_erase_le]
       simp: less_Suc_eq_le Suc_diff_le)

declare removeCppComment_loop.simps [simp del]

definition removeCppComment :: "string \<Rightarrow> string option" where
  "removeCppComment query = removeCppComment_loop 0 query"

text \<open>The two scans shared by the line comments: to the end of the line, then over the
  line terminators.\<close>

definition eol_scan :: "string \<Rightarrow> nat \<Rightarrow> nat" where
  "eol_scan query j =
     j + length (takeWhile (\<lambda>c. \<not> is_eol c) (drop j query))
       + length (takeWhile is_eol (dropWhile (\<lambda>c. \<not> is_eol c) (drop j query)))"

function removeHashComment_loop :: "nat \<Rightarrow> string \<Rightarrow> string" where
  "removeHashComment_loop i query =
     (if i < length query then
        if query ! i = CHR ''#'' then
          (let j = eol_scan query (i + 1)
           in removeHashComment_loop (i + 1) (erase query (i + 1) (j - i - 1)))
        else removeHashComment_loop (i + 1) query
      else query)"
  by pat_completeness auto
termination
  by (relation "measure (\<lambda>(i, query). length query - i)")
     (auto simp: less_diff_conv intro!: diff_less_mono2)

declare removeHashComment_loop.simps [simp del]

definition removeHashComment :: "string \<Rightarrow> string" where
  "removeHashComment query = removeHashComment_loop 0 query"

text \<open>Here \<open>j\<close> starts at \<open>i+2\<close>, so the test \<open>j != i+1\<close> of the code always
  succeeds.\<close>

function removeDashComment_loop :: "nat \<Rightarrow> string \<Rightarrow> string option" where
  "removeDashComment_loop i query =
     (if i < size_minus query 1 then
        (case sc_and (rd_is query i (CHR ''-'')) (rd_is query (i + 1) (CHR ''-'')) of
           None \<Rightarrow> None
         | Some False \<Rightarrow> removeDashComment_loop (i + 1) query
         | Some True \<Rightarrow>
             (let j = eol_scan query (i + 2)
              in removeDashComment_loop (i + 1)
                   (if j \<noteq> i + 1 then erase query (i + 2) (j - i - 2) else query)))
      else Some query)"
  by pat_completeness auto
termination
proof (relation "measure (\<lambda>(i, query). length query + 1 - i)", goal_cases)
  case 1
  show ?case by simp
qed (auto dest!: sc_and_SomeD rd_is_SomeD intro!: diff_le_mono le_trans [OF length_erase_le]
       simp: less_Suc_eq_le Suc_diff_le)

declare removeDashComment_loop.simps [simp del]

definition removeDashComment :: "string \<Rightarrow> string option" where
  "removeDashComment query = removeDashComment_loop 0 query"

definition removeComments :: "string \<Rightarrow> string option" where
  "removeComments query = do {
     q1 \<leftarrow> removeCppComment query;
     let q2 = removeHashComment q1;
     removeDashComment q2 }"

subsection \<open>Numbers\<close>

definition num_prec :: "char \<Rightarrow> bool" where
  "num_prec c \<longleftrightarrow> c \<in> set '',!(+-*/=~<>^%|&'' \<or> sql_space c"

definition hex_digit :: "char \<Rightarrow> bool" where
  "hex_digit c \<longleftrightarrow> is_digit c \<or> (97 \<le> byte c \<and> byte c \<le> 102)"

definition scan_while :: "(char \<Rightarrow> bool) \<Rightarrow> string \<Rightarrow> nat \<Rightarrow> nat" where
  "scan_while P query j = j + length (takeWhile P (drop j query))"

function removeNumbers_loop :: "nat \<Rightarrow> string \<Rightarrow> string" where
  "removeNumbers_loop i query =
     (if i < length query then
        if num_prec (query ! (i - 1)) \<and> is_digit (query ! i) then
          if query ! i = CHR ''0'' \<and> i + 1 < length query \<and>
             (query ! (i + 1) = CHR ''x'' \<or> query ! (i + 1) = CHR ''X'')
          then (let j = scan_while hex_digit query (i + 2)
                in removeNumbers_loop (i + 1) (erase (query[i := CHR ''?'']) (i + 1) (j - i - 1)))
          else (let j = scan_while is_digit query (i + 1);
                    j = (if j < length query \<and> query ! j = CHR ''.''
                         then scan_while is_digit query (j + 1) else j)
                in removeNumbers_loop (i + 1)
                     (if j \<noteq> i + 1 then erase (query[i := CHR ''?'']) (i + 1) (j - i - 1)
                      else query[i := CHR ''?'']))
        else removeNumbers_loop (i + 1) query
      else query)"
  by pat_completeness auto
termination
  by (relation "measure (\<lambda>(i, query). length query - i)")
     (auto simp: less_diff_conv intro!: diff_less_mono2)

declare removeNumbers_loop.simps [simp del]

definition removeNumbers :: "string \<Rightarrow> string" where
  "removeNumbers query = removeNumbers_loop 1 query"

subsection \<open>Spaces\<close>

function collapse_loop :: "nat \<Rightarrow> string \<Rightarrow> string" where
  "collapse_loop i query =
     (if i < length query then
        if sql_space (query ! i) then
          (let j = scan_while sql_space query (i + 1)
           in collapse_loop (i + 1)
                (if j \<noteq> i + 1 then erase (query[i := SPC]) (i + 1) (j - i - 1) else query[i := SPC]))
        else collapse_loop (i + 1) query
      else query)"
  by pat_completeness auto
termination
  by (relation "measure (\<lambda>(i, query). length query - i)")
     (auto simp: less_diff_conv intro!: diff_less_mono2)

declare collapse_loop.simps [simp del]

definition drop_before :: "string \<Rightarrow> nat \<Rightarrow> string" where
  "drop_before query i =
     (if at query i = SPC \<and> (at query (i + 1) = CHR '')'' \<or> at query (i + 1) = CHR '','')
      then erase query i 1 else query)"

definition drop_after :: "string \<Rightarrow> nat \<Rightarrow> string" where
  "drop_after query i =
     (if i + 1 \<le> length query \<and> at query (i + 1) = SPC \<and>
         (at query i = CHR ''('' \<or> at query i = CHR '','')
      then erase query (i + 1) 1 else query)"

function tidy_loop :: "nat \<Rightarrow> string \<Rightarrow> string option" where
  "tidy_loop i query =
     (if i \<le> size_minus query 1 then
        if length query < i then None
        else tidy_loop (i + 1) (drop_after (drop_before query i) i)
      else Some query)"
  by pat_completeness auto
termination
proof (relation "measure (\<lambda>(i, query). length query + 1 - i)", goal_cases)
  case 1
  show ?case by simp
next
  case (2 i query)
  have "length (drop_after (drop_before query i) i) \<le> length query"
    unfolding drop_after_def drop_before_def
    by (auto intro: le_trans [OF length_erase_le] simp del: length_erase)
  with 2 show ?case by simp
qed

declare tidy_loop.simps [simp del]

definition removeSpaces :: "string \<Rightarrow> string option" where
  "removeSpaces query = do {
     q \<leftarrow> tidy_loop 0 (collapse_loop 0 query);
     if q = [] then None
     else let j = length q - 1
          in Some (if q ! j = SPC then erase q j 1 else q) }"

subsection \<open>Negative numbers\<close>

definition is_delim :: "char \<Rightarrow> bool" where
  "is_delim c \<longleftrightarrow> c \<in> set '' ,(''"

definition neg_prefix :: "string \<Rightarrow> bool" where
  "neg_prefix last_token \<longleftrightarrow>
     last_token \<in> set [''select '', ''where '', ''and '', ''or '', ''not ''] \<or>
     at last_token (length last_token - 1) = CHR ''('' \<or>
     at last_token (length last_token - 1) = CHR '',''"

definition neg_step1 :: "string \<Rightarrow> string \<Rightarrow> nat \<Rightarrow> string option" where
  "neg_step1 query last_token nxt =
     map_option (\<lambda>b. if b \<and> neg_prefix last_token then erase query (nxt + 1) 1 else query)
       (sc_and (rd_is query (nxt + 1) (CHR ''-'')) (rd_is query (nxt + 2) (CHR ''?'')))"

definition neg_step2 :: "string \<Rightarrow> string \<Rightarrow> nat \<Rightarrow> string option" where
  "neg_step2 query last_token nxt =
     map_option (\<lambda>b. if b \<and> neg_prefix last_token then erase query (nxt + 1) 2 else query)
       (sc_and (rd_is query (nxt + 1) (CHR ''-''))
          (sc_and (map_option sql_space (rd query (nxt + 2))) (rd_is query (nxt + 3) (CHR ''?''))))"

lemma length_neg_step1: "neg_step1 q t n = Some q' \<Longrightarrow> length q' \<le> length q"
  by (auto simp: neg_step1_def split: if_splits)

lemma length_neg_step2: "neg_step2 q t n = Some q' \<Longrightarrow> length q' \<le> length q"
  by (auto simp: neg_step2_def split: if_splits)

function fixNegativeNumbers_loop :: "nat \<Rightarrow> string \<Rightarrow> string option" where
  "fixNegativeNumbers_loop prev query =
     (case find_from is_delim query prev of
        None \<Rightarrow> Some query
      | Some nxt \<Rightarrow>
          if nxt + 1 > length query then Some query
          else if nxt > size_minus query 2 then Some query
          else let last_token = substr query prev (nxt + 1 - prev) in
            (case neg_step1 query last_token nxt of
               None \<Rightarrow> None
             | Some q1 \<Rightarrow>
                 if nxt > size_minus q1 3 then Some q1
                 else (case neg_step2 q1 last_token nxt of
                         None \<Rightarrow> None
                       | Some q2 \<Rightarrow> fixNegativeNumbers_loop (nxt + 1) q2)))"
  by pat_completeness auto
termination
proof (relation "measure (\<lambda>(prev, query). length query - prev)", goal_cases)
  case 1
  show ?case by simp
next
  case (2 prev query nxt last_token q1 q2)
  then have "length q2 \<le> length query"
    by (meson le_trans length_neg_step1 length_neg_step2)
  with 2(1) show ?case by (auto dest!: find_from_bounds)
qed

declare fixNegativeNumbers_loop.simps [simp del]

definition fixNegativeNumbers :: "string \<Rightarrow> string option" where
  "fixNegativeNumbers query = fixNegativeNumbers_loop 0 query"

subsection \<open>The whole\<close>

definition normalizeQuery :: "string \<Rightarrow> string option" where
  "normalizeQuery query = do {
     q1 \<leftarrow> removeComments (removeQuotedText query);
     q2 \<leftarrow> removeSpaces (removeNumbers q1);
     fixNegativeNumbers q2 }"

end
