(* ===== verification/NormSpec.thy ===== *)
theory NormSpec
  imports Normalization
begin

text \<open>
  The abstract specification of the normalisation passes: each pass as a structural
  recursion on the characters still to be read, and the refinement lemmas that the index
  loops of \<open>Normalization\<close> compute it.  All properties of patterns are proved on the
  specification.
\<close>

section \<open>The passes as list functions\<close>

text \<open>What follows a literal: the rest of the text after its closing delimiter.\<close>

fun after_lit :: "char \<Rightarrow> bool \<Rightarrow> string \<Rightarrow> string" where
  "after_lit d q [] = []"
| "after_lit d q [c] = []"
| "after_lit d q (c # c' # s) =
     (if c = d \<and> \<not> q then
        if c' = d \<and> (d = SQ \<or> d = DQ) then after_lit d q s else c' # s
      else after_lit d (c = BSL \<and> \<not> q) (c' # s))"

lemma length_after_lit [len_intros]: "length (after_lit d q s) \<le> length s"
  by (induction d q s rule: after_lit.induct) auto

lemma length_after_lit_Suc: "length (after_lit d q s) < Suc (length s)"
  by (simp add: length_after_lit less_Suc_eq_le)

function strip_quoted :: "bool \<Rightarrow> string \<Rightarrow> string" where
  "strip_quoted q [] = []"
| "strip_quoted q (c # s) =
     (if (c = SQ \<or> c = DQ) \<and> \<not> q then CHR ''?'' # strip_quoted q (after_lit c False s)
      else c # strip_quoted (c = BSL \<and> \<not> q) s)"
  by pat_completeness auto
termination by (relation "measure (\<lambda>(q, s). length s)") (auto simp: length_after_lit_Suc)

fun cpp_len :: "string \<Rightarrow> nat" where
  "cpp_len (c # d # s) = (if c \<noteq> CHR ''*'' \<and> d \<noteq> CHR ''/'' then Suc (cpp_len (d # s)) else 0)"
| "cpp_len _ = 0"

definition cpp_rest :: "string \<Rightarrow> string" where
  "cpp_rest s = (let k = cpp_len s in
     if at s k = CHR ''*'' \<and> at s (k + 1) = CHR ''/''
     then (if k \<noteq> 0 then SPC # drop k s else s)
     else drop (k + 4) s)"

lemma cpp_len_le: "cpp_len s \<le> length s"
  by (induction s rule: cpp_len.induct) auto

lemma length_cpp_rest [len_intros]: "length (cpp_rest s) \<le> length s"
proof (cases "cpp_len s")
  case (Suc k)
  with cpp_len_le [of s] obtain c t where "s = c # t" by (cases s) auto
  with Suc show ?thesis by (auto simp add: cpp_rest_def Let_def)
qed (simp add: cpp_rest_def Let_def)

function strip_cpp :: "string \<Rightarrow> string" where
  "strip_cpp [] = []"
| "strip_cpp [c] = [c]"
| "strip_cpp (a # b # s) =
     a # strip_cpp (b # (if a = CHR ''/'' \<and> b = CHR ''*'' then cpp_rest s else s))"
  by pat_completeness auto
termination
  by (relation "measure length") (auto simp: length_cpp_rest less_Suc_eq_le)

definition eol_rest :: "string \<Rightarrow> string" where
  "eol_rest s = dropWhile is_eol (dropWhile (\<lambda>c. \<not> is_eol c) s)"

lemma length_eol_rest [len_intros]: "length (eol_rest s) \<le> length s"
  unfolding eol_rest_def by (meson le_trans length_dropWhile_le)

function strip_hash :: "string \<Rightarrow> string" where
  "strip_hash [] = []"
| "strip_hash (c # s) = c # strip_hash (if c = CHR ''#'' then eol_rest s else s)"
  by pat_completeness auto
termination by (relation "measure length") (auto simp: length_eol_rest less_Suc_eq_le)

function strip_dash :: "string \<Rightarrow> string" where
  "strip_dash [] = []"
| "strip_dash [c] = [c]"
| "strip_dash (a # b # s) =
     a # strip_dash (b # (if a = CHR ''-'' \<and> b = CHR ''-'' then eol_rest s else s))"
  by pat_completeness auto
termination by (relation "measure length") (auto simp: length_eol_rest less_Suc_eq_le)

definition num_rest :: "char \<Rightarrow> string \<Rightarrow> string" where
  "num_rest c s =
     (if c = CHR ''0'' \<and> (at s 0 = CHR ''x'' \<or> at s 0 = CHR ''X'')
      then dropWhile hex_digit (drop 1 s)
      else let t = dropWhile is_digit s
           in if at t 0 = CHR ''.'' then dropWhile is_digit (drop 1 t) else t)"

lemma length_num_rest [len_intros]: "length (num_rest c s) \<le> length s"
proof -
  have 1: "length (dropWhile P (drop 1 s)) \<le> length s" for P and s :: string
    by (rule le_trans [OF length_dropWhile_le]) simp
  have 2: "length (dropWhile P (drop 1 (dropWhile Q s))) \<le> length s" for P Q and s :: string
    by (rule le_trans [OF 1 length_dropWhile_le])
  show ?thesis
    unfolding num_rest_def Let_def using 1 2 length_dropWhile_le [of is_digit s] by auto
qed

function strip_num :: "char \<Rightarrow> string \<Rightarrow> string" where
  "strip_num p [] = []"
| "strip_num p (c # s) =
     (if num_prec p \<and> is_digit c then CHR ''?'' # strip_num (CHR ''?'') (num_rest c s)
      else c # strip_num c s)"
  by pat_completeness auto
termination
  by (relation "measure (\<lambda>(p, s). length s)") (auto simp: length_num_rest less_Suc_eq_le)

definition strip_numbers :: "string \<Rightarrow> string" where
  "strip_numbers s = (case s of [] \<Rightarrow> [] | c # t \<Rightarrow> c # strip_num c t)"

function collapse :: "string \<Rightarrow> string" where
  "collapse [] = []"
| "collapse (c # s) =
     (if sql_space c then SPC # collapse (dropWhile sql_space s) else c # collapse s)"
  by pat_completeness auto
termination
  by (relation "measure length") (auto simp: length_dropWhile_le less_Suc_eq_le)

definition before_close :: "string \<Rightarrow> string" where
  "before_close s = (if at s 0 = SPC \<and> (at s 1 = CHR '')'' \<or> at s 1 = CHR '','') then drop 1 s else s)"

definition after_open :: "char \<Rightarrow> string \<Rightarrow> string" where
  "after_open c s = (if at s 0 = SPC \<and> (c = CHR ''('' \<or> c = CHR '','') then drop 1 s else s)"

lemma length_before_close [len_intros]: "length (before_close s) \<le> length s"
  by (simp add: before_close_def)

lemma length_after_open [len_intros]: "length (after_open c s) \<le> length s"
  by (simp add: after_open_def)

lemma before_close_Cons: "\<exists>d t. before_close (c # s) = d # t"
proof (cases "before_close (c # s)")
  case Nil
  then show ?thesis by (auto simp: before_close_def split: if_splits)
qed auto

function tidy :: "string \<Rightarrow> string" where
  "tidy s = (case before_close s of [] \<Rightarrow> [] | c # t \<Rightarrow> c # tidy (after_open c t))"
  by pat_completeness auto
termination
proof (relation "measure length", goal_cases)
  case 1
  show ?case by simp
next
  case (2 s c t)
  have "length (after_open c t) \<le> length t" by (rule length_after_open)
  also have "\<dots> < length (before_close s)" using 2 by simp
  also have "\<dots> \<le> length s" by (rule length_before_close)
  finally show ?case by simp
qed

declare tidy.simps [simp del]

definition trim_last :: "string \<Rightarrow> string" where
  "trim_last s = (if s \<noteq> [] \<and> last s = SPC then butlast s else s)"

definition neg_rest1 :: "string \<Rightarrow> string \<Rightarrow> string" where
  "neg_rest1 tok s = (if at s 0 = CHR ''-'' \<and> at s 1 = CHR ''?'' \<and> neg_prefix tok then drop 1 s else s)"

definition neg_rest2 :: "string \<Rightarrow> string \<Rightarrow> string" where
  "neg_rest2 tok s =
     (if at s 0 = CHR ''-'' \<and> sql_space (at s 1) \<and> at s 2 = CHR ''?'' \<and> neg_prefix tok
      then drop 2 s else s)"

lemma length_neg_rest: "length (neg_rest2 tok (neg_rest1 tok s)) \<le> length s"
  by (simp add: neg_rest1_def neg_rest2_def)

function fix_neg :: "string \<Rightarrow> string" where
  "fix_neg s =
     (case dropWhile (\<lambda>c. \<not> is_delim c) s of
        [] \<Rightarrow> s
      | d # r \<Rightarrow>
          (let tok = takeWhile (\<lambda>c. \<not> is_delim c) s @ [d]; r1 = neg_rest1 tok r
           in if r = [] then s
              else if length r1 < 2 then tok @ r1
              else tok @ fix_neg (neg_rest2 tok r1)))"
  by pat_completeness auto
termination
proof (relation "measure length", goal_cases)
  case 1
  show ?case by simp
next
  case (2 s d r tok r1)
  have "length (neg_rest2 tok r1) \<le> length r" using 2 by (simp add: length_neg_rest)
  also have "\<dots> < length (dropWhile (\<lambda>c. \<not> is_delim c) s)" using 2 by simp
  also have "\<dots> \<le> length s" by (rule length_dropWhile_le)
  finally show ?case by simp
qed

declare fix_neg.simps [simp del]

definition normal_form :: "string \<Rightarrow> string" where
  "normal_form q = fix_neg (trim_last (tidy (collapse (strip_numbers
     (strip_dash (strip_hash (strip_cpp (strip_quoted False q))))))))"

section \<open>Refinement of the index loops\<close>

lemma nth_append_len [idx_simps]: "(pre @ s) ! length pre = s ! 0"
  by (simp add: nth_append)

text \<open>One iteration of each loop, at the split of the string.\<close>

lemma lookForChar_loop_step:
  "lookForChar_loop (pre @ c # s) d (length pre) q =
     (if c = d \<and> \<not> q then
        (case s of [] \<Rightarrow> length pre
         | c' # _ \<Rightarrow> if c' = d \<and> (d = SQ \<or> d = DQ)
                     then lookForChar_loop (pre @ c # s) d (length pre + 2) q else length pre)
      else lookForChar_loop (pre @ c # s) d (length pre + 1) (c = BSL \<and> \<not> q))"
  by (subst lookForChar_loop.simps) (auto simp: nth_append split: list.split)

lemma removeQuotedText_loop_step:
  "removeQuotedText_loop (length pre) q (pre @ c # s) =
     (if (c = SQ \<or> c = DQ) \<and> \<not> q
      then removeQuotedText_loop (length pre + 1) q (pre @ CHR ''?'' #
             drop (lookForChar (pre @ c # s) (length pre) c - length pre) s)
      else removeQuotedText_loop (length pre + 1) (c = BSL \<and> \<not> q) (pre @ c # s))"
  by (subst removeQuotedText_loop.simps) (auto simp: nth_append idx_simps Let_def)

lemma lookForChar_loop_after:
  "\<exists>k. lookForChar_loop (pre @ s) d (length pre) q = length pre + k \<and>
       drop (Suc k) s = after_lit d q s"
proof (induction d q s arbitrary: pre rule: after_lit.induct)
  case (1 d q)
  then show ?case by (simp add: lookForChar_loop.simps)
next
  case (2 d q c)
  have "lookForChar_loop (pre @ [c]) d (Suc (length pre)) b = Suc (length pre)" for b
    by (simp add: lookForChar_loop.simps)
  then show ?case by (simp add: lookForChar_loop_step)
next
  case (3 d q c c' s)
  consider (esc) "c = d \<and> \<not> q" "c' = d \<and> (d = SQ \<or> d = DQ)"
    | (close) "c = d \<and> \<not> q" "\<not> (c' = d \<and> (d = SQ \<or> d = DQ))"
    | (step) "\<not> (c = d \<and> \<not> q)" by blast
  then show ?case
  proof cases
    case esc
    with "3.IH"(1) [OF esc, of "pre @ [c, c']"] show ?thesis
      by (auto simp: lookForChar_loop_step)
  next
    case close
    then show ?thesis by (auto simp: lookForChar_loop_step)
  next
    case step
    with "3.IH"(2) [OF step, of "pre @ [c]"] show ?thesis
      by (auto simp: lookForChar_loop_step simp del: after_lit.simps) (auto)
  qed
qed

lemma removeQuotedText_loop_spec:
  "removeQuotedText_loop (length pre) q (pre @ s) = pre @ strip_quoted q s"
proof (induction q s arbitrary: pre rule: strip_quoted.induct)
  case (1 q)
  then show ?case by (simp add: removeQuotedText_loop.simps)
next
  case (2 q c s)
  show ?case
  proof (cases "(c = SQ \<or> c = DQ) \<and> \<not> q")
    case True
    obtain k where "lookForChar (pre @ c # s) (length pre) c = Suc (length pre) + k"
      and k: "drop (Suc k) s = after_lit c False s"
      using lookForChar_loop_after [of "pre @ [c]" s c False] by (auto simp: lookForChar_def)
    then have "lookForChar (pre @ c # s) (length pre) c - length pre = Suc k" by simp
    with k True "2.IH"(1) [OF True, of "pre @ [CHR ''?'']"] show ?thesis
      by (simp add: removeQuotedText_loop_step)
  next
    case False
    from "2.IH"(2) [OF False, of "pre @ [c]"] show ?thesis
      by (simp only: removeQuotedText_loop_step strip_quoted.simps if_not_P [OF False]) simp
  qed
qed

lemma removeQuotedText_spec [code]: "removeQuotedText s = strip_quoted False s"
  using removeQuotedText_loop_spec [of "[]" False s] by (simp add: removeQuotedText_def)

lemma cpp_scan_spec:
  "pre \<noteq> [] \<Longrightarrow> cpp_scan (pre @ s) (length pre) = length pre + cpp_len s"
proof (induction s arbitrary: pre rule: cpp_len.induct)
  case (1 c d s)
  have "cpp_scan (pre @ c # d # s) (length pre) =
     (if c \<noteq> CHR ''*'' \<and> d \<noteq> CHR ''/'' then cpp_scan ((pre @ [c]) @ d # s) (length (pre @ [c]))
      else length pre)"
    by (subst cpp_scan.simps) (simp add: idx_simps)
  with "1.IH" [of "pre @ [c]"] show ?case by (cases "c \<noteq> CHR ''*'' \<and> d \<noteq> CHR ''/''") auto
qed (subst cpp_scan.simps, simp)+

lemma cpp_edit:
  assumes "k \<noteq> 0" "k \<le> length s"
  shows "erase (s[0 := SPC]) 1 (k - 1) = SPC # drop k s"
  using assms by (cases s; cases k) auto

lemma removeCppComment_loop_step:
  "removeCppComment_loop (length pre) (pre @ a # b # s) =
     removeCppComment_loop (length pre + 1)
        (pre @ a # b # (if a = CHR ''/'' \<and> b = CHR ''*'' then cpp_rest s else s))"
proof -
  let ?q = "pre @ a # b # s" and ?k = "cpp_len s"
  have scan: "cpp_scan ?q (length pre + 2) = length pre + 2 + ?k"
    using cpp_scan_spec [of "pre @ [a, b]" s] by simp
  have le: "?k \<le> length s" by (rule cpp_len_le)
  have at: "at ?q (length pre + 2 + k) = at s k" for k
    using at_append [of "pre @ [a, b]" s k] by simp
  have star_less: "at s ?k = CHR ''*'' \<Longrightarrow> ?k < length s"
    by (rule at_nonNUL_less) simp
  have edit1: "(if ?k \<noteq> 0 then erase (?q[length pre + 2 := SPC]) (length pre + 3) (?k - 1) else ?q)
      = pre @ a # b # (if ?k \<noteq> 0 then SPC # drop ?k s else s)"
    using cpp_edit [OF _ le] erase_append [of "pre @ [a, b]" "s[0 := SPC]" 1 "?k - 1"]
    by (simp add: list_update_append numeral_3_eq_3)
  have edit2: "erase ?q (length pre + 2) (?k + 4) = pre @ a # b # drop (?k + 4) s"
    using erase_append_0 [of "pre @ [a, b]" s "?k + 4"] by simp
  have cond: "sc_and (rd_is ?q (length pre) (CHR ''/'')) (rd_is ?q (length pre + 1) (CHR ''*''))
     = Some (a = CHR ''/'' \<and> b = CHR ''*'')"
    by (cases "a = CHR ''/''") (simp_all add: idx_simps)
  have cond2: "sc_and (rd_is ?q (length pre + 2 + ?k) (CHR ''*'')) (rd_is ?q (length pre + 2 + ?k + 1) (CHR ''/''))
     = Some (at s ?k = CHR ''*'' \<and> at s (?k + 1) = CHR ''/'')"
    using le star_less at [of ?k] at [of "?k + 1"]
    by (cases "at s ?k = CHR ''*''") simp_all
  have arith: "length pre + 2 + ?k - length pre - 3 = ?k - 1"
    "length pre + 2 + ?k - length pre + 2 = ?k + 4"
    "(length pre + 2 + ?k \<noteq> length pre + 2) = (?k \<noteq> 0)"
    "(length pre < size_minus ?q 1) = True" by simp_all
  show ?thesis
  proof (cases "a = CHR ''/'' \<and> b = CHR ''*''")
    case False
    then show ?thesis
      by (subst removeCppComment_loop.simps)
         (simp only: arith if_True if_False cond option.case bool.case)
  next
    case True
    then have cond': "sc_and (rd_is ?q (length pre) (CHR ''/'')) (rd_is ?q (length pre + 1) (CHR ''*''))
        = Some True"
      using cond by (simp only: simp_thms)
    show ?thesis
      by (subst removeCppComment_loop.simps, cases "at s ?k = CHR ''*'' \<and> at s (?k + 1) = CHR ''/''")
         (simp_all only: arith if_True if_False cond' scan cond2 option.case bool.case Let_def
           edit1 edit2 cpp_rest_def simp_thms if_P [OF True])
  qed
qed

lemma removeCppComment_loop_spec:
  "pre @ s \<noteq> [] \<Longrightarrow> removeCppComment_loop (length pre) (pre @ s) = Some (pre @ strip_cpp s)"
proof (induction s arbitrary: pre rule: strip_cpp.induct)
  case 1
  then show ?case by (subst removeCppComment_loop.simps) simp
next
  case (2 c)
  show ?case by (subst removeCppComment_loop.simps) simp
next
  case (3 a b s)
  from 3(1) [of "pre @ [a]"] show ?case
    by (simp add: removeCppComment_loop_step split: if_splits)
qed

lemma removeCppComment_spec:
  "s \<noteq> [] \<Longrightarrow> removeCppComment s = Some (strip_cpp s)"
  using removeCppComment_loop_spec [of "[]" s] by (simp add: removeCppComment_def)

lemma eol_scan_append: "drop (eol_scan (pre @ s) (length pre) - length pre) s = eol_rest s"
proof -
  have "drop (eol_scan (pre @ s) (length pre) - length pre) s
      = drop (length (takeWhile is_eol (dropWhile (\<lambda>c. \<not> is_eol c) s)))
          (drop (length (takeWhile (\<lambda>c. \<not> is_eol c) s)) s)"
    by (simp add: eol_scan_def add.commute)
  then show ?thesis by (simp add: eol_rest_def drop_takeWhile_len)
qed

lemma removeHashComment_loop_spec:
  "removeHashComment_loop (length pre) (pre @ s) = pre @ strip_hash s"
proof (induction s arbitrary: pre rule: strip_hash.induct)
  case 1
  then show ?case by (simp add: removeHashComment_loop.simps)
next
  case (2 c s)
  have "removeHashComment_loop (length pre) (pre @ c # s)
      = removeHashComment_loop (length (pre @ [c])) ((pre @ [c]) @ (if c = CHR ''#'' then eol_rest s else s))"
    using eol_scan_append [of "pre @ [c]" s]
    by (cases "c = CHR ''#''"; subst removeHashComment_loop.simps) (simp_all add: Let_def idx_simps)
  with 2 [of "pre @ [c]"] show ?case by simp
qed

lemma removeHashComment_spec [code]: "removeHashComment s = strip_hash s"
  using removeHashComment_loop_spec [of "[]" s] by (simp add: removeHashComment_def)

lemma removeDashComment_loop_step:
  "removeDashComment_loop (length pre) (pre @ a # b # s) =
     removeDashComment_loop (length pre + 1)
        (pre @ a # b # (if a = CHR ''-'' \<and> b = CHR ''-'' then eol_rest s else s))"
proof -
  let ?q = "pre @ a # b # s"
  have cond: "sc_and (rd_is ?q (length pre) (CHR ''-'')) (rd_is ?q (length pre + 1) (CHR ''-''))
     = Some (a = CHR ''-'' \<and> b = CHR ''-'')"
    by (cases "a = CHR ''-''") (simp_all add: idx_simps)
  have edit: "erase ?q (length pre + 2) (eol_scan ?q (length pre + 2) - length pre - 2)
      = pre @ a # b # eol_rest s"
    using eol_scan_append [of "pre @ [a, b]" s] erase_append_0 [of "pre @ [a, b]" s]
    by simp
  have neq: "(eol_scan ?q (length pre + 2) \<noteq> length pre + 1) = True"
    "(length pre < size_minus ?q 1) = True"
    by (simp_all add: eol_scan_def)
  show ?thesis
  proof (cases "a = CHR ''-'' \<and> b = CHR ''-''")
    case False
    with cond show ?thesis
      by (subst removeDashComment_loop.simps)
         (simp only: neq if_True if_False option.case bool.case)
  next
    case True
    with cond have cond': "sc_and (rd_is ?q (length pre) (CHR ''-''))
        (rd_is ?q (length pre + 1) (CHR ''-'')) = Some True"
      by (simp only: simp_thms)
    show ?thesis
      by (subst removeDashComment_loop.simps)
         (simp only: neq if_True cond' option.case bool.case Let_def edit if_P [OF True])
  qed
qed

lemma removeDashComment_loop_spec:
  "pre @ s \<noteq> [] \<Longrightarrow> removeDashComment_loop (length pre) (pre @ s) = Some (pre @ strip_dash s)"
proof (induction s arbitrary: pre rule: strip_dash.induct)
  case 1
  then show ?case by (subst removeDashComment_loop.simps) simp
next
  case (2 c)
  show ?case by (subst removeDashComment_loop.simps) simp
next
  case (3 a b s)
  from 3(1) [of "pre @ [a]"] show ?case
    by (simp add: removeDashComment_loop_step split: if_splits)
qed

lemma removeDashComment_spec:
  "s \<noteq> [] \<Longrightarrow> removeDashComment s = Some (strip_dash s)"
  using removeDashComment_loop_spec [of "[]" s] by (simp add: removeDashComment_def)

lemma scan_while_append:
  "scan_while P (pre @ s) (length pre + k) = length pre + scan_while P s k"
  by (simp add: scan_while_def)

lemma drop_scan_while: "drop (scan_while P s k) s = dropWhile P (drop k s)"
proof -
  have "drop (scan_while P s k) s = drop (length (takeWhile P (drop k s))) (drop k s)"
    by (simp add: scan_while_def add.commute)
  then show ?thesis by (simp only: drop_takeWhile_len)
qed

lemma scan_while_ge: "k \<le> scan_while P s k"
  by (simp add: scan_while_def)

lemma removeNumbers_loop_step:
  assumes "pre \<noteq> []"
  shows "removeNumbers_loop (length pre) (pre @ c # s) =
     (if num_prec (last pre) \<and> is_digit c
      then removeNumbers_loop (length pre + 1) (pre @ CHR ''?'' # num_rest c s)
      else removeNumbers_loop (length pre + 1) (pre @ c # s))"
proof -
  let ?q = "pre @ c # s"
  have prev: "?q ! (length pre - 1) = last pre"
    using assms by (simp add: nth_append last_conv_nth)
  have edit: "erase (?q[length pre := CHR ''?'']) (length pre + 1) (j - length pre - 1)
      = pre @ CHR ''?'' # drop (j - length pre - 1) s" for j
    using erase_append_0 [of "pre @ [CHR ''?'']" s "j - length pre - 1"] by simp
  have hex: "drop (scan_while hex_digit ?q (length pre + 2) - length pre - 1) s
      = dropWhile hex_digit (drop 1 s)"
    using scan_while_append [of hex_digit "pre @ [c]" s 1] drop_scan_while [of hex_digit s 1] by simp
  have hexg: "(?q ! length pre = CHR ''0'' \<and> length pre + 1 < length ?q \<and>
       (?q ! (length pre + 1) = CHR ''x'' \<or> ?q ! (length pre + 1) = CHR ''X''))
     = (c = CHR ''0'' \<and> (at s 0 = CHR ''x'' \<or> at s 0 = CHR ''X''))"
    by (cases s) (auto simp: nth_append)
  define k where "k = scan_while is_digit s 0"
  define m where "m = (if k < length s \<and> s ! k = CHR ''.'' then scan_while is_digit s (k + 1) else k)"
  have j1: "scan_while is_digit ?q (length pre + 1) = length pre + 1 + k"
    using scan_while_append [of is_digit "pre @ [c]" s 0] by (simp add: k_def)
  have j2: "(if length pre + 1 + k < length ?q \<and> ?q ! (length pre + 1 + k) = CHR ''.''
       then scan_while is_digit ?q (length pre + 1 + k + 1) else length pre + 1 + k) = length pre + 1 + m"
    using scan_while_append [of is_digit "pre @ [c]" s "k + 1"]
    by (simp add: m_def nth_append)
  have dk: "drop k s = dropWhile is_digit s"
    using drop_scan_while [of is_digit s 0] by (simp add: k_def)
  have "drop m s = (if at (drop k s) 0 = CHR ''.'' then dropWhile is_digit (drop 1 (drop k s)) else drop k s)"
    by (auto simp: m_def drop_scan_while at_def)
  then have num: "drop m s = (let t = dropWhile is_digit s in
      if at t 0 = CHR ''.'' then dropWhile is_digit (drop 1 t) else t)"
    by (simp only: dk Let_def)
  have edit': "(if length pre + 1 + m \<noteq> length pre + 1
      then erase (?q[length pre := CHR ''?'']) (length pre + 1) (length pre + 1 + m - length pre - 1)
      else ?q[length pre := CHR ''?'']) = pre @ CHR ''?'' # drop m s"
    using edit [of "length pre + 1 + m"] by simp
  have eqs: "(length pre < length ?q) = True" "?q ! length pre = c" by simp_all
  show ?thesis
  proof (cases "num_prec (last pre) \<and> is_digit c")
    case False
    show ?thesis
      by (subst removeNumbers_loop.simps) (simp only: eqs prev if_True if_not_P [OF False])
  next
    case num_here: True
    show ?thesis
    proof (cases "c = CHR ''0'' \<and> (at s 0 = CHR ''x'' \<or> at s 0 = CHR ''X'')")
      case True
      show ?thesis
        by (subst removeNumbers_loop.simps)
           (simp only: eqs prev if_True if_P [OF num_here] hexg [unfolded eqs] if_P [OF True]
             num_rest_def Let_def edit hex)
    next
      case False
      show ?thesis
        by (subst removeNumbers_loop.simps)
           (simp only: eqs prev if_True if_P [OF num_here] hexg [unfolded eqs] if_not_P [OF False]
             num_rest_def Let_def j1 j2 edit' num [unfolded Let_def])
    qed
  qed
qed

lemma removeNumbers_loop_spec:
  "pre \<noteq> [] \<Longrightarrow> removeNumbers_loop (length pre) (pre @ s) = pre @ strip_num (last pre) s"
proof (induction "last pre" s arbitrary: pre rule: strip_num.induct)
  case 1
  then show ?case by (simp add: removeNumbers_loop.simps)
next
  case (2 c s)
  show ?case
  proof (cases "num_prec (last pre) \<and> is_digit c")
    case True
    with 2(1) [of "pre @ [CHR ''?'']"] 2(3) show ?thesis
      by (simp add: removeNumbers_loop_step)
  next
    case False
    with 2(2) [of "pre @ [c]"] 2(3) show ?thesis
      by (simp only: removeNumbers_loop_step [OF 2(3)] if_not_P [OF False] strip_num.simps) simp
  qed
qed

lemma removeNumbers_spec [code]: "removeNumbers s = strip_numbers s"
proof (cases s)
  case Nil
  then show ?thesis by (simp add: removeNumbers_def removeNumbers_loop.simps strip_numbers_def)
next
  case (Cons c t)
  with removeNumbers_loop_spec [of "[c]" t] show ?thesis
    by (simp add: removeNumbers_def strip_numbers_def)
qed

lemma collapse_loop_spec:
  "collapse_loop (length pre) (pre @ s) = pre @ collapse s"
proof (induction s arbitrary: pre rule: collapse.induct)
  case 1
  then show ?case by (simp add: collapse_loop.simps)
next
  case (2 c s)
  let ?q = "pre @ c # s"
  define j where "j = scan_while sql_space ?q (length pre + 1)"
  have dj: "drop (j - length pre - 1) s = dropWhile sql_space s"
    using scan_while_append [of sql_space "pre @ [c]" s 0] drop_scan_while [of sql_space s 0]
    by (simp add: j_def)
  have edit: "(if j \<noteq> length pre + 1 then erase (?q[length pre := SPC]) (length pre + 1) (j - length pre - 1)
      else ?q[length pre := SPC]) = pre @ SPC # dropWhile sql_space s"
    and eqs: "(length pre < length ?q) = True" "?q ! length pre = c"
    using erase_append_0 [of "pre @ [SPC]" s "j - length pre - 1"] dj by auto
  have "collapse_loop (length pre) ?q = (if sql_space c
      then collapse_loop (length pre + 1) (pre @ SPC # dropWhile sql_space s)
      else collapse_loop (length pre + 1) ?q)"
    by (subst collapse_loop.simps) (simp only: eqs Let_def j_def [symmetric] edit if_True)
  with 2(1) [of "pre @ [SPC]"] 2(2) [of "pre @ [c]"] show ?case by auto
qed

lemma before_close_neq: "before_close (c # s) \<noteq> []"
  using before_close_Cons [of c s] by auto

lemma tidy_loop_step:
  "tidy_loop (length pre) (pre @ c # s) =
     (case before_close (c # s) of [] \<Rightarrow> Some pre
      | d # t \<Rightarrow> tidy_loop (length pre + 1) (pre @ d # after_open d t))"
proof -
  let ?q = "pre @ c # s"
  obtain d t where dt: "before_close (c # s) = d # t" using before_close_Cons by blast
  have 1: "drop_before ?q (length pre) = pre @ d # t"
    unfolding dt [symmetric] before_close_def drop_before_def by (simp add: idx_simps)
  have 2: "drop_after (pre @ d # t) (length pre) = pre @ d # after_open d t"
    by (auto simp add: drop_after_def after_open_def idx_simps)
  show ?thesis
    by (subst tidy_loop.simps) (simp add: 1 2 dt)
qed

lemma tidy_loop_spec:
  "pre @ s \<noteq> [] \<Longrightarrow> tidy_loop (length pre) (pre @ s) = Some (pre @ tidy s)"
proof (induction s arbitrary: pre rule: tidy.induct)
  case (1 s)
  show ?case
  proof (cases s)
    case Nil
    with 1(2) have "\<not> length pre \<le> length pre - 1" by (cases pre) auto
    with 1(2) Nil show ?thesis
      by (subst tidy_loop.simps) (simp add: tidy.simps before_close_def)
  next
    case (Cons c r)
    obtain d t where dt: "before_close s = d # t" using before_close_Cons Cons by blast
    from 1(1) [OF dt, of "pre @ [d]"] dt Cons show ?thesis
      by (simp add: tidy_loop_step tidy.simps [of "c # r"])
  qed
qed

lemma collapse_nonempty: "collapse s = [] \<longleftrightarrow> s = []"
  by (cases s) auto

lemma tidy_nonempty: "tidy s = [] \<longleftrightarrow> s = []"
proof (cases s)
  case (Cons c r)
  then obtain d t where "before_close (c # r) = d # t" using before_close_Cons by blast
  with Cons show ?thesis by (simp add: tidy.simps [of "c # r"])
qed (simp add: tidy.simps before_close_def)

lemma removeSpaces_spec:
  assumes "s \<noteq> []"
  shows "removeSpaces s = Some (trim_last (tidy (collapse s)))"
proof -
  have "collapse_loop 0 s = collapse s" using collapse_loop_spec [of "[]" s] by simp
  moreover have "tidy_loop 0 (collapse s) = Some (tidy (collapse s))"
    using tidy_loop_spec [of "[]" "collapse s"] assms by (simp add: collapse_nonempty)
  moreover have "tidy (collapse s) \<noteq> []" using assms by (simp add: tidy_nonempty collapse_nonempty)
  ultimately show ?thesis
    by (simp add: removeSpaces_def trim_last_def Let_def last_conv_nth butlast_conv_take erase_def)
qed

lemma find_idx_takeWhile:
  "find_idx P s = (if dropWhile (\<lambda>c. \<not> P c) s = [] then None
     else Some (length (takeWhile (\<lambda>c. \<not> P c) s)))"
  by (induction s) auto

lemma neg_step1_spec:
  assumes "length P = Suc nxt"
  shows "neg_step1 (P @ r) tok nxt = Some (P @ neg_rest1 tok r)"
proof -
  have "rd_is (P @ r) (nxt + 1) (CHR ''-'') = Some (at r 0 = CHR ''-'')"
    using assms at_append_0 [of P r] by simp
  moreover have "rd_is (P @ r) (nxt + 2) (CHR ''?'') = Some (at r 1 = CHR ''?'')" if "at r 0 = CHR ''-''"
    using assms at_append [of P r 1] that at_nonNUL_less [of r 0] by (cases r) auto
  moreover have "erase (P @ r) (nxt + 1) 1 = P @ drop 1 r"
    using assms erase_append_0 [of P r 1] by simp
  ultimately show ?thesis
    by (cases "at r 0 = CHR ''-''") (auto simp: neg_step1_def neg_rest1_def)
qed

lemma neg_step2_spec:
  assumes "length P = Suc nxt"
  shows "neg_step2 (P @ r) tok nxt = Some (P @ neg_rest2 tok r)"
proof -
  have "rd_is (P @ r) (nxt + 1) (CHR ''-'') = Some (at r 0 = CHR ''-'')"
    using assms at_append_0 [of P r] by simp
  moreover have "rd (P @ r) (nxt + 2) = Some (at r 1)" if "at r 0 = CHR ''-''"
    using assms at_append [of P r 1] that at_nonNUL_less [of r 0] by (cases r) auto
  moreover have "rd_is (P @ r) (nxt + 3) (CHR ''?'') = Some (at r 2 = CHR ''?'')" if "sql_space (at r 1)"
  proof -
    have "at r 1 \<noteq> NUL" using that by (auto simp: sql_space_def schar_def byte_def)
    then have "1 < length r" by (rule at_nonNUL_less)
    with assms at_append [of P r 2] show ?thesis by (simp add: numeral_3_eq_3)
  qed
  moreover have "erase (P @ r) (nxt + 1) 2 = P @ drop 2 r"
    using assms erase_append_0 [of P r 2] by simp
  ultimately show ?thesis
    by (cases "at r 0 = CHR ''-''"; cases "sql_space (at r 1)")
       (auto simp: neg_step2_def neg_rest2_def)
qed

lemma fixNegativeNumbers_loop_step:
  fixes t r :: string
  assumes "\<forall>c\<in>set t. \<not> is_delim c" and "is_delim d"
    and r1: "r1 = neg_rest1 (t @ [d]) r"
  shows "fixNegativeNumbers_loop (length pre) (pre @ t @ d # r) =
     (if length pre + length t \<ge> 1 \<and> r = [] then Some (pre @ t @ d # r)
      else if length pre + length t + length r1 \<ge> 2 \<and> length r1 < 2 then Some (pre @ t @ d # r1)
      else fixNegativeNumbers_loop (length (pre @ t @ [d])) ((pre @ t @ [d]) @ neg_rest2 (t @ [d]) r1))"
proof -
  let ?q = "pre @ t @ d # r" and ?P = "pre @ t @ [d]" and ?n = "length pre + length t"
  have find: "find_from is_delim ?q (length pre) = Some ?n"
    using assms(1,2) by (simp add: find_from_def find_idx_takeWhile takeWhile_append2 dropWhile_append2)
  have g1: "(?n + 1 > length ?q) = False" by simp
  have g2: "(?n > size_minus ?q 2) = (?n \<ge> 1 \<and> r = [])"
    by (cases r) (auto simp: size_minus_def)
  have tok: "substr ?q (length pre) (?n + 1 - length pre) = t @ [d]"
    by (simp add: substr_def)
  have n1: "neg_step1 ?q (t @ [d]) ?n = Some (pre @ t @ d # r1)"
    using neg_step1_spec [of ?P ?n r "t @ [d]"] by (simp add: r1)
  have g3: "(?n > size_minus (pre @ t @ d # r1) 3) = (?n + length r1 \<ge> 2 \<and> length r1 < 2)"
    by (auto simp: size_minus_def)
  have n2: "neg_step2 (pre @ t @ d # r1) (t @ [d]) ?n = Some (pre @ t @ d # neg_rest2 (t @ [d]) r1)"
    using neg_step2_spec [of ?P ?n r1 "t @ [d]"] by simp
  have len: "?n + 1 = length ?P" by simp
  show ?thesis
    by (subst fixNegativeNumbers_loop.simps)
       (simp only: find option.case g1 if_False g2 tok Let_def n1 g3 n2 len [symmetric] append_assoc append_Cons append_Nil)
qed

lemma fixNegativeNumbers_loop_end:
  "\<forall>c\<in>set s. \<not> is_delim c \<Longrightarrow> fixNegativeNumbers_loop (length pre) (pre @ s) = Some (pre @ s)"
  by (subst fixNegativeNumbers_loop.simps)
     (simp add: find_from_def find_idx_None [THEN iffD2])

lemma fixNegativeNumbers_loop_single:
  assumes "pre \<noteq> []"
  shows "fixNegativeNumbers_loop (length pre) (pre @ [x]) = Some (pre @ [x])"
proof (cases "is_delim x")
  case True
  have "Suc 0 \<le> length pre" using assms by (cases pre) auto
  with fixNegativeNumbers_loop_step [of "[]" x "neg_rest1 [x] []" "[]" pre] True show ?thesis
    by simp
next
  case False
  then show ?thesis using fixNegativeNumbers_loop_end [of "[x]" pre] by simp
qed

lemma neg_rest_short:
  "neg_rest1 tok [] = []" "neg_rest2 tok [] = []" "neg_rest2 tok [x] = [x]"
  "r \<noteq> [] \<Longrightarrow> neg_rest1 tok r \<noteq> []"
  by (auto simp: neg_rest1_def neg_rest2_def sql_space_def schar_def byte_def)

lemma fixNegativeNumbers_loop_spec:
  "fixNegativeNumbers_loop (length pre) (pre @ s) = Some (pre @ fix_neg s)"
proof (induction s arbitrary: pre rule: fix_neg.induct)
  case (1 s)
  let ?t = "takeWhile (\<lambda>c. \<not> is_delim c) s"
  show ?case
  proof (cases "dropWhile (\<lambda>c. \<not> is_delim c) s")
    case Nil
    then have "\<forall>c\<in>set s. \<not> is_delim c" by (simp add: dropWhile_eq_Nil_conv)
    moreover have "fix_neg s = s" by (subst fix_neg.simps) (simp only: Nil list.case)
    ultimately show ?thesis by (simp add: fixNegativeNumbers_loop_end)
  next
    case (Cons d r)
    have t: "\<forall>c\<in>set ?t. \<not> is_delim c" by (auto dest: set_takeWhileD)
    have d: "is_delim d" using hd_dropWhile [of "\<lambda>c. \<not> is_delim c" s] Cons by simp
    have s: "s = ?t @ d # r" using takeWhile_dropWhile_id [of "\<lambda>c. \<not> is_delim c" s] Cons by simp
    define r1 where "r1 = neg_rest1 (?t @ [d]) r"
    have spec: "fix_neg s = (if r = [] then s else if length r1 < 2 then ?t @ d # r1
        else ?t @ d # fix_neg (neg_rest2 (?t @ [d]) r1))"
      by (subst fix_neg.simps)
         (simp only: Cons list.case Let_def r1_def append_assoc append_Cons append_Nil)
    note step = fixNegativeNumbers_loop_step [OF t d r1_def, of pre, folded s]
    consider (last) "r = []" | (short) x where "r \<noteq> []" "r1 = [x]" | (more) "r \<noteq> []" "\<not> length r1 < 2"
    proof (cases "r = []"; cases r1)
      case (Cons x xs)
      assume "r \<noteq> []"
      with Cons that show ?thesis by (cases xs) auto
    qed (use that neg_rest_short(4) r1_def in auto)
    then show ?thesis
    proof cases
      case last
      then have "r1 = []" by (simp add: r1_def neg_rest_short)
      then have step': "fixNegativeNumbers_loop (length pre) (pre @ s) =
          (if 1 \<le> length pre + length ?t then Some (pre @ s)
           else fixNegativeNumbers_loop (length (pre @ ?t @ [d])) ((pre @ ?t @ [d]) @ []))"
        using step last by (simp only: neg_rest_short simp_thms list.size) simp
      have "(pre @ ?t @ [d]) @ [] = pre @ s" by (subst (2) s) (simp add: last)
      with step' fixNegativeNumbers_loop_end [of "[]" "pre @ ?t @ [d]"] last show ?thesis
        by (simp only: spec if_True simp_thms list.set ball_empty split: if_split)
    next
      case (short x)
      with step fixNegativeNumbers_loop_single [of "pre @ ?t @ [d]" x] show ?thesis
        by (simp add: spec neg_rest_short)
    next
      case more
      have "fixNegativeNumbers_loop (length (pre @ ?t @ [d])) ((pre @ ?t @ [d]) @ neg_rest2 (?t @ [d]) r1)
          = Some ((pre @ ?t @ [d]) @ fix_neg (neg_rest2 (?t @ [d]) r1))"
        by (rule 1 [OF Cons _ _ _ _]) (use more r1_def in auto)
      with more step show ?thesis by (simp add: spec)
    qed
  qed
qed

lemma fixNegativeNumbers_spec [code]: "fixNegativeNumbers s = Some (fix_neg s)"
  using fixNegativeNumbers_loop_spec [of "[]" s] by (simp add: fixNegativeNumbers_def)

section \<open>The normal form\<close>

lemma strip_quoted_nonempty: "strip_quoted q s = [] \<longleftrightarrow> s = []"
  by (cases s) auto

lemma strip_cpp_nonempty: "strip_cpp s = [] \<longleftrightarrow> s = []"
  by (cases s rule: strip_cpp.cases) auto

lemma strip_hash_nonempty: "strip_hash s = [] \<longleftrightarrow> s = []"
  by (cases s) auto

lemma strip_dash_nonempty: "strip_dash s = [] \<longleftrightarrow> s = []"
  by (cases s rule: strip_dash.cases) auto

lemma strip_numbers_nonempty: "strip_numbers s = [] \<longleftrightarrow> s = []"
  by (cases s) (auto simp: strip_numbers_def)

lemmas pass_nonempty = strip_quoted_nonempty strip_cpp_nonempty strip_hash_nonempty
  strip_dash_nonempty strip_numbers_nonempty

lemmas pass_specs = removeQuotedText_spec removeHashComment_spec removeNumbers_spec
  removeCppComment_spec removeDashComment_spec removeSpaces_spec fixNegativeNumbers_spec

lemma removeCppComment_empty: "removeCppComment [] = None"
proof -
  have 2: "removeCppComment_loop 1 [] = None"
    by (subst removeCppComment_loop.simps) (simp add: size_minus_def)
  have "removeCppComment_loop 0 [] = removeCppComment_loop 1 []"
    by (subst removeCppComment_loop.simps) (simp add: size_minus_def)
  with 2 show ?thesis by (simp add: removeCppComment_def)
qed

lemma normalizeQuery_nonempty: "q \<noteq> [] \<Longrightarrow> normalizeQuery q = Some (normal_form q)"
  by (simp add: normalizeQuery_def removeComments_def pass_specs pass_nonempty normal_form_def Let_def)

lemma normalizeQuery_empty: "normalizeQuery [] = None"
  by (simp add: normalizeQuery_def removeComments_def removeQuotedText_spec removeCppComment_empty)

end
