(* ===== verification/NormProps.thy ===== *)
theory NormProps
  imports NormSpec
begin

text \<open>
  What a pattern is guaranteed to be: no live quote, no numeric literal, canonical spacing,
  no longer than the query, and the same for queries that differ in the contents of a
  literal only.  Every proof is a structural induction on the passes of \<open>NormSpec\<close>.
\<close>

section \<open>Quotes\<close>

text \<open>No quote character outside a backslash escape.\<close>

fun quote_free :: "bool \<Rightarrow> string \<Rightarrow> bool" where
  "quote_free q [] = True"
| "quote_free q (c # s) = (\<not> ((c = SQ \<or> c = DQ) \<and> \<not> q) \<and> quote_free (c = BSL \<and> \<not> q) s)"

text \<open>The escape state after reading a quote-free text.\<close>

fun esc_after :: "bool \<Rightarrow> string \<Rightarrow> bool" where
  "esc_after q [] = q"
| "esc_after q (c # s) = esc_after (c = BSL \<and> \<not> q) s"

lemma quote_free_strip: "quote_free q (strip_quoted q s)"
  by (induction q s rule: strip_quoted.induct) auto

lemma strip_quoted_prefix:
  "quote_free q p \<Longrightarrow> strip_quoted q (p @ s) = p @ strip_quoted (esc_after q p) s"
  by (induction q p rule: quote_free.induct) auto

definition plain :: "string \<Rightarrow> bool" where
  "plain l \<longleftrightarrow> SQ \<notin> set l \<and> BSL \<notin> set l"

lemma after_lit_plain:
  assumes "plain l" and "\<forall>c r'. r = c # r' \<longrightarrow> c \<noteq> SQ"
  shows "after_lit SQ False (l @ SQ # r) = r"
  using assms(1)
proof (induction l)
  case Nil
  with assms(2) show ?case by (cases r) auto
next
  case (Cons c l)
  then have "after_lit SQ False (l @ SQ # r) = r" by (simp add: plain_def)
  moreover have "\<exists>d t. l @ SQ # r = d # t" by (cases l) auto
  ultimately show ?case using Cons.prems by (auto simp: plain_def)
qed

lemma strip_quoted_literal:
  assumes "quote_free False p" "\<not> esc_after False p" "plain l"
    and "\<forall>c r'. r = c # r' \<longrightarrow> c \<noteq> SQ"
  shows "strip_quoted False (p @ SQ # l @ SQ # r) = p @ CHR ''?'' # strip_quoted False r"
  using assms by (simp add: strip_quoted_prefix after_lit_plain)

section \<open>Lengths\<close>

lemma length_strip_quoted [len_intros]: "length (strip_quoted q s) \<le> length s"
proof (induction q s rule: strip_quoted.induct)
  case (2 q c s)
  with length_after_lit [of c False s] show ?case by auto
qed simp

lemma length_strip_cpp [len_intros]: "length (strip_cpp s) \<le> length s"
proof (induction s rule: strip_cpp.induct)
  case (3 a b s)
  with length_cpp_rest [of s] show ?case by (auto split: if_splits)
qed simp_all

lemma length_strip_hash [len_intros]: "length (strip_hash s) \<le> length s"
proof (induction s rule: strip_hash.induct)
  case (2 c s)
  with length_eol_rest [of s] show ?case by (auto split: if_splits)
qed simp

lemma length_strip_dash [len_intros]: "length (strip_dash s) \<le> length s"
proof (induction s rule: strip_dash.induct)
  case (3 a b s)
  with length_eol_rest [of s] show ?case by (auto split: if_splits)
qed simp_all

lemma length_strip_num: "length (strip_num p s) \<le> length s"
proof (induction p s rule: strip_num.induct)
  case (2 p c s)
  with length_num_rest [of c s] show ?case by auto
qed simp

lemma length_strip_numbers [len_intros]: "length (strip_numbers s) \<le> length s"
  by (cases s) (auto simp: strip_numbers_def length_strip_num)

lemma length_collapse [len_intros]: "length (collapse s) \<le> length s"
proof (induction s rule: collapse.induct)
  case (2 c s)
  with length_dropWhile_le [of sql_space s] show ?case by auto
qed simp

lemma length_tidy [len_intros]: "length (tidy s) \<le> length s"
proof (induction s rule: tidy.induct)
  case (1 s)
  show ?case
  proof (cases "before_close s")
    case (Cons c t)
    with 1 length_after_open [of c t] length_before_close [of s] show ?thesis
      by (simp add: tidy.simps [of s])
  qed (simp add: tidy.simps [of s])
qed

lemma length_trim_last [len_intros]: "length (trim_last s) \<le> length s"
  by (simp add: trim_last_def)

lemma fix_neg_split:
  assumes "dropWhile (\<lambda>c. \<not> is_delim c) s = d # r"
  obtains t where "s = t @ d # r" "\<forall>c\<in>set t. \<not> is_delim c" "is_delim d"
    "fix_neg s = (if r = [] then s
       else if length (neg_rest1 (t @ [d]) r) < 2 then t @ d # neg_rest1 (t @ [d]) r
       else t @ d # fix_neg (neg_rest2 (t @ [d]) (neg_rest1 (t @ [d]) r)))"
proof
  let ?t = "takeWhile (\<lambda>c. \<not> is_delim c) s"
  show "s = ?t @ d # r" using takeWhile_dropWhile_id [of "\<lambda>c. \<not> is_delim c" s] assms by simp
  show "\<forall>c\<in>set ?t. \<not> is_delim c" by (auto dest: set_takeWhileD)
  show "is_delim d" using hd_dropWhile [of "\<lambda>c. \<not> is_delim c" s] assms by simp
  show "fix_neg s = (if r = [] then s
       else if length (neg_rest1 (?t @ [d]) r) < 2 then ?t @ d # neg_rest1 (?t @ [d]) r
       else ?t @ d # fix_neg (neg_rest2 (?t @ [d]) (neg_rest1 (?t @ [d]) r)))"
    by (subst fix_neg.simps) (simp only: assms list.case Let_def append_assoc append_Cons append_Nil)
qed

lemma fix_neg_no_delim: "dropWhile (\<lambda>c. \<not> is_delim c) s = [] \<Longrightarrow> fix_neg s = s"
  by (subst fix_neg.simps) (simp only: list.case)

text \<open>Facts of \<open>fix_neg\<close> by induction over the delimiters.\<close>

lemma fix_neg_cases [case_names none cut more]:
  assumes "\<And>s. P s s"
    and "\<And>t d r r1. r1 = neg_rest1 (t @ [d]) r \<Longrightarrow> is_delim d \<Longrightarrow> P (t @ d # r) (t @ d # r1)"
    and "\<And>t d r r2. r2 = neg_rest2 (t @ [d]) (neg_rest1 (t @ [d]) r) \<Longrightarrow> is_delim d \<Longrightarrow>
        P r2 (fix_neg r2) \<Longrightarrow> P (t @ d # r) (t @ d # fix_neg r2)"
  shows "P s (fix_neg s)"
proof (induction s rule: fix_neg.induct)
  case (1 s)
  show ?case
  proof (cases "dropWhile (\<lambda>c. \<not> is_delim c) s")
    case Nil
    then show ?thesis by (simp only: fix_neg_no_delim assms(1))
  next
    case (Cons d r)
    obtain t where t: "s = t @ d # r" "is_delim d" and eq: "fix_neg s = (if r = [] then s
       else if length (neg_rest1 (t @ [d]) r) < 2 then t @ d # neg_rest1 (t @ [d]) r
       else t @ d # fix_neg (neg_rest2 (t @ [d]) (neg_rest1 (t @ [d]) r)))"
      and nd: "\<forall>c\<in>set t. \<not> is_delim c"
      using fix_neg_split [OF Cons] by metis
    have "takeWhile (\<lambda>c. \<not> is_delim c) s = t"
      using t nd by (simp add: takeWhile_append2)
    then have IH: "r \<noteq> [] \<Longrightarrow> \<not> length (neg_rest1 (t @ [d]) r) < 2 \<Longrightarrow>
        P (neg_rest2 (t @ [d]) (neg_rest1 (t @ [d]) r)) (fix_neg (neg_rest2 (t @ [d]) (neg_rest1 (t @ [d]) r)))"
      using 1 [OF Cons refl refl] by simp
    have "P s (if r = [] then s
       else if length (neg_rest1 (t @ [d]) r) < 2 then t @ d # neg_rest1 (t @ [d]) r
       else t @ d # fix_neg (neg_rest2 (t @ [d]) (neg_rest1 (t @ [d]) r)))"
      unfolding t(1) using assms(1) assms(2) [OF refl t(2)] assms(3) [OF refl t(2)] IH
      by (simp split: if_split)
    then show ?thesis by (simp only: eq)
  qed
qed

lemma length_fix_neg [len_intros]: "length (fix_neg s) \<le> length s"
proof (rule fix_neg_cases [where P = "\<lambda>s t. length t \<le> length s"])
  fix t d r r2
  assume "r2 = neg_rest2 (t @ [d]) (neg_rest1 (t @ [d]) r)" "length (fix_neg r2) \<le> length r2"
  with length_neg_rest [of "t @ [d]" r] show "length (t @ d # fix_neg r2) \<le> length (t @ d # r)"
    by simp
qed (auto simp: neg_rest1_def)

lemma length_normal_form: "length (normal_form q) \<le> length q"
  unfolding normal_form_def
  by (intro le_trans [OF length_fix_neg] le_trans [OF length_trim_last] le_trans [OF length_tidy]
      le_trans [OF length_collapse] le_trans [OF length_strip_numbers] le_trans [OF length_strip_dash]
      le_trans [OF length_strip_hash] le_trans [OF length_strip_cpp] length_strip_quoted)

section \<open>Adjacent characters\<close>

text \<open>No digit after a character that can precede a number.\<close>

definition num_pair :: "char \<Rightarrow> char \<Rightarrow> bool" where
  "num_pair a b \<longleftrightarrow> \<not> (num_prec a \<and> is_digit b)"

text \<open>Canonical spacing: no two spaces in a row, none before a closing bracket or a comma,
  none after an opening bracket or a comma.\<close>

definition space_pair :: "char \<Rightarrow> char \<Rightarrow> bool" where
  "space_pair a b \<longleftrightarrow> \<not> (a = SPC \<and> (b = SPC \<or> b = CHR '')'' \<or> b = CHR '','')) \<and>
     \<not> ((a = CHR ''('' \<or> a = CHR '','') \<and> b = SPC)"

lemma num_prec_not_digit: "num_prec c \<Longrightarrow> \<not> is_digit c"
  by (auto simp: num_prec_def is_digit_def sql_space_def schar_def byte_def)

lemma sql_space_num_prec: "sql_space c \<Longrightarrow> num_prec c"
  by (simp add: num_prec_def)

lemma num_pair_question [simp]: "num_pair (CHR ''?'') b" "num_pair a (CHR ''?'')"
  by (auto simp: num_pair_def num_prec_def is_digit_def sql_space_def schar_def byte_def)

lemma num_pair_space: "sql_space b \<Longrightarrow> num_pair a b"
  using num_prec_not_digit [of b] by (auto simp: num_pair_def num_prec_def)

lemma strip_num_pairs: "successively num_pair (p # strip_num p s)"
proof (induction p s rule: strip_num.induct)
  case (2 p c s)
  then show ?case by (auto simp: num_pair_def num_prec_def is_digit_def byte_def sql_space_def schar_def)
qed simp

lemma strip_numbers_pairs: "successively num_pair (strip_numbers s)"
  by (cases s) (simp_all add: strip_numbers_def strip_num_pairs)

text \<open>A character that can precede a number can be deleted: what follows it is no
  digit.\<close>

lemma num_pair_delete:
  "num_prec d \<Longrightarrow> successively num_pair (a # d # s) \<Longrightarrow> successively num_pair (a # s)"
  by (cases s) (auto simp: num_pair_def)

lemma successively_tl: "successively P (a # s) \<Longrightarrow> successively P s"
  by (cases s) auto

lemma successively_split:
  "successively P (xs @ y # ys) \<longleftrightarrow> successively P (xs @ [y]) \<and> successively P (y # ys)"
  by (auto simp: successively_append_iff)

lemma num_pair_spaces:
  "num_prec c \<Longrightarrow> successively num_pair (c # s) \<Longrightarrow>
     successively num_pair (a # dropWhile sql_space s)"
proof (induction s arbitrary: c)
  case (Cons b s)
  show ?case
  proof (cases "sql_space b")
    case True
    with Cons.prems have "successively num_pair (b # s)" by (blast intro: successively_tl)
    with True show ?thesis using Cons.IH [OF sql_space_num_prec [OF True]] by simp
  next
    case False
    with Cons.prems show ?thesis by (auto simp: num_pair_def)
  qed
qed simp

lemma collapse_num_pairs:
  "successively num_pair (a # s) \<Longrightarrow> successively num_pair (a # collapse s)"
proof (induction s arbitrary: a rule: collapse.induct)
  case (2 c s)
  show ?case
  proof (cases "sql_space c")
    case True
    have "successively num_pair (SPC # dropWhile sql_space s)"
      using num_pair_spaces [OF sql_space_num_prec [OF True]] successively_tl [OF 2(3)] by blast
    with 2(1) [OF True, of SPC] True show ?thesis
      by (auto simp: num_pair_def is_digit_def byte_def)
  next
    case False
    with 2(2) [OF False, of c] 2(3) show ?thesis by auto
  qed
qed simp

lemma before_close_num_pairs:
  "successively num_pair (a # s) \<Longrightarrow> successively num_pair (a # before_close s)"
proof (cases s)
  case (Cons c r)
  have "num_prec SPC" by (simp add: sql_space_num_prec sql_space_def schar_def byte_def)
  moreover assume "successively num_pair (a # s)"
  ultimately show ?thesis
    using Cons num_pair_delete [of SPC a r] by (auto simp: before_close_def)
qed (simp add: before_close_def)

lemma after_open_num_pairs:
  "successively num_pair (a # s) \<Longrightarrow> successively num_pair (a # after_open b s)"
proof (cases s)
  case (Cons c r)
  have "num_prec SPC" by (simp add: sql_space_num_prec sql_space_def schar_def byte_def)
  moreover assume "successively num_pair (a # s)"
  ultimately show ?thesis
    using Cons num_pair_delete [of SPC a r] by (auto simp: after_open_def)
qed (simp add: after_open_def)

lemma tidy_num_pairs:
  "successively num_pair (a # s) \<Longrightarrow> successively num_pair (a # tidy s)"
proof (induction s arbitrary: a rule: tidy.induct)
  case (1 s)
  show ?case
  proof (cases "before_close s")
    case (Cons c t)
    have "successively num_pair (a # c # t)" using before_close_num_pairs [OF 1(2)] Cons by simp
    then have "num_pair a c" and "successively num_pair (c # after_open c t)"
      by (auto intro: after_open_num_pairs)
    with 1(1) [OF Cons] Cons show ?thesis by (simp add: tidy.simps [of s])
  qed (simp add: tidy.simps [of s])
qed

lemma successively_butlast: "successively P s \<Longrightarrow> successively P (butlast s)"
  by (induction P s rule: successively.induct) auto

lemma trim_last_successively: "successively P s \<Longrightarrow> successively P (trim_last s)"
  by (simp add: trim_last_def successively_butlast)

lemma successively_drop: "successively P s \<Longrightarrow> successively P (drop n s)"
proof (induction n arbitrary: s)
  case (Suc n)
  then show ?case by (cases s) (auto intro: successively_tl)
qed simp

text \<open>The edits of \<open>fix_neg\<close>: what they delete stands before a question mark.\<close>

lemma neg_rest_pairs:
  assumes "\<And>a. P a (CHR ''?'')" and "successively P (a # r)"
  shows "successively P (a # neg_rest1 tok r)" "successively P (a # neg_rest2 tok r)"
proof -
  have q: "successively P (a # drop k r)" if "at r k = CHR ''?''" for k
  proof -
    have "k < length r" using that by (intro at_nonNUL_less) simp
    then have "drop k r = CHR ''?'' # drop (Suc k) r"
      using that by (simp add: at_def Cons_nth_drop_Suc [symmetric])
    moreover have "successively P (drop k r)"
      by (rule successively_drop [OF successively_tl [OF assms(2)]])
    ultimately show ?thesis using assms(1) by simp
  qed
  then show "successively P (a # neg_rest1 tok r)" "successively P (a # neg_rest2 tok r)"
    using assms(2) by (simp_all add: neg_rest1_def neg_rest2_def)
qed

lemma fix_neg_successively:
  assumes P: "\<And>a. P a (CHR ''?'')"
  shows "successively P s \<Longrightarrow> successively P (fix_neg s)"
proof -
  let ?Q = "\<lambda>s t. \<forall>xs. successively P (xs @ s) \<longrightarrow> successively P (xs @ t)"
  have "?Q s (fix_neg s)"
  proof (rule fix_neg_cases [where P = ?Q], goal_cases)
    case (2 t d r r1)
    have "successively P (d # r) \<Longrightarrow> successively P (d # r1)"
      unfolding 2(1) by (rule neg_rest_pairs(1)) (simp_all add: P)
    then show ?case
      using successively_split [of P "_ @ t" d] by (metis append_assoc)
  next
    case (3 t d r r2)
    have "successively P (d # r) \<Longrightarrow> successively P (d # r2)"
      unfolding 3(1) by (intro neg_rest_pairs P)
    moreover have "successively P (d # r2) \<Longrightarrow> successively P (d # fix_neg r2)"
      using 3(3) by (metis append_Cons append_Nil)
    ultimately show ?case
      using successively_split [of P "_ @ t" d] by (metis append_assoc)
  qed simp
  then show "successively P s \<Longrightarrow> successively P (fix_neg s)" by (metis append_Nil)
qed

subsection \<open>Spacing\<close>

definition no_double :: "char \<Rightarrow> char \<Rightarrow> bool" where
  "no_double a b \<longleftrightarrow> \<not> (a = SPC \<and> b = SPC)"

definition only_spc :: "string \<Rightarrow> bool" where
  "only_spc s \<longleftrightarrow> (\<forall>c\<in>set s. sql_space c \<longrightarrow> c = SPC)"

lemma sql_space_SPC [simp]: "sql_space SPC"
  by (simp add: sql_space_def schar_def byte_def)

lemma hd_dropWhile_not: "dropWhile Q s = c # t \<Longrightarrow> \<not> Q c"
  using hd_dropWhile [of Q s] by simp

lemma collapse_no_double: "successively no_double (collapse s)"
proof (induction s rule: collapse.induct)
  case (2 c s)
  show ?case
  proof (cases "sql_space c")
    case True
    show ?thesis
    proof (cases "dropWhile sql_space s")
      case (Cons d t)
      then have "\<not> sql_space d" by (rule hd_dropWhile_not)
      then have "d \<noteq> SPC" by auto
      with 2(1) [OF True] Cons True \<open>\<not> sql_space d\<close> show ?thesis by (auto simp: no_double_def)
    next
      case Nil
      have "collapse (c # s) = [SPC]" by (simp only: collapse.simps True if_True Nil)
      then show ?thesis by simp
    qed
  next
    case False
    then have "c \<noteq> SPC" by auto
    with False 2(2) show ?thesis by (cases "collapse s") (auto simp: no_double_def)
  qed
qed simp

lemma collapse_only_spc: "only_spc (collapse s)"
  by (induction s rule: collapse.induct) (auto simp: only_spc_def)

lemma before_close_suffix: "successively P s \<Longrightarrow> successively P (before_close s)"
  by (simp add: before_close_def successively_drop)

lemma after_open_suffix: "successively P s \<Longrightarrow> successively P (after_open c s)"
  by (simp add: after_open_def successively_drop)

lemma tidy_Cons: "before_close s = c # t \<Longrightarrow> tidy s = c # tidy (after_open c t)"
  by (simp add: tidy.simps [of s])

text \<open>The head of a tidied text, seen from the character before it.\<close>

lemma tidy_head_pair:
  assumes "successively no_double (c # t)"
    and c: "c = SPC \<Longrightarrow> \<not> (at t 0 = CHR '')'' \<or> at t 0 = CHR '','')"
    and h: "tidy (after_open c t) = e # u"
  shows "space_pair c e"
proof -
  obtain d t' where at: "after_open c t = d # t'"
    using h by (cases "after_open c t") (auto simp: tidy_nonempty [THEN iffD2])
  obtain b where b: "before_close (d # t') = e # b"
    using h at before_close_Cons [of d t'] by (auto simp: tidy_Cons)
  have d: "c = SPC \<or> c = CHR ''('' \<or> c = CHR '','' \<Longrightarrow> d \<noteq> SPC"
  proof -
    assume c3: "c = SPC \<or> c = CHR ''('' \<or> c = CHR '',''"
    obtain x r where t: "t = x # r" using at by (cases t) (auto simp: after_open_def)
    show "d \<noteq> SPC"
    proof
      assume "d = SPC"
      with at t assms(1) c3 show False
        by (cases "x = SPC"; cases r) (auto simp: after_open_def no_double_def split: if_splits)
    qed
  qed
  have e: "d \<noteq> SPC \<Longrightarrow> e = d" using b by (simp add: before_close_def)
  show ?thesis
  proof (cases "c = SPC")
    case True
    with d have "d \<noteq> SPC" by blast
    moreover have "t = d # t'" using at True by (simp add: after_open_def)
    ultimately show ?thesis using True e c by (auto simp: space_pair_def)
  next
    case False
    with d e show ?thesis by (auto simp: space_pair_def)
  qed
qed

lemma tidy_space_pairs:
  "successively no_double s \<Longrightarrow> successively space_pair (tidy s)"
proof (induction s rule: tidy.induct)
  case (1 s)
  show ?case
  proof (cases "before_close s")
    case (Cons c t)
    have nd: "successively no_double (c # t)"
      using before_close_suffix [OF 1(2)] Cons by simp
    then have IH: "successively space_pair (tidy (after_open c t))"
      using 1(1) [OF Cons after_open_suffix [OF successively_tl [OF nd]]] by simp
    have hd: "c = SPC \<Longrightarrow> \<not> (at t 0 = CHR '')'' \<or> at t 0 = CHR '','')"
      using Cons by (cases s) (auto simp: before_close_def split: if_splits)
    show ?thesis
    proof (cases "tidy (after_open c t)")
      case (Cons e u)
      with tidy_head_pair [OF nd hd Cons] IH show ?thesis
        by (simp add: tidy_Cons [OF \<open>before_close s = c # t\<close>])
    qed (simp add: tidy_Cons [OF Cons])
  qed (simp add: tidy.simps [of s])
qed

lemma set_tidy: "set (tidy s) \<subseteq> set s"
proof (induction s rule: tidy.induct)
  case (1 s)
  show ?case
  proof (cases "before_close s")
    case (Cons c t)
    have "before_close s = s \<or> before_close s = drop 1 s" by (simp add: before_close_def)
    then have "set (before_close s) \<subseteq> set s" by (elim disjE) (simp_all only: set_drop_subset subset_refl)
    then have 2: "set (c # t) \<subseteq> set s" by (simp only: Cons)
    have "after_open c t = t \<or> after_open c t = drop 1 t" by (simp add: after_open_def)
    then have "set (after_open c t) \<subseteq> set t" by (elim disjE) (simp_all only: set_drop_subset subset_refl)
    with 1 [OF Cons] have "set (tidy (after_open c t)) \<subseteq> set t" by (rule subset_trans)
    with 2 show ?thesis by (simp only: tidy_Cons [OF Cons] list.set) blast
  qed (simp add: tidy.simps [of s])
qed

lemma set_neg_rest: "set (neg_rest1 tok r) \<subseteq> set r" "set (neg_rest2 tok r) \<subseteq> set r"
  using set_drop_subset [of 1 r] set_drop_subset [of 2 r]
  by (auto simp: neg_rest1_def neg_rest2_def)

lemma set_fix_neg: "set (fix_neg s) \<subseteq> set s"
proof (rule fix_neg_cases [where P = "\<lambda>s t. set t \<subseteq> set s"], goal_cases)
  case (2 t d r r1)
  then show ?case using set_neg_rest(1) [of "t @ [d]" r] by auto
next
  case (3 t d r r2)
  have "set r2 \<subseteq> set r"
    unfolding 3(1) using set_neg_rest(1) [of "t @ [d]" r] set_neg_rest(2) by blast
  with 3 show ?case by auto
qed simp

lemma neg_rest_last: "r \<noteq> [] \<Longrightarrow> neg_rest1 tok r \<noteq> [] \<and> last (neg_rest1 tok r) = last r"
  "r \<noteq> [] \<Longrightarrow> neg_rest2 tok r \<noteq> [] \<and> last (neg_rest2 tok r) = last r"
proof -
  assume "r \<noteq> []"
  have "1 < length r" if "at r 1 = CHR ''?''" using that by (intro at_nonNUL_less) simp
  moreover have "2 < length r" if "at r 2 = CHR ''?''" using that by (intro at_nonNUL_less) simp
  ultimately show "neg_rest1 tok r \<noteq> [] \<and> last (neg_rest1 tok r) = last r"
    "neg_rest2 tok r \<noteq> [] \<and> last (neg_rest2 tok r) = last r"
    using \<open>r \<noteq> []\<close> by (auto simp: neg_rest1_def neg_rest2_def last_drop)
qed

lemma fix_neg_last: "s \<noteq> [] \<Longrightarrow> fix_neg s \<noteq> [] \<and> last (fix_neg s) = last s"
proof -
  let ?Q = "\<lambda>s t. s \<noteq> [] \<longrightarrow> t \<noteq> [] \<and> last t = last s"
  have "?Q s (fix_neg s)"
  proof (rule fix_neg_cases [where P = ?Q], goal_cases)
    case (2 t d r r1)
    then show ?case using neg_rest_last(1) [of r "t @ [d]"]
      by (cases "r = []") (auto simp: neg_rest1_def)
  next
    case (3 t d r r2)
    have "r \<noteq> [] \<Longrightarrow> r2 \<noteq> [] \<and> last r2 = last r"
      unfolding 3(1) using neg_rest_last [of r "t @ [d]"] neg_rest_last(2) by metis
    moreover have "r = [] \<Longrightarrow> r2 = []" unfolding 3(1) by (simp add: neg_rest1_def neg_rest2_def)
    moreover have "fix_neg [] = []" by (simp add: fix_neg_no_delim)
    ultimately show ?case using 3(3) by (cases "r = []") auto
  qed simp
  then show "s \<noteq> [] \<Longrightarrow> fix_neg s \<noteq> [] \<and> last (fix_neg s) = last s" by simp
qed

lemma trim_last_no_space: "successively space_pair s \<Longrightarrow> trim_last s \<noteq> [] \<Longrightarrow> last (trim_last s) \<noteq> SPC"
proof -
  assume sp: "successively space_pair s" and ne: "trim_last s \<noteq> []"
  show "last (trim_last s) \<noteq> SPC"
  proof (cases "s \<noteq> [] \<and> last s = SPC")
    case True
    then have b: "trim_last s = butlast s" and s: "s = butlast s @ [SPC]"
      by (auto simp: trim_last_def) (metis append_butlast_last_id)
    have "successively space_pair (butlast s @ [SPC])" using sp s by simp
    with b ne show ?thesis by (auto simp: successively_append_iff space_pair_def)
  next
    case False
    with ne show ?thesis by (auto simp: trim_last_def split: if_splits)
  qed
qed

lemma space_pair_question [simp]: "space_pair a (CHR ''?'')"
  by (simp add: space_pair_def)

section \<open>Properties of the pattern\<close>

lemma normal_form_num_pairs: "successively num_pair (normal_form q)"
proof -
  let ?s = "strip_numbers (strip_dash (strip_hash (strip_cpp (strip_quoted False q))))"
  have "successively num_pair (CHR ''?'' # ?s)"
    using strip_numbers_pairs [of "strip_dash (strip_hash (strip_cpp (strip_quoted False q)))"]
    by (cases ?s) auto
  then have "successively num_pair (CHR ''?'' # tidy (collapse ?s))"
    by (intro tidy_num_pairs collapse_num_pairs)
  then show ?thesis
    unfolding normal_form_def
    by (intro fix_neg_successively trim_last_successively) (auto dest: successively_tl)
qed

lemma normal_form_space_pairs: "successively space_pair (normal_form q)"
  unfolding normal_form_def
  by (intro fix_neg_successively trim_last_successively tidy_space_pairs collapse_no_double) simp

lemma normal_form_only_spc: "only_spc (normal_form q)"
proof -
  let ?s = "strip_numbers (strip_dash (strip_hash (strip_cpp (strip_quoted False q))))"
  have "set (trim_last (tidy (collapse ?s))) \<subseteq> set (collapse ?s)"
    using set_tidy [of "collapse ?s"] by (auto simp: trim_last_def dest: in_set_butlastD)
  then show ?thesis
    using set_fix_neg [of "trim_last (tidy (collapse ?s))"] collapse_only_spc [of ?s]
    unfolding normal_form_def only_spc_def by blast
qed

lemma normal_form_last: "normal_form q \<noteq> [] \<Longrightarrow> last (normal_form q) \<noteq> SPC"
proof -
  let ?s = "tidy (collapse (strip_numbers (strip_dash (strip_hash (strip_cpp (strip_quoted False q))))))"
  assume "normal_form q \<noteq> []"
  then have "trim_last ?s \<noteq> []" using set_fix_neg [of "trim_last ?s"] by (auto simp: normal_form_def)
  moreover have "successively space_pair ?s" by (intro tidy_space_pairs collapse_no_double)
  ultimately show "last (normal_form q) \<noteq> SPC"
    using fix_neg_last [of "trim_last ?s"] trim_last_no_space [of ?s] by (simp add: normal_form_def)
qed

lemma successively_nth: "successively P s \<Longrightarrow> Suc i < length s \<Longrightarrow> P (s ! i) (s ! Suc i)"
  by (simp add: successively_conv_nth)

lemma normalizeQuery_normal_form:
  "normalizeQuery q = (if q = [] then None else Some (normal_form q))"
  by (simp add: normalizeQuery_nonempty normalizeQuery_empty)

text \<open>C19: \<open>normalizeQuery\<close>, an index loop per pass over a string edited in place,
  returns exactly the pattern of the structural specification for every nonempty query; on the
  empty query \<open>size() - 1\<close> wraps and the code reads out of bounds.\<close>

theorem normalizeQuery_refines:
  "normalizeQuery q = (if q = [] then None else Some (normal_form q))"
  by (rule normalizeQuery_normal_form)

text \<open>Removing quoted text leaves no quote outside a backslash escape: no part of a
  string literal survives in the pattern with its delimiters.\<close>

theorem removeQuotedText_quote_free: "quote_free False (removeQuotedText q)"
  by (simp add: pass_specs quote_free_strip)



text \<open>C36: a pattern holds no numeric literal: no digit follows a space, a comma, an
  opening bracket or an operator.\<close>

theorem normalizeQuery_no_number:
  assumes "normalizeQuery q = Some p" "Suc i < length p" "num_prec (p ! i)"
  shows "\<not> is_digit (p ! Suc i)"
proof -
  have "p = normal_form q" using assms(1) by (simp add: normalizeQuery_normal_form split: if_splits)
  with successively_nth [OF normal_form_num_pairs] assms(2,3) show ?thesis
    by (auto simp: num_pair_def)
qed

theorem normalizeQuery_no_number_witness:
  "\<not> is_digit (''a=?'' ! 2)"
proof -
  have "normalizeQuery ''a=12'' = Some ''a=?''"
    by (simp add: normalizeQuery_normal_form normal_form_def strip_numbers_def num_rest_def num_prec_def
        is_digit_def byte_def sql_space_def schar_def trim_last_def tidy.simps before_close_def after_open_def
        fix_neg.simps is_delim_def)
  from normalizeQuery_no_number [OF this, of 1] show ?thesis by (simp add: num_prec_def)
qed

text \<open>Patterns are spaced canonically: the only white space is the blank, no two blanks
  are adjacent, none stands before a closing bracket or a comma or after an opening bracket or a
  comma, and none at the end.\<close>

theorem normalizeQuery_spacing:
  assumes "normalizeQuery q = Some p"
  shows "only_spc p \<and> successively space_pair p \<and> (p \<noteq> [] \<longrightarrow> last p \<noteq> SPC)"
proof -
  have "p = normal_form q" using assms by (simp add: normalizeQuery_normal_form split: if_splits)
  then show ?thesis
    by (simp add: normal_form_only_spc normal_form_space_pairs normal_form_last)
qed

theorem normalizeQuery_spacing_witness:
  "only_spc ''a b'' \<and> successively space_pair ''a b'' \<and> last ''a b'' \<noteq> SPC"
proof -
  have "normalizeQuery ''a  b '' = Some ''a b''"
    by (simp add: normalizeQuery_normal_form normal_form_def strip_numbers_def num_prec_def
        is_digit_def byte_def sql_space_def schar_def trim_last_def tidy.simps before_close_def after_open_def
        fix_neg.simps is_delim_def neg_rest1_def neg_rest2_def)
  from normalizeQuery_spacing [OF this] show ?thesis by simp
qed

text \<open>Normalisation never lengthens a query, so a pattern fits where its query
  did.\<close>

theorem normalizeQuery_length:
  assumes "normalizeQuery q = Some p"
  shows "length p \<le> length q"
proof -
  have "p = normal_form q" using assms by (simp add: normalizeQuery_normal_form split: if_splits)
  then show ?thesis by (simp add: length_normal_form)
qed

theorem normalizeQuery_length_witness: "length ''a'' \<le> length ''a''"
proof (rule normalizeQuery_length)
  show "normalizeQuery ''a'' = Some ''a''"
    by (simp add: normalizeQuery_normal_form normal_form_def strip_numbers_def
        sql_space_def schar_def byte_def trim_last_def tidy.simps before_close_def after_open_def
        fix_neg.simps is_delim_def)
qed

end
