(* ===== verification/RiskEngine.thy ===== *)
theory RiskEngine
  imports StrMisc
begin

text \<open>
  The token checks of riskengine.cpp.  The \<open>std::regex\<close> patterns they search for are
  all of the form \<open>\bword\b\<close>, a character class, an anchored alternation or a chain of
  words; each is modelled by the matcher of that form (ECMAScript semantics: \<open>\b\<close> is a
  change between word and non-word characters, \<open>.\<close> excludes line terminators).
\<close>

section \<open>Regular expression matchers\<close>

definition is_word :: "char \<Rightarrow> bool" where
  "is_word c \<longleftrightarrow> is_digit c \<or> is_upper c \<or> is_lower c \<or> c = CHR ''_''"

definition starts_word :: "string \<Rightarrow> bool" where
  "starts_word s = (case s of [] \<Rightarrow> False | c # _ \<Rightarrow> is_word c)"

text \<open>\<open>\bw\b\<close> at the front of \<open>s\<close>, where \<open>pw\<close> says whether the character
  before is a word character; \<open>w\<close> is a nonempty lower-case word.\<close>

definition token_at :: "string \<Rightarrow> bool \<Rightarrow> string \<Rightarrow> bool" where
  "token_at w pw s \<longleftrightarrow> \<not> pw \<and> prefix_ci w s \<and> \<not> starts_word (drop (length w) s)"

fun token_search :: "string \<Rightarrow> bool \<Rightarrow> string \<Rightarrow> bool" where
  "token_search w pw [] = token_at w pw []"
| "token_search w pw (c # cs) = (token_at w pw (c # cs) \<or> token_search w (is_word c) cs)"

text \<open>\<open>\bw1\b.*\bw2\b...\<close>\<close>

fun chain_here :: "string list \<Rightarrow> bool \<Rightarrow> string \<Rightarrow> bool"
and chain_later :: "string list \<Rightarrow> bool \<Rightarrow> string \<Rightarrow> bool" where
  "chain_here [] pw s = True"
| "chain_here (w # ws) pw s =
     (token_at w pw s \<and> w \<noteq> [] \<and> (ws = [] \<or> chain_later ws True (drop (length w) s)))"
| "chain_later ws pw [] = chain_here ws pw []"
| "chain_later ws pw (c # cs) =
     (chain_here ws pw (c # cs) \<or> (c \<noteq> LF \<and> c \<noteq> CR \<and> chain_later ws (is_word c) cs))"

fun chain_search :: "string list \<Rightarrow> bool \<Rightarrow> string \<Rightarrow> bool" where
  "chain_search ws pw [] = chain_here ws pw []"
| "chain_search ws pw (c # cs) = (chain_here ws pw (c # cs) \<or> chain_search ws (is_word c) cs)"

section \<open>The checks\<close>

definition check_or_token :: "string \<Rightarrow> bool" where
  "check_or_token q = token_search ''or'' False q"

definition check_union_token :: "string \<Rightarrow> bool" where
  "check_union_token q = token_search ''union'' False q"

definition check_in_token :: "string \<Rightarrow> bool" where
  "check_in_token q = token_search ''in'' False q"

definition check_and_token :: "string \<Rightarrow> bool" where
  "check_and_token q = token_search ''and'' False q"

definition check_not_token :: "string \<Rightarrow> bool" where
  "check_not_token q = token_search ''not'' False q"

definition check_true_token :: "string \<Rightarrow> bool" where
  "check_true_token q = token_search ''true'' False q"

definition special_char :: "char \<Rightarrow> bool" where
  "special_char c \<longleftrightarrow> c = SQ \<or> c \<in> set ''_-+/=<>(),.?:|[]{}@#$%&!^''"

definition check_comments :: "string \<Rightarrow> bool" where
  "check_comments q = list_ex special_char q"

definition check_sensitive_table :: "string \<Rightarrow> bool" where
  "check_sensitive_table table = (if length table = 0 then False else True)"

text \<open>The two loops of \<open>check_sensitive_tables\<close> over its local \<open>list\<close>:
  every \<open>" join "\<close> becomes \<open>",  "\<close>, then the comma separated names are
  checked.  The search goes on from the position of the replacement, which holds a comma.\<close>

fun join_to_comma :: "nat \<Rightarrow> string \<Rightarrow> string" where
  "join_to_comma 0 list = list"
| "join_to_comma (Suc fuel) list =
     (case find_sub '' join '' list of
        None \<Rightarrow> list
      | Some start \<Rightarrow> join_to_comma fuel ((erase list (start + 1) 4)[start := CHR '','']))"

function sensitive_loop :: "string \<Rightarrow> nat \<Rightarrow> nat \<Rightarrow> bool + nat" where
  "sensitive_loop list start end =
     (case find_from (\<lambda>c. c = CHR '','') list end of
        None \<Rightarrow> Inr start
      | Some e \<Rightarrow>
          (let start' = (if at list start = SPC then start + 1 else start);
               table = (case find_from (\<lambda>c. c = SPC) list start' of
                          Some temp \<Rightarrow> if temp < e then substr list start' (temp - start')
                                       else substr list start' (e - start')
                        | None \<Rightarrow> substr list start' (e - start'))
           in if check_sensitive_table table then Inl True
              else sensitive_loop list (e + 1) (e + 1)))"
  by pat_completeness auto
termination
  by (relation "measure (\<lambda>(list, start, end). Suc (length list) - end)")
     (auto dest!: find_from_bounds)

declare sensitive_loop.simps [simp del]

definition check_sensitive_tables :: "string \<Rightarrow> string \<times> bool" where
  "check_sensitive_tables query =
     (let query' = str_lowercase query;
          list = join_to_comma (length ([] :: string)) [];
          verdict = (case sensitive_loop list 0 0 of
              Inl b \<Rightarrow> b
            | Inr start \<Rightarrow>
                if start < length list then
                  (let start' = (if at list start = SPC then start + 1 else start);
                       table = (case find_from (\<lambda>c. c = SPC) list start' of
                                  Some temp \<Rightarrow> substr list start' (temp - start')
                                | None \<Rightarrow> drop start' list)
                   in check_sensitive_table table)
                else False)
      in (query', verdict))"

text \<open>\<open>check_token\<close> lower-cases the query it is given, which its caller keeps.\<close>

definition check_token :: "string \<Rightarrow> string \<times> bool" where
  "check_token query =
     (let q = str_lowercase query in
      if check_comments q then (q, True)
      else if check_or_token q then (q, True)
      else if check_union_token q then (q, True)
      else (let (q', sens) = check_sensitive_tables q in
        if sens then (q', True)
        else if check_and_token q' then (q', True)
        else if check_in_token q' then (q', True)
        else if check_not_token q' then (q', True)
        else (q', False)))"

definition check_white_space :: "string \<Rightarrow> bool" where
  "check_white_space q = (find_from (\<lambda>c. c = SPC) q 0 \<noteq> None)"

definition sql_commands :: "string list" where
  "sql_commands = [''select'', ''delete'', ''update'', ''insert'', ''drop'', ''truncate'',
     ''create'', ''grant'', ''revoke'']"

definition check_command :: "string \<Rightarrow> bool" where
  "check_command q = list_ex (\<lambda>w. take (length w) q = w \<and>
     \<not> starts_word (drop (length w) q)) sql_commands"

definition check_grant :: "string \<Rightarrow> bool" where
  "check_grant q = chain_search [''grant'', ''on'', ''to''] False q"

definition check_revoke :: "string \<Rightarrow> bool" where
  "check_revoke q = chain_search [''revoke'', ''on'', ''from''] False q"

section \<open>What the checks decide\<close>

text \<open>The reference meaning of \<open>\bw\b\<close>: an occurrence of the word, in any case, that is
  not extended by a word character on either side.\<close>

definition occurs_token :: "string \<Rightarrow> string \<Rightarrow> bool" where
  "occurs_token w s \<longleftrightarrow> (\<exists>a m b. s = a @ m @ b \<and> map tolower m = w \<and>
     (a = [] \<or> \<not> is_word (last a)) \<and> \<not> starts_word b)"

lemma starts_word_simps [simp]: "\<not> starts_word []" "starts_word (c # s) = is_word c"
  by (simp_all add: starts_word_def)

lemma token_at_iff: "token_at w pw s \<longleftrightarrow>
    (\<exists>m b. s = m @ b \<and> map tolower m = w \<and> \<not> pw \<and> \<not> starts_word b)"
proof
  assume "token_at w pw s"
  then have "s = take (length w) s @ drop (length w) s"
    and "map tolower (take (length w) s) = w" and "\<not> pw"
    and "\<not> starts_word (drop (length w) s)"
    by (auto simp: token_at_def prefix_ci_def)
  then show "\<exists>m b. s = m @ b \<and> map tolower m = w \<and> \<not> pw \<and> \<not> starts_word b"
    by blast
next
  assume "\<exists>m b. s = m @ b \<and> map tolower m = w \<and> \<not> pw \<and> \<not> starts_word b"
  then show "token_at w pw s"
    by (auto simp: token_at_def prefix_ci_def)
qed

lemma token_search_iff: "token_search w pw s \<longleftrightarrow>
    (\<exists>a m b. s = a @ m @ b \<and> map tolower m = w \<and>
       (if a = [] then \<not> pw else \<not> is_word (last a)) \<and> \<not> starts_word b)"
proof (induction s arbitrary: pw)
  case Nil
  then show ?case by (auto simp: token_at_iff)
next
  case (Cons c s)
  show ?case (is "?L \<longleftrightarrow> (\<exists>a m b. ?Q a m b)")
  proof
    assume ?L
    then consider "token_at w pw (c # s)" | "token_search w (is_word c) s" by auto
    then show "\<exists>a m b. ?Q a m b"
    proof cases
      case 1
      then obtain m b where "c # s = [] @ m @ b" "map tolower m = w" "\<not> pw" "\<not> starts_word b"
        by (auto simp: token_at_iff)
      then have "?Q [] m b" by simp
      then show ?thesis by blast
    next
      case 2
      then obtain a m b where "s = a @ m @ b" "map tolower m = w"
        "if a = [] then \<not> is_word c else \<not> is_word (last a)" "\<not> starts_word b"
        using Cons.IH by blast
      then have "?Q (c # a) m b" by auto
      then show ?thesis by blast
    qed
  next
    assume "\<exists>a m b. ?Q a m b"
    then obtain a m b where q: "?Q a m b" by blast
    show ?L
    proof (cases a)
      case Nil
      with q have "token_at w pw (c # s)" by (auto simp: token_at_iff)
      then show ?thesis by simp
    next
      case (Cons d a')
      with q have "s = a' @ m @ b" "if a' = [] then \<not> is_word c else \<not> is_word (last a')"
        by (auto split: if_splits)
      with q have "token_search w (is_word c) s"
        by (subst Cons.IH) blast
      then show ?thesis by simp
    qed
  qed
qed

lemma token_search_occurs: "token_search w False s \<longleftrightarrow> occurs_token w s"
  unfolding token_search_iff occurs_token_def
  by (intro iff_exI conj_cong refl) simp

text \<open>The scan for the tables of a query tests a local list that is never filled, so it
  never reports a sensitive table: its only effect is to lower-case the query.\<close>

theorem check_sensitive_tables_never:
  "check_sensitive_tables q = (str_lowercase q, False)"
  by (simp add: check_sensitive_tables_def Let_def sensitive_loop.simps find_from_def)

text \<open>\<open>check_token\<close> lower-cases the query of its caller and reports a risk exactly
  when the lower-cased query holds a special character or one of the words or, union, and, in,
  not as a whole word: the early returns of the chain lose no case.\<close>

theorem check_token_decides:
  "check_token q = (str_lowercase q,
     (\<exists>c\<in>set (str_lowercase q). special_char c) \<or>
     (\<exists>w\<in>{''or'', ''union'', ''and'', ''in'', ''not''}. occurs_token w (str_lowercase q)))"
  by (auto simp: check_token_def Let_def check_sensitive_tables_def sensitive_loop.simps find_from_def
      check_comments_def check_or_token_def check_union_token_def check_and_token_def
      check_in_token_def check_not_token_def token_search_occurs list_ex_iff)

text \<open>A token check ignores case: it gives the same verdict on a query and on its
  lower-cased form.\<close>

theorem token_search_lowercase:
  "token_search w False (str_lowercase s) = token_search w False s"
proof -
  have iw: "is_word (tolower c) = is_word c" for c
    by (auto simp: is_word_def tolower_def is_digit_def is_upper_def is_lower_def byte_def)
  then have sw: "starts_word (map tolower t) = starts_word t" for t by (cases t) auto
  have pre: "prefix_ci w (map tolower t) = prefix_ci w t" for t
    by (simp add: prefix_ci_def take_map o_def)
  have tok: "token_at w pw (map tolower t) = token_at w pw t" for pw t
    using sw [of "drop (length w) t"] by (simp add: token_at_def pre drop_map)
  have "token_search w pw (map tolower t) = token_search w pw t" for pw t
  proof (induction t arbitrary: pw)
    case Nil
    show ?case by simp
  next
    case (Cons c t)
    have "token_search w pw (map tolower (c # t)) \<longleftrightarrow>
        token_at w pw (map tolower (c # t)) \<or> token_search w (is_word (tolower c)) (map tolower t)"
      by (simp only: list.map token_search.simps)
    also have "\<dots> \<longleftrightarrow> token_search w pw (c # t)"
      by (simp only: tok iw Cons.IH token_search.simps)
    finally show ?case .
  qed
  then show ?thesis by (simp add: str_lowercase_def)
qed

end
