(* ===== verification/DbLib.thy ===== *)
theory DbLib
  imports Prelude
begin

text \<open>
  The storage library lib/sql_api.c in its PostgreSQL build (\<open>HAVE_PGSQL_CLIENT\<close>, the
  default backend of the configuration): the functions \<open>sql_api.cpp\<close> loads with
  \<open>dlsym\<close>.  The server and libpq are the parameter \<open>server\<close>; its world
  type \<open>'w\<close> is the database.

  The library keeps one result of the last command, the global \<open>pgres_temp\<close>, whose
  life time the model tracks: \<open>PgFreed\<close> is a pointer that \<open>PQclear\<close> released and
  nobody reset.  Using it again sets the sticky flag \<open>ub\<close> (undefined behaviour).
\<close>

section \<open>The server and the library state\<close>

type_synonym row = "string list"

datatype exec_result =
    Exec_null
  | Bad_response
  | Empty_query
  | Command_ok nat
  | Tuples_ok "row list"

datatype pgptr = PgNull | PgLive exec_result | PgFreed

record 'w server =
  pq_exec :: "string \<Rightarrow> 'w \<Rightarrow> exec_result \<times> 'w"
  pq_connect :: "string \<Rightarrow> 'w \<Rightarrow> bool \<times> 'w"
  pq_escape :: "string \<Rightarrow> string"
  pq_error :: "'w \<Rightarrow> string"
  pq_finish :: "'w \<Rightarrow> 'w"

record 'w dblib =
  pgres_temp :: pgptr
  ub :: bool
  world :: 'w

text \<open>\<open>PQclear(pgres_temp)\<close>, which accepts a null pointer.\<close>

definition clear_temp :: "'w dblib \<Rightarrow> 'w dblib" where
  "clear_temp s = (case pgres_temp s of
       PgNull \<Rightarrow> s
     | PgLive r \<Rightarrow> s\<lparr>pgres_temp := PgFreed\<rparr>
     | PgFreed \<Rightarrow> s\<lparr>ub := True\<rparr>)"

text \<open>\<open>if (pgres_temp) { PQclear(pgres_temp); pgres_temp = NULL; }\<close>\<close>

definition reset_temp :: "'w dblib \<Rightarrow> 'w dblib" where
  "reset_temp s = (clear_temp s)\<lparr>pgres_temp := PgNull\<rparr>"

definition run_server :: "'w server \<Rightarrow> string \<Rightarrow> 'w dblib \<Rightarrow> exec_result \<times> 'w dblib" where
  "run_server srv q s = (let (r, w) = pq_exec srv (cstr q) (world s) in (r, s\<lparr>world := w\<rparr>))"

section \<open>The functions\<close>

text \<open>\<open>PQgetvalue\<close> returns the empty string for an SQL null.\<close>

definition cell :: "row \<Rightarrow> nat \<Rightarrow> string" where
  "cell r col = (if col < length r then r ! col else [])"

definition lib_db_col_int :: "row \<Rightarrow> nat \<Rightarrow> int" where
  "lib_db_col_int r col = atoi (cell r col)"

definition lib_db_col_long_long :: "row \<Rightarrow> nat \<Rightarrow> int" where
  "lib_db_col_long_long r col = atoi (cell r col)"

definition lib_db_col_text :: "row \<Rightarrow> nat \<Rightarrow> string" where
  "lib_db_col_text r col = cell r col"

text \<open>\<open>db_struct\<close> after a query is the list of the rows not yet fetched.\<close>

fun lib_db_fetch_row :: "row list \<Rightarrow> (row \<times> row list) option" where
  "lib_db_fetch_row [] = None"
| "lib_db_fetch_row (r # rs) = Some (r, rs)"

definition lib_db_escape_string :: "'w server \<Rightarrow> string \<Rightarrow> string" where
  "lib_db_escape_string srv str = pq_escape srv str"

text \<open>\<open>None\<close> is the return value 0.\<close>

definition lib_db_query :: "'w server \<Rightarrow> string \<Rightarrow> 'w dblib \<Rightarrow> row list option \<times> 'w dblib" where
  "lib_db_query srv q s =
     (let (r, s) = run_server srv q s in
      case r of
        Exec_null \<Rightarrow> (None, s)
      | Empty_query \<Rightarrow> (Some [], s)
      | Bad_response \<Rightarrow> (None, s)
      | Command_ok n \<Rightarrow> (Some [], s)
      | Tuples_ok rows \<Rightarrow> (Some rows, s))"

definition lib_db_exec :: "'w server \<Rightarrow> string \<Rightarrow> 'w dblib \<Rightarrow> int \<times> 'w dblib" where
  "lib_db_exec srv q s =
     (let (r, s) = run_server srv q (reset_temp s) in
      case r of
        Exec_null \<Rightarrow> (0, s\<lparr>pgres_temp := PgNull\<rparr>)
      | Bad_response \<Rightarrow> (1, s\<lparr>pgres_temp := PgNull\<rparr>)
      | _ \<Rightarrow> (1, s\<lparr>pgres_temp := PgLive r\<rparr>))"

definition lib_db_changes :: "'w dblib \<Rightarrow> int \<times> 'w dblib" where
  "lib_db_changes s = (case pgres_temp s of
       PgLive (Command_ok n) \<Rightarrow> (if n > 0 then 1 else 0, s)
     | PgFreed \<Rightarrow> (0, s\<lparr>ub := True\<rparr>)
     | _ \<Rightarrow> (0, s))"

definition lib_db_cleanup :: "'w dblib \<Rightarrow> 'w dblib" where
  "lib_db_cleanup s = reset_temp s"

text \<open>The old result is overwritten without being cleared; on the path without a row the
  new one is cleared and the pointer kept.\<close>

definition lib_db_permiss :: "'w server \<Rightarrow> string \<Rightarrow> 'w dblib \<Rightarrow> int \<times> 'w dblib" where
  "lib_db_permiss srv q s =
     (let (r, s) = run_server srv q s in
      case r of
        Exec_null \<Rightarrow> (0, s\<lparr>pgres_temp := PgNull\<rparr>)
      | Tuples_ok (row # rows) \<Rightarrow>
          (if cstr (cell row 0) = ''t'' then 1 else 0, s\<lparr>pgres_temp := PgLive r\<rparr>)
      | _ \<Rightarrow> (0, s\<lparr>pgres_temp := PgFreed\<rparr>))"

definition lib_db_backup :: "'w server \<Rightarrow> string \<Rightarrow> 'w dblib \<Rightarrow> int \<times> 'w dblib" where
  "lib_db_backup srv q s =
     (let (r, s) = run_server srv q s in
      case r of
        Exec_null \<Rightarrow> (0, s\<lparr>pgres_temp := PgNull\<rparr>)
      | Tuples_ok rows \<Rightarrow>
          (if length rows = 1 \<and> cstr (cell (hd rows) 0) = ''t''
           then (1, s\<lparr>pgres_temp := PgLive r\<rparr>) else (0, s\<lparr>pgres_temp := PgFreed\<rparr>))
      | _ \<Rightarrow> (1, s\<lparr>pgres_temp := PgNull\<rparr>))"

definition lib_db_close :: "'w server \<Rightarrow> 'w dblib \<Rightarrow> int \<times> 'w dblib" where
  "lib_db_close srv s = (1, s\<lparr>world := pq_finish srv (world s)\<rparr>)"

definition lib_db_load :: "'w server \<Rightarrow> string \<Rightarrow> string \<Rightarrow> string \<Rightarrow> string \<Rightarrow> int \<Rightarrow> 'w dblib \<Rightarrow> int \<times> 'w dblib" where
  "lib_db_load srv host user pass name port s =
     (let connectInfo = snprintf 10240 (''hostaddr = '' @ cstr host @ '' port = '' @ dec port @ '' dbname = ''
            @ cstr name @ '' user = '' @ cstr user @ '' password = '' @ cstr pass @ '' connect_timeout = 60'');
          (ok, w) = pq_connect srv connectInfo (world s)
      in (if ok then 1 else 0, s\<lparr>pgres_temp := PgNull, world := w\<rparr>))"

definition lib_db_error :: "'w server \<Rightarrow> 'w dblib \<Rightarrow> string" where
  "lib_db_error srv s = pq_error srv (world s)"

section \<open>Laws\<close>

named_theorems lib_simps \<open>effects of the library functions on its global result\<close>

lemma run_server_state [lib_simps]:
  "pgres_temp (snd (run_server srv q s)) = pgres_temp s" "ub (snd (run_server srv q s)) = ub s"
  by (simp_all add: run_server_def split: prod.splits)

lemma reset_temp_state [lib_simps]:
  "pgres_temp (reset_temp s) = PgNull" "ub (reset_temp s) = (ub s \<or> pgres_temp s = PgFreed)"
  "world (reset_temp s) = world s"
  by (simp_all add: reset_temp_def clear_temp_def split: pgptr.split)

text \<open>A query through a result handle of its own never touches the global result.\<close>

lemma lib_db_query_state [lib_simps]:
  "pgres_temp (snd (lib_db_query srv q s)) = pgres_temp s" "ub (snd (lib_db_query srv q s)) = ub s"
  using run_server_state [of srv q s]
  by (auto simp: lib_db_query_def Let_def split: prod.splits exec_result.splits)

text \<open>After a command the global result is null or live, and undefined behaviour occurs only
  if it was dangling before.\<close>

lemma lib_db_exec_state [lib_simps]:
  "pgres_temp (snd (lib_db_exec srv q s)) \<noteq> PgFreed"
  "ub (snd (lib_db_exec srv q s)) = (ub s \<or> pgres_temp s = PgFreed)"
  using run_server_state [of srv q "reset_temp s"]
  by (auto simp: lib_db_exec_def Let_def reset_temp_state split: prod.splits exec_result.splits)

lemma lib_db_exec_run:
  "fst (pq_exec srv (cstr q) (world s)) \<noteq> Exec_null \<Longrightarrow> \<exists>t. lib_db_exec srv q s =
     (1, \<lparr>pgres_temp = t, ub = (ub s \<or> pgres_temp s = PgFreed), world = snd (pq_exec srv (cstr q) (world s))\<rparr>)"
  by (cases s; cases "pq_exec srv (cstr q) (world s)"; cases "fst (pq_exec srv (cstr q) (world s))";
      cases "pgres_temp s")
     (simp_all add: lib_db_exec_def run_server_def reset_temp_def clear_temp_def)

lemma lib_db_changes_state [lib_simps]:
  "pgres_temp (snd (lib_db_changes s)) = pgres_temp s"
  "ub (snd (lib_db_changes s)) = (ub s \<or> pgres_temp s = PgFreed)"
  by (auto simp: lib_db_changes_def split: pgptr.splits exec_result.splits)

lemma lib_db_cleanup_state [lib_simps]:
  "pgres_temp (lib_db_cleanup s) = PgNull" "ub (lib_db_cleanup s) = (ub s \<or> pgres_temp s = PgFreed)"
  "world (lib_db_cleanup s) = world s"
  by (simp_all add: lib_db_cleanup_def lib_simps)

lemma lib_db_permiss_ub [lib_simps]: "ub (snd (lib_db_permiss srv q s)) = ub s"
  using run_server_state [of srv q s]
  by (auto simp: lib_db_permiss_def Let_def split: prod.splits exec_result.splits list.splits)

text \<open>A permission check leaves the global result usable only if the server answered it
  with a row, or not at all.\<close>

lemma lib_db_permiss_temp:
  "pgres_temp (snd (lib_db_permiss srv q s)) = PgFreed \<longleftrightarrow>
     fst (run_server srv q s) \<noteq> Exec_null \<and>
     (\<forall>row rows. fst (run_server srv q s) \<noteq> Tuples_ok (row # rows))"
  by (auto simp: lib_db_permiss_def Let_def split: prod.splits exec_result.splits list.splits)

lemma lib_db_permiss_true:
  "fst (lib_db_permiss srv q s) = 1 \<longleftrightarrow>
     (\<exists>row rows. fst (run_server srv q s) = Tuples_ok (row # rows) \<and> cstr (cell row 0) = ''t'')"
  by (auto simp: lib_db_permiss_def Let_def split: prod.splits exec_result.splits list.splits)

end
