(* ===== verification/SqlApi.thy ===== *)
theory SqlApi
  imports DbLib
begin

text \<open>
  The database interface of the proxy (sql_api.hpp, sql_api.cpp): function pointers filled
  from a shared library by \<open>db_init\<close>, and one guarded wrapper per pointer.  The
  dynamic loader is a parameter: \<open>dlopen\<close> says which paths can be opened, and
  \<open>dlsym h x\<close> whether the object \<open>h\<close> (\<open>None\<close> is the null handle) exports
  the symbol.  Behind a loaded pointer stands the function of \<open>DbLib\<close>.
\<close>

section \<open>State\<close>

datatype db_sym = Db_load | Db_exec | Db_col_int | Db_col_long_long | Db_col_text | Db_fetch_row
  | Db_escape_string | Db_query | Db_changes | Db_cleanup | Db_close | Db_error | Db_permiss | Db_backup

record sql_api =
  lib_handle :: "string option"
  ptr :: "db_sym \<Rightarrow> bool"

definition api_start :: sql_api where
  "api_start = \<lparr>lib_handle = None, ptr = (\<lambda>_. False)\<rparr>"

text \<open>What the components that talk to the database share: the loaded pointers and the
  server behind them.\<close>

record 'w env =
  api :: sql_api
  srv :: "'w server"

section \<open>Loading\<close>

definition sym_order :: "db_sym list" where
  "sym_order = [Db_load, Db_exec, Db_col_int, Db_col_long_long, Db_col_text, Db_fetch_row,
     Db_escape_string, Db_query, Db_changes, Db_cleanup, Db_close, Db_error, Db_permiss, Db_backup]"

text \<open>Each pointer is assigned before the error of its \<open>dlsym\<close> is tested.\<close>

fun load_syms :: "(db_sym \<Rightarrow> bool) \<Rightarrow> db_sym list \<Rightarrow> sql_api \<Rightarrow> sql_api \<times> int" where
  "load_syms dlsym [] a = (a, 1)"
| "load_syms dlsym (x # xs) a =
     (let a = a\<lparr>ptr := (ptr a)(x := dlsym x)\<rparr>
      in if \<not> dlsym x then (a, 0) else load_syms dlsym xs a)"

definition db_init :: "(string \<Rightarrow> bool) \<Rightarrow> (string option \<Rightarrow> db_sym \<Rightarrow> bool) \<Rightarrow> string \<Rightarrow> sql_api
    \<Rightarrow> sql_api \<times> int" where
  "db_init dlopen dlsym type a =
     (if type = ''mysql'' then
        (if dlopen ''/usr/lib/libgsql-mysql.so''
         then load_syms (dlsym (Some ''/usr/lib/libgsql-mysql.so'')) sym_order
                (a\<lparr>lib_handle := Some ''/usr/lib/libgsql-mysql.so''\<rparr>)
         else (a\<lparr>lib_handle := None\<rparr>, 0))
      else if type = ''pgsql'' then
        (if dlopen ''/usr/lib/libgsql-pgsql.so''
         then load_syms (dlsym (Some ''/usr/lib/libgsql-pgsql.so'')) sym_order
                (a\<lparr>lib_handle := Some ''/usr/lib/libgsql-pgsql.so''\<rparr>)
         else (a\<lparr>lib_handle := None\<rparr>, 0))
      else load_syms (dlsym (lib_handle a)) sym_order a)"

section \<open>The wrappers\<close>

definition db_col_int :: "'w env \<Rightarrow> row \<Rightarrow> nat \<Rightarrow> int" where
  "db_col_int E r col = (if ptr (api E) Db_col_int then lib_db_col_int r col else 0)"

definition db_col_long_long :: "'w env \<Rightarrow> row \<Rightarrow> nat \<Rightarrow> int" where
  "db_col_long_long E r col = (if ptr (api E) Db_col_long_long then lib_db_col_long_long r col else 0)"

text \<open>The null pointer of an unloaded \<open>db_col_text\<close> is read as the empty string.\<close>

definition db_col_text :: "'w env \<Rightarrow> row \<Rightarrow> nat \<Rightarrow> string" where
  "db_col_text E r col = (if ptr (api E) Db_col_text then lib_db_col_text r col else [])"

definition db_fetch_row :: "'w env \<Rightarrow> row list \<Rightarrow> (row \<times> row list) option" where
  "db_fetch_row E rows = (if ptr (api E) Db_fetch_row then lib_db_fetch_row rows else None)"

text \<open>The rows a loop \<open>while (db_fetch_row(&db))\<close> visits.\<close>

fun fetch_rows :: "'w env \<Rightarrow> row list \<Rightarrow> row list" where
  "fetch_rows E [] = []"
| "fetch_rows E (r # rs) =
     (case db_fetch_row E (r # rs) of None \<Rightarrow> [] | Some (r', rest) \<Rightarrow> r' # fetch_rows E rs)"

definition db_escape_string :: "'w env \<Rightarrow> string \<Rightarrow> string" where
  "db_escape_string E str = (if ptr (api E) Db_escape_string then lib_db_escape_string (srv E) str else [])"

text \<open>The size argument of the code is not used by the library.\<close>

definition db_query :: "'w env \<Rightarrow> string \<Rightarrow> nat \<Rightarrow> 'w dblib \<Rightarrow> row list option \<times> 'w dblib" where
  "db_query E q n s = (if ptr (api E) Db_query then lib_db_query (srv E) q s else (None, s))"

definition db_exec :: "'w env \<Rightarrow> string \<Rightarrow> 'w dblib \<Rightarrow> int \<times> 'w dblib" where
  "db_exec E q s = (if ptr (api E) Db_exec then lib_db_exec (srv E) q s else (0, s))"

definition db_changes :: "'w env \<Rightarrow> 'w dblib \<Rightarrow> int \<times> 'w dblib" where
  "db_changes E s = (if ptr (api E) Db_changes then lib_db_changes s else (0, s))"

definition db_cleanup :: "'w env \<Rightarrow> 'w dblib \<Rightarrow> 'w dblib" where
  "db_cleanup E s = (if ptr (api E) Db_cleanup then lib_db_cleanup s else s)"

definition db_close :: "'w env \<Rightarrow> 'w dblib \<Rightarrow> int \<times> 'w dblib" where
  "db_close E s = (if ptr (api E) Db_close then (1, snd (lib_db_close (srv E) s)) else (0, s))"

definition db_load :: "'w env \<Rightarrow> string \<Rightarrow> string \<Rightarrow> string \<Rightarrow> string \<Rightarrow> int \<Rightarrow> 'w dblib \<Rightarrow> int \<times> 'w dblib" where
  "db_load E host user pass name port s =
     (if ptr (api E) Db_load then lib_db_load (srv E) host user pass name port s else (0, s))"

definition db_error :: "'w env \<Rightarrow> 'w dblib \<Rightarrow> string option" where
  "db_error E s = (if ptr (api E) Db_error then Some (lib_db_error (srv E) s) else None)"

definition db_permiss :: "'w env \<Rightarrow> string \<Rightarrow> 'w dblib \<Rightarrow> int \<times> 'w dblib" where
  "db_permiss E q s = (if ptr (api E) Db_permiss then lib_db_permiss (srv E) q s else (0, s))"

definition db_backup :: "'w env \<Rightarrow> string \<Rightarrow> 'w dblib \<Rightarrow> int \<times> 'w dblib" where
  "db_backup E q s = (if ptr (api E) Db_backup then lib_db_backup (srv E) q s else (0, s))"

section \<open>Properties\<close>

lemma load_syms_ok:
  "snd (load_syms f xs a) = 1 \<longleftrightarrow> (\<forall>x\<in>set xs. f x)"
  by (induction f xs a rule: load_syms.induct) (auto simp: Let_def)

lemma load_syms_ptr:
  "snd (load_syms f xs a) = 1 \<Longrightarrow> x \<in> set xs \<or> ptr a x \<Longrightarrow> ptr (fst (load_syms f xs a)) x"
proof (induction f xs a rule: load_syms.induct)
  case (2 f y ys a)
  from 2(2) have y: "f y" and "snd (load_syms f ys (a\<lparr>ptr := (ptr a)(y := f y)\<rparr>)) = 1"
    by (auto simp: Let_def split: if_splits)
  with 2(1) [OF refl] 2(3) show ?case by (auto simp: Let_def)
qed simp

lemma sym_order_all: "x \<in> set sym_order"
  by (cases x) (simp_all add: sym_order_def)

lemma fetch_rows_loaded [simp]: "ptr (api E) Db_fetch_row \<Longrightarrow> fetch_rows E rows = rows"
  by (induction rows) (simp_all add: db_fetch_row_def)

lemma fetch_rows_unloaded [simp]: "\<not> ptr (api E) Db_fetch_row \<Longrightarrow> fetch_rows E rows = []"
  by (cases rows) (simp_all add: db_fetch_row_def)

definition lib_path :: "string \<Rightarrow> string" where
  "lib_path type = (if type = ''mysql'' then ''/usr/lib/libgsql-mysql.so'' else ''/usr/lib/libgsql-pgsql.so'')"

text \<open>\<open>db_init\<close> reports success for a known backend exactly when its library opens
  and exports all fourteen symbols; then no pointer is null, so no wrapper takes its null-pointer
  path.\<close>

theorem db_init_complete:
  assumes "type = ''mysql'' \<or> type = ''pgsql''"
  shows "(snd (db_init dlopen dlsym type a) = 1) = (dlopen (lib_path type) \<and> (\<forall>x. dlsym (Some (lib_path type)) x))
    \<and> (snd (db_init dlopen dlsym type a) = 1 \<longrightarrow> (\<forall>x. ptr (fst (db_init dlopen dlsym type a)) x))"
  using assms load_syms_ptr sym_order_all
  by (auto simp: db_init_def load_syms_ok lib_path_def split: if_splits)

theorem db_init_complete_witness:
  "ptr (fst (db_init (\<lambda>_. True) (\<lambda>h x. h \<noteq> None) ''pgsql'' api_start)) Db_backup \<and>
   snd (db_init (\<lambda>_. True) (\<lambda>h x. x \<noteq> Db_backup) ''pgsql'' api_start) \<noteq> 1"
  using db_init_complete [of "''pgsql''" "\<lambda>_. True" "\<lambda>h x. h \<noteq> None" api_start]
    db_init_complete [of "''pgsql''" "\<lambda>_. True" "\<lambda>h x. x \<noteq> Db_backup" api_start] by auto

end
