(* ===== verification/Config.thy ===== *)
theory Config
  imports StrMisc SqlApi
begin

text \<open>
  The configuration (config.hpp, config.cpp): the singleton \<open>GreenSQLConfig\<close>, its
  defaults, the line loop of \<open>load\<close> with its section dispatch, and the connection to the
  storage database.  Log output is not part of the state.
\<close>

section \<open>State\<close>

datatype DBProxyType = DBTypeMySQL | DBTypePGSQL

datatype backend_db = DB_MYSQL | DB_PGSQL

record GreenSQLConfig =
  bSupport :: bool
  bRunning :: bool
  re_block_level :: int
  re_warn_level :: int
  re_sql_comments :: int
  re_s_tables :: int
  re_or_token :: int
  re_union_token :: int
  re_var_cmp_var :: int
  re_always_true :: int
  re_empty_password :: int
  re_multiple_queries :: int
  re_bruteforce :: int
  log_level :: int
  log_file :: string
  file_alert :: string
  file_event :: string
  sDbType :: backend_db
  sDbHost :: string
  iDbPort :: int
  sDbName :: string
  sDbUser :: string
  sDbPass :: string

definition DEFAULT_MYSQL_PORT :: int where
  "DEFAULT_MYSQL_PORT = 3306"

text \<open>\<open>init()\<close> assigns every member the code reads.\<close>

definition config_init :: GreenSQLConfig where
  "config_init = \<lparr>
     bSupport = True, bRunning = True,
     re_block_level = 30, re_warn_level = 20, re_sql_comments = 30, re_s_tables = 10,
     re_or_token = 5, re_union_token = 5, re_var_cmp_var = 30, re_always_true = 30,
     re_empty_password = 30, re_multiple_queries = 30, re_bruteforce = 15,
     log_level = 3,
     log_file = ''/var/log/fagodb.log'', file_alert = ''/var/log/alert.log'',
     file_event = ''/var/log/event.log'',
     sDbType = DB_PGSQL, sDbHost = ''127.0.0.1'', iDbPort = DEFAULT_MYSQL_PORT,
     sDbName = ''greendb'', sDbUser = ''green'', sDbPass = ''SON123''\<rparr>"

section \<open>Settings\<close>

definition ParseDbType :: "string \<Rightarrow> backend_db" where
  "ParseDbType type =
     (if type = ''mysql'' then DB_MYSQL
      else if type = ''pgsql'' \<or> type = ''postgresql'' then DB_PGSQL
      else DB_MYSQL)"

definition parse_db_setting :: "string \<Rightarrow> string \<Rightarrow> GreenSQLConfig \<Rightarrow> GreenSQLConfig" where
  "parse_db_setting key value c =
     (if key = ''dbname'' then c\<lparr>sDbName := value\<rparr>
      else if key = ''dbuser'' then c\<lparr>sDbUser := value\<rparr>
      else if key = ''dbpass'' then c\<lparr>sDbPass := value\<rparr>
      else if key = ''dbhost'' then c\<lparr>sDbHost := value\<rparr>
      else if key = ''dbtype'' then
        (let c = c\<lparr>sDbType := ParseDbType value\<rparr>
         in if sDbType c = DB_PGSQL \<and> iDbPort c = DEFAULT_MYSQL_PORT then c\<lparr>iDbPort := 5432\<rparr> else c)
      else if key = ''dbport'' then c\<lparr>iDbPort := atoi (cstr value)\<rparr>
      else c)"

definition parse_re_setting :: "string \<Rightarrow> string \<Rightarrow> GreenSQLConfig \<Rightarrow> GreenSQLConfig" where
  "parse_re_setting key0 value c =
     (let key = str_lowercase key0; n = atoi (cstr value) in
      if key = ''block_level'' then c\<lparr>re_block_level := n\<rparr>
      else if key = ''warn_level'' then c\<lparr>re_warn_level := n\<rparr>
      else if key = ''risk_sql_comments'' then c\<lparr>re_sql_comments := n\<rparr>
      else if key = ''risk_senstivite_tables'' then c\<lparr>re_s_tables := n\<rparr>
      else if key = ''risk_or_token'' then c\<lparr>re_or_token := n\<rparr>
      else if key = ''risk_union_token'' then c\<lparr>re_union_token := n\<rparr>
      else if key = ''risk_var_cmp_var'' then c\<lparr>re_var_cmp_var := n\<rparr>
      else if key = ''risk_always_true'' then c\<lparr>re_always_true := n\<rparr>
      else if key = ''risk_empty_password'' then c\<lparr>re_empty_password := n\<rparr>
      else if key = ''risk_multiple_queries'' then c\<lparr>re_multiple_queries := n\<rparr>
      else if key = ''risk_bruteforce'' then c\<lparr>re_bruteforce := n\<rparr>
      else c)"

definition parse_log_setting :: "string \<Rightarrow> string \<Rightarrow> GreenSQLConfig \<Rightarrow> GreenSQLConfig" where
  "parse_log_setting key value c =
     (if key = ''loglevel'' then c\<lparr>log_level := atoi (cstr value)\<rparr>
      else if key = ''logfile'' then c\<lparr>log_file := value\<rparr>
      else if key = ''filealert'' then c\<lparr>file_alert := value\<rparr>
      else if key = ''fileevent'' then c\<lparr>file_event := value\<rparr>
      else c)"

section \<open>Loading\<close>

definition apply_setting :: "string \<Rightarrow> string \<Rightarrow> string \<Rightarrow> GreenSQLConfig \<Rightarrow> GreenSQLConfig" where
  "apply_setting section key value c =
     (if section = ''database'' then parse_db_setting key value c
      else if section = ''risk engine'' then parse_re_setting key value c
      else if section = ''logging'' then parse_log_setting key value c
      else c)"

text \<open>A section header: \<open>None\<close> when the bracket is missing or the name is empty.\<close>

definition section_name :: "string \<Rightarrow> string option" where
  "section_name line =
     (case find_from (\<lambda>c. c = CHR '']'') line 0 of
        None \<Rightarrow> None
      | Some end_section \<Rightarrow> if end_section = 1 then None else Some (substr line 1 (end_section - 1)))"

text \<open>The line loop of \<open>load\<close>; the flag is its return value.\<close>

fun load_lines :: "string list \<Rightarrow> string \<Rightarrow> GreenSQLConfig \<Rightarrow> GreenSQLConfig \<times> bool" where
  "load_lines [] section c = (c, True)"
| "load_lines (line0 # lines) section c =
     (if length line0 = 0 then load_lines lines section c
      else if at line0 0 = CHR ''#'' \<or> at line0 0 = CHR '';'' then load_lines lines section c
      else let line = TrimStr line0 in
        if at line 0 = CHR ''['' then
          (case section_name line of
             None \<Rightarrow> (c, False)
           | Some name \<Rightarrow> load_lines lines (str_lowercase name) c)
        else case ParseConfLine line of
            None \<Rightarrow> (c, False)
          | Some (key, value) \<Rightarrow>
              load_lines lines section (apply_setting section (str_lowercase key) value c))"

text \<open>\<open>files\<close> gives the contents of the files that can be opened.\<close>

definition config_load :: "(string \<Rightarrow> string option) \<Rightarrow> string \<Rightarrow> GreenSQLConfig \<Rightarrow> GreenSQLConfig \<times> bool" where
  "config_load files path c =
     (case files (cstr (path @ ''fagodb.conf'')) of
        None \<Rightarrow> (c, False)
      | Some text \<Rightarrow> load_lines (getlines text) [] config_init)"

definition load_db :: "(string \<Rightarrow> bool) \<Rightarrow> (string option \<Rightarrow> db_sym \<Rightarrow> bool) \<Rightarrow> GreenSQLConfig
    \<Rightarrow> 'w env \<Rightarrow> 'w dblib \<Rightarrow> bool \<times> 'w env \<times> 'w dblib" where
  "load_db dlopen dlsym c E s =
     (let (a, ok) = db_init dlopen dlsym (case sDbType c of DB_MYSQL \<Rightarrow> ''mysql'' | DB_PGSQL \<Rightarrow> ''pgsql'') (api E);
          E = E\<lparr>api := a\<rparr>
      in if ok = 0 then (False, E, s)
         else let (r, s) = db_load E (sDbHost c) (sDbUser c) (sDbPass c) (sDbName c) (iDbPort c) s
              in (r \<noteq> 0, E, s))"

definition close_db :: "'w env \<Rightarrow> 'w dblib \<Rightarrow> bool \<times> 'w dblib" where
  "close_db E s = (True, snd (db_close E s))"

text \<open>The singleton \<open>_obj\<close>.\<close>

definition config_getInstance :: "GreenSQLConfig option \<Rightarrow> GreenSQLConfig option \<times> GreenSQLConfig" where
  "config_getInstance obj = (case obj of None \<Rightarrow> (Some config_init, config_init) | Some c \<Rightarrow> (Some c, c))"

definition config_free :: "'w env \<Rightarrow> GreenSQLConfig option \<Rightarrow> 'w dblib \<Rightarrow> GreenSQLConfig option \<times> 'w dblib" where
  "config_free E obj s = (case obj of None \<Rightarrow> (None, s) | Some c \<Rightarrow> (None, snd (close_db E s)))"

section \<open>Properties\<close>

lemma load_lines_skip:
  "length l = 0 \<or> at l 0 = CHR ''#'' \<or> at l 0 = CHR '';'' \<Longrightarrow> load_lines (l # ls) sec c = load_lines ls sec c"
  by auto

text \<open>A line in which nothing is to be trimmed.\<close>

lemma find_last_idx_None: "find_last_idx P s = None \<longleftrightarrow> (\<forall>c\<in>set s. \<not> P c)"
  by (induction s) (auto split: option.splits)

lemma find_last_idx_last: "P x \<Longrightarrow> find_last_idx P (s @ [x]) = Some (length s)"
  by (induction s) auto

lemma TrimStr_id:
  assumes "s \<noteq> []" "CHR ''#'' \<notin> set s" "\<not> blank (hd s)" "\<not> blank (last s)"
  shows "TrimStr s = s"
proof -
  obtain t x where s: "s = t @ [x]" using assms(1) by (metis append_butlast_last_id)
  obtain y u where y: "s = y # u" using assms(1) by (cases s) auto
  have "find_from (\<lambda>c. c = CHR ''#'') s 0 = None"
    using assms(2) by (auto simp: find_from_def find_idx_None)
  moreover have "find_from (\<lambda>c. \<not> blank c) s 0 = Some 0"
    using assms(3) y by (simp add: find_from_def)
  moreover have "find_last_idx (\<lambda>c. \<not> (blank c \<or> c = CHR ''#'')) s = Some (length t)"
    unfolding s by (rule find_last_idx_last) (use assms(2,4) s in auto)
  ultimately show ?thesis by (simp add: TrimStr_def substr_def s)
qed

definition render_setting :: "string \<times> int \<Rightarrow> string" where
  "render_setting kv = fst kv @ '' = '' @ dec (snd kv)"

definition config_key :: "string \<Rightarrow> bool" where
  "config_key k \<longleftrightarrow> k \<noteq> [] \<and> (\<forall>c\<in>set k. key_char c)"

lemma dec_value_chars: "\<forall>c\<in>set (dec i). value_char c" "dec i \<noteq> []"
  using digits_of_digits by (auto simp: dec_def value_char_def)

lemma key_char_plain: "key_char c \<Longrightarrow> \<not> blank c \<and> c \<noteq> CHR ''#'' \<and> c \<noteq> CHR '';'' \<and> c \<noteq> CHR ''[''"
  by (auto simp: key_char_def blank_def is_lower_def is_upper_def byte_def)

lemma dec_chars: "c \<in> set (dec i) \<Longrightarrow> c = CHR ''-'' \<or> is_digit c"
  by (auto simp: dec_def dest: digits_of_digits split: if_splits)

lemma dec_plain: "c \<in> set (dec i) \<Longrightarrow> \<not> blank c \<and> c \<noteq> CHR ''#''"
  by (drule dec_chars) (auto simp: blank_def is_digit_def byte_def)

lemma render_setting_plain:
  assumes "config_key k"
  shows "TrimStr (render_setting (k, i)) = render_setting (k, i)"
proof (rule TrimStr_id)
  show "render_setting (k, i) \<noteq> []" by (simp add: render_setting_def)
  show "CHR ''#'' \<notin> set (render_setting (k, i))"
    using assms dec_plain [of "CHR ''#''" i] key_char_plain [of "CHR ''#''"]
    by (auto simp: render_setting_def config_key_def)
  show "\<not> blank (hd (render_setting (k, i)))"
    using assms key_char_plain [of "hd k"] by (auto simp: render_setting_def config_key_def)
  show "\<not> blank (last (render_setting (k, i)))"
    using dec_value_chars(2) [of i] dec_plain [of "last (dec i)" i] by (simp add: render_setting_def)
qed

lemma ParseConfLine_render:
  assumes "config_key k"
  shows "ParseConfLine (render_setting (k, i)) = Some (k, dec i)"
proof -
  have k: "takeWhile key_char (k @ CHR '' '' # CHR ''='' # CHR '' '' # dec i) = k"
    "dropWhile key_char (k @ CHR '' '' # CHR ''='' # CHR '' '' # dec i) = CHR '' '' # CHR ''='' # CHR '' '' # dec i"
    using assms by (auto simp: config_key_def intro!: takeWhile_all_then dropWhile_all_then)
  obtain x xs where x: "dec i = x # xs" using dec_value_chars(2) [of i] by (cases "dec i") auto
  have "\<not> sp_tab x" using dec_value_chars(1) [of i] x value_not_sp_tab [of x] by simp
  then have "dropWhile sp_tab (CHR '' '' # dec i) = dec i" using x by (simp add: sp_tab_def)
  moreover have tw: "takeWhile value_char (dec i) = dec i"
    using dec_value_chars(1) [of i] by (simp add: takeWhile_eq_all_conv)
  ultimately show ?thesis
    using k assms dec_value_chars(2) [of i]
    by (simp add: ParseConfLine_def Let_def render_setting_def sp_tab_def config_key_def tw)
qed

lemma load_lines_render:
  assumes "config_key k"
  shows "load_lines (render_setting (k, i) # ls) sec c =
    load_lines ls sec (apply_setting sec (str_lowercase k) (dec i) c)"
proof -
  obtain x xs where x: "k = x # xs" using assms by (cases k) (auto simp: config_key_def)
  have "at (render_setting (k, i)) 0 = x" by (simp add: render_setting_def x)
  moreover have "x \<noteq> CHR ''#'' \<and> x \<noteq> CHR '';'' \<and> x \<noteq> CHR ''[''"
    using assms x key_char_plain [of x] by (auto simp: config_key_def)
  moreover have "length (render_setting (k, i)) \<noteq> 0" by (simp add: render_setting_def)
  ultimately show ?thesis
    by (simp only: load_lines.simps render_setting_plain [OF assms] ParseConfLine_render [OF assms] Let_def)
       simp
qed



end
