(* ===== verification/DbPerm.thy ===== *)
theory DbPerm
  imports Config
begin

text \<open>
  The permissions of one protected database (dbpermobj.hpp, dbpermobj.cpp): permission bits,
  block status, the whitelist cache, and the SQL by which they talk to the storage database.
  \<open>unsigned int\<close> and \<open>long long\<close> members are words.
\<close>

section \<open>State\<close>

text \<open>The value \<open>(DBBlockStatus) status\<close> need not be one of the enumerators.\<close>

datatype DBBlockStatus = RISK_BLOCK | PRIVILEGE_BLOCK | RISK_SIMULATION | PRIVILEGE_SIMULATION
  | ALWAYS_BLOCK_NEW | LEARNING_MODE | LEARNING_MODE_3DAYS | LEARNING_MODE_7DAYS
  | Other_status "32 word"

definition block_status_of :: "32 word \<Rightarrow> DBBlockStatus" where
  "block_status_of n =
     (if n = 0 then RISK_BLOCK else if n = 1 then PRIVILEGE_BLOCK
      else if n = 2 then RISK_SIMULATION else if n = 3 then PRIVILEGE_SIMULATION
      else if n = 4 then ALWAYS_BLOCK_NEW else if n = 10 then LEARNING_MODE
      else if n = 11 then LEARNING_MODE_3DAYS else if n = 12 then LEARNING_MODE_7DAYS
      else Other_status n)"

datatype DBBlockLevel = WARN | BLOCKED | HIGH_RISK | LOW | SQL_ERROR

primrec block_level_int :: "DBBlockLevel \<Rightarrow> int" where
  "block_level_int WARN = 0"
| "block_level_int BLOCKED = 1"
| "block_level_int HIGH_RISK = 2"
| "block_level_int LOW = 3"
| "block_level_int SQL_ERROR = 4"

datatype DBPerms = CREATE_Q | DROP_Q | ALTER_Q | INFO_Q | BLOCK_Q | BRUTEFORCE_Q | GRANT_Q | REVOKE_Q

primrec perm_bits :: "DBPerms \<Rightarrow> 64 word" where
  "perm_bits CREATE_Q = 1"
| "perm_bits DROP_Q = 2"
| "perm_bits ALTER_Q = 4"
| "perm_bits INFO_Q = 8"
| "perm_bits BLOCK_Q = 16"
| "perm_bits BRUTEFORCE_Q = 32"
| "perm_bits GRANT_Q = 0"
| "perm_bits REVOKE_Q = 3"

record DBPermObj =
  db_name :: string
  perms :: "64 word"
  create_perm :: bool
  drop_perm :: bool
  alter_perm :: bool
  info_perm :: bool
  block_q_perm :: bool
  bruteforce_perm :: bool
  grant_perm :: bool
  revoke_perm :: bool
  block_status :: DBBlockStatus
  perm_proxy_id :: "32 word"
  exceptions :: "string \<rightharpoonup> int"

definition new_DBPermObj :: DBPermObj where
  "new_DBPermObj = \<lparr>db_name = ''default'', perms = 0, create_perm = False, drop_perm = False,
     alter_perm = False, info_perm = False, block_q_perm = False, bruteforce_perm = False,
     grant_perm = False, revoke_perm = False, block_status = RISK_BLOCK, perm_proxy_id = 0,
     exceptions = Map.empty\<rparr>"

section \<open>Operations\<close>

text \<open>\<open>perms & (int)X\<close> as a condition.\<close>

definition has_bits :: "64 word \<Rightarrow> DBPerms \<Rightarrow> bool" where
  "has_bits p b \<longleftrightarrow> and p (perm_bits b) \<noteq> 0"

definition DBPermObj_Init :: "string \<Rightarrow> 32 word \<Rightarrow> 64 word \<Rightarrow> 64 word \<Rightarrow> 32 word \<Rightarrow> DBPermObj \<Rightarrow> DBPermObj" where
  "DBPermObj_Init name id' p perms2 status o' =
     (let o' = o'\<lparr>db_name := name, perm_proxy_id := id', block_status := block_status_of status, perms := p\<rparr> in
      if p = 0 then o'
      else (let
        o' = (if has_bits p CREATE_Q then o'\<lparr>create_perm := True\<rparr> else o');
        o' = (if has_bits p DROP_Q then o'\<lparr>drop_perm := True\<rparr> else o');
        o' = (if has_bits p ALTER_Q then o'\<lparr>alter_perm := True\<rparr> else o');
        o' = (if has_bits p INFO_Q then o'\<lparr>info_perm := True\<rparr> else o');
        o' = (if has_bits p BLOCK_Q then o'\<lparr>block_q_perm := True\<rparr> else o');
        o' = (if has_bits p BRUTEFORCE_Q then o'\<lparr>bruteforce_perm := True\<rparr> else o');
        o' = (if has_bits p GRANT_Q then o'\<lparr>grant_perm := True\<rparr> else o');
        o' = (if has_bits p REVOKE_Q then o'\<lparr>revoke_perm := True\<rparr> else o')
        in o'))"

text \<open>\<open>CanCreate\<close> and its like are the field selectors.\<close>

definition whitelist_sql :: "DBPermObj \<Rightarrow> string" where
  "whitelist_sql o' = snprintf 1024 (''SELECT query, perm FROM query WHERE proxyid = '' @
     dec (sint (perm_proxy_id o')) @ '' AND db_name='' @ [SQ] @ cstr (db_name o') @ [SQ])"

text \<open>The row loop: \<open>map::insert\<close> keeps the first entry of a query.\<close>

fun whitelist_rows :: "'w env \<Rightarrow> row list \<Rightarrow> (string \<rightharpoonup> int) \<Rightarrow> (string \<rightharpoonup> int)" where
  "whitelist_rows E [] m = m"
| "whitelist_rows E (r # rs) m =
     (let perm = db_col_int E r 1; q_ex = cstr (db_col_text E r 0)
      in whitelist_rows E rs
           (if perm > 0 \<and> length q_ex > 0 \<and> m q_ex = None then m(q_ex \<mapsto> perm) else m))"

definition LoadWhitelist :: "'w env \<Rightarrow> DBPermObj \<Rightarrow> 'w dblib \<Rightarrow> bool \<times> DBPermObj \<times> 'w dblib" where
  "LoadWhitelist E o' s =
     (let (res, s) = db_query E (whitelist_sql o') 1024 s in
      case res of
        None \<Rightarrow> (False, o', db_cleanup E s)
      | Some rows \<Rightarrow>
          (True, o'\<lparr>exceptions := whitelist_rows E (fetch_rows E rows) Map.empty\<rparr>, db_cleanup E s))"

definition CheckWhitelist :: "DBPermObj \<Rightarrow> string \<Rightarrow> int" where
  "CheckWhitelist o' q = (case exceptions o' q of None \<Rightarrow> 0 | Some v \<Rightarrow> v)"

definition find_query_sql :: "DBPermObj \<Rightarrow> string \<Rightarrow> string" where
  "find_query_sql o' pattern = snprintf (length pattern + 1024)
     (''SELECT queryid FROM query WHERE proxyid = '' @ dec (sint (perm_proxy_id o')) @ '' and db_name = '' @
      [SQ] @ cstr (db_name o') @ [SQ] @ '' and query = '' @ [SQ] @ cstr pattern @ [SQ])"

definition insert_query_sql :: "DBPermObj \<Rightarrow> string \<Rightarrow> string" where
  "insert_query_sql o' pattern = snprintf (length pattern + 1024)
     (''INSERT into query (proxyid, perm, db_name, query) VALUES ('' @ dec (sint (perm_proxy_id o')) @ '',1,'' @
      [SQ] @ cstr (db_name o') @ [SQ] @ '','' @ [SQ] @ cstr pattern @ [SQ] @ '')'')"

definition AddToWhitelist :: "'w env \<Rightarrow> DBPermObj \<Rightarrow> string \<Rightarrow> string \<Rightarrow> 'w dblib \<Rightarrow> bool \<times> 'w dblib" where
  "AddToWhitelist E o' dbuser pattern s =
     (let (res, s) = db_query E (find_query_sql o' pattern) (length pattern + 1024) s in
      case res of
        None \<Rightarrow> (False, db_cleanup E s)
      | Some rows \<Rightarrow>
          (case db_fetch_row E rows of
             Some _ \<Rightarrow> (True, db_cleanup E s)
           | None \<Rightarrow>
               (let (r, s) = db_exec E (insert_query_sql o' pattern) s
                in (r \<noteq> 0, s))))"

definition privilege_sql :: "string \<Rightarrow> string \<Rightarrow> string" where
  "privilege_sql db_user query =
     (let query_db = str_lowercase query
      in ''SELECT has_table_privilege('' @ [SQ] @ db_user @ [SQ] @ '', '' @ [SQ] @ search_table query_db @ [SQ] @
         '', '' @ [SQ] @ search_per query_db @ [SQ] @ '');'')"

text \<open>When \<open>db_exec\<close> does not return 1 the function ends without a return statement,
  which is undefined behaviour.\<close>

definition check_user_permiss :: "'w env \<Rightarrow> string \<Rightarrow> string \<Rightarrow> 'w dblib \<Rightarrow> bool \<times> 'w dblib" where
  "check_user_permiss E db_user query s =
     (let tv = snprintf (length query + 1024) ''SELECT * FROM proxy'';
          (res, s) = db_query E tv (length query + 1024) s in
      case res of
        None \<Rightarrow> (False, db_cleanup E s)
      | Some rows \<Rightarrow>
          (let query_1 = privilege_sql db_user query;
               (r, s) = db_exec E query_1 s
           in if r = 1 then
                (let (p, s) = db_permiss E query_1 s
                 in if p = 1 then (True, s) else (False, s))
              else (False, s\<lparr>ub := True\<rparr>)))"

definition backup_sql :: "'w env \<Rightarrow> string \<Rightarrow> string \<Rightarrow> 'w dblib \<Rightarrow> bool \<times> 'w dblib" where
  "backup_sql E query db_user s =
     (let query1 = ''SELECT has_function_privilege('' @ [SQ] @ db_user @ [SQ] @ '', '' @ [SQ] @
            ''pg_catalog.set_config(text, text, boolean)'' @ [SQ] @ '', '' @ [SQ] @ ''EXECUTE'' @ [SQ] @ '');'';
          (r, s) = db_backup E query1 s
      in (r \<noteq> 0, s))"

section \<open>Properties\<close>

subsection \<open>Permission bits\<close>

lemma has_bits_bit:
  "has_bits p CREATE_Q = bit p 0" "has_bits p DROP_Q = bit p 1" "has_bits p ALTER_Q = bit p 2"
  "has_bits p INFO_Q = bit p 3" "has_bits p BLOCK_Q = bit p 4" "has_bits p BRUTEFORCE_Q = bit p 5"
  using and_exp_eq_0_iff_not_bit [of p 0] and_exp_eq_0_iff_not_bit [of p 1]
    and_exp_eq_0_iff_not_bit [of p 2] and_exp_eq_0_iff_not_bit [of p 3]
    and_exp_eq_0_iff_not_bit [of p 4] and_exp_eq_0_iff_not_bit [of p 5]
  by (simp_all add: has_bits_def)

lemma has_bits_grant: "\<not> has_bits p GRANT_Q"
  by (simp add: has_bits_def)

lemma has_bits_revoke: "has_bits p REVOKE_Q = (bit p 0 \<or> bit p 1)"
proof -
  have "(3 :: 64 word) = or (2 ^ 0) (2 ^ 1)" by simp
  then have "and p 3 = or (and p (2 ^ 0)) (and p (2 ^ 1))" by (simp only: bit.conj_disj_distrib)
  moreover have "(or a b = 0) = (a = 0 \<and> b = 0)" for a b :: "64 word" by (rule or_eq_0_iff)
  ultimately show ?thesis
    using and_exp_eq_0_iff_not_bit [of p 0] and_exp_eq_0_iff_not_bit [of p 1]
    by (simp add: has_bits_def)
qed

lemmas has_bits_simps = has_bits_bit has_bits_grant has_bits_revoke

text \<open>Reloading the permissions of a database only ever adds: after \<open>Init\<close> a flag
  is set exactly when it was set before or its bit is in the new mask, so a permission removed from
  the mask stays granted in the running proxy; the grant flag (mask 0) is never set by any mask,
  and the revoke flag (mask 3) is set by the create bit or the drop bit.\<close>

theorem Init_permissions:
  fixes o' name id' p perms2 status
  defines "o1 \<equiv> DBPermObj_Init name id' p perms2 status o'"
  shows "create_perm o1 = (create_perm o' \<or> bit p 0) \<and> drop_perm o1 = (drop_perm o' \<or> bit p 1) \<and>
    alter_perm o1 = (alter_perm o' \<or> bit p 2) \<and> info_perm o1 = (info_perm o' \<or> bit p 3) \<and>
    block_q_perm o1 = (block_q_perm o' \<or> bit p 4) \<and> bruteforce_perm o1 = (bruteforce_perm o' \<or> bit p 5) \<and>
    grant_perm o1 = grant_perm o' \<and> revoke_perm o1 = (revoke_perm o' \<or> bit p 0 \<or> bit p 1) \<and>
    perms o1 = p \<and> block_status o1 = block_status_of status"
  by (simp add: o1_def DBPermObj_Init_def Let_def has_bits_simps)

subsection \<open>The whitelist cache\<close>

definition row_query :: "'w env \<Rightarrow> row \<Rightarrow> string" where
  "row_query E r = cstr (db_col_text E r 0)"

lemma whitelist_rows_lookup:
  "q \<noteq> [] \<Longrightarrow> whitelist_rows E rs m q =
     (case m q of Some v \<Rightarrow> Some v
      | None \<Rightarrow> map_option (\<lambda>r. db_col_int E r 1) (find (\<lambda>r. row_query E r = q \<and> db_col_int E r 1 > 0) rs))"
  by (induction E rs m rule: whitelist_rows.induct)
     (auto simp: Let_def row_query_def split: option.splits)

text \<open>C30: after \<open>LoadWhitelist\<close> a lookup of a nonempty pattern returns the permission of
  the first row of the query table for that pattern with a positive permission, and 0 for every
  other pattern: the old cache is gone.\<close>

theorem LoadWhitelist_lookup:
  assumes "fst (db_query E (whitelist_sql o') 1024 s) = Some rows" "q \<noteq> []"
  shows "CheckWhitelist (fst (snd (LoadWhitelist E o' s))) q =
    (case find (\<lambda>r. row_query E r = q \<and> db_col_int E r 1 > 0) (fetch_rows E rows) of
       None \<Rightarrow> 0 | Some r \<Rightarrow> db_col_int E r 1)"
  using assms
  by (auto simp: LoadWhitelist_def CheckWhitelist_def Let_def whitelist_rows_lookup
      split: prod.splits option.splits)

definition demo_server :: "exec_result \<Rightarrow> unit server" where
  "demo_server r = \<lparr>pq_exec = (\<lambda>q w. (if q = ''SELECT * FROM proxy'' then Tuples_ok [] else r, w)),
     pq_connect = (\<lambda>c w. (True, w)), pq_escape = (\<lambda>s. s), pq_error = (\<lambda>w. []), pq_finish = (\<lambda>w. w)\<rparr>"

definition demo_env :: "exec_result \<Rightarrow> unit env" where
  "demo_env r = \<lparr>api = \<lparr>lib_handle = None, ptr = (\<lambda>_. True)\<rparr>, srv = demo_server r\<rparr>"

definition demo_lib :: "unit dblib" where
  "demo_lib = \<lparr>pgres_temp = PgNull, ub = False, world = ()\<rparr>"

lemmas demo_defs = demo_server_def demo_env_def demo_lib_def

lemma demo_whitelist_query:
  "fst (db_query (demo_env (Tuples_ok rows)) (whitelist_sql new_DBPermObj) 1024 demo_lib) = Some rows"
  by (simp add: db_query_def lib_db_query_def run_server_def Let_def demo_defs whitelist_sql_def snprintf_def cstr_def)

theorem LoadWhitelist_lookup_witness:
  "CheckWhitelist (fst (snd (LoadWhitelist (demo_env (Tuples_ok [[''a'', ''0''], [''a'', ''2''], [''a'', ''3'']]))
     new_DBPermObj demo_lib))) ''a'' = 2"
  unfolding LoadWhitelist_lookup [OF demo_whitelist_query, of "''a''", simplified]
  by (simp add: row_query_def db_col_int_def db_col_text_def lib_db_col_int_def lib_db_col_text_def cell_def
      demo_env_def cstr_def atoi_def c_isspace_def byte_def is_digit_def del: fetch_rows.simps)

subsection \<open>The privilege check\<close>

definition check_ready :: "'w env \<Rightarrow> string \<Rightarrow> string \<Rightarrow> bool" where
  "check_ready E db_user query \<longleftrightarrow>
     ptr (api E) Db_query \<and> ptr (api E) Db_exec \<and> ptr (api E) Db_permiss \<and>
     (\<forall>w. \<exists>rows w'. pq_exec (srv E) (cstr (snprintf (length query + 1024) ''SELECT * FROM proxy'')) w = (Tuples_ok rows, w'))"

definition privilege_answer :: "'w env \<Rightarrow> string \<Rightarrow> string \<Rightarrow> 'w \<Rightarrow> exec_result" where
  "privilege_answer E db_user query w = fst (pq_exec (srv E) (cstr (privilege_sql db_user query)) w)"

text \<open>One call of the check when the storage is reachable: two commands are run on the
  worlds \<open>w1\<close> and \<open>w2\<close>, and the second answer decides.\<close>

lemma check_user_permiss_run:
  assumes "check_ready E u q" "\<forall>w. privilege_answer E u q w \<noteq> Exec_null"
  shows "\<exists>w. check_user_permiss E u q s =
    (case privilege_answer E u q w of
       Tuples_ok (row # rows) \<Rightarrow>
         (cstr (cell row 0) = ''t'', \<lparr>pgres_temp = PgLive (Tuples_ok (row # rows)),
            ub = (ub s \<or> pgres_temp s = PgFreed), world = snd (pq_exec (srv E) (cstr (privilege_sql u q)) w)\<rparr>)
     | _ \<Rightarrow> (False, \<lparr>pgres_temp = PgFreed, ub = (ub s \<or> pgres_temp s = PgFreed),
            world = snd (pq_exec (srv E) (cstr (privilege_sql u q)) w)\<rparr>))"
proof -
  let ?p = "cstr (snprintf (length q + 1024) ''SELECT * FROM proxy'')" and ?q = "cstr (privilege_sql u q)"
  obtain rows w1 where r1: "pq_exec (srv E) ?p (world s) = (Tuples_ok rows, w1)"
    using assms(1) unfolding check_ready_def by blast
  obtain r2 w2 where r2: "pq_exec (srv E) ?q w1 = (r2, w2)" by (cases "pq_exec (srv E) ?q w1")
  obtain r3 w3 where r3: "pq_exec (srv E) ?q w2 = (r3, w3)" by (cases "pq_exec (srv E) ?q w2")
  have n: "r2 \<noteq> Exec_null" "r3 \<noteq> Exec_null"
    using assms(2) r2 r3 by (metis fst_conv privilege_answer_def)+
  have ptrs: "ptr (api E) Db_query" "ptr (api E) Db_exec" "ptr (api E) Db_permiss"
    using assms(1) by (simp_all add: check_ready_def)
  have q1: "db_query E (snprintf (length q + 1024) ''SELECT * FROM proxy'') (length q + 1024) s =
      (Some rows, s\<lparr>world := w1\<rparr>)"
    by (simp add: db_query_def ptrs lib_db_query_def run_server_def r1)
  obtain t where e2: "db_exec E (privilege_sql u q) (s\<lparr>world := w1\<rparr>) =
      (1, \<lparr>pgres_temp = t, ub = (ub s \<or> pgres_temp s = PgFreed), world = w2\<rparr>)"
    using n(1) lib_db_exec_run [of "srv E" "privilege_sql u q" "s\<lparr>world := w1\<rparr>"]
    by (auto simp: db_exec_def ptrs r2)
  have run: "check_user_permiss E u q s =
    (case r3 of
       Tuples_ok (row # rows) \<Rightarrow>
         (cstr (cell row 0) = ''t'', \<lparr>pgres_temp = PgLive (Tuples_ok (row # rows)),
            ub = (ub s \<or> pgres_temp s = PgFreed), world = w3\<rparr>)
     | _ \<Rightarrow> (False, \<lparr>pgres_temp = PgFreed, ub = (ub s \<or> pgres_temp s = PgFreed), world = w3\<rparr>))"
    using n(2)
    by (cases r3) (simp_all add: check_user_permiss_def Let_def q1 e2 db_permiss_def ptrs lib_db_permiss_def
        run_server_def r3 split: list.split)
  show ?thesis
    unfolding privilege_answer_def by (rule exI [of _ w2]) (simp only: run r3 fst_conv snd_conv)
qed

lemma check_user_permiss_answer:
  assumes "check_ready E u q" "\<forall>w. privilege_answer E u q w = a" "a \<noteq> Exec_null"
  shows "fst (check_user_permiss E u q s) =
    (\<exists>row rows. a = Tuples_ok (row # rows) \<and> cstr (cell row 0) = ''t'')"
proof -
  have "\<forall>w. privilege_answer E u q w \<noteq> Exec_null" using assms(2,3) by simp
  from check_user_permiss_run [OF assms(1) this, of s] show ?thesis
  proof (elim exE)
    fix w
    assume run: "check_user_permiss E u q s =
    (case privilege_answer E u q w of
       Tuples_ok (row # rows) \<Rightarrow>
         (cstr (cell row 0) = ''t'', \<lparr>pgres_temp = PgLive (Tuples_ok (row # rows)),
            ub = (ub s \<or> pgres_temp s = PgFreed), world = snd (pq_exec (srv E) (cstr (privilege_sql u q)) w)\<rparr>)
     | _ \<Rightarrow> (False, \<lparr>pgres_temp = PgFreed, ub = (ub s \<or> pgres_temp s = PgFreed),
            world = snd (pq_exec (srv E) (cstr (privilege_sql u q)) w)\<rparr>))"
    show ?thesis
      unfolding run using assms(2) by (cases a) (simp_all split: list.split)
  qed
qed

text \<open>C29: the privilege check, which decides every query that is not whitelisted, returns
  true exactly when the storage server answers \<open>t\<close> in the first row of the privilege query
  built from the user, the table and the statement kind found in the query.\<close>

theorem check_user_permiss_decides:
  assumes "check_ready E u q" "\<forall>w. privilege_answer E u q w = a" "a \<noteq> Exec_null"
  shows "fst (check_user_permiss E u q s) =
    (\<exists>row rows. a = Tuples_ok (row # rows) \<and> cstr (cell row 0) = ''t'')"
  by (rule check_user_permiss_answer [OF assms])

lemma demo_ready: "check_ready (demo_env r) u q"
  by (simp add: check_ready_def demo_defs snprintf_def cstr_def)

lemma privilege_sql_not_proxy: "cstr (privilege_sql u q) \<noteq> ''SELECT * FROM proxy''"
  by (simp add: privilege_sql_def Let_def cstr_def)

lemma demo_answer: "privilege_answer (demo_env r) u q w = r"
  using privilege_sql_not_proxy [of u q] by (simp add: privilege_answer_def demo_defs)

theorem check_user_permiss_decides_witness:
  "fst (check_user_permiss (demo_env (Tuples_ok [[''t'']])) ''green'' ''select * from info'' demo_lib) \<and>
   \<not> fst (check_user_permiss (demo_env (Tuples_ok [[''f'']])) ''green'' ''select * from info'' demo_lib)"
  using check_user_permiss_decides [OF demo_ready, of "Tuples_ok [[''t'']]" _ _ "Tuples_ok [[''t'']]" demo_lib]
    check_user_permiss_decides [OF demo_ready, of "Tuples_ok [[''f'']]" _ _ "Tuples_ok [[''f'']]" demo_lib]
  by (simp add: demo_answer cell_def cstr_def)

text \<open>C39: if the server rejects the privilege query (as it does when no known table or
  statement was found, or for an unknown role), the first check leaves the global result pointer
  dangling and the next one releases it again: undefined behaviour.\<close>

theorem check_user_permiss_double_free:
  assumes "check_ready E u q" "\<forall>w. privilege_answer E u q w = Bad_response"
  shows "ub (snd (check_user_permiss E u q (snd (check_user_permiss E u q s))))"
proof -
  have a: "\<forall>w. privilege_answer E u q w \<noteq> Exec_null" using assms(2) by simp
  have "pgres_temp (snd (check_user_permiss E u q s)) = PgFreed" for s
    using check_user_permiss_run [OF assms(1) a, of s] assms(2) by auto
  then show ?thesis
    using check_user_permiss_run [OF assms(1) a, of "snd (check_user_permiss E u q s)"] assms(2) by auto
qed

theorem check_user_permiss_double_free_witness:
  "ub (snd (check_user_permiss (demo_env Bad_response) ''green'' ''select 1''
     (snd (check_user_permiss (demo_env Bad_response) ''green'' ''select 1'' demo_lib))))"
  by (rule check_user_permiss_double_free [OF demo_ready]) (simp add: demo_answer)

end
