(* ===== verification/KeyedMap.thy ===== *)
theory KeyedMap
  imports Prelude
begin

text \<open>
  The interface of the caches of the program that are \<open>std::map\<close> over a string key
  built from several fields: the key of two valid field tuples is the same only if the tuples
  are.  The clients reason about lookups and updates by fields.
\<close>

locale keyed_map =
  fixes valid :: "'k \<Rightarrow> bool"
    and key :: "'k \<Rightarrow> string"
  assumes key_inj: "valid a \<Longrightarrow> valid b \<Longrightarrow> key a = key b \<Longrightarrow> a = b"
begin

lemma lookup_update:
  "valid a \<Longrightarrow> valid b \<Longrightarrow> (m(key a \<mapsto> v)) (key b) = (if a = b then Some v else m (key b))"
  by (auto dest: key_inj)

lemma lookup_same: "(m(key a \<mapsto> v)) (key a) = Some v"
  by simp

lemma lookup_other: "valid a \<Longrightarrow> valid b \<Longrightarrow> a \<noteq> b \<Longrightarrow> (m(key a \<mapsto> v)) (key b) = m (key b)"
  by (subst lookup_update) simp_all

lemma update_commute:
  "valid a \<Longrightarrow> valid b \<Longrightarrow> a \<noteq> b \<Longrightarrow> m(key a \<mapsto> v, key b \<mapsto> w) = m(key b \<mapsto> w, key a \<mapsto> v)"
  by (auto dest: key_inj intro!: fun_upd_twist)

end

text \<open>Splitting a text at its first comma.\<close>

lemma comma_split:
  assumes "CHR '','' \<notin> set a" "CHR '','' \<notin> set b" "a @ '','' @ x = b @ '','' @ y"
  shows "a = b \<and> x = y"
  using assms
proof (induction a arbitrary: b)
  case Nil
  then show ?case by (cases b) auto
next
  case (Cons c a)
  then show ?case by (cases b) auto
qed

end
