(* ===== verification/DbMap.thy ===== *)
theory DbMap
  imports DbPerm KeyedMap
begin

text \<open>
  The map from a proxy and a database name to its permission object (dbmap.hpp, dbmap.cpp).
  Connections keep pointers to the objects, so they live in a heap: \<open>dbs\<close> and
  \<open>default_db\<close> hold addresses, \<open>new\<close> allocates a fresh one and \<open>delete\<close>
  removes it.  \<open>dbs\<close> is an association list; entries are added only for absent keys.
\<close>

section \<open>State\<close>

type_synonym addr = nat

record dbmap =
  dbs :: "(string \<times> addr) list"
  default_db :: "addr option"
  heap :: "addr \<rightharpoonup> DBPermObj"
  next_addr :: addr

definition dbmap_start :: dbmap where
  "dbmap_start = \<lparr>dbs = [], default_db = None, heap = Map.empty, next_addr = 0\<rparr>"

definition q_db :: string where
  "q_db = ''SELECT db_perm.dbpid, proxy.proxyid, db_perm.db_name, db_perm.perms, db_perm.perms2, db_perm.status, proxy.dbtype FROM db_perm, proxy WHERE proxy.proxyid=db_perm.proxyid''"

definition q_default_db :: string where
  "q_default_db = ''SELECT dbpid, proxyid, db_name, perms, perms2, status, sysdbtype FROM db_perm where proxyid=0''"

definition q_learning3 :: "backend_db \<Rightarrow> string" where
  "q_learning3 t = (case t of
     DB_MYSQL \<Rightarrow> ''UPDATE db_perm SET status = 4 WHERE status = 11 AND now() > status_changed + INTERVAL 3 day''
   | DB_PGSQL \<Rightarrow> ''UPDATE db_perm SET status = 4 WHERE status = 11 AND now() > status_changed + INTERVAL '' @ [SQ] @ ''3 day'' @ [SQ])"

definition q_learning7 :: "backend_db \<Rightarrow> string" where
  "q_learning7 t = (case t of
     DB_MYSQL \<Rightarrow> ''UPDATE db_perm SET status = 4 WHERE status = 12 AND now() > status_changed + INTERVAL 7 day''
   | DB_PGSQL \<Rightarrow> ''UPDATE db_perm SET status = 4 WHERE status = 11 AND now() > status_changed + INTERVAL '' @ [SQ] @ ''7 day'' @ [SQ])"

section \<open>Lookup\<close>

definition db_key :: "int \<Rightarrow> string \<Rightarrow> string" where
  "db_key proxy_id name = itoa proxy_id @ '','' @ name"

definition dbmap_default :: "dbmap \<Rightarrow> int \<Rightarrow> string \<Rightarrow> addr option" where
  "dbmap_default m proxy_id db_type =
     (let key = (if db_type = ''mysql'' then ''empty_mysql''
                 else if db_type = ''pgsql'' then ''default_pgsql'' else [])
      in case map_of (dbs m) key of Some db \<Rightarrow> Some db | None \<Rightarrow> default_db m)"

text \<open>For another database type the key of the first lookup is searched again.\<close>

definition dbmap_find :: "dbmap \<Rightarrow> int \<Rightarrow> string \<Rightarrow> string \<Rightarrow> addr option" where
  "dbmap_find m proxy_id name db_type =
     (let key = db_key proxy_id name in
      case map_of (dbs m) key of
        Some db \<Rightarrow> Some db
      | None \<Rightarrow>
          (let key = (if db_type = ''mysql'' then
                        (if length name = 0 then ''empty_mysql'' else ''default_mysql'')
                      else if db_type = ''pgsql'' then ''default_pgsql'' else key)
           in case map_of (dbs m) key of Some db \<Rightarrow> Some db | None \<Rightarrow> default_db m))"

section \<open>Reloading\<close>

text \<open>Find or create the object of a key, set its permissions and load its whitelist.\<close>

definition dbmap_put :: "'w env \<Rightarrow> string \<Rightarrow> string \<Rightarrow> 32 word \<Rightarrow> 64 word \<Rightarrow> 64 word \<Rightarrow> 32 word
    \<Rightarrow> dbmap \<Rightarrow> 'w dblib \<Rightarrow> dbmap \<times> 'w dblib" where
  "dbmap_put E key name id' p p2 status m s =
     (case map_of (dbs m) key of
        None \<Rightarrow>
          (let db = DBPermObj_Init name id' p p2 status new_DBPermObj;
               (ok, db, s) = LoadWhitelist E db s;
               a = next_addr m
           in (m\<lparr>heap := (heap m)(a \<mapsto> db), next_addr := Suc a, dbs := (key, a) # dbs m\<rparr>, s))
      | Some a \<Rightarrow>
          (let db = DBPermObj_Init name id' p p2 status (the (heap m a));
               (ok, db, s) = LoadWhitelist E db s
           in (m\<lparr>heap := (heap m)(a \<mapsto> db)\<rparr>, s)))"

text \<open>The row of a database: its proxy id is read and then overwritten by 1.\<close>

definition put_db_row :: "'w env \<Rightarrow> row \<Rightarrow> dbmap \<Rightarrow> 'w dblib \<Rightarrow> dbmap \<times> 'w dblib" where
  "put_db_row E r m s =
     (let proxy_id = 1 :: 32 word;
          name = cstr (db_col_text E r 2)
      in dbmap_put E (db_key (sint proxy_id) name) name proxy_id
           (word_of_int (db_col_long_long E r 3)) (word_of_int (db_col_long_long E r 4))
           (word_of_int (db_col_int E r 5)) m s)"

definition put_default_row :: "'w env \<Rightarrow> row \<Rightarrow> dbmap \<Rightarrow> 'w dblib \<Rightarrow> dbmap \<times> 'w dblib" where
  "put_default_row E r m s =
     (let proxy_id = word_of_int (db_col_int E r 1);
          db_type = cstr (db_col_text E r 6);
          name = (if db_type = ''empty_mysql'' then [] else db_type)
      in dbmap_put E db_type name proxy_id
           (word_of_int (db_col_long_long E r 3)) (word_of_int (db_col_long_long E r 4))
           (word_of_int (db_col_int E r 5)) m s)"

fun put_rows :: "(row \<Rightarrow> dbmap \<Rightarrow> 'w dblib \<Rightarrow> dbmap \<times> 'w dblib) \<Rightarrow> row list \<Rightarrow> dbmap \<Rightarrow> 'w dblib
    \<Rightarrow> dbmap \<times> 'w dblib" where
  "put_rows f [] m s = (m, s)"
| "put_rows f (r # rs) m s = (let (m, s) = f r m s in put_rows f rs m s)"

definition dbmap_reload :: "'w env \<Rightarrow> backend_db \<Rightarrow> dbmap \<Rightarrow> 'w dblib \<Rightarrow> bool \<times> dbmap \<times> 'w dblib" where
  "dbmap_reload E t m s =
     (let (r3, s) = db_exec E (q_learning3 t) s in
      if r3 = 0 then (False, m, s)
      else let (r7, s) = db_exec E (q_learning7 t) s in
        if r7 = 0 then (False, m, s)
        else let (res, s) = db_query E q_db 256 s in
          case res of
            None \<Rightarrow> (False, m, db_cleanup E s)
          | Some rows \<Rightarrow>
              (let (m, s) = put_rows (put_db_row E) (fetch_rows E rows) m s;
                   s = db_cleanup E s;
                   (res, s) = db_query E q_default_db 256 s
               in case res of
                    None \<Rightarrow> (False, m, db_cleanup E s)
                  | Some rows \<Rightarrow>
                      (let (m, s) = put_rows (put_default_row E) (fetch_rows E rows) m s
                       in (True, m, db_cleanup E s))))"

definition dbmap_init :: "'w env \<Rightarrow> backend_db \<Rightarrow> dbmap \<Rightarrow> 'w dblib \<Rightarrow> bool \<times> dbmap \<times> 'w dblib" where
  "dbmap_init E t m s =
     (let a = next_addr m;
          m = m\<lparr>heap := (heap m)(a \<mapsto> new_DBPermObj), next_addr := Suc a, default_db := Some a\<rparr>;
          (ok, m, s) = dbmap_reload E t m s
      in (dbs m \<noteq> [], m, s))"

text \<open>Every object of the map and the default object are deleted.\<close>

definition dbmap_close :: "dbmap \<Rightarrow> bool \<times> dbmap" where
  "dbmap_close m =
     (True, m\<lparr>heap := (\<lambda>a. if a \<in> snd ` set (dbs m) \<or> default_db m = Some a then None else heap m a),
              dbs := [], default_db := None\<rparr>)"

section \<open>Properties\<close>

subsection \<open>Keys\<close>

lemma db_key_inj: "db_key p n = db_key q n' \<Longrightarrow> p = q \<and> n = n'"
  using comma_split [OF dec_no_comma dec_no_comma, of p n q n'] by (simp add: db_key_def itoa_def)

interpretation dbkey: keyed_map "\<lambda>k. True" "\<lambda>(p, n). db_key p n"
  by unfold_locales (auto dest: db_key_inj)

subsection \<open>Well-formed maps\<close>

text \<open>Every pointer of the map and the default pointer is allocated, below the allocation
  mark, and no two of them are the same object.\<close>

definition pointers :: "dbmap \<Rightarrow> addr list" where
  "pointers m = (case default_db m of None \<Rightarrow> [] | Some a \<Rightarrow> [a]) @ map snd (dbs m)"

definition dbmap_wf :: "dbmap \<Rightarrow> bool" where
  "dbmap_wf m \<longleftrightarrow> distinct (map fst (dbs m)) \<and> distinct (pointers m) \<and>
     (\<forall>a\<in>set (pointers m). a < next_addr m \<and> heap m a \<noteq> None)"

text \<open>The map \<open>m'\<close> keeps every pointer a connection can hold.\<close>

definition extends :: "dbmap \<Rightarrow> dbmap \<Rightarrow> bool" where
  "extends m m' \<longleftrightarrow> (\<forall>k a. map_of (dbs m) k = Some a \<longrightarrow> map_of (dbs m') k = Some a) \<and>
     default_db m' = default_db m \<and> (\<forall>a. heap m a \<noteq> None \<longrightarrow> heap m' a \<noteq> None) \<and>
     next_addr m \<le> next_addr m'"

lemma extends_refl [simp]: "extends m m"
  by (simp add: extends_def)

lemma extends_trans: "extends a b \<Longrightarrow> extends b c \<Longrightarrow> extends a c"
  unfolding extends_def by (metis le_trans)

lemma dbmap_put_cases:
  obtains (new) db where "map_of (dbs m) key = None"
      "fst (dbmap_put E key name i p p2 st m s) =
         m\<lparr>heap := (heap m)(next_addr m \<mapsto> db), next_addr := Suc (next_addr m), dbs := (key, next_addr m) # dbs m\<rparr>"
  | (old) a db where "map_of (dbs m) key = Some a"
      "fst (dbmap_put E key name i p p2 st m s) = m\<lparr>heap := (heap m)(a \<mapsto> db)\<rparr>"
proof (cases "map_of (dbs m) key")
  case None
  then show ?thesis
    by (intro new [of "fst (snd (LoadWhitelist E (DBPermObj_Init name i p p2 st new_DBPermObj) s))"])
       (simp_all add: dbmap_put_def Let_def split_beta)
next
  case (Some a)
  then show ?thesis
    by (intro old [of a "fst (snd (LoadWhitelist E (DBPermObj_Init name i p p2 st (the (heap m a))) s))"])
       (simp_all add: dbmap_put_def Let_def split_beta)
qed

lemma dbmap_put_keeps:
  assumes "dbmap_wf m"
  shows "dbmap_wf (fst (dbmap_put E key name i p p2 st m s)) \<and>
    extends m (fst (dbmap_put E key name i p p2 st m s))"
proof (cases rule: dbmap_put_cases [of m key E name i p p2 st s])
  case (new db)
  have "key \<notin> set (map fst (dbs m))" using new(1) by (simp add: map_of_eq_None_iff)
  moreover from this have "\<And>a. (key, a) \<notin> set (dbs m)" by force
  moreover have "next_addr m \<notin> set (pointers m)" using assms by (auto simp: dbmap_wf_def)
  ultimately show ?thesis
    using assms unfolding new(2)
    by (auto simp: dbmap_wf_def extends_def pointers_def less_Suc_eq split: option.splits)
next
  case (old a db)
  then show ?thesis using assms
    by (auto simp: dbmap_wf_def extends_def pointers_def split: option.splits)
qed

lemma put_rows_keeps:
  assumes "\<And>r m s. dbmap_wf m \<Longrightarrow> dbmap_wf (fst (f r m s)) \<and> extends m (fst (f r m s))"
  shows "dbmap_wf m \<Longrightarrow> dbmap_wf (fst (put_rows f rs m s)) \<and> extends m (fst (put_rows f rs m s))"
proof (induction rs arbitrary: m s)
  case (Cons r rs)
  obtain m1 s1 where 1: "f r m s = (m1, s1)" by (cases "f r m s")
  have "dbmap_wf m1 \<and> extends m m1" using assms [OF Cons.prems, of r s] by (simp add: 1)
  with Cons.IH [of m1 s1] show ?case by (auto simp: 1 intro: extends_trans)
qed simp

lemma dbmap_reload_map:
  obtains "fst (snd (dbmap_reload E t m s)) = m"
  | rs s1 where "fst (snd (dbmap_reload E t m s)) = fst (put_rows (put_db_row E) rs m s1)"
  | rs s1 rs' s2 where "fst (snd (dbmap_reload E t m s)) =
      fst (put_rows (put_default_row E) rs' (fst (put_rows (put_db_row E) rs m s1)) s2)"
proof (cases "dbmap_reload E t m s")
  case (fields ok m' s')
  then show ?thesis
    using that unfolding dbmap_reload_def Let_def
    by (auto split: prod.splits if_splits option.splits) (metis fst_conv)+
qed

lemma put_row_keeps:
  "dbmap_wf m \<Longrightarrow> dbmap_wf (fst (put_db_row E r m s)) \<and> extends m (fst (put_db_row E r m s))"
  "dbmap_wf m \<Longrightarrow> dbmap_wf (fst (put_default_row E r m s)) \<and> extends m (fst (put_default_row E r m s))"
  unfolding put_db_row_def put_default_row_def Let_def by (simp_all add: dbmap_put_keeps)

lemma dbmap_reload_ok:
  assumes "dbmap_wf m"
  shows "dbmap_wf (fst (snd (dbmap_reload E t m s))) \<and> extends m (fst (snd (dbmap_reload E t m s)))"
proof (cases rule: dbmap_reload_map [of E t m s])
  case 1
  with assms show ?thesis by simp
next
  case (2 rs s1)
  with put_rows_keeps [of "put_db_row E", OF put_row_keeps(1) assms] show ?thesis by simp
next
  case (3 rs s1 rs' s2)
  have a: "dbmap_wf (fst (put_rows (put_db_row E) rs m s1)) \<and> extends m (fst (put_rows (put_db_row E) rs m s1))"
    by (rule put_rows_keeps [of "put_db_row E", OF put_row_keeps(1) assms])
  with put_rows_keeps [of "put_default_row E", OF put_row_keeps(2), of "fst (put_rows (put_db_row E) rs m s1)"]
  show ?thesis unfolding 3 by (blast intro: extends_trans)
qed

text \<open>C27: a reload, which runs in the timer while connections hold pointers to permission
  objects, keeps the map well formed and never moves, frees or replaces an object: every
  pointer found before is found for the same key afterwards and is still allocated, on every
  error path too.\<close>

theorem dbmap_reload_keeps_pointers:
  assumes "dbmap_wf m"
  shows "dbmap_wf (fst (snd (dbmap_reload E t m s))) \<and> extends m (fst (snd (dbmap_reload E t m s)))"
  using assms by (rule dbmap_reload_ok)

lemma dbmap_start_wf: "dbmap_wf dbmap_start"
  by (simp add: dbmap_wf_def dbmap_start_def pointers_def)

theorem dbmap_reload_keeps_pointers_witness:
  "dbmap_wf (fst (snd (dbmap_reload (demo_env (Tuples_ok [])) DB_PGSQL dbmap_start demo_lib)))"
  using dbmap_reload_keeps_pointers [OF dbmap_start_wf] by blast

subsection \<open>Lookups after an update\<close>

lemma LoadWhitelist_fields:
  "db_name (fst (snd (LoadWhitelist E o' s))) = db_name o'"
  "perms (fst (snd (LoadWhitelist E o' s))) = perms o'"
  "block_status (fst (snd (LoadWhitelist E o' s))) = block_status o'"
  by (auto simp: LoadWhitelist_def Let_def split: prod.splits option.splits)

lemma Init_fields:
  "db_name (DBPermObj_Init n i p p2 st o') = n"
  "perms (DBPermObj_Init n i p p2 st o') = p"
  "block_status (DBPermObj_Init n i p p2 st o') = block_status_of st"
  by (simp_all add: DBPermObj_Init_def Let_def)

lemma dbmap_put_spec:
  "\<exists>a o'. map_of (dbs (fst (dbmap_put E key name i p p2 st m s))) = (map_of (dbs m))(key \<mapsto> a) \<and>
     default_db (fst (dbmap_put E key name i p p2 st m s)) = default_db m \<and>
     heap (fst (dbmap_put E key name i p p2 st m s)) a = Some o' \<and>
     db_name o' = name \<and> perms o' = p \<and> block_status o' = block_status_of st"
proof (cases "map_of (dbs m) key")
  case None
  then show ?thesis
    by (intro exI [of _ "next_addr m"]
        exI [of _ "fst (snd (LoadWhitelist E (DBPermObj_Init name i p p2 st new_DBPermObj) s))"])
       (simp add: dbmap_put_def Let_def split_beta LoadWhitelist_fields Init_fields)
next
  case (Some a)
  then show ?thesis
    by (intro exI [of _ a]
        exI [of _ "fst (snd (LoadWhitelist E (DBPermObj_Init name i p p2 st (the (heap m a))) s))"])
       (auto simp: dbmap_put_def Let_def split_beta LoadWhitelist_fields Init_fields fun_eq_iff)
qed

lemma db_key_comma: "CHR '','' \<in> set (db_key p n)"
  by (simp add: db_key_def)

lemma db_key_not_default:
  "db_key p n \<noteq> ''empty_mysql''" "db_key p n \<noteq> ''default_mysql''" "db_key p n \<noteq> ''default_pgsql''"
  using db_key_comma [of p n] by auto

text \<open>A lookup depends on the map only at its own key and the three default keys.\<close>

lemma dbmap_find_other:
  assumes "map_of (dbs m') = (map_of (dbs m))(db_key p n \<mapsto> a)" "default_db m' = default_db m"
    and "(q, n') \<noteq> (p, n)"
  shows "dbmap_find m' q n' t = dbmap_find m q n' t"
proof -
  have "((map_of (dbs m))(db_key p n \<mapsto> a)) (db_key q n') = map_of (dbs m) (db_key q n')"
    using dbkey.lookup_other [OF TrueI TrueI assms(3) [symmetric], of "map_of (dbs m)" a]
    by (simp only: case_prod_conv)
  then show ?thesis
    using db_key_not_default [of p n] by (auto simp: dbmap_find_def Let_def assms(1,2) split: option.splits)
qed

text \<open>A row of the permission table becomes visible to exactly one lookup, proxy 1 and
  the row's database, whatever proxy the row belongs to: that lookup finds an object with the row's
  name, mask and block status, and the result of every other lookup is unchanged.\<close>

theorem put_db_row_find:
  "\<exists>a o'. dbmap_find (fst (put_db_row E r m s)) 1 (cstr (db_col_text E r 2)) t = Some a \<and>
     heap (fst (put_db_row E r m s)) a = Some o' \<and> db_name o' = cstr (db_col_text E r 2) \<and>
     perms o' = word_of_int (db_col_long_long E r 3) \<and>
     block_status o' = block_status_of (word_of_int (db_col_int E r 5)) \<and>
     (\<forall>q n'. (q, n') \<noteq> (1, cstr (db_col_text E r 2)) \<longrightarrow>
        dbmap_find (fst (put_db_row E r m s)) q n' t = dbmap_find m q n' t)"
proof -
  let ?n = "cstr (db_col_text E r 2)"
  have one: "sint (1 :: 32 word) = 1" by simp
  obtain a o' where ao: "map_of (dbs (fst (put_db_row E r m s))) = (map_of (dbs m))(db_key 1 ?n \<mapsto> a)"
    "default_db (fst (put_db_row E r m s)) = default_db m"
    "heap (fst (put_db_row E r m s)) a = Some o'" "db_name o' = ?n"
    "perms o' = word_of_int (db_col_long_long E r 3)"
    "block_status o' = block_status_of (word_of_int (db_col_int E r 5))"
    using dbmap_put_spec unfolding put_db_row_def Let_def one by blast
  have "dbmap_find (fst (put_db_row E r m s)) 1 ?n t = Some a"
    by (simp add: dbmap_find_def ao(1))
  with ao dbmap_find_other [OF ao(1,2)] show ?thesis by blast
qed

text \<open>The implication in the last conjunct is met by every other pair.\<close>

theorem put_db_row_find_witness:
  "dbmap_find (fst (put_db_row (demo_env (Tuples_ok [])) [''7'', ''2'', ''shop'', ''1'', ''0'', ''4'', ''pgsql'']
     dbmap_start demo_lib)) 2 ''shop'' ''pgsql'' = dbmap_find dbmap_start 2 ''shop'' ''pgsql''"
  using put_db_row_find [of "demo_env (Tuples_ok [])" "[''7'', ''2'', ''shop'', ''1'', ''0'', ''4'', ''pgsql'']" dbmap_start demo_lib "''pgsql''"]
  by auto



end
