(* ===== verification/Alert.thy ===== *)
theory Alert
  imports DbPerm KeyedMap
begin

text \<open>
  Alerts (alert.hpp, alert.cpp): every risky query is stored in a group of queries with the
  same proxy, database and pattern.  \<open>agroupmap\<close> caches the group ids; a group that is
  not cached is searched in the storage database and added there if needed.  Group ids are
  \<open>unsigned int\<close>, with 0 for no group.
\<close>

section \<open>State\<close>

record 'w alertst =
  agroupmap :: "string \<rightharpoonup> 32 word"
  lib :: "'w dblib"

definition q_agroup :: string where
  "q_agroup = ''SELECT agroupid, proxyid, db_name, pattern FROM alert_group''"

definition alert_query_size :: nat where
  "alert_query_size = 1024 * 1024"

text \<open>\<open>key = proxy_id\<close> assigns a single character, the low byte of the id.\<close>

definition agroup_key :: "int \<Rightarrow> string \<Rightarrow> string \<Rightarrow> string" where
  "agroup_key proxy_id dbname pattern =
     [char_of (nat (proxy_id mod 256))] @ '','' @ dbname @ '','' @ pattern"

section \<open>Groups\<close>

fun agroup_rows :: "'w env \<Rightarrow> row list \<Rightarrow> (string \<rightharpoonup> 32 word) \<Rightarrow> (string \<rightharpoonup> 32 word)" where
  "agroup_rows E [] m = m"
| "agroup_rows E (r # rs) m =
     agroup_rows E rs (m(agroup_key (db_col_int E r 1) (cstr (db_col_text E r 2)) (cstr (db_col_text E r 3))
        \<mapsto> word_of_int (db_col_int E r 0)))"

definition agroupmap_reload :: "'w env \<Rightarrow> 'w alertst \<Rightarrow> bool \<times> 'w alertst" where
  "agroupmap_reload E s =
     (let (res, l) = db_query E q_agroup 256 (lib s) in
      case res of
        None \<Rightarrow> (False, s\<lparr>lib := db_cleanup E l\<rparr>)
      | Some rows \<Rightarrow>
          (True, s\<lparr>agroupmap := agroup_rows E (fetch_rows E rows) Map.empty, lib := db_cleanup E l\<rparr>))"

definition agroupmap_init :: "'w env \<Rightarrow> 'w alertst \<Rightarrow> bool \<times> 'w alertst" where
  "agroupmap_init E s = agroupmap_reload E s"

definition agroupmap_get :: "'w alertst \<Rightarrow> int \<Rightarrow> string \<Rightarrow> string \<Rightarrow> 32 word" where
  "agroupmap_get s proxy_id dbname pattern =
     (case agroupmap s (agroup_key proxy_id dbname pattern) of None \<Rightarrow> 0 | Some i \<Rightarrow> i)"

definition agroup_get_sql :: "int \<Rightarrow> string \<Rightarrow> string \<Rightarrow> string" where
  "agroup_get_sql proxy_id dbname pattern =
     ''SELECT agroupid FROM alert_group WHERE proxyid = '' @ dec proxy_id @ '' and db_name = '' @
     [SQ] @ cstr dbname @ [SQ] @ '' and pattern = '' @ [SQ] @ cstr pattern @ [SQ]"

definition agroup_add_sql :: "int \<Rightarrow> string \<Rightarrow> string \<Rightarrow> string" where
  "agroup_add_sql proxy_id dbname pattern =
     ''INSERT into alert_group (proxyid, db_name, update_time, pattern) VALUES ('' @ dec proxy_id @ '','' @
     [SQ] @ cstr dbname @ [SQ] @ '',now(),'' @ [SQ] @ cstr pattern @ [SQ] @ '')''"

definition agroup_get :: "'w env \<Rightarrow> int \<Rightarrow> string \<Rightarrow> string \<Rightarrow> 'w alertst \<Rightarrow> 32 word \<times> 'w alertst" where
  "agroup_get E proxy_id dbname pattern s =
     (let requred_query_size = length pattern + length dbname + 1024;
          q = snprintf requred_query_size (agroup_get_sql proxy_id dbname pattern);
          (res, l) = db_query E q (length pattern + 1024) (lib s) in
      case res of
        None \<Rightarrow> (0, s\<lparr>lib := db_cleanup E l\<rparr>)
      | Some rows \<Rightarrow>
          (case db_fetch_row E rows of
             Some (r, _) \<Rightarrow> (word_of_int (db_col_int E r 0), s\<lparr>lib := db_cleanup E l\<rparr>)
           | None \<Rightarrow> (0, s\<lparr>lib := db_cleanup E l\<rparr>)))"

text \<open>Both database types send the same statement.\<close>

definition agroup_add :: "'w env \<Rightarrow> int \<Rightarrow> string \<Rightarrow> string \<Rightarrow> 'w alertst \<Rightarrow> 32 word \<times> 'w alertst" where
  "agroup_add E proxy_id dbname pattern s =
     (let requred_query_size = length pattern + length dbname + 1024;
          q = snprintf requred_query_size (agroup_add_sql proxy_id dbname pattern);
          (r, l) = db_exec E q (lib s) in
      if r = 0 then (0, s\<lparr>lib := l\<rparr>)
      else let (c, l) = db_changes E l in
        if c = 0 then (0, s\<lparr>lib := l\<rparr>)
        else let (agroupid, s) = agroup_get E proxy_id dbname pattern (s\<lparr>lib := l\<rparr>)
             in (agroupid, s\<lparr>agroupmap := (agroupmap s)(agroup_key proxy_id dbname pattern \<mapsto> agroupid)\<rparr>))"

section \<open>Alerts\<close>

text \<open>The statement of \<open>alert_add\<close>.  Its format has four strings; for PostgreSQL the
  code passes three (the address of the user is missing), so \<open>snprintf\<close> reads an argument
  that does not exist: undefined behaviour, in which the text below is one outcome.\<close>

definition alert_add_sql :: "32 word \<Rightarrow> string \<Rightarrow> string \<Rightarrow> string \<Rightarrow> string \<Rightarrow> int \<Rightarrow> int \<Rightarrow> string" where
  "alert_add_sql agroupid user userip query reason risk block =
     ''INSERT into alert (agroupid, event_time, risk, block, dbuser, userip, query, reason) VALUES ('' @
     dec (uint agroupid) @ '',now(),'' @ dec risk @ '','' @ dec block @ '','' @ [SQ] @ cstr user @ [SQ] @ '','' @
     [SQ] @ cstr userip @ [SQ] @ '','' @ [SQ] @ cstr query @ [SQ] @ '','' @ [SQ] @ cstr reason @ [SQ] @ '')''"

definition alert_add :: "'w env \<Rightarrow> backend_db \<Rightarrow> 32 word \<Rightarrow> string \<Rightarrow> string \<Rightarrow> string \<Rightarrow> string
    \<Rightarrow> int \<Rightarrow> int \<Rightarrow> 'w alertst \<Rightarrow> int \<times> 'w alertst" where
  "alert_add E t agroupid user userip query reason risk block s =
     (let requred_query_size = length (cstr query) + length (cstr reason) + 1024;
          s = (case t of DB_MYSQL \<Rightarrow> s | DB_PGSQL \<Rightarrow> s\<lparr>lib := (lib s)\<lparr>ub := True\<rparr>\<rparr>);
          q = (case t of
                 DB_MYSQL \<Rightarrow> snprintf requred_query_size (alert_add_sql agroupid user userip query reason risk block)
               | DB_PGSQL \<Rightarrow> snprintf requred_query_size (alert_add_sql agroupid user query reason [] risk block));
          (r, l) = db_exec E q (lib s) in
      if r = 0 then (0, s\<lparr>lib := l\<rparr>)
      else let (c, l) = db_changes E l in (if c = 0 then 0 else 1, s\<lparr>lib := l\<rparr>))"

definition agroup_update_sql :: "32 word \<Rightarrow> string" where
  "agroup_update_sql agroupid =
     ''UPDATE alert_group SET update_time=now() WHERE agroupid = '' @ dec (uint agroupid)"

definition agroup_update_status_sql :: "32 word \<Rightarrow> string" where
  "agroup_update_status_sql agroupid =
     ''UPDATE alert_group SET update_time=now(), status=1 WHERE agroupid = '' @ dec (uint agroupid)"

definition exec_changed :: "'w env \<Rightarrow> string \<Rightarrow> 'w alertst \<Rightarrow> bool \<times> 'w alertst" where
  "exec_changed E q s =
     (let (r, l) = db_exec E q (lib s) in
      if r = 0 then (False, s\<lparr>lib := l\<rparr>)
      else let (c, l) = db_changes E l in (c \<noteq> 0, s\<lparr>lib := l\<rparr>))"

definition agroup_update :: "'w env \<Rightarrow> 32 word \<Rightarrow> 'w alertst \<Rightarrow> bool \<times> 'w alertst" where
  "agroup_update E agroupid s = exec_changed E (snprintf 1024 (agroup_update_sql agroupid)) s"

definition agroup_update_status :: "'w env \<Rightarrow> 32 word \<Rightarrow> 'w alertst \<Rightarrow> bool \<times> 'w alertst" where
  "agroup_update_status E agroupid s = exec_changed E (snprintf 1024 (agroup_update_status_sql agroupid)) s"

text \<open>The three tries for a group id that \<open>logalert\<close> and \<open>logwhitelist\<close>
  share.\<close>

definition group_id :: "'w env \<Rightarrow> int \<Rightarrow> string \<Rightarrow> string \<Rightarrow> 'w alertst \<Rightarrow> 32 word \<times> 'w alertst" where
  "group_id E proxy_id dbname pattern s =
     (let agroupid = agroupmap_get s proxy_id dbname pattern;
          (agroupid, s) = (if agroupid = 0 then agroup_get E proxy_id dbname pattern s else (agroupid, s))
      in if agroupid = 0 then agroup_add E proxy_id dbname pattern s else (agroupid, s))"

definition logalert :: "'w env \<Rightarrow> backend_db \<Rightarrow> int \<Rightarrow> string \<Rightarrow> string \<Rightarrow> string \<Rightarrow> string \<Rightarrow> string
    \<Rightarrow> string \<Rightarrow> int \<Rightarrow> int \<Rightarrow> 'w alertst \<Rightarrow> bool \<times> 'w alertst" where
  "logalert E t proxy_id dbname dbuser dbuserip query pattern reason risk block s =
     (let tmp_q = db_escape_string E query; tmp_r = db_escape_string E reason; tmp_u = db_escape_string E dbuser;
          (agroupid, s) = group_id E proxy_id dbname pattern s
      in if agroupid = 0 then (False, s)
         else let (r, s) = alert_add E t agroupid tmp_u dbuserip tmp_q tmp_r risk block s;
                  (ok, s) = agroup_update E agroupid s
              in (True, s))"

definition logwhitelist :: "'w env \<Rightarrow> backend_db \<Rightarrow> int \<Rightarrow> string \<Rightarrow> string \<Rightarrow> string \<Rightarrow> string \<Rightarrow> string
    \<Rightarrow> string \<Rightarrow> int \<Rightarrow> int \<Rightarrow> 'w alertst \<Rightarrow> bool \<times> 'w alertst" where
  "logwhitelist E t proxy_id dbname dbuser dbuserip query pattern reason risk block s =
     (let tmp_q = db_escape_string E query; tmp_r = db_escape_string E reason; tmp_u = db_escape_string E dbuser;
          (agroupid, s) = group_id E proxy_id dbname pattern s
      in if agroupid = 0 then (False, s)
         else let (r, s) = alert_add E t agroupid tmp_u dbuserip tmp_q tmp_r risk block s;
                  (ok, s) = agroup_update_status E agroupid s
              in (True, s))"

section \<open>Properties\<close>

subsection \<open>Keys\<close>

text \<open>The cache key identifies a group only for proxy ids below 256 and database names
  without a comma.\<close>

definition group_valid :: "int \<times> string \<times> string \<Rightarrow> bool" where
  "group_valid = (\<lambda>(p, d, pat). 0 \<le> p \<and> p < 256 \<and> CHR '','' \<notin> set d)"

lemma agroup_key_inj:
  assumes "0 \<le> p" "p < 256" "CHR '','' \<notin> set d" "0 \<le> p'" "p' < 256" "CHR '','' \<notin> set d'"
    and "agroup_key p d pat = agroup_key p' d' pat'"
  shows "p = p' \<and> d = d' \<and> pat = pat'"
proof -
  have "char_of (nat p) = (char_of (nat p') :: char)" and eq: "d @ '','' @ pat = d' @ '','' @ pat'"
    using assms by (simp_all add: agroup_key_def)
  then have "byte (char_of (nat p)) = byte (char_of (nat p'))" by simp
  then have "p = p'" using assms by simp
  with comma_split [OF assms(3,6) eq] show ?thesis by simp
qed

interpretation gkey: keyed_map group_valid "\<lambda>(p, d, pat). agroup_key p d pat"
  by unfold_locales (auto simp: group_valid_def dest: agroup_key_inj)

text \<open>The cache confuses alert groups: two proxies whose ids agree in the low byte share
  every entry, since the key holds the id as one character.\<close>

theorem agroupmap_get_low_byte:
  "agroupmap_get s (p + 256 * k) d pat = agroupmap_get s p d pat"
  by (simp add: agroupmap_get_def agroup_key_def)

subsection \<open>Groups are found again\<close>

lemma agroup_get_map [simp]: "agroupmap (snd (agroup_get E p d pat s)) = agroupmap s"
  by (auto simp: agroup_get_def Let_def split: prod.splits option.splits)

lemma agroup_get_map_eq: "agroup_get E p d pat s = (i, s') \<Longrightarrow> agroupmap s' = agroupmap s"
  using agroup_get_map [of E p d pat s] by simp

lemma agroup_add_map:
  assumes "fst (agroup_add E p d pat s) \<noteq> 0"
  shows "agroupmap (snd (agroup_add E p d pat s)) =
    (agroupmap s)(agroup_key p d pat \<mapsto> fst (agroup_add E p d pat s))"
  using assms unfolding agroup_add_def Let_def
  by (auto dest: agroup_get_map_eq split: prod.splits if_splits)

text \<open>C37: a group that had to be added is cached: the next request for it gets the same id
  from the cache without another statement, and the cached ids of all other groups (proxy ids
  below 256, no comma in the database name) are unchanged.\<close>

theorem agroup_add_cached:
  assumes "fst (agroup_add E p d pat s) \<noteq> 0" "group_valid (p, d, pat)" "group_valid (p', d', pat')"
    and "(p', d', pat') \<noteq> (p, d, pat)"
  shows "group_id E p d pat (snd (agroup_add E p d pat s)) =
      (fst (agroup_add E p d pat s), snd (agroup_add E p d pat s))
    \<and> agroupmap_get (snd (agroup_add E p d pat s)) p' d' pat' = agroupmap_get s p' d' pat'"
proof -
  have "agroupmap_get (snd (agroup_add E p d pat s)) p d pat = fst (agroup_add E p d pat s)"
    by (simp add: agroupmap_get_def agroup_add_map [OF assms(1)])
  moreover have "agroupmap_get (snd (agroup_add E p d pat s)) p' d' pat' = agroupmap_get s p' d' pat'"
    using gkey.lookup_other [OF assms(2,3) assms(4) [symmetric], of "agroupmap s"]
    by (simp only: agroupmap_get_def agroup_add_map [OF assms(1)] case_prod_conv)
  ultimately show ?thesis using assms(1) by (simp add: group_id_def split_beta)
qed

text \<open>A storage server for examples: it accepts every command and returns one row.\<close>

definition group_server :: "string \<Rightarrow> unit server" where
  "group_server i = \<lparr>pq_exec = (\<lambda>q w. (if take 6 q = ''SELECT'' then Tuples_ok [[i]] else Command_ok 1, w)),
     pq_connect = (\<lambda>c w. (True, w)), pq_escape = (\<lambda>s. s), pq_error = (\<lambda>w. []), pq_finish = (\<lambda>w. w)\<rparr>"

definition group_env :: "string \<Rightarrow> unit env" where
  "group_env i = \<lparr>api = \<lparr>lib_handle = None, ptr = (\<lambda>_. True)\<rparr>, srv = group_server i\<rparr>"

definition group_st :: "unit alertst" where
  "group_st = \<lparr>agroupmap = Map.empty, lib = demo_lib\<rparr>"

lemma cstr_nonempty: "c \<noteq> NUL \<Longrightarrow> cstr (c # s) = c # cstr s"
  by (simp add: cstr_def)

lemma group_env_add: "fst (agroup_add (group_env ''7'') 1 ''d'' ''p'' group_st) = 7"
  by (simp add: agroup_add_def agroup_get_def Let_def group_st_def group_env_def group_server_def demo_lib_def
      db_exec_def lib_db_exec_def run_server_def reset_temp_def clear_temp_def db_changes_def lib_db_changes_def
      db_query_def lib_db_query_def db_fetch_row_def db_col_int_def lib_db_col_int_def cell_def
      agroup_add_sql_def agroup_get_sql_def snprintf_def cstr_def atoi_def
      c_isspace_def is_digit_def byte_def)

theorem agroup_add_cached_witness:
  "fst (group_id (group_env ''7'') 1 ''d'' ''p'' (snd (agroup_add (group_env ''7'') 1 ''d'' ''p'' group_st))) = 7"
proof -
  have "group_valid (1, ''d'', ''p'')" "group_valid (2, ''d'', ''p'')" by (simp_all add: group_valid_def)
  then show ?thesis
    using agroup_add_cached [of "group_env ''7''" 1 "''d''" "''p''" group_st 2 "''d''" "''p''"] by (simp add: group_env_add)
qed

subsection \<open>The PostgreSQL alert statement\<close>

lemma db_exec_ub: "ub l \<Longrightarrow> ub (snd (db_exec E q l))"
  by (auto simp: db_exec_def lib_simps)

lemma db_changes_ub: "ub l \<Longrightarrow> ub (snd (db_changes E l))"
  by (auto simp: db_changes_def lib_simps)

lemma exec_changed_ub: "ub (lib s) \<Longrightarrow> ub (lib (snd (exec_changed E q s)))"
  by (auto simp: exec_changed_def Let_def split_beta intro!: db_exec_ub db_changes_ub)

lemma alert_add_pgsql_ub: "ub (lib (snd (alert_add E DB_PGSQL i u ip q r risk block s)))"
  by (auto simp: alert_add_def Let_def split_beta intro!: db_exec_ub db_changes_ub)

text \<open>With a PostgreSQL storage, the default, every alert that finds its group is undefined
  behaviour: the statement is built with one argument less than its format needs.\<close>

theorem logalert_pgsql_undefined:
  assumes "fst (logalert E DB_PGSQL p d u ip q pat r risk block s)"
  shows "ub (lib (snd (logalert E DB_PGSQL p d u ip q pat r risk block s)))"
  using assms by (auto simp: logalert_def Let_def split_beta agroup_update_def
      intro!: exec_changed_ub alert_add_pgsql_ub)

theorem logalert_pgsql_undefined_witness:
  "ub (lib (snd (logalert (group_env ''7'') DB_PGSQL 1 ''d'' ''u'' ''ip'' ''q'' ''p'' ''r'' 30 0
     (group_st\<lparr>agroupmap := [agroup_key 1 ''d'' ''p'' \<mapsto> 7]\<rparr>))))"
  by (rule logalert_pgsql_undefined)
     (simp add: logalert_def group_id_def agroupmap_get_def Let_def split_beta)

end
