(* ===== verification/Log.thy ===== *)
theory Log
  imports Config DbPerm
begin

text \<open>
  The three log files (log.hpp, log.cpp): the main log with its level filter and hex dump, the
  alert log and the event log, with their reopening after rotation.  The file system is a
  parameter: which paths can be opened for appending, and which open files have been deleted.
  A \<open>FILE *\<close> is \<open>Stdout\<close> or a numbered open file.
\<close>

section \<open>State\<close>

datatype ErrorType = CRIT | ERR | INFO | SQL_DEBUG | DEBUG | STORAGE | NET_DEBUG

primrec error_level :: "ErrorType \<Rightarrow> int" where
  "error_level CRIT = 0"
| "error_level ERR = 1"
| "error_level INFO = 2"
| "error_level SQL_DEBUG = 3"
| "error_level DEBUG = 4"
| "error_level STORAGE = 5"
| "error_level NET_DEBUG = 6"

datatype stream = Stdout | File nat

record logst =
  st_log_file :: stream
  st_file_alert :: stream
  st_file_event :: stream
  st_log_level :: int
  open_files :: "nat list"
  next_file :: nat
  written :: "(stream \<times> string) list"

definition log_start :: logst where
  "log_start = \<lparr>st_log_file = Stdout, st_file_alert = Stdout, st_file_event = Stdout, st_log_level = 3,
     open_files = [], next_file = 0, written = []\<rparr>"

record logenv =
  can_open :: "string \<Rightarrow> bool"
  deleted :: "nat \<Rightarrow> bool"
  stamp :: string

section \<open>Opening and closing\<close>

definition fopen :: "logenv \<Rightarrow> string \<Rightarrow> logst \<Rightarrow> nat option \<times> logst" where
  "fopen V file s =
     (if can_open V (cstr file)
      then (Some (next_file s), s\<lparr>open_files := next_file s # open_files s, next_file := Suc (next_file s)\<rparr>)
      else (None, s))"

definition fclose :: "stream \<Rightarrow> logst \<Rightarrow> logst" where
  "fclose f s = (case f of Stdout \<Rightarrow> s | File n \<Rightarrow> s\<lparr>open_files := removeAll n (open_files s)\<rparr>)"

definition log_init :: "logenv \<Rightarrow> string \<Rightarrow> int \<Rightarrow> logst \<Rightarrow> bool \<times> logst" where
  "log_init V file level s =
     (case fopen V file (s\<lparr>st_log_level := level\<rparr>) of
        (None, s) \<Rightarrow> (False, s)
      | (Some n, s) \<Rightarrow> (True, s\<lparr>st_log_file := File n\<rparr>))"

definition LogInit :: "logenv \<Rightarrow> string \<Rightarrow> int \<Rightarrow> logst \<Rightarrow> bool \<times> logst" where
  "LogInit V file level s =
     (case fopen V file (s\<lparr>st_log_level := level\<rparr>) of
        (None, s) \<Rightarrow> (False, s)
      | (Some n, s) \<Rightarrow> (True, s\<lparr>st_file_alert := File n\<rparr>))"

definition Log_init :: "logenv \<Rightarrow> string \<Rightarrow> int \<Rightarrow> logst \<Rightarrow> bool \<times> logst" where
  "Log_init V file level s =
     (case fopen V file (s\<lparr>st_log_level := level\<rparr>) of
        (None, s) \<Rightarrow> (False, s)
      | (Some n, s) \<Rightarrow> (True, s\<lparr>st_file_event := File n\<rparr>))"

definition log_close :: "logst \<Rightarrow> logst" where
  "log_close s =
     (let s = (if st_log_file s \<noteq> Stdout then fclose (st_log_file s) s
               else if st_file_alert s \<noteq> Stdout then fclose (st_file_alert s) s
               else if st_file_event s \<noteq> Stdout then fclose (st_file_event s) s
               else s)
      in s\<lparr>st_log_file := Stdout, st_file_alert := Stdout, st_file_event := Stdout\<rparr>)"

definition stream_deleted :: "logenv \<Rightarrow> stream \<Rightarrow> bool" where
  "stream_deleted V f = (case f of Stdout \<Rightarrow> False | File n \<Rightarrow> deleted V n)"

definition log_reload :: "logenv \<Rightarrow> GreenSQLConfig \<Rightarrow> logst \<Rightarrow> logst" where
  "log_reload V cfg s =
     (if (if st_log_file s \<noteq> Stdout then \<not> stream_deleted V (st_log_file s)
          else if st_file_alert s \<noteq> Stdout then \<not> stream_deleted V (st_file_alert s)
          else if st_file_event s \<noteq> Stdout then \<not> stream_deleted V (st_file_event s)
          else False)
      then s
      else let s = log_close s;
               s = snd (LogInit V (file_alert cfg) (log_level cfg) s);
               s = snd (log_init V (log_file cfg) (log_level cfg) s)
           in snd (Log_init V (file_event cfg) (log_level cfg) s))"

definition fprintf :: "stream \<Rightarrow> string \<Rightarrow> logst \<Rightarrow> logst" where
  "fprintf f t s = s\<lparr>written := written s @ [(f, t)]\<rparr>"

section \<open>Messages\<close>

primrec event_name :: "ErrorType \<Rightarrow> string" where
  "event_name CRIT = ''CRIT      ''"
| "event_name ERR = ''ERROR       ''"
| "event_name INFO = ''INFO      ''"
| "event_name DEBUG = ''DEBUG     ''"
| "event_name NET_DEBUG = ''NET_DEBUG ''"
| "event_name SQL_DEBUG = ''SQL_DEBUG ''"
| "event_name STORAGE = ''STORAGE   ''"

definition hex_name :: "ErrorType \<Rightarrow> string" where
  "hex_name t = (if t = ERR then ''ERROR     '' else event_name t)"

text \<open>\<open>stamp\<close> is the bracketed time of the prefix, \<open>msg\<close> the expanded
  message.\<close>

definition logevent :: "logenv \<Rightarrow> GreenSQLConfig \<Rightarrow> ErrorType \<Rightarrow> string \<Rightarrow> logst \<Rightarrow> logst" where
  "logevent V cfg type msg s =
     (if st_log_level s < error_level type then s
      else let s = log_reload V cfg s;
               s = fprintf (st_log_file s) (stamp V @ '' '' @ event_name type) s
           in fprintf (st_log_file s) msg s)"

text \<open>\<open>printf\<close> with string arguments only: \<open>None\<close> is undefined behaviour, a missing
  argument or a conversion that does not take a string.\<close>

fun c_format :: "string \<Rightarrow> string list \<Rightarrow> string option" where
  "c_format [] args = Some []"
| "c_format (c # f) args =
     (if c \<noteq> CHR ''%'' then map_option ((#) c) (c_format f args)
      else case f of
             [] \<Rightarrow> None
           | d # f' \<Rightarrow>
               if d = CHR ''%'' then map_option ((#) d) (c_format f' args)
               else if d = CHR ''s'' then
                 (case args of [] \<Rightarrow> None | a # args' \<Rightarrow> map_option (\<lambda>t. cstr a @ t) (c_format f' args'))
               else None)"

definition log_event :: "logenv \<Rightarrow> GreenSQLConfig \<Rightarrow> string \<Rightarrow> string list \<Rightarrow> logst \<Rightarrow> logst option" where
  "log_event V cfg fmt args s =
     (let s = log_reload V cfg s;
          s = fprintf (st_file_event s) (stamp V) s
      in map_option (\<lambda>t. fprintf (st_file_event s) t s) (c_format (cstr fmt) args))"

primrec block_name :: "DBBlockLevel \<Rightarrow> string" where
  "block_name WARN = ''WARN    ''"
| "block_name BLOCKED = ''BLOCKED   ''"
| "block_name HIGH_RISK = ''HIGH_RISK    ''"
| "block_name LOW = ''LOW    ''"
| "block_name SQL_ERROR = ''SQL_ERROR    ''"

definition log_alert :: "logenv \<Rightarrow> GreenSQLConfig \<Rightarrow> string \<Rightarrow> string \<Rightarrow> string \<Rightarrow> DBBlockLevel \<Rightarrow> logst \<Rightarrow> logst" where
  "log_alert V cfg use db query block s =
     (let s = log_reload V cfg s
      in fprintf (st_file_alert s) (stamp V @ '' User: '' @ cstr use @ '' [**] Database: '' @ cstr db @
           '' [**] Query: '' @ cstr query @ '' [**] Level_alert: '' @ block_name block @ [LF]) s)"

section \<open>The hex dump\<close>

definition c_isalnum :: "char \<Rightarrow> bool" where
  "c_isalnum c \<longleftrightarrow> is_digit c \<or> is_upper c \<or> is_lower c"

definition c_ispunct :: "char \<Rightarrow> bool" where
  "c_ispunct c \<longleftrightarrow> 33 \<le> byte c \<and> byte c \<le> 126 \<and> \<not> c_isalnum c"

definition shown_char :: "char \<Rightarrow> char" where
  "shown_char c = (if c_isalnum c \<or> c = SPC \<or> c_ispunct c then c else CHR ''.'')"

definition hex_char :: "nat \<Rightarrow> char" where
  "hex_char b = char_of (if b > 9 then b + 55 else b + 48)"

fun put_text :: "string \<Rightarrow> nat \<Rightarrow> string \<Rightarrow> string" where
  "put_text [] j temp = temp"
| "put_text (c # cs) j temp = put_text cs (j + 1) (temp[j := shown_char c])"

fun put_hex :: "string \<Rightarrow> nat \<Rightarrow> string \<Rightarrow> string" where
  "put_hex [] j temp = temp"
| "put_hex (c # cs) j temp =
     put_hex cs (j + 1) (temp[20 + j * 3 := hex_char (byte c div 16), 20 + j * 3 + 1 := hex_char (byte c mod 16)])"

definition printline :: "string \<Rightarrow> string" where
  "printline data =
     (let temp = replicate 255 SPC @ [NUL];
          temp = put_text data 0 temp;
          temp = temp[18 := CHR ''|''];
          temp = put_hex data 0 temp;
          n = length data;
          temp = temp[20 + n * 3 := LF, 20 + n * 3 + 1 := NUL]
      in cstr temp)"

definition hexdump :: "string \<Rightarrow> string list" where
  "hexdump data =
     (let n = length data; rest = n mod 16
      in map (\<lambda>i. printline (take 16 (drop (i * 16) data))) [0..<n div 16] @
         (if rest > 0 then [printline (take rest (drop (n div 16 * 16) data))] else []))"

definition loghex :: "logenv \<Rightarrow> GreenSQLConfig \<Rightarrow> ErrorType \<Rightarrow> string \<Rightarrow> logst \<Rightarrow> logst" where
  "loghex V cfg type data s =
     (if length data = 0 then s
      else if st_log_level s < error_level type then s
      else let s = log_reload V cfg s
           in fold (\<lambda>l s. fprintf (st_log_file s) l (fprintf (st_log_file s) (stamp V @ '' '' @ hex_name type) s))
                (hexdump data) s)"

section \<open>Properties\<close>

subsection \<open>Files\<close>

text \<open>Closing the logs closes one file only: when all three are open, the alert and the
  event file stay open although their pointers are reset, so every rotation leaks two files.\<close>

theorem log_close_leaks:
  assumes "st_log_file s = File a" "st_file_alert s = File b" "st_file_event s = File c"
    and "a \<noteq> b" "a \<noteq> c" "{b, c} \<subseteq> set (open_files s)"
  shows "st_file_alert (log_close s) = Stdout \<and> st_file_event (log_close s) = Stdout \<and>
    {b, c} \<subseteq> set (open_files (log_close s)) \<and> a \<notin> set (open_files (log_close s))"
  using assms by (auto simp: log_close_def fclose_def)

theorem log_close_leaks_witness:
  "{1, 2} \<subseteq> set (open_files (log_close (log_start\<lparr>st_log_file := File 0, st_file_alert := File 1,
     st_file_event := File 2, open_files := [2, 1, 0]\<rparr>)))"
  using log_close_leaks [of "log_start\<lparr>st_log_file := File 0, st_file_alert := File 1,
     st_file_event := File 2, open_files := [2, 1, 0]\<rparr>" 0 1 2] by simp

text \<open>The level filter: a message is written exactly when its type is not above the
  configured level, then as two writes, prefix and message, to the main log.\<close>

theorem logevent_filter:
  "written (logevent V cfg t msg s) = written s @
     (if error_level t \<le> st_log_level s
      then [(st_log_file (log_reload V cfg s), stamp V @ '' '' @ event_name t), (st_log_file (log_reload V cfg s), msg)]
      else [])"
  by (auto simp: logevent_def Let_def fprintf_def log_reload_def log_close_def LogInit_def log_init_def
      Log_init_def fopen_def fclose_def split: stream.splits)

subsection \<open>Format strings\<close>

text \<open>A text without a percent sign is printed as it is.\<close>

lemma c_format_plain: "CHR ''%'' \<notin> set f \<Longrightarrow> c_format f args = Some f"
  by (induction f args rule: c_format.induct) auto

lemma c_format_bad:
  "CHR ''%'' \<notin> set p \<Longrightarrow> d \<noteq> CHR ''%'' \<Longrightarrow> d \<noteq> CHR ''s'' \<Longrightarrow> c_format (p @ CHR ''%'' # d # q) args = None"
  by (induction p) auto

text \<open>\<open>log_event\<close> trusts its format: a format with a conversion other than
  \<open>%s\<close> before any other percent sign is undefined behaviour whatever the arguments.  The
  connection passes the name of the database user, which the client chooses, as format.\<close>

theorem log_event_format_injection:
  assumes "CHR ''%'' \<notin> set p" "d \<noteq> CHR ''%''" "d \<noteq> CHR ''s''" "NUL \<notin> set (p @ CHR ''%'' # d # q)"
  shows "log_event V cfg (p @ CHR ''%'' # d # q) args s = None"
  using c_format_bad [OF assms(1-3)] cstr_id [OF assms(4)] by (simp add: log_event_def Let_def)

theorem log_event_format_injection_witness:
  "log_event \<lparr>can_open = (\<lambda>_. True), deleted = (\<lambda>_. False), stamp = []\<rparr> config_init
     (''bob'' @ ''%n'') [''q''] log_start = None"
  using log_event_format_injection [of "''bob''" "CHR ''n''" "[]"] by simp

subsection \<open>Hex dump\<close>

lemma put_text_spec:
  "length data \<le> n \<Longrightarrow>
     put_text data (length pre) (pre @ replicate n SPC @ r) =
     pre @ map shown_char data @ replicate (n - length data) SPC @ r"
proof (induction data arbitrary: pre n)
  case (Cons c cs)
  then obtain m where n: "n = Suc m" by (cases n) auto
  with Cons.IH [of m "pre @ [shown_char c]"] Cons.prems show ?case by simp
qed simp

definition hex3 :: "char \<Rightarrow> string" where
  "hex3 c = [hex_char (byte c div 16), hex_char (byte c mod 16), SPC]"

lemma put_hex_spec:
  "length pre = 20 + j * 3 \<Longrightarrow> 3 * length data \<le> n \<Longrightarrow>
     put_hex data j (pre @ replicate n SPC @ r) =
     pre @ concat (map hex3 data) @ replicate (n - 3 * length data) SPC @ r"
proof (induction data arbitrary: pre n j)
  case (Cons c cs)
  then obtain m where n: "n = Suc (Suc (Suc m))"
    by (cases n; cases "n - 1"; cases "n - 2") auto
  have "(pre @ replicate n SPC @ r)[20 + j * 3 := hex_char (byte c div 16), 20 + j * 3 + 1 := hex_char (byte c mod 16)]
      = (pre @ hex3 c) @ replicate m SPC @ r"
    using Cons.prems(1) by (simp add: n list_update_append hex3_def)
  with Cons.IH [of "pre @ hex3 c" "Suc j" m] Cons.prems show ?case
    by (simp add: n hex3_def)
qed simp

lemma length_concat_hex3 [simp]: "length (concat (map hex3 data)) = 3 * length data"
  by (induction data) (simp_all add: hex3_def)

lemma hex_char_byte: "b < 16 \<Longrightarrow> byte (hex_char b) = (if b > 9 then b + 55 else b + 48)"
  by (simp add: hex_char_def)

lemma hex_char_not_NUL: "b < 16 \<Longrightarrow> hex_char b \<noteq> NUL"
proof
  assume "b < 16" "hex_char b = NUL"
  with hex_char_byte [of b] show False by (simp add: byte_def split: if_splits)
qed

lemma shown_char_not_NUL: "shown_char c \<noteq> NUL"
  by (auto simp: shown_char_def c_isalnum_def c_ispunct_def is_digit_def is_upper_def is_lower_def byte_def)

lemma hex3_NUL: "NUL \<notin> set (hex3 c)"
proof -
  have "byte c div 16 < 16" using byte_less [of c] by (simp only: less_mult_imp_div_less)
  then show ?thesis using hex_char_not_NUL [of "byte c div 16"] hex_char_not_NUL [of "byte c mod 16"]
    by (auto simp: hex3_def)
qed

lemma update_two: "length A = k \<Longrightarrow> (A @ x # y # r)[k := a, k + 1 := b] = A @ a # b # r"
  by (auto simp: list_update_append)

lemma printline_spec:
  assumes "length data \<le> 16"
  shows "printline data = map shown_char data @ replicate (18 - length data) SPC @ ''| '' @
    concat (map hex3 data) @ [LF]"
proof -
  let ?n = "length data" and ?h = "concat (map hex3 data)"
  let ?pre = "map shown_char data @ replicate (18 - ?n) SPC @ ''| ''"
  have "(255::nat) = 18 + (2 + 235)" by simp
  then have r: "replicate 255 SPC = replicate 18 SPC @ SPC # SPC # replicate 235 SPC"
    by (simp only: replicate_add) (simp add: eval_nat_numeral)
  have 1: "put_text data 0 (replicate 255 SPC @ [NUL]) =
      map shown_char data @ replicate (18 - ?n) SPC @ SPC # SPC # replicate 235 SPC @ [NUL]"
    using put_text_spec [of data 18 "[]" "SPC # SPC # replicate 235 SPC @ [NUL]"] assms
    unfolding r by simp
  have 2: "(map shown_char data @ replicate (18 - ?n) SPC @ SPC # SPC # replicate 235 SPC @ [NUL])[18 := CHR ''|'']
      = ?pre @ replicate 235 SPC @ [NUL]"
    using assms by (simp add: list_update_append)
  have 3: "put_hex data 0 (?pre @ replicate 235 SPC @ [NUL]) = ?pre @ ?h @ replicate (235 - 3 * ?n) SPC @ [NUL]"
    using put_hex_spec [of ?pre 0 data 235 "[NUL]"] assms by simp
  obtain m where m: "235 - 3 * ?n = Suc (Suc m)"
    using assms by (cases "235 - 3 * ?n"; cases "235 - 3 * ?n - 1") auto
  have len: "length (?pre @ ?h) = 20 + ?n * 3" using assms by simp
  have 4: "(?pre @ ?h @ replicate (235 - 3 * ?n) SPC @ [NUL])[20 + ?n * 3 := LF, 20 + ?n * 3 + 1 := NUL]
      = (?pre @ ?h @ [LF]) @ NUL # replicate m SPC @ [NUL]"
    unfolding m using update_two [OF len, of SPC SPC "replicate m SPC @ [NUL]" LF NUL] by simp
  have "NUL \<notin> set (?pre @ ?h @ [LF])"
    by (simp add: image_iff shown_char_not_NUL [symmetric] hex3_NUL)
  from cstr_append_NUL [OF this, of "replicate m SPC @ [NUL]"] show ?thesis
    unfolding printline_def Let_def 1 2 3 4 by (simp only: append_assoc)
qed

text \<open>Reading a dump back.\<close>

definition unhex :: "char \<Rightarrow> nat" where
  "unhex c = (if byte c > 57 then byte c - 55 else byte c - 48)"

fun read_hex :: "string \<Rightarrow> string" where
  "read_hex (h # l # sp # s) = char_of (16 * unhex h + unhex l) # read_hex s"
| "read_hex _ = []"

definition read_line :: "string \<Rightarrow> string" where
  "read_line s = read_hex (drop 20 s)"

lemma unhex_hex_char: "b < 16 \<Longrightarrow> unhex (hex_char b) = b"
  by (simp add: unhex_def hex_char_byte)

lemma char_of_byte [simp]: "char_of (byte c) = c"
  by (simp add: byte_def)

lemma read_hex_hex3: "read_hex (concat (map hex3 data) @ [LF]) = data"
proof (induction data)
  case (Cons c cs)
  have "16 * (byte c div 16) + byte c mod 16 = byte c" by simp
  moreover have "byte c div 16 < 16" using byte_less [of c] by (simp only: less_mult_imp_div_less)
  ultimately show ?case using Cons by (simp add: hex3_def unhex_hex_char)
qed simp

lemma read_line_printline: "length data \<le> 16 \<Longrightarrow> read_line (printline data) = data"
  using read_hex_hex3 [of data] by (simp add: read_line_def printline_spec)

lemma chunks_concat:
  "concat (map (\<lambda>i. take 16 (drop (i * 16) s)) [0..<k]) = take (k * 16) s"
proof (induction k)
  case (Suc k)
  then show ?case by (simp add: take_add [symmetric] add.commute)
qed simp

text \<open>C31: the hex dump of a packet shows every byte: the lines written for any data,
  sixteen bytes a line in a fixed buffer, decode to the data again.\<close>

theorem hexdump_roundtrip: "concat (map read_line (hexdump data)) = data"
proof -
  let ?n = "length data"
  have l: "read_line (printline (take 16 (drop (i * 16) data))) = take 16 (drop (i * 16) data)" for i
    by (rule read_line_printline) simp
  have r: "read_line (printline (take (?n mod 16) (drop (?n div 16 * 16) data))) = drop (?n div 16 * 16) data"
  proof -
    have "?n - ?n div 16 * 16 = ?n mod 16" by (simp add: minus_div_mult_eq_mod)
    then have "take (?n mod 16) (drop (?n div 16 * 16) data) = drop (?n div 16 * 16) data" by simp
    then show ?thesis using read_line_printline [of "drop (?n div 16 * 16) data"]
      by (simp add: minus_div_mult_eq_mod less_imp_le)
  qed
  have "concat (map read_line (hexdump data)) =
      take (?n div 16 * 16) data @ (if ?n mod 16 > 0 then drop (?n div 16 * 16) data else [])"
    using chunks_concat [of data "?n div 16"] l r by (simp add: hexdump_def Let_def o_def)
  moreover have "?n mod 16 = 0 \<Longrightarrow> ?n div 16 * 16 = ?n" by presburger
  ultimately show ?thesis by auto
qed

end
