(* ===== verification/Socket.thy ===== *)
theory Socket
  imports Prelude
begin

text \<open>
  The socket layer (socket.cpp).  The kernel is a parameter: \<open>'k\<close> is its state and
  \<open>sys\<close> its calls.  \<open>net\<close> adds the set of descriptors the process holds, which the
  code does not keep itself: a descriptor enters it when the kernel hands it out and leaves it when
  \<open>close\<close> is called on it.
\<close>

section \<open>The kernel\<close>

datatype errno = EAGAIN | EWOULDBLOCK | EINPROGRESS | EMFILE | Eother

datatype sockopt = SO_REUSEADDR | SO_KEEPALIVE | SO_LINGER | TCP_NODELAY

record 'k sys =
  sys_socket :: "'k \<Rightarrow> int \<times> 'k"
  sys_setsockopt :: "int \<Rightarrow> sockopt \<Rightarrow> 'k \<Rightarrow> 'k"
  sys_getfl :: "int \<Rightarrow> 'k \<Rightarrow> int \<times> 'k"
  sys_setfl_nonblock :: "int \<Rightarrow> int \<Rightarrow> 'k \<Rightarrow> int \<times> 'k"
  sys_bind :: "int \<Rightarrow> string \<Rightarrow> nat \<Rightarrow> 'k \<Rightarrow> int \<times> 'k"
  sys_listen :: "int \<Rightarrow> nat \<Rightarrow> 'k \<Rightarrow> int \<times> 'k"
  sys_connect :: "int \<Rightarrow> string \<Rightarrow> nat \<Rightarrow> 'k \<Rightarrow> int \<times> 'k"
  sys_accept :: "int \<Rightarrow> 'k \<Rightarrow> int \<times> 'k"
  sys_recv :: "int \<Rightarrow> nat \<Rightarrow> 'k \<Rightarrow> int \<times> string \<times> 'k"
  sys_send :: "int \<Rightarrow> string \<Rightarrow> 'k \<Rightarrow> int \<times> 'k"
  sys_close :: "int \<Rightarrow> 'k \<Rightarrow> 'k"
  sys_errno :: "'k \<Rightarrow> errno"
  sys_peer :: "int \<Rightarrow> 'k \<Rightarrow> string option"

record 'k net =
  kern :: 'k
  open_fds :: "int set"

text \<open>The documented behaviour of the calls, for some account \<open>held\<close> of the descriptors the process
  holds: a new descriptor is positive (the standard input stays open) and was not held, only
  \<open>close\<close> releases one, \<open>recv\<close> reports as many bytes as it delivers, at most the size of the
  buffer, and \<open>send\<close> takes at most the bytes it was given.\<close>

definition new_fd :: "('k \<Rightarrow> int set) \<Rightarrow> 'k \<Rightarrow> int \<Rightarrow> 'k \<Rightarrow> bool" where
  "new_fd held k fd k' \<longleftrightarrow> (if fd = -1 then held k' = held k else 0 < fd \<and> fd \<notin> held k \<and> held k' = insert fd (held k))"

definition kernel_ok :: "'k sys \<Rightarrow> ('k \<Rightarrow> int set) \<Rightarrow> bool" where
  "kernel_ok S held \<longleftrightarrow>
     (\<forall>k. new_fd held k (fst (sys_socket S k)) (snd (sys_socket S k))) \<and>
     (\<forall>fd k. new_fd held k (fst (sys_accept S fd k)) (snd (sys_accept S fd k))) \<and>
     (\<forall>fd k. held (sys_close S fd k) = held k - {fd}) \<and>
     (\<forall>fd opt k. held (sys_setsockopt S fd opt k) = held k) \<and>
     (\<forall>fd k. held (snd (sys_getfl S fd k)) = held k) \<and>
     (\<forall>fd f k. held (snd (sys_setfl_nonblock S fd f k)) = held k) \<and>
     (\<forall>fd a p k. held (snd (sys_bind S fd a p k)) = held k) \<and>
     (\<forall>fd b k. held (snd (sys_listen S fd b k)) = held k) \<and>
     (\<forall>fd a p k. held (snd (sys_connect S fd a p k)) = held k) \<and>
     (\<forall>fd m k. held (snd (snd (sys_recv S fd m k))) = held k) \<and>
     (\<forall>fd d k. held (snd (sys_send S fd d k)) = held k) \<and>
     (\<forall>fd m k. fst (sys_recv S fd m k) \<le> int m \<and>
        (0 \<le> fst (sys_recv S fd m k) \<longrightarrow> int (length (fst (snd (sys_recv S fd m k)))) = fst (sys_recv S fd m k))) \<and>
     (\<forall>fd d k. fst (sys_send S fd d k) \<le> int (length d))"

section \<open>Descriptors\<close>

definition got_fd :: "int \<times> 'k \<Rightarrow> 'k net \<Rightarrow> int \<times> 'k net" where
  "got_fd r n = (let (fd, k) = r in
     (fd, n\<lparr>kern := k, open_fds := (if fd = -1 then open_fds n else insert fd (open_fds n))\<rparr>))"

definition kcall :: "int \<times> 'k \<Rightarrow> 'k net \<Rightarrow> int \<times> 'k net" where
  "kcall r n = (let (v, k) = r in (v, n\<lparr>kern := k\<rparr>))"

definition socket_close :: "'k sys \<Rightarrow> int \<Rightarrow> 'k net \<Rightarrow> 'k net" where
  "socket_close S fd n = n\<lparr>kern := sys_close S fd (kern n), open_fds := open_fds n - {fd}\<rparr>"

definition setsockopts :: "'k sys \<Rightarrow> int \<Rightarrow> sockopt list \<Rightarrow> 'k net \<Rightarrow> 'k net" where
  "setsockopts S fd os n = n\<lparr>kern := fold (sys_setsockopt S fd) os (kern n)\<rparr>"

text \<open>\<open>fcntl(F_GETFL)\<close> and \<open>fcntl(F_SETFL, flags | O_NONBLOCK)\<close>.\<close>

definition set_nonblock :: "'k sys \<Rightarrow> int \<Rightarrow> 'k net \<Rightarrow> bool \<times> 'k net" where
  "set_nonblock S fd n =
     (let (flags, n) = kcall (sys_getfl S fd (kern n)) n in
      if flags < 0 then (False, n)
      else let (r, n) = kcall (sys_setfl_nonblock S fd flags (kern n)) n in (r \<ge> 0, n))"

definition would_block :: "errno \<Rightarrow> bool" where
  "would_block e \<longleftrightarrow> e = EAGAIN \<or> e = EWOULDBLOCK \<or> e = EINPROGRESS"

text \<open>\<open>htons(port)\<close> of an \<open>int\<close>.\<close>

definition htons :: "int \<Rightarrow> nat" where
  "htons port = nat (port mod 2 ^ 16)"

definition new_socket :: "'k sys \<Rightarrow> 'k net \<Rightarrow> int \<times> 'k net" where
  "new_socket S n =
     (let (sfd, n) = got_fd (sys_socket S (kern n)) n in
      if sfd = -1 then (-1, n)
      else let (ok, n) = set_nonblock S sfd n in
        if ok then (sfd, n) else (-1, socket_close S sfd n))"

definition server_socket :: "'k sys \<Rightarrow> string \<Rightarrow> int \<Rightarrow> 'k net \<Rightarrow> int \<times> 'k net" where
  "server_socket S ip port n =
     (let (sfd, n) = new_socket S n in
      if sfd = -1 then (-1, n)
      else let n = setsockopts S sfd [SO_REUSEADDR, SO_KEEPALIVE, SO_LINGER, TCP_NODELAY] n;
               (r, n) = kcall (sys_bind S sfd (cstr ip) (htons port) (kern n)) n
           in if r = -1 then (-1, socket_close S sfd n)
              else let (r, n) = kcall (sys_listen S sfd 1024 (kern n)) n in
                if r = -1 then (-1, socket_close S sfd n) else (sfd, n))"

definition client_socket :: "'k sys \<Rightarrow> string \<Rightarrow> int \<Rightarrow> 'k net \<Rightarrow> int \<times> 'k net" where
  "client_socket S server port n =
     (let (sfd, n) = new_socket S n in
      if sfd = -1 then (-1, n)
      else let n = setsockopts S sfd [SO_LINGER, SO_KEEPALIVE] n;
               (r, n) = kcall (sys_connect S sfd (cstr server) (htons port) (kern n)) n
           in if r = -1 then
                (if would_block (sys_errno S (kern n)) then (sfd, n) else (-1, socket_close S sfd n))
              else (sfd, n))"

definition socket_accept :: "'k sys \<Rightarrow> int \<Rightarrow> 'k net \<Rightarrow> int \<times> 'k net" where
  "socket_accept S serverfd n =
     (let (sfd, n) = got_fd (sys_accept S serverfd (kern n)) n in
      if sfd = -1 then
        (if would_block (sys_errno S (kern n)) then (sfd, n) else (-1, socket_close S sfd n))
      else let n = setsockopts S sfd [SO_KEEPALIVE, SO_LINGER] n;
               (ok, n) = set_nonblock S sfd n
           in if ok then (sfd, n) else (-1, socket_close S sfd n))"

section \<open>Reading and writing\<close>

text \<open>\<open>socket_read\<close> gives the data and the new \<open>size\<close>; \<open>socket_write\<close> the new \<open>size\<close>.\<close>

definition socket_read :: "'k sys \<Rightarrow> int \<Rightarrow> nat \<Rightarrow> 'k net \<Rightarrow> bool \<times> string \<times> int \<times> 'k net" where
  "socket_read S fd maxlen n =
     (let (r, d, k) = sys_recv S fd maxlen (kern n); n = n\<lparr>kern := k\<rparr> in
      if r < 0 then (would_block (sys_errno S k), [], 0, n)
      else if r = 0 then (False, [], 0, n)
      else (True, d, r, n))"

definition socket_write :: "'k sys \<Rightarrow> int \<Rightarrow> string \<Rightarrow> 'k net \<Rightarrow> bool \<times> int \<times> 'k net" where
  "socket_write S fd data n =
     (let (r, k) = sys_send S fd data (kern n); n = n\<lparr>kern := k\<rparr> in
      if r \<le> 0 then (if would_block (sys_errno S k) then (True, 0, n) else (False, r, n))
      else (True, r, n))"

section \<open>Descriptors are not lost\<close>

definition net_ok :: "('k \<Rightarrow> int set) \<Rightarrow> 'k net \<Rightarrow> bool" where
  "net_ok held n \<longleftrightarrow> open_fds n \<subseteq> held (kern n) \<and> (\<forall>fd\<in>open_fds n. 0 < fd)"

text \<open>Either a descriptor the process did not hold is handed out and nothing else is, or no descriptor
  changes hands.\<close>

definition opens :: "('k \<Rightarrow> int set) \<Rightarrow> 'k net \<Rightarrow> int \<times> 'k net \<Rightarrow> bool" where
  "opens held n r \<longleftrightarrow> net_ok held (snd r) \<and>
     (if fst r = -1 then open_fds (snd r) = open_fds n
      else 0 < fst r \<and> fst r \<notin> open_fds n \<and> open_fds (snd r) = insert (fst r) (open_fds n))"

text \<open>Calls that leave the descriptors alone.\<close>

definition same_fds :: "('k \<Rightarrow> int set) \<Rightarrow> 'k net \<Rightarrow> 'k net \<Rightarrow> bool" where
  "same_fds held n n' \<longleftrightarrow> held (kern n') = held (kern n) \<and> open_fds n' = open_fds n"

lemma same_fds_refl [simp]: "same_fds held n n"
  by (simp add: same_fds_def)

lemma same_fds_trans: "same_fds held a b \<Longrightarrow> same_fds held b c \<Longrightarrow> same_fds held a c"
  by (simp add: same_fds_def)

lemma same_fds_ok: "same_fds held n n' \<Longrightarrow> net_ok held n \<Longrightarrow> net_ok held n'"
  by (simp add: same_fds_def net_ok_def)

lemma socket_close_fds: "open_fds (socket_close S fd n) = open_fds n - {fd}"
  by (simp add: socket_close_def)

lemma socket_close_ok: "kernel_ok S held \<Longrightarrow> net_ok held n \<Longrightarrow> net_ok held (socket_close S fd n)"
  unfolding net_ok_def socket_close_def by (simp add: kernel_ok_def) blast

lemma opens_same: "opens held n (fd, n') \<Longrightarrow> same_fds held n' n'' \<Longrightarrow> opens held n (fd, n'')"
  by (auto simp: opens_def same_fds_def net_ok_def)

lemma opens_close: "kernel_ok S held \<Longrightarrow> net_ok held n \<Longrightarrow> opens held n (fd, n') \<Longrightarrow> opens held n (-1, socket_close S fd n')"
  by (cases "fd = -1") (force simp: opens_def net_ok_def socket_close_def kernel_ok_def)+

lemma got_fd_opens: "net_ok held n \<Longrightarrow> new_fd held (kern n) (fst r) (snd r) \<Longrightarrow> opens held n (got_fd r n)"
  by (auto simp: opens_def net_ok_def got_fd_def new_fd_def split_beta split: if_splits)

lemma setsockopts_same: "kernel_ok S held \<Longrightarrow> same_fds held n (setsockopts S fd os n)"
proof -
  assume "kernel_ok S held"
  then have "held (fold (sys_setsockopt S fd) os k) = held k" for k
    by (induction os arbitrary: k) (simp_all add: kernel_ok_def)
  then show ?thesis by (simp add: setsockopts_def same_fds_def)
qed

lemma kcall_same: "held (snd r) = held (kern n) \<Longrightarrow> same_fds held n (snd (kcall r n))"
  by (simp add: kcall_def same_fds_def split_beta)

lemma set_nonblock_same: "kernel_ok S held \<Longrightarrow> same_fds held n (snd (set_nonblock S fd n))"
  by (simp add: set_nonblock_def kcall_def same_fds_def kernel_ok_def split_beta Let_def)

lemma new_socket_opens:
  assumes "kernel_ok S held" "net_ok held n"
  shows "opens held n (new_socket S n)"
proof -
  obtain fd n1 where g: "got_fd (sys_socket S (kern n)) n = (fd, n1)" by force
  have o1: "opens held n (fd, n1)"
    using got_fd_opens [OF assms(2), of "sys_socket S (kern n)"] assms(1) by (simp add: g kernel_ok_def)
  obtain ok n2 where b: "set_nonblock S fd n1 = (ok, n2)" by force
  have o2: "opens held n (fd, n2)" using opens_same [OF o1] set_nonblock_same [OF assms(1), of n1 fd] by (simp add: b)
  show ?thesis
    using o1 o2 opens_close [OF assms o2] by (auto simp add: new_socket_def g b)
qed

lemma server_socket_opens:
  assumes "kernel_ok S held" "net_ok held n"
  shows "opens held n (server_socket S ip port n)"
proof -
  obtain fd n1 where g: "new_socket S n = (fd, n1)" by force
  have o1: "opens held n (fd, n1)" using new_socket_opens [OF assms] by (simp add: g)
  define n2 where "n2 = setsockopts S fd [SO_REUSEADDR, SO_KEEPALIVE, SO_LINGER, TCP_NODELAY] n1"
  have o2: "opens held n (fd, n2)" using opens_same [OF o1] setsockopts_same [OF assms(1)] by (simp add: n2_def)
  obtain r n3 where b: "kcall (sys_bind S fd (cstr ip) (htons port) (kern n2)) n2 = (r, n3)" by force
  have o3: "opens held n (fd, n3)"
    using opens_same [OF o2] kcall_same [of held _ n2] assms(1) b by (metis kernel_ok_def snd_conv)
  obtain q n4 where l: "kcall (sys_listen S fd 1024 (kern n3)) n3 = (q, n4)" by force
  have o4: "opens held n (fd, n4)"
    using opens_same [OF o3] kcall_same [of held _ n3] assms(1) l by (metis kernel_ok_def snd_conv)
  show ?thesis
    using o1 o4 opens_close [OF assms o3] opens_close [OF assms o4]
    by (auto simp add: server_socket_def g n2_def [symmetric] b l)
qed

lemma client_socket_opens:
  assumes "kernel_ok S held" "net_ok held n"
  shows "opens held n (client_socket S server port n)"
proof -
  obtain fd n1 where g: "new_socket S n = (fd, n1)" by force
  have o1: "opens held n (fd, n1)" using new_socket_opens [OF assms] by (simp add: g)
  define n2 where "n2 = setsockopts S fd [SO_LINGER, SO_KEEPALIVE] n1"
  have o2: "opens held n (fd, n2)" using opens_same [OF o1] setsockopts_same [OF assms(1)] by (simp add: n2_def)
  obtain r n3 where b: "kcall (sys_connect S fd (cstr server) (htons port) (kern n2)) n2 = (r, n3)" by force
  have o3: "opens held n (fd, n3)"
    using opens_same [OF o2] kcall_same [of held _ n2] assms(1) b by (metis kernel_ok_def snd_conv)
  show ?thesis
    using o1 o3 opens_close [OF assms o3] by (auto simp add: client_socket_def g n2_def [symmetric] b)
qed

lemma socket_accept_opens:
  assumes "kernel_ok S held" "net_ok held n"
  shows "opens held n (socket_accept S sfd n)"
proof -
  obtain fd n1 where g: "got_fd (sys_accept S sfd (kern n)) n = (fd, n1)" by force
  have o1: "opens held n (fd, n1)"
    using got_fd_opens [OF assms(2), of "sys_accept S sfd (kern n)"] assms(1) by (simp add: g kernel_ok_def)
  define n2 where "n2 = setsockopts S fd [SO_KEEPALIVE, SO_LINGER] n1"
  have o2: "opens held n (fd, n2)" using opens_same [OF o1] setsockopts_same [OF assms(1)] by (simp add: n2_def)
  obtain ok n3 where b: "set_nonblock S fd n2 = (ok, n3)" by force
  have o3: "opens held n (fd, n3)" using opens_same [OF o2] set_nonblock_same [OF assms(1), of n2 fd] by (simp add: b)
  show ?thesis
    using o1 o3 opens_close [OF assms o1] opens_close [OF assms o3]
    by (auto simp: socket_accept_def g n2_def [symmetric] b)
qed

lemma socket_read_same: "kernel_ok S held \<Longrightarrow> socket_read S fd m n = (ok, d, r, n') \<Longrightarrow> same_fds held n n'"
  by (auto simp: socket_read_def same_fds_def kernel_ok_def Let_def split: prod.splits if_splits) (metis snd_conv)+

lemma socket_write_same: "kernel_ok S held \<Longrightarrow> socket_write S fd d n = (ok, r, n') \<Longrightarrow> same_fds held n n'"
  by (auto simp: socket_write_def same_fds_def kernel_ok_def Let_def split: prod.splits if_splits) (metis snd_conv)+

lemma socket_read_length: "kernel_ok S held \<Longrightarrow> socket_read S fd m n = (ok, d, r, n') \<Longrightarrow> int (length d) = r"
  by (auto simp: socket_read_def kernel_ok_def Let_def split: prod.splits if_splits) (metis fst_conv snd_conv not_le order_less_imp_le)+

lemma socket_write_bound: "kernel_ok S held \<Longrightarrow> socket_write S fd d n = (True, r, n') \<Longrightarrow> 0 \<le> r \<and> r \<le> int (length d)"
  by (auto simp: socket_write_def kernel_ok_def Let_def split: prod.splits if_splits) (metis fst_conv)+

end
