(* ===== verification/Tables.thy ===== *)
theory Tables
  imports Prelude
begin

text \<open>
  Reading the constant arrays of the generated scanner and parser.  Indices are C \<open>int\<close>s and a
  read outside the array, undefined in C++, is None.
\<close>

definition tab_at :: "'a list \<Rightarrow> int \<Rightarrow> 'a option" where
  "tab_at xs i = (if 0 \<le> i \<and> i < int (length xs) then Some (xs ! nat i) else None)"

text \<open>\<open>entries T i xs\<close> lists the reads of \<open>xs\<close> as a part of \<open>T\<close> from \<open>i\<close> on; simplified on a
  literal list it gives one rewrite rule for each entry of a table.\<close>

fun entries :: "'a list \<Rightarrow> int \<Rightarrow> 'a list \<Rightarrow> bool" where
  "entries T i [] = True"
| "entries T i (x # xs) = (tab_at T i = Some x \<and> entries T (i + 1) xs)"

lemma entries_append: "entries (ys @ xs) (int (length ys)) xs"
proof (induction xs arbitrary: ys)
  case (Cons x xs)
  then show ?case using Cons [of "ys @ [x]"] by (simp add: tab_at_def nth_append add.commute)
qed simp

lemma entries_all: "T = xs \<Longrightarrow> entries T 0 xs"
  using entries_append [of "[]" xs] by simp

text \<open>A row of sixteen entries at a time, so that the conjunction is shallow.\<close>

lemma entries_16:
  "entries T i ([a, b, c, d, e, f, g, h, a', b', c', d', e', f', g', h'] @ xs) =
     ((tab_at T i = Some a \<and> tab_at T (i + 1) = Some b \<and> tab_at T (i + 2) = Some c \<and> tab_at T (i + 3) = Some d \<and>
       tab_at T (i + 4) = Some e \<and> tab_at T (i + 5) = Some f \<and> tab_at T (i + 6) = Some g \<and> tab_at T (i + 7) = Some h \<and>
       tab_at T (i + 8) = Some a' \<and> tab_at T (i + 9) = Some b' \<and> tab_at T (i + 10) = Some c' \<and> tab_at T (i + 11) = Some d' \<and>
       tab_at T (i + 12) = Some e' \<and> tab_at T (i + 13) = Some f' \<and> tab_at T (i + 14) = Some g' \<and> tab_at T (i + 15) = Some h') \<and>
      entries T (i + 16) xs)"
  by (simp add: add.assoc)

lemmas entries_simps = entries_16 entries.simps simp_thms add_0 one_add_one add_numeral_special
  arith_simps

lemma tab_at_SomeD: "tab_at xs i = Some x \<Longrightarrow> 0 \<le> i \<and> i < int (length xs) \<and> x = xs ! nat i \<and> x \<in> set xs"
  by (auto simp: tab_at_def split: if_splits)

lemma tab_at_in_range: "0 \<le> i \<Longrightarrow> i < int (length xs) \<Longrightarrow> tab_at xs i = Some (xs ! nat i)"
  by (simp add: tab_at_def)

lemma tab_at_None: "tab_at xs i = None \<longleftrightarrow> i < 0 \<or> int (length xs) \<le> i"
  by (auto simp: tab_at_def)

text \<open>A property of the entries of a table and their indices, checked in one pass.\<close>

fun all_from :: "(int \<Rightarrow> 'a \<Rightarrow> bool) \<Rightarrow> int \<Rightarrow> 'a list \<Rightarrow> bool" where
  "all_from P i [] = True"
| "all_from P i (x # xs) = (P i x \<and> all_from P (i + 1) xs)"

lemma all_from_nth: "all_from P i xs \<Longrightarrow> n < length xs \<Longrightarrow> P (i + int n) (xs ! n)"
proof (induction xs arbitrary: i n)
  case (Cons x xs)
  then show ?case using Cons.IH [of "i + 1" "n - 1"] by (cases n) (auto simp: algebra_simps)
qed simp

lemma all_fromD: "all_from P 0 xs \<Longrightarrow> tab_at xs i = Some x \<Longrightarrow> P i x"
  using all_from_nth [of P 0 xs "nat i"] by (auto dest!: tab_at_SomeD)

end
