(* ===== verification/FlexTables.thy ===== *)
theory FlexTables
  imports Tables
begin

text \<open>
  The tables of the scanner generated from parser/sql.lex (parser/sql.cpp): the accepted rule of each
  state, the equivalence class of each byte and the compressed transition table.
\<close>

text \<open>The rule each of the 632 states accepts, 0 for none, 150 for the end of the buffer.\<close>

definition yy_accept :: "int list" where
  "yy_accept =
    [0, 0, 0, 150, 148, 147, 147, 133, 145, 118, 133, 138, 144, 140, 141, 134] @
     [142, 133, 143, 135, 114, 114, 139, 130, 123, 129, 148, 121, 121, 121, 121, 121] @
     [121, 121, 121, 121, 121, 121, 121, 121, 100, 121, 121, 121, 121, 121, 121, 121] @
     [121, 121, 121, 121, 121, 136, 121, 146, 137, 147, 133, 133, 125, 118, 118, 89] @
     [117, 116, 114, 0, 132, 128, 126, 127, 131, 122, 121, 121, 121, 86, 0, 0] @
     [121, 121, 121, 95, 121, 121, 121, 121, 121, 121, 121, 121, 121, 121, 121, 121] @
     [121, 121, 121, 121, 121, 121, 121, 87, 98, 121, 121, 121, 121, 121, 121, 121] @
     [121, 121, 121, 73, 90, 121, 121, 121, 121, 121, 121, 121, 121, 121, 121, 121] @
     [121, 121, 121, 121, 121, 121, 121, 121, 121, 121, 121, 121, 121, 121, 121, 121] @
     [121, 121, 121, 91, 117, 117, 117, 117, 113, 124, 8, 88, 101, 96, 0, 121] @
     [121, 121, 56, 121, 121, 121, 121, 121, 121, 44, 121, 121, 121, 121, 110, 121] @
     [121, 26, 121, 121, 121, 77, 121, 121, 121, 121, 121, 121, 121, 121, 39, 121] @
     [64, 121, 121, 121, 121, 121, 121, 121, 121, 92, 121, 121, 121, 121, 121, 121] @
     [121, 121, 121, 121, 121, 19, 121, 121, 121, 121, 121, 121, 121, 121, 121, 121] @
     [121, 121, 121, 121, 121, 72, 121, 121, 121, 121, 121, 121, 111, 121, 121, 121] @
     [117, 112, 121, 121, 121, 46, 21, 27, 34, 121, 121, 121, 121, 121, 121, 97] @
     [121, 121, 24, 121, 121, 121, 121, 121, 80, 121, 121, 121, 121, 121, 121, 121] @
     [121, 84, 65, 121, 66, 82, 121, 55, 121, 121, 121, 99, 121, 121, 121, 121] @
     [43, 121, 121, 121, 121, 121, 5, 121, 121, 121, 121, 121, 47, 23, 30, 121] @
     [108, 121, 121, 121, 121, 121, 61, 121, 121, 121, 22, 121, 121, 121, 62, 121] @
     [121, 121, 121, 121, 71, 121, 121, 121, 121, 121, 121, 121, 121, 109, 40, 76] @
     [93, 121, 121, 121, 63, 69, 121, 121, 121, 104, 0, 121, 121, 121, 121, 121] @
     [121, 94, 67, 121, 18, 121, 68, 83, 121, 121, 121, 121, 121, 121, 121, 121] @
     [121, 121, 121, 121, 121, 121, 79, 121, 121, 121, 74, 121, 121, 121, 121, 81] @
     [0, 121, 121, 121, 38, 33, 121, 121, 121, 121, 4, 121, 42, 121, 102, 103] @
     [121, 75, 2, 121, 59, 0, 121, 121, 121, 121, 121, 121, 121, 78, 45, 1] @
     [29, 121, 121, 121, 121, 121, 121, 121, 121, 121, 121, 121, 121, 121, 121, 121] @
     [121, 3, 121, 121, 121, 121, 0, 121, 121, 20, 121, 121, 31, 106, 121, 0] @
     [121, 121, 37, 121, 0, 121, 121, 121, 121, 121, 121, 121, 70, 121, 121, 121] @
     [121, 0, 121, 121, 121, 121, 121, 121, 121, 121, 121, 48, 121, 107, 121, 121] @
     [121, 36, 121, 0, 121, 59, 0, 32, 7, 0, 25, 121, 121, 121, 0, 51] @
     [51, 121, 121, 121, 121, 121, 121, 121, 121, 49, 121, 0, 121, 121, 121, 121] @
     [121, 121, 121, 121, 48, 48, 28, 60, 121, 0, 0, 57, 119, 121, 0, 121] @
     [121, 121, 0, 121, 121, 121, 121, 50, 121, 105, 49, 49, 0, 121, 121, 14] @
     [121, 121, 121, 121, 52, 35, 0, 115, 0, 119, 121, 0, 121, 58, 121, 0] @
     [121, 121, 121, 50, 50, 0, 121, 121, 121, 121, 121, 121, 0, 6, 0, 121] @
     [121, 0, 121, 54, 121, 85, 121, 121, 121, 121, 121, 121, 120, 0, 121, 121] @
     [53, 121, 17, 121, 121, 121, 15, 121, 121, 0, 9, 121, 54, 121, 121, 121] @
     [121, 10, 0, 121, 12, 121, 121, 121, 0, 121, 121, 121, 121, 41, 121, 121] @
     [121, 11, 58, 13, 121, 121, 16, 0]"

text \<open>The equivalence class of each byte.\<close>

definition yy_ec :: "int list" where
  "yy_ec =
    [0, 1, 1, 1, 1, 1, 1, 1, 1, 2, 3, 2, 2, 4, 1, 1] @
     [1, 1, 1, 1, 1, 1, 1, 1, 1, 1, 1, 1, 1, 1, 1, 1] @
     [2, 5, 6, 7, 1, 8, 9, 10, 11, 12, 13, 8, 14, 15, 16, 17] @
     [18, 19, 20, 21, 21, 21, 21, 21, 22, 21, 1, 23, 24, 25, 26, 1] @
     [27, 28, 29, 30, 31, 32, 33, 34, 35, 36, 37, 38, 39, 40, 41, 42] @
     [43, 44, 45, 46, 47, 48, 49, 50, 51, 52, 53, 1, 1, 1, 54, 55] @
     [56, 57, 58, 59, 60, 61, 62, 63, 64, 65, 66, 67, 68, 69, 70, 71] @
     [72, 73, 74, 75, 76, 77, 78, 79, 80, 81, 82, 1, 83, 1, 8, 1] @
     [1, 1, 1, 1, 1, 1, 1, 1, 1, 1, 1, 1, 1, 1, 1, 1] @
     [1, 1, 1, 1, 1, 1, 1, 1, 1, 1, 1, 1, 1, 1, 1, 1] @
     [2, 1, 1, 1, 1, 1, 1, 1, 1, 1, 1, 1, 1, 1, 1, 1] @
     [1, 1, 1, 1, 1, 1, 1, 1, 1, 1, 1, 1, 1, 1, 1, 1] @
     [1, 1, 1, 1, 1, 1, 1, 1, 1, 1, 1, 1, 1, 1, 1, 1] @
     [1, 1, 1, 1, 1, 1, 1, 1, 1, 1, 1, 1, 1, 1, 1, 1] @
     [1, 1, 1, 1, 1, 1, 1, 1, 1, 1, 1, 1, 1, 1, 1, 1] @
     [1, 1, 1, 1, 1, 1, 1, 1, 1, 1, 1, 1, 1, 1, 1, 1]"

text \<open>The class of a class, for the template states from 632 on.\<close>

definition yy_meta :: "int list" where
  "yy_meta =
    [0, 1, 2, 2, 2, 1, 1, 1, 1, 1, 1, 1, 1, 1, 1, 1] @
     [3, 1, 4, 4, 4, 4, 4, 1, 1, 1, 1, 1, 5, 5, 5, 5] @
     [5, 5, 6, 6, 6, 6, 6, 6, 6, 6, 6, 6, 6, 6, 6, 6] @
     [6, 6, 6, 6, 6, 6, 1, 7, 1, 5, 5, 5, 5, 5, 5, 6] @
     [6, 6, 6, 6, 6, 6, 6, 6, 6, 6, 6, 6, 6, 6, 6, 6] @
     [6, 6, 6, 1]"

text \<open>Where the row of a state starts in \<open>yy_nxt\<close> and \<open>yy_chk\<close>.\<close>

definition yy_base :: "int list" where
  "yy_base =
    [0, 0, 0, 494, 1350, 82, 85, 88, 1350, 91, 96, 480, 1350, 1350, 1350, 1350] @
     [1350, 104, 1350, 473, 96, 102, 1350, 101, 1350, 103, 0, 91, 131, 108, 116, 123] @
     [156, 57, 121, 105, 98, 110, 172, 124, 169, 161, 115, 142, 184, 225, 219, 201] @
     [230, 239, 163, 0, 175, 1350, 227, 1350, 402, 303, 306, 314, 1350, 151, 218, 1350] @
     [322, 1350, 313, 0, 1350, 355, 1350, 1350, 1350, 0, 0, 171, 268, 211, 336, 323] @
     [203, 313, 217, 0, 217, 240, 284, 294, 301, 320, 309, 303, 310, 326, 325, 323] @
     [321, 319, 325, 326, 320, 336, 330, 363, 0, 336, 321, 327, 345, 368, 364, 380] @
     [365, 366, 376, 0, 385, 370, 376, 383, 392, 387, 386, 385, 389, 383, 393, 401] @
     [382, 392, 387, 401, 430, 423, 418, 431, 437, 438, 438, 427, 428, 443, 429, 433] @
     [434, 444, 454, 1350, 309, 510, 518, 526, 0, 1350, 0, 0, 0, 0, 517, 437] @
     [452, 462, 0, 495, 500, 495, 503, 497, 512, 509, 518, 516, 519, 503, 0, 522] @
     [520, 508, 509, 510, 529, 528, 519, 512, 526, 528, 522, 533, 534, 535, 558, 527] @
     [0, 534, 535, 566, 565, 568, 320, 567, 556, 0, 566, 574, 575, 578, 579, 571] @
     [580, 578, 576, 587, 584, 0, 567, 577, 581, 580, 260, 594, 576, 583, 593, 574] @
     [596, 598, 607, 620, 630, 0, 618, 280, 631, 616, 622, 629, 0, 623, 625, 621] @
     [480, 1350, 638, 630, 627, 0, 0, 0, 0, 645, 628, 628, 636, 630, 632, 0] @
     [644, 642, 0, 652, 636, 652, 639, 666, 0, 663, 673, 245, 671, 666, 673, 674] @
     [686, 0, 0, 680, 0, 0, 675, 726, 680, 676, 680, 0, 686, 687, 701, 696] @
     [0, 685, 690, 706, 694, 710, 0, 709, 703, 725, 747, 721, 0, 0, 712, 743] @
     [0, 733, 728, 746, 734, 748, 226, 747, 754, 755, 0, 760, 792, 764, 0, 762] @
     [767, 753, 761, 767, 0, 779, 788, 784, 792, 784, 798, 803, 786, 0, 0, 0] @
     [0, 799, 791, 803, 0, 0, 789, 805, 259, 0, 836, 802, 814, 819, 803, 809] @
     [822, 0, 0, 820, 0, 812, 0, 0, 805, 811, 836, 845, 822, 835, 841, 830] @
     [833, 848, 841, 850, 849, 859, 0, 851, 853, 863, 0, 870, 863, 877, 864, 0] @
     [905, 877, 874, 875, 0, 0, 893, 886, 888, 882, 0, 900, 934, 885, 0, 0] @
     [887, 0, 0, 894, 177, 912, 899, 892, 901, 911, 935, 909, 901, 0, 0, 0] @
     [0, 912, 911, 925, 963, 928, 930, 944, 173, 945, 949, 957, 945, 941, 938, 949] @
     [962, 0, 959, 968, 952, 957, 957, 962, 206, 0, 1002, 975, 0, 0, 961, 1018] @
     [977, 974, 0, 1000, 970, 1002, 986, 1011, 993, 1003, 1002, 1013, 0, 1001, 1005, 1001] @
     [998, 1048, 163, 1020, 1019, 1025, 1026, 1018, 1012, 1025, 1037, 0, 1020, 0, 1037, 1032] @
     [1034, 0, 204, 1041, 1042, 0, 1089, 0, 1044, 1053, 0, 1057, 1064, 1069, 1073, 0] @
     [0, 1068, 1070, 1061, 1065, 1064, 1061, 1081, 1085, 0, 1068, 1081, 1074, 1088, 1089, 139] @
     [1094, 1084, 133, 1081, 0, 0, 0, 0, 1073, 1135, 1087, 0, 0, 1089, 1113, 1111] @
     [1116, 1113, 1124, 1120, 1134, 1127, 1135, 0, 1118, 0, 0, 0, 1128, 1135, 1123, 0] @
     [1136, 1140, 90, 1134, 0, 0, 1177, 1350, 1124, 0, 1123, 1145, 1140, 0, 1137, 1150] @
     [1154, 1138, 1137, 0, 0, 1171, 1162, 83, 1167, 1175, 1169, 1173, 1173, 0, 1181, 1171] @
     [1191, 1175, 1176, 0, 1170, 1350, 1175, 1179, 1177, 1194, 1195, 1192, 1350, 1183, 1178, 1190] @
     [1350, 1181, 0, 1195, 1203, 1195, 0, 1194, 1200, 1206, 0, 90, 0, 1214, 1220, 1236] @
     [1220, 0, 1230, 50, 0, 1225, 42, 1235, 1234, 1246, 1238, 1233, 1232, 1350, 1244, 1234] @
     [1240, 0, 0, 0, 1233, 1238, 0, 1350, 1313, 1318, 1322, 1329, 1333, 1337, 1342]"

text \<open>The state to try when a row has no entry.\<close>

definition yy_def :: "int list" where
  "yy_def =
    [0, 631, 1, 631, 631, 631, 631, 631, 631, 632, 631, 631, 631, 631, 631, 631] @
     [631, 631, 631, 631, 631, 631, 631, 631, 631, 631, 633, 634, 634, 634, 634, 634] @
     [634, 634, 634, 634, 634, 634, 634, 634, 634, 634, 634, 634, 634, 634, 634, 634] @
     [634, 634, 634, 634, 634, 631, 634, 631, 631, 631, 631, 631, 631, 632, 631, 631] @
     [635, 631, 631, 636, 631, 631, 631, 631, 631, 633, 634, 634, 634, 634, 631, 631] @
     [634, 634, 634, 634, 634, 634, 634, 634, 634, 634, 634, 634, 634, 634, 634, 634] @
     [634, 634, 634, 634, 634, 634, 634, 634, 634, 634, 634, 634, 634, 634, 634, 634] @
     [634, 634, 634, 634, 634, 634, 634, 634, 634, 634, 634, 634, 634, 634, 634, 634] @
     [634, 634, 634, 634, 634, 634, 634, 634, 634, 634, 634, 634, 634, 634, 634, 634] @
     [634, 634, 634, 631, 635, 635, 631, 635, 636, 631, 634, 634, 634, 634, 631, 634] @
     [634, 634, 634, 634, 634, 634, 634, 634, 634, 634, 634, 634, 634, 634, 634, 634] @
     [634, 634, 634, 634, 634, 634, 634, 634, 634, 634, 634, 634, 634, 634, 634, 634] @
     [634, 634, 634, 634, 634, 634, 634, 634, 634, 634, 634, 634, 634, 634, 634, 634] @
     [634, 634, 634, 634, 634, 634, 634, 634, 634, 634, 634, 634, 634, 634, 634, 634] @
     [634, 634, 634, 634, 634, 634, 634, 634, 634, 634, 634, 634, 634, 634, 634, 634] @
     [631, 631, 634, 634, 634, 634, 634, 634, 634, 634, 634, 634, 634, 634, 634, 634] @
     [634, 634, 634, 634, 634, 634, 634, 634, 634, 634, 634, 634, 634, 634, 634, 634] @
     [634, 634, 634, 634, 634, 634, 634, 634, 634, 634, 634, 634, 634, 634, 634, 634] @
     [634, 634, 634, 634, 634, 634, 634, 634, 634, 634, 634, 634, 634, 634, 634, 634] @
     [634, 634, 634, 634, 634, 634, 634, 634, 634, 634, 634, 634, 634, 634, 634, 634] @
     [634, 634, 634, 634, 634, 634, 634, 634, 634, 634, 634, 634, 634, 634, 634, 634] @
     [634, 634, 634, 634, 634, 634, 634, 634, 634, 634, 631, 634, 634, 634, 634, 634] @
     [634, 634, 634, 634, 634, 634, 634, 634, 634, 634, 634, 634, 634, 634, 634, 634] @
     [634, 634, 634, 634, 634, 634, 634, 634, 634, 634, 634, 634, 634, 634, 634, 634] @
     [631, 634, 634, 634, 634, 634, 634, 634, 634, 634, 634, 634, 634, 634, 634, 634] @
     [634, 634, 634, 634, 634, 631, 634, 634, 634, 634, 634, 634, 634, 634, 634, 634] @
     [634, 634, 634, 634, 634, 634, 634, 634, 634, 634, 634, 634, 634, 634, 634, 634] @
     [634, 634, 634, 634, 634, 634, 631, 634, 634, 634, 634, 634, 634, 634, 634, 631] @
     [634, 634, 634, 634, 631, 634, 634, 634, 634, 634, 634, 634, 634, 634, 634, 634] @
     [634, 631, 634, 634, 634, 634, 634, 634, 634, 634, 634, 634, 634, 634, 634, 634] @
     [634, 634, 634, 631, 634, 634, 637, 634, 634, 631, 634, 634, 634, 634, 631, 634] @
     [634, 634, 634, 634, 634, 634, 634, 634, 634, 634, 634, 631, 634, 634, 634, 634] @
     [634, 634, 634, 634, 634, 634, 634, 634, 634, 631, 631, 634, 638, 634, 631, 634] @
     [634, 634, 631, 634, 634, 634, 634, 634, 634, 634, 634, 634, 631, 634, 634, 634] @
     [634, 634, 634, 634, 634, 634, 631, 631, 631, 638, 634, 631, 634, 634, 634, 631] @
     [634, 634, 634, 634, 634, 631, 634, 634, 634, 634, 634, 634, 631, 634, 631, 634] @
     [634, 631, 634, 634, 634, 631, 634, 634, 634, 634, 634, 634, 631, 631, 634, 634] @
     [631, 634, 634, 634, 634, 634, 634, 634, 634, 631, 634, 634, 634, 634, 634, 634] @
     [634, 634, 631, 634, 634, 634, 634, 634, 631, 634, 634, 634, 634, 631, 634, 634] @
     [634, 634, 634, 634, 634, 634, 634, 0, 631, 631, 631, 631, 631, 631, 631]"

text \<open>The next states of all rows, interleaved.\<close>

definition yy_nxt :: "int list" where
  "yy_nxt =
    [0, 4, 5, 6, 5, 7, 8, 9, 10, 11, 12, 13, 14, 15, 16, 17] @
     [18, 19, 20, 21, 21, 21, 21, 22, 23, 24, 25, 26, 27, 28, 29, 30] @
     [31, 32, 33, 34, 35, 36, 37, 38, 39, 40, 41, 42, 43, 44, 45, 46] @
     [47, 48, 49, 50, 51, 52, 53, 54, 55, 27, 28, 29, 30, 31, 32, 33] @
     [34, 35, 36, 37, 38, 39, 40, 41, 42, 43, 44, 45, 46, 47, 48, 49] @
     [50, 51, 52, 56, 57, 57, 57, 57, 57, 57, 58, 58, 58, 59, 62, 62] @
     [59, 619, 58, 58, 58, 59, 99, 59, 59, 617, 58, 58, 58, 59, 611, 59] @
     [59, 60, 66, 66, 66, 66, 66, 64, 66, 66, 66, 66, 66, 68, 69, 70] @
     [71, 72, 75, 99, 76, 78, 78, 78, 84, 77, 583, 102, 105, 79, 106, 85] @
     [88, 570, 103, 67, 89, 100, 86, 104, 90, 87, 62, 62, 111, 101, 91, 75] @
     [118, 76, 92, 80, 93, 84, 77, 81, 102, 105, 82, 106, 85, 88, 94, 103] @
     [67, 89, 100, 86, 104, 90, 87, 83, 95, 111, 101, 91, 547, 118, 119, 92] @
     [80, 93, 544, 96, 81, 112, 97, 82, 107, 98, 115, 94, 108, 143, 116, 144] @
     [109, 117, 154, 113, 83, 95, 110, 521, 120, 114, 508, 119, 121, 62, 62, 122] @
     [96, 485, 112, 97, 470, 107, 98, 115, 451, 108, 143, 116, 144, 109, 117, 154] @
     [113, 157, 135, 110, 136, 120, 114, 137, 138, 121, 159, 131, 122, 123, 132, 133] @
     [145, 124, 139, 163, 125, 126, 140, 164, 134, 127, 146, 128, 165, 129, 157, 135] @
     [130, 136, 141, 142, 137, 138, 404, 159, 131, 379, 123, 132, 133, 145, 124, 139] @
     [163, 125, 126, 140, 164, 134, 127, 146, 128, 165, 129, 155, 338, 130, 310, 141] @
     [142, 57, 57, 57, 58, 58, 58, 58, 240, 240, 58, 298, 58, 58, 58, 59] @
     [156, 58, 59, 166, 149, 150, 150, 151, 155, 59, 151, 66, 66, 66, 66, 66] @
     [167, 151, 78, 78, 78, 158, 158, 158, 158, 158, 79, 160, 168, 156, 169, 175] @
     [166, 170, 161, 173, 176, 177, 174, 171, 162, 178, 179, 180, 181, 167, 172, 182] @
     [183, 184, 185, 186, 191, 192, 193, 280, 160, 168, 194, 169, 175, 153, 170, 161] @
     [173, 176, 177, 174, 171, 162, 178, 179, 180, 181, 187, 172, 182, 183, 184, 185] @
     [186, 191, 192, 193, 188, 197, 195, 194, 196, 189, 190, 199, 200, 201, 198, 202] @
     [203, 204, 205, 206, 207, 209, 210, 187, 211, 214, 208, 215, 212, 216, 217, 218] @
     [219, 188, 197, 195, 213, 196, 189, 190, 199, 200, 201, 198, 202, 203, 204, 205] @
     [206, 207, 209, 210, 220, 211, 214, 208, 215, 212, 216, 217, 218, 219, 221, 222] @
     [223, 213, 224, 225, 228, 226, 229, 231, 232, 233, 230, 234, 235, 227, 236, 237] @
     [238, 220, 239, 240, 240, 147, 65, 242, 243, 63, 244, 221, 222, 223, 631, 224] @
     [225, 228, 226, 229, 231, 232, 233, 230, 234, 235, 227, 236, 237, 238, 631, 239] @
     [149, 150, 150, 149, 242, 243, 149, 244, 58, 150, 150, 58, 245, 149, 58, 241] @
     [149, 150, 150, 151, 246, 58, 151, 158, 158, 158, 158, 158, 248, 151, 249, 250] @
     [251, 252, 253, 247, 254, 255, 256, 257, 258, 245, 259, 260, 261, 262, 263, 264] @
     [265, 246, 266, 267, 268, 269, 270, 271, 274, 248, 275, 249, 250, 251, 252, 253] @
     [247, 254, 255, 256, 257, 258, 276, 259, 260, 261, 262, 263, 264, 265, 272, 266] @
     [267, 268, 269, 270, 271, 274, 277, 275, 273, 278, 279, 281, 282, 283, 284, 285] @
     [286, 287, 288, 276, 289, 290, 291, 292, 293, 294, 295, 272, 296, 297, 299, 300] @
     [301, 302, 303, 277, 304, 273, 278, 279, 281, 282, 283, 284, 285, 286, 287, 288] @
     [305, 289, 290, 291, 292, 293, 294, 295, 306, 296, 297, 299, 300, 301, 302, 303] @
     [307, 304, 308, 309, 311, 312, 313, 314, 316, 317, 318, 315, 319, 305, 320, 321] @
     [322, 323, 324, 325, 326, 306, 327, 328, 329, 330, 331, 332, 333, 307, 334, 308] @
     [309, 311, 312, 313, 314, 316, 317, 318, 315, 319, 335, 320, 321, 322, 323, 324] @
     [325, 326, 336, 327, 328, 329, 330, 331, 332, 333, 337, 334, 339, 340, 341, 342] @
     [343, 344, 345, 350, 351, 352, 631, 335, 346, 346, 346, 353, 354, 355, 356, 336] @
     [357, 358, 359, 360, 361, 362, 363, 337, 631, 339, 340, 341, 342, 343, 344, 345] @
     [350, 351, 352, 347, 364, 369, 370, 631, 353, 354, 355, 356, 631, 357, 358, 359] @
     [360, 361, 362, 363, 371, 348, 374, 349, 365, 366, 375, 372, 376, 377, 378, 380] @
     [347, 364, 369, 370, 367, 381, 373, 382, 383, 368, 384, 384, 384, 385, 386, 387] @
     [388, 371, 348, 374, 349, 365, 366, 375, 372, 376, 377, 378, 380, 389, 390, 391] @
     [392, 367, 381, 373, 382, 383, 368, 393, 394, 395, 385, 386, 387, 388, 396, 397] @
     [398, 399, 400, 401, 402, 403, 346, 346, 346, 406, 389, 390, 391, 392, 407, 408] @
     [409, 410, 411, 412, 393, 394, 395, 413, 631, 414, 415, 396, 397, 398, 399, 400] @
     [401, 402, 403, 416, 420, 423, 406, 421, 424, 425, 417, 407, 408, 409, 410, 411] @
     [412, 418, 426, 422, 413, 405, 414, 415, 427, 428, 429, 430, 419, 431, 432, 433] @
     [416, 420, 423, 434, 421, 424, 425, 417, 435, 436, 437, 384, 384, 384, 418, 426] @
     [422, 439, 405, 440, 441, 427, 428, 429, 430, 419, 431, 432, 433, 442, 443, 444] @
     [434, 445, 446, 448, 449, 435, 436, 437, 447, 447, 447, 450, 452, 453, 439, 454] @
     [440, 441, 455, 456, 460, 461, 438, 462, 463, 631, 442, 443, 444, 464, 445, 446] @
     [448, 449, 466, 467, 457, 465, 465, 465, 450, 452, 453, 458, 454, 471, 468, 455] @
     [456, 460, 461, 438, 462, 463, 459, 469, 472, 473, 464, 474, 475, 476, 477, 466] @
     [467, 457, 478, 479, 480, 481, 482, 483, 458, 484, 471, 468, 486, 486, 486, 487] @
     [488, 490, 491, 459, 469, 472, 473, 494, 474, 475, 476, 477, 447, 447, 447, 478] @
     [479, 480, 481, 482, 483, 492, 484, 495, 631, 496, 493, 499, 487, 488, 490, 491] @
     [497, 498, 500, 501, 494, 502, 503, 504, 505, 506, 465, 465, 465, 509, 510, 511] @
     [512, 513, 492, 514, 495, 489, 496, 493, 499, 515, 516, 517, 518, 497, 498, 500] @
     [501, 519, 502, 503, 504, 505, 506, 520, 522, 523, 509, 510, 511, 512, 513, 507] @
     [514, 525, 489, 486, 486, 486, 515, 516, 517, 518, 526, 527, 528, 529, 519, 530] @
     [531, 532, 533, 534, 520, 522, 523, 535, 536, 537, 538, 539, 507, 540, 525, 541] @
     [542, 543, 545, 546, 548, 549, 552, 526, 527, 528, 529, 554, 530, 531, 532, 533] @
     [534, 550, 550, 550, 535, 536, 537, 538, 539, 555, 540, 551, 541, 542, 543, 545] @
     [546, 548, 549, 552, 556, 557, 558, 559, 554, 560, 561, 562, 563, 564, 565, 566] @
     [567, 568, 569, 571, 572, 573, 555, 574, 575, 576, 577, 550, 550, 550, 578, 579] @
     [580, 556, 557, 558, 559, 551, 560, 561, 562, 563, 564, 565, 566, 567, 568, 569] @
     [571, 572, 573, 581, 574, 575, 576, 577, 582, 584, 585, 578, 579, 580, 586, 587] @
     [588, 589, 590, 591, 592, 593, 594, 595, 596, 597, 598, 599, 600, 601, 602, 603] @
     [581, 604, 605, 606, 607, 582, 584, 585, 608, 609, 610, 586, 587, 588, 589, 590] @
     [591, 592, 593, 594, 595, 596, 597, 598, 599, 600, 601, 602, 603, 612, 604, 605] @
     [606, 607, 613, 614, 615, 608, 609, 610, 616, 618, 620, 621, 622, 623, 624, 625] @
     [626, 627, 628, 629, 630, 631, 631, 631, 631, 631, 612, 631, 631, 631, 631, 613] @
     [614, 615, 631, 631, 631, 616, 618, 620, 621, 622, 623, 624, 625, 626, 627, 628] @
     [629, 630, 61, 61, 61, 61, 61, 61, 61, 73, 73, 73, 73, 74, 74, 74] @
     [74, 74, 148, 148, 148, 148, 148, 148, 148, 152, 152, 524, 631, 631, 524, 524] @
     [524, 553, 553, 553, 553, 553, 3, 631, 631, 631, 631, 631, 631, 631, 631, 631] @
     [631, 631, 631, 631, 631, 631, 631, 631, 631, 631, 631, 631, 631, 631, 631, 631] @
     [631, 631, 631, 631, 631, 631, 631, 631, 631, 631, 631, 631, 631, 631, 631, 631] @
     [631, 631, 631, 631, 631, 631, 631, 631, 631, 631, 631, 631, 631, 631, 631, 631] @
     [631, 631, 631, 631, 631, 631, 631, 631, 631, 631, 631, 631, 631, 631, 631, 631] @
     [631, 631, 631, 631, 631, 631, 631, 631, 631, 631]"

text \<open>The state each entry of \<open>yy_nxt\<close> belongs to.\<close>

definition yy_chk :: "int list" where
  "yy_chk =
    [0, 1, 1, 1, 1, 1, 1, 1, 1, 1, 1, 1, 1, 1, 1, 1] @
     [1, 1, 1, 1, 1, 1, 1, 1, 1, 1, 1, 1, 1, 1, 1, 1] @
     [1, 1, 1, 1, 1, 1, 1, 1, 1, 1, 1, 1, 1, 1, 1, 1] @
     [1, 1, 1, 1, 1, 1, 1, 1, 1, 1, 1, 1, 1, 1, 1, 1] @
     [1, 1, 1, 1, 1, 1, 1, 1, 1, 1, 1, 1, 1, 1, 1, 1] @
     [1, 1, 1, 1, 5, 5, 5, 6, 6, 6, 7, 7, 7, 7, 9, 9] @
     [7, 614, 10, 10, 10, 10, 33, 7, 10, 611, 17, 17, 17, 17, 603, 10] @
     [17, 7, 20, 20, 20, 20, 20, 17, 21, 21, 21, 21, 21, 23, 23, 23] @
     [25, 25, 27, 33, 27, 28, 28, 28, 29, 27, 567, 35, 36, 28, 37, 29] @
     [30, 546, 35, 20, 30, 34, 29, 35, 30, 29, 61, 61, 39, 34, 30, 27] @
     [42, 27, 31, 28, 31, 29, 27, 28, 35, 36, 28, 37, 29, 30, 31, 35] @
     [20, 30, 34, 29, 35, 30, 29, 28, 32, 39, 34, 30, 514, 42, 43, 31] @
     [28, 31, 511, 32, 28, 40, 32, 28, 38, 32, 41, 31, 38, 50, 41, 52] @
     [38, 41, 75, 40, 28, 32, 38, 482, 44, 40, 466, 43, 44, 62, 62, 44] @
     [32, 440, 40, 32, 424, 38, 32, 41, 404, 38, 50, 41, 52, 38, 41, 75] @
     [40, 77, 47, 38, 47, 44, 40, 47, 47, 44, 80, 46, 44, 45, 46, 46] @
     [54, 45, 48, 82, 45, 45, 48, 84, 46, 45, 54, 45, 85, 45, 77, 47] @
     [45, 47, 49, 49, 47, 47, 344, 80, 46, 310, 45, 46, 46, 54, 45, 48] @
     [82, 45, 45, 48, 84, 46, 45, 54, 45, 85, 45, 76, 267, 45, 231, 49] @
     [49, 57, 57, 57, 58, 58, 58, 58, 148, 148, 58, 218, 59, 59, 59, 59] @
     [76, 58, 59, 86, 64, 64, 64, 64, 76, 59, 64, 66, 66, 66, 66, 66] @
     [87, 64, 78, 78, 78, 79, 79, 79, 79, 79, 78, 81, 88, 76, 89, 91] @
     [86, 89, 81, 90, 92, 93, 90, 89, 81, 94, 95, 96, 97, 87, 89, 98] @
     [99, 100, 101, 102, 105, 106, 107, 198, 81, 88, 108, 89, 91, 69, 89, 81] @
     [90, 92, 93, 90, 89, 81, 94, 95, 96, 97, 103, 89, 98, 99, 100, 101] @
     [102, 105, 106, 107, 103, 110, 109, 108, 109, 103, 103, 111, 112, 113, 110, 114] @
     [116, 117, 118, 119, 120, 121, 122, 103, 123, 125, 120, 126, 124, 127, 128, 129] @
     [130, 103, 110, 109, 124, 109, 103, 103, 111, 112, 113, 110, 114, 116, 117, 118] @
     [119, 120, 121, 122, 131, 123, 125, 120, 126, 124, 127, 128, 129, 130, 132, 133] @
     [133, 124, 134, 135, 136, 135, 137, 138, 139, 140, 137, 141, 142, 135, 143, 144] @
     [145, 131, 146, 240, 240, 56, 19, 159, 160, 11, 161, 132, 133, 133, 3, 134] @
     [135, 136, 135, 137, 138, 139, 140, 137, 141, 142, 135, 143, 144, 145, 0, 146] @
     [149, 149, 149, 149, 159, 160, 149, 161, 150, 150, 150, 150, 163, 149, 150, 158] @
     [151, 151, 151, 151, 164, 150, 151, 158, 158, 158, 158, 158, 165, 151, 166, 167] @
     [168, 169, 170, 164, 171, 172, 173, 175, 176, 163, 177, 178, 179, 180, 181, 182] @
     [183, 164, 184, 185, 186, 187, 188, 189, 191, 165, 193, 166, 167, 168, 169, 170] @
     [164, 171, 172, 173, 175, 176, 194, 177, 178, 179, 180, 181, 182, 183, 190, 184] @
     [185, 186, 187, 188, 189, 191, 195, 193, 190, 196, 197, 199, 200, 202, 203, 204] @
     [205, 206, 207, 194, 208, 209, 210, 211, 212, 214, 215, 190, 216, 217, 219, 220] @
     [221, 222, 223, 195, 224, 190, 196, 197, 199, 200, 202, 203, 204, 205, 206, 207] @
     [225, 208, 209, 210, 211, 212, 214, 215, 226, 216, 217, 219, 220, 221, 222, 223] @
     [227, 224, 228, 230, 232, 232, 233, 234, 235, 237, 238, 234, 239, 225, 242, 243] @
     [244, 249, 250, 251, 252, 226, 253, 254, 256, 257, 259, 260, 261, 227, 262, 228] @
     [230, 232, 232, 233, 234, 235, 237, 238, 234, 239, 263, 242, 243, 244, 249, 250] @
     [251, 252, 265, 253, 254, 256, 257, 259, 260, 261, 266, 262, 268, 269, 270, 271] @
     [272, 275, 278, 280, 281, 282, 0, 263, 279, 279, 279, 284, 285, 286, 287, 265] @
     [289, 290, 291, 292, 293, 295, 296, 266, 0, 268, 269, 270, 271, 272, 275, 278] @
     [280, 281, 282, 279, 297, 299, 302, 0, 284, 285, 286, 287, 0, 289, 290, 291] @
     [292, 293, 295, 296, 303, 279, 305, 279, 298, 298, 306, 303, 307, 308, 309, 311] @
     [279, 297, 299, 302, 298, 312, 303, 313, 315, 298, 316, 316, 316, 317, 319, 320] @
     [321, 303, 279, 305, 279, 298, 298, 306, 303, 307, 308, 309, 311, 322, 323, 325] @
     [326, 298, 312, 303, 313, 315, 298, 327, 328, 329, 317, 319, 320, 321, 330, 331] @
     [332, 337, 338, 339, 342, 343, 346, 346, 346, 347, 322, 323, 325, 326, 348, 349] @
     [350, 351, 352, 355, 327, 328, 329, 357, 0, 360, 361, 330, 331, 332, 337, 338] @
     [339, 342, 343, 362, 364, 366, 347, 365, 367, 368, 363, 348, 349, 350, 351, 352] @
     [355, 363, 369, 365, 357, 346, 360, 361, 370, 371, 372, 373, 363, 375, 376, 377] @
     [362, 364, 366, 379, 365, 367, 368, 363, 380, 381, 382, 384, 384, 384, 363, 369] @
     [365, 385, 346, 386, 387, 370, 371, 372, 373, 363, 375, 376, 377, 390, 391, 392] @
     [379, 393, 395, 397, 400, 380, 381, 382, 396, 396, 396, 403, 405, 406, 385, 407] @
     [386, 387, 408, 409, 411, 412, 384, 417, 418, 0, 390, 391, 392, 419, 393, 395] @
     [397, 400, 421, 422, 410, 420, 420, 420, 403, 405, 406, 410, 407, 425, 423, 408] @
     [409, 411, 412, 384, 417, 418, 410, 423, 426, 427, 419, 428, 429, 430, 431, 421] @
     [422, 410, 432, 434, 435, 436, 437, 438, 410, 439, 425, 423, 442, 442, 442, 443] @
     [446, 448, 449, 410, 423, 426, 427, 452, 428, 429, 430, 431, 447, 447, 447, 432] @
     [434, 435, 436, 437, 438, 451, 439, 453, 0, 454, 451, 456, 443, 446, 448, 449] @
     [455, 455, 457, 458, 452, 459, 461, 462, 463, 464, 465, 465, 465, 467, 468, 469] @
     [470, 471, 451, 472, 453, 447, 454, 451, 456, 473, 474, 476, 478, 455, 455, 457] @
     [458, 479, 459, 461, 462, 463, 464, 480, 483, 484, 467, 468, 469, 470, 471, 465] @
     [472, 488, 447, 486, 486, 486, 473, 474, 476, 478, 489, 491, 492, 493, 479, 494] @
     [497, 498, 499, 500, 480, 483, 484, 501, 502, 503, 504, 506, 465, 507, 488, 508] @
     [509, 510, 512, 513, 515, 520, 522, 489, 491, 492, 493, 525, 494, 497, 498, 499] @
     [500, 521, 521, 521, 501, 502, 503, 504, 506, 526, 507, 521, 508, 509, 510, 512] @
     [513, 515, 520, 522, 527, 528, 529, 530, 525, 531, 532, 533, 534, 536, 540, 541] @
     [542, 544, 545, 547, 552, 554, 526, 555, 556, 558, 559, 550, 550, 550, 560, 561] @
     [562, 527, 528, 529, 530, 550, 531, 532, 533, 534, 536, 540, 541, 542, 544, 545] @
     [547, 552, 554, 565, 555, 556, 558, 559, 566, 568, 569, 560, 561, 562, 570, 571] @
     [572, 574, 575, 576, 577, 578, 580, 582, 583, 584, 585, 586, 587, 589, 590, 591] @
     [565, 593, 595, 596, 597, 566, 568, 569, 599, 600, 601, 570, 571, 572, 574, 575] @
     [576, 577, 578, 580, 582, 583, 584, 585, 586, 587, 589, 590, 591, 605, 593, 595] @
     [596, 597, 606, 607, 608, 599, 600, 601, 610, 613, 615, 616, 617, 618, 619, 620] @
     [622, 623, 624, 628, 629, 0, 0, 0, 0, 0, 605, 0, 0, 0, 0, 606] @
     [607, 608, 0, 0, 0, 610, 613, 615, 616, 617, 618, 619, 620, 622, 623, 624] @
     [628, 629, 632, 632, 632, 632, 632, 632, 632, 633, 633, 633, 633, 634, 634, 634] @
     [634, 634, 635, 635, 635, 635, 635, 635, 635, 636, 636, 637, 0, 0, 637, 637] @
     [637, 638, 638, 638, 638, 638, 631, 631, 631, 631, 631, 631, 631, 631, 631, 631] @
     [631, 631, 631, 631, 631, 631, 631, 631, 631, 631, 631, 631, 631, 631, 631, 631] @
     [631, 631, 631, 631, 631, 631, 631, 631, 631, 631, 631, 631, 631, 631, 631, 631] @
     [631, 631, 631, 631, 631, 631, 631, 631, 631, 631, 631, 631, 631, 631, 631, 631] @
     [631, 631, 631, 631, 631, 631, 631, 631, 631, 631, 631, 631, 631, 631, 631, 631] @
     [631, 631, 631, 631, 631, 631, 631, 631, 631, 631]"

section \<open>Entries\<close>

lemmas yy_accept_entries [simp] =
  entries_all [OF yy_accept_def, simplified entries_simps]

lemmas yy_ec_entries [simp] =
  entries_all [OF yy_ec_def, simplified entries_simps]

lemmas yy_meta_entries [simp] =
  entries_all [OF yy_meta_def, simplified entries_simps]

lemmas yy_base_entries [simp] =
  entries_all [OF yy_base_def, simplified entries_simps]

lemmas yy_def_entries [simp] =
  entries_all [OF yy_def_def, simplified entries_simps]

lemmas yy_nxt_entries [simp] =
  entries_all [OF yy_nxt_def, simplified entries_simps]

lemmas yy_chk_entries [simp] =
  entries_all [OF yy_chk_def, simplified entries_simps]

end
