(* ===== verification/BisonTables.thy ===== *)
theory BisonTables
  imports Tables
begin

text \<open>
  The tables of the LALR(1) parser generated from parser/sql.ypp (parser/sql.tab.cpp) and the token
  codes it shares with the scanner.
\<close>

section \<open>Tokens\<close>

text \<open>The enumerators of \<open>enum yytokentype\<close>.\<close>

definition yytokentype :: "(string \<times> int) list" where
  "yytokentype =
    [(''SELECT'', 258), (''DISTINCT'', 259), (''SELECT_OPT'', 260), (''FROM'', 261),
     (''WHERE'', 262), (''JOIN_TYPE'', 263), (''JOIN'', 264), (''STRAIGHT_JOIN'', 265),
     (''INDEX'', 266), (''USE'', 267), (''ON'', 268), (''USING'', 269), (''IGNORE'', 270),
     (''FORCE'', 271), (''FOR'', 272), (''QUICK'', 273), (''LOW_PRIORITY'', 274), (''GROUP'', 275),
     (''ORDER'', 276), (''BY'', 277), (''ASC'', 278), (''DESC'', 279), (''INSERT'', 280),
     (''UPDATE'', 281), (''DELETE'', 282), (''SHOW'', 283), (''INTO'', 284), (''AS'', 285),
     (''IN'', 286), (''ANY'', 287), (''EXISTS'', 288), (''IS'', 289), (''NULLX'', 290),
     (''UNKNOWN'', 291), (''FALSEX'', 292), (''TRUEX'', 293), (''DEFAULT'', 294), (''EQUAL'', 295),
     (''N_EQUAL'', 296), (''MULTIPLY'', 297), (''DIVIDE'', 298), (''POWER'', 299),
     (''NEWLINE'', 300), (''SHIFT'', 301), (''BASIC_OP'', 302), (''BETWEEN'', 303),
     (''CASE'', 304), (''WHEN'', 305), (''THEN'', 306), (''ELSE'', 307), (''END_CASE'', 308),
     (''CAST'', 309), (''DATA_TYPE'', 310), (''BINARY'', 311), (''CHAR_TYPE'', 312),
     (''REGEXP'', 313), (''HAVING'', 314), (''LIMIT'', 315), (''OFFSET'', 316),
     (''PROCEDURE'', 317), (''UNION'', 318), (''SET'', 319), (''INTEGER'', 320), (''STRING'', 321),
     (''Q_STRING'', 322), (''DQ_STRING'', 323), (''NAME'', 324), (''VARIABLE'', 325),
     (''O_BRACE'', 326), (''C_BRACE'', 327), (''BIT_OR'', 328), (''BIT_AND'', 329), (''NEG'', 330),
     (''END'', 331), (''COMMA'', 332), (''DOT'', 333), (''AND'', 334), (''OR'', 335),
     (''NOT'', 336), (''XOR'', 337), (''LIKE'', 338)]"

definition tok :: "string \<Rightarrow> int" where
  "tok s = the (map_of yytokentype s)"

fun tokens_of :: "(string \<times> int) list \<Rightarrow> bool" where
  "tokens_of [] = True"
| "tokens_of (e # es) = (tok (fst e) = snd e \<and> tokens_of es)"

lemma tokens_of_all: "yytokentype = es \<Longrightarrow> distinct (map fst es) \<Longrightarrow> tokens_of es"
proof -
  have "set es' \<subseteq> set es \<Longrightarrow> yytokentype = es \<Longrightarrow> distinct (map fst es) \<Longrightarrow> tokens_of es'" for es'
    by (induction es') (auto simp: tok_def)
  then show "yytokentype = es \<Longrightarrow> distinct (map fst es) \<Longrightarrow> tokens_of es" by blast
qed

lemma distinct_tokens: "distinct (map fst yytokentype)"
  by (simp add: yytokentype_def)

lemmas tok_simps [simp] =
  tokens_of_all [OF refl distinct_tokens, unfolded yytokentype_def, simplified tokens_of.simps fst_conv snd_conv simp_thms]

section \<open>Tables\<close>

text \<open>The symbol number of a token code.\<close>

definition yytranslate :: "int list" where
  "yytranslate =
    [0, 2, 2, 2, 2, 2, 2, 2, 2, 2, 2, 2, 2, 2, 2, 2] @
     [2, 2, 2, 2, 2, 2, 2, 2, 2, 2, 2, 2, 2, 2, 2, 2] @
     [2, 2, 2, 2, 2, 2, 2, 2, 2, 2, 2, 2, 2, 2, 2, 2] @
     [2, 2, 2, 2, 2, 2, 2, 2, 2, 2, 2, 2, 2, 2, 2, 2] @
     [2, 2, 2, 2, 2, 2, 2, 2, 2, 2, 2, 2, 2, 2, 2, 2] @
     [2, 2, 2, 2, 2, 2, 2, 2, 2, 2, 2, 2, 2, 2, 2, 2] @
     [2, 2, 2, 2, 2, 2, 2, 2, 2, 2, 2, 2, 2, 2, 2, 2] @
     [2, 2, 2, 2, 2, 2, 2, 2, 2, 2, 2, 2, 2, 2, 2, 2] @
     [2, 2, 2, 2, 2, 2, 2, 2, 2, 2, 2, 2, 2, 2, 2, 2] @
     [2, 2, 2, 2, 2, 2, 2, 2, 2, 2, 2, 2, 2, 2, 2, 2] @
     [2, 2, 2, 2, 2, 2, 2, 2, 2, 2, 2, 2, 2, 2, 2, 2] @
     [2, 2, 2, 2, 2, 2, 2, 2, 2, 2, 2, 2, 2, 2, 2, 2] @
     [2, 2, 2, 2, 2, 2, 2, 2, 2, 2, 2, 2, 2, 2, 2, 2] @
     [2, 2, 2, 2, 2, 2, 2, 2, 2, 2, 2, 2, 2, 2, 2, 2] @
     [2, 2, 2, 2, 2, 2, 2, 2, 2, 2, 2, 2, 2, 2, 2, 2] @
     [2, 2, 2, 2, 2, 2, 2, 2, 2, 2, 2, 2, 2, 2, 2, 2] @
     [1, 2, 3, 4, 5, 6, 7, 8, 9, 10, 11, 12, 13, 14, 15, 16] @
     [17, 18, 19, 20, 21, 22, 23, 24, 25, 26, 27, 28, 29, 30, 31, 32] @
     [33, 34, 35, 36, 37, 38, 39, 40, 41, 42, 43, 44, 45, 46, 47, 48] @
     [49, 50, 51, 52, 53, 54, 55, 56, 57, 58, 59, 60, 61, 62, 63, 64] @
     [65, 66, 67, 68, 69, 70, 71, 72, 73, 74, 75, 76, 77, 78, 79, 80] @
     [81, 82, 83]"

text \<open>Where the row of a state starts in \<open>yytable\<close>; -275 if the state has a default action only.\<close>

definition yypact :: "int list" where
  "yypact =
    [169, 161, 26, 243, 243, -275, 32, -275, -275, -275, -275, -275, -275, -275, -275, 558] @
     [106, -275, -275, -275, -275, 80, 260, 80, -275, -275, -275, -275, -275, -275, 687, 608] @
     [-8, 664, -2, -275, -33, -275, -275, 85, -275, 236, 9, -275, 323, 757, -275, -275] @
     [-275, -275, -275, -275, -275, -275, -275, -275, -275, 116, -38, 235, -275, -275, 37, -275] @
     [-275, -275, 14, -275, 89, -22, 120, -275, 583, 695, 258, -275, 664, 757, 516, 166] @
     [56, 75, 133, 704, 80, 558, 86, 151, 171, -275, -275, 664, -275, -275, -275, -275] @
     [-275, 159, -275, -275, -275, 664, 687, 687, 687, 687, 687, 687, 687, 182, 54, 80] @
     [-275, -275, -275, 80, 183, 80, 273, 80, 80, 65, 66, 73, 399, 276, 664, -275] @
     [-275, 292, -275, 757, -42, 664, 196, -275, 41, -275, 199, 213, -275, 242, 245, -275] @
     [-275, 15, -275, -275, 664, -275, 422, 664, 757, -275, -275, -275, -275, -275, -275, -275] @
     [-275, 247, 274, 16, 235, 205, -275, -275, -16, -275, -275, -275, -275, 319, 15, -275] @
     [-275, 255, -275, -275, -275, -275, 664, 664, -275, 717, -9, -275, 664, -11, -275, -275] @
     [301, 302, 310, 313, 475, 338, 103, 664, 757, 624, 687, 335, 475, 288, -275, 273] @
     [-1, 335, 318, 757, 739, -275, 157, 210, 269, -275, 339, 296, -275, -275, -275, -275] @
     [298, 91, 501, -275, 380, 127, -275, -275, 350, 314, -275, 757, -275, 757, 334, 315] @
     [127, 664, -275, 376, 320, 315, -275, -275, 664, -275, 664, -275, 664, -275, 64, -275] @
     [116, 316, 336, -275, 322, 664, 229, 664, -275, -275, -275, 501, 54, 475, 335, 649] @
     [330, 311, 751, 325, -275, 109, 311, 111, 112, 143, -275, 326, 38, -275, -275, 13] @
     [327, -275, 236, 518, 329, 757, 664, 402, -275, -275, 19, 127, 315, -275, 757, -36] @
     [-275, -275, -275, 320, -275, 320, -275, 331, 333, 340, 341, -18, -275, -275, 64, -275] @
     [-275, 343, 149, 664, 236, 447, 159, 664, 54, -275, 345, 337, 351, 153, -275, -275] @
     [-275, -275, -275, -275, -275, 757, 346, 174, 159, 664, 664, 757, -275, -26, 362, -275] @
     [-275, -275, -275, -275, 664, 757, 757, 358, 360, -275, 116, 311, 757, 664, 280, -275] @
     [-275]"

text \<open>The rule a state reduces by default, 0 for an error.\<close>

definition yydefact :: "int list" where
  "yydefact =
    [2, 14, 0, 21, 21, 11, 0, 3, 4, 5, 6, 7, 18, 16, 17, 0] @
     [15, 10, 24, 25, 23, 0, 22, 29, 1, 97, 98, 100, 99, 41, 0, 0] @
     [0, 0, 0, 93, 87, 95, 96, 88, 94, 0, 9, 38, 119, 48, 72, 83] @
     [84, 85, 86, 51, 52, 20, 19, 116, 117, 0, 0, 101, 104, 103, 119, 27] @
     [28, 26, 0, 30, 32, 87, 88, 79, 0, 0, 0, 187, 0, 196, 0, 0] @
     [0, 0, 0, 0, 0, 0, 0, 0, 153, 148, 149, 0, 151, 122, 124, 125] @
     [123, 0, 150, 40, 120, 0, 0, 0, 0, 0, 0, 0, 0, 0, 0, 0] @
     [110, 107, 108, 0, 0, 0, 126, 0, 0, 0, 0, 0, 0, 0, 0, 183] @
     [188, 0, 139, 140, 0, 0, 0, 138, 0, 42, 89, 90, 43, 91, 92, 82] @
     [81, 36, 39, 121, 0, 152, 0, 0, 49, 74, 75, 80, 76, 73, 77, 78] @
     [118, 87, 0, 36, 102, 111, 109, 106, 119, 129, 130, 131, 114, 0, 36, 31] @
     [35, 33, 89, 90, 91, 92, 0, 0, 185, 0, 0, 136, 0, 163, 137, 134] @
     [0, 0, 0, 0, 0, 154, 0, 0, 50, 0, 0, 163, 0, 0, 105, 126] @
     [0, 163, 0, 189, 0, 184, 0, 0, 0, 141, 0, 0, 44, 45, 46, 47] @
     [0, 0, 0, 147, 55, 37, 70, 71, 0, 161, 54, 53, 180, 179, 0, 169] @
     [112, 0, 115, 0, 0, 169, 34, 186, 0, 190, 0, 194, 0, 192, 0, 135] @
     [0, 0, 0, 146, 0, 0, 0, 0, 142, 143, 144, 0, 0, 0, 163, 0] @
     [0, 177, 0, 0, 132, 0, 177, 0, 0, 0, 167, 0, 87, 165, 166, 158] @
     [0, 68, 0, 0, 0, 58, 0, 56, 145, 156, 158, 162, 169, 182, 181, 170] @
     [178, 13, 113, 0, 127, 0, 12, 0, 0, 0, 0, 0, 159, 160, 0, 164] @
     [69, 0, 0, 0, 0, 57, 0, 0, 0, 155, 173, 0, 0, 0, 133, 191] @
     [195, 193, 168, 65, 63, 67, 0, 0, 0, 0, 0, 59, 157, 0, 175, 172] @
     [171, 128, 66, 64, 0, 60, 61, 0, 0, 174, 0, 177, 62, 0, 0, 176] @
     [8]"

text \<open>Where the row of a nonterminal starts in \<open>yytable\<close>.\<close>

definition yypgoto :: "int list" where
  "yypgoto =
    [-275, -275, 0, -275, -275, -275, -275, -275, -275, 394, -275, -275, 281, -130, -275, 347] @
     [363, -165, -14, -23, -104, -275, -55, 344, -275, -275, -275, -275, 352, -20, -60, 348] @
     [230, -275, 12, 92, -245, -74, -275, -193, -85, -275, -275, 154, -275, -175, 138, -232] @
     [-275, -275, -274, -275, -7, 378, -53, 3]"

text \<open>The state entered by default on a nonterminal.\<close>

definition yydefgoto :: "int list" where
  "yydefgoto =
    [-1, 6, 82, 8, 9, 10, 11, 15, 16, 21, 22, 66, 67, 197, 42, 43] @
     [44, 227, 131, 46, 47, 48, 58, 59, 60, 115, 116, 206, 61, 62, 99, 100] @
     [172, 173, 277, 49, 50, 132, 267, 229, 101, 233, 298, 319, 270, 219, 287, 273] @
     [350, 363, 305, 163, 230, 74, 75, 231]"

text \<open>What to do in a state on a token, and where to go on a nonterminal.\<close>

definition yytable :: "int list" where
  "yytable =
    [7, 45, 118, 68, 310, 136, 162, 71, 51, 286, 218, 240, 151, 278, 86, 84] @
     [243, 73, 52, 77, 119, 128, 196, 196, 134, 331, 110, 83, 239, 145, 187, 359] @
     [24, 203, 245, 188, 316, 317, 79, 111, 360, 332, 316, 317, 209, 80, 214, 215] @
     [216, 79, 93, 94, 95, 96, 135, 17, 122, 109, 45, 189, 257, 259, 129, 76] @
     [174, 51, 188, 86, 330, 78, 244, 45, 128, 286, 198, 52, 299, 150, 51, 153] @
     [154, 155, 156, 157, 158, 159, 85, 152, 52, 368, 318, 120, 111, 202, 1, 300] @
     [328, 168, 137, 282, 68, 177, 296, 93, 94, 95, 96, 176, 207, 315, 53, 54] @
     [185, 191, 217, 117, 122, 140, 188, 1, 161, 283, 138, 70, 224, 139, 25, 26] @
     [27, 28, 284, 55, 178, 70, 56, 179, 57, 200, 30, 180, 31, 141, 181, 263] @
     [142, 32, 55, 33, 34, 56, 285, 57, 93, 94, 95, 96, 35, 69, 37, 38] @
     [70, 40, 225, 81, 297, 12, 13, 121, 211, 212, 133, 14, 1, 263, 279, 234] @
     [280, 294, 281, 238, 188, 308, 228, 311, 312, 235, 309, 237, 188, 188, 228, 166] @
     [167, 88, 2, 3, 4, 5, 123, 89, 90, 25, 26, 27, 28, 143, 264, 265] @
     [134, 266, 327, 258, 228, 30, 285, 313, 322, 92, 204, 205, 188, 340, 148, 34] @
     [348, 353, 188, 274, 248, 249, 309, 35, 69, 37, 38, 70, 40, 41, 135, 1] @
     [345, 346, 98, 112, 113, 114, 355, 291, 293, 295, 343, 188, 149, 228, 160, 228] @
     [288, 302, 18, 356, 292, 19, 20, 88, 25, 26, 27, 28, 190, 89, 90, 25] @
     [26, 27, 28, 63, 30, 192, 64, 65, 325, 250, 251, 30, 133, 169, 34, 92] @
     [170, 171, 321, 193, 136, 34, 35, 69, 37, 38, 70, 40, 41, 35, 69, 37] @
     [38, 70, 40, 41, 72, 341, 126, 127, 98, 347, 201, 25, 26, 27, 28, 333] @
     [194, 334, 186, 195, 342, 122, 72, 30, 183, 184, 208, 357, 358, 210, 102, 103] @
     [104, 34, 105, 106, 252, 253, 364, 220, 221, 35, 69, 37, 38, 70, 40, 41] @
     [222, 86, 87, 223, 218, 88, 232, 241, 246, 254, 367, 89, 90, 107, 108, 260] @
     [255, 256, 88, 91, 268, 269, 271, 272, 89, 90, 102, 103, 104, 92, 105, 106] @
     [261, 275, 276, 304, 289, 93, 94, 95, 96, 290, 92, 303, 307, 314, 23, 320] @
     [324, 175, 351, 335, 97, 336, 98, 349, 144, 107, 108, 260, 337, 130, 88, 339] @
     [352, 262, 354, 98, 89, 90, 102, 103, 104, 362, 105, 106, 261, 365, 87, 366] @
     [146, 88, 147, 124, 88, 242, 92, 89, 90, 361, 89, 90, 102, 103, 104, 91] @
     [105, 106, 182, 125, 329, 107, 108, 164, 338, 92, 0, 0, 92, 262, 0, 98] @
     [102, 103, 104, 165, 105, 106, 0, 0, 0, 0, 0, 107, 108, 0, 0, 0] @
     [97, 88, 98, 326, 0, 98, 0, 89, 90, 102, 103, 104, 0, 105, 106, 107] @
     [108, 0, 0, 0, 0, 199, 0, 0, 0, 92, 0, 0, 224, 0, 25, 26] @
     [27, 28, 0, 0, 0, 0, 0, 0, 107, 108, 30, 0, 31, 0, 0, 0] @
     [344, 32, 98, 33, 34, 0, 224, 0, 25, 26, 27, 28, 35, 69, 37, 38] @
     [70, 40, 225, 0, 30, 0, 31, 25, 26, 27, 28, 32, 226, 33, 34, 0] @
     [102, 103, 104, 30, 105, 106, 35, 69, 37, 38, 70, 40, 225, 34, 0, 0] @
     [0, 0, 0, 0, 0, 35, 69, 37, 38, 70, 40, 41, 130, 0, 0, 107] @
     [108, 25, 26, 27, 28, 323, 0, 0, 29, 0, 0, 0, 0, 30, 0, 31] @
     [0, 0, 0, 0, 32, 0, 33, 34, 0, 0, 25, 26, 27, 28, 0, 35] @
     [36, 37, 38, 39, 40, 41, 30, 0, 31, 0, 0, 0, 0, 32, 0, 33] @
     [34, 0, 0, 25, 26, 27, 28, 0, 35, 69, 37, 38, 70, 40, 41, 30] @
     [0, 0, 72, 25, 26, 27, 28, 236, 0, 34, 0, 0, 0, 0, 0, 30] @
     [0, 35, 69, 37, 38, 70, 40, 41, 0, 34, 0, 0, 25, 26, 27, 28] @
     [301, 35, 69, 37, 38, 70, 40, 41, 30, 0, 0, 25, 26, 27, 28, 0] @
     [0, 0, 34, 0, 0, 0, 0, 30, 0, 0, 35, 69, 37, 38, 70, 40] @
     [41, 34, 25, 26, 27, 28, 0, 0, 0, 35, 69, 37, 38, 70, 40, 41] @
     [0, 102, 103, 104, 0, 105, 106, 0, 34, 72, 102, 103, 104, 0, 105, 106] @
     [35, 69, 37, 38, 70, 40, 0, 102, 103, 104, 0, 105, 106, 0, 0, 0] @
     [107, 108, 213, 0, 0, 0, 0, 0, 144, 107, 108, 0, 0, 102, 103, 104] @
     [0, 105, 106, 0, 0, 0, 107, 108, 247, 102, 103, 104, 0, 105, 106, 102] @
     [103, 104, 0, 105, 106, 0, 0, 0, 0, 0, 0, 0, 107, 108, 0, 0] @
     [0, 0, 0, 0, 0, 0, 0, 306, 107, 108, 0, 0, 0, 0, 107, 108]"

text \<open>The token or state each entry of \<open>yytable\<close> belongs to.\<close>

definition yycheck :: "int list" where
  "yycheck =
    [0, 15, 62, 23, 278, 79, 110, 30, 15, 254, 21, 204, 97, 245, 30, 6] @
     [17, 31, 15, 33, 6, 74, 7, 7, 42, 61, 64, 41, 203, 84, 72, 57] @
     [0, 163, 209, 77, 23, 24, 71, 77, 66, 77, 23, 24, 174, 78, 55, 56] @
     [57, 71, 66, 67, 68, 69, 72, 29, 78, 57, 72, 133, 225, 226, 76, 71] @
     [119, 72, 77, 30, 300, 71, 71, 85, 125, 318, 148, 72, 269, 91, 85, 102] @
     [103, 104, 105, 106, 107, 108, 77, 101, 85, 363, 77, 77, 77, 77, 3, 270] @
     [77, 117, 42, 35, 120, 121, 267, 66, 67, 68, 69, 42, 168, 71, 4, 5] @
     [126, 72, 188, 78, 78, 42, 77, 3, 66, 57, 66, 69, 33, 69, 35, 36] @
     [37, 38, 66, 66, 66, 69, 69, 69, 71, 151, 47, 66, 49, 66, 69, 228] @
     [69, 54, 66, 56, 57, 69, 254, 71, 66, 67, 68, 69, 65, 66, 67, 68] @
     [69, 70, 71, 78, 268, 4, 5, 78, 182, 183, 4, 10, 3, 258, 248, 72] @
     [250, 262, 252, 202, 77, 72, 196, 72, 72, 199, 77, 201, 77, 77, 204, 8] @
     [9, 34, 25, 26, 27, 28, 78, 40, 41, 35, 36, 37, 38, 72, 79, 80] @
     [42, 82, 295, 225, 226, 47, 318, 72, 290, 58, 13, 14, 77, 72, 71, 57] @
     [328, 72, 77, 241, 71, 72, 77, 65, 66, 67, 68, 69, 70, 71, 72, 3] @
     [325, 326, 83, 8, 9, 10, 72, 261, 262, 263, 324, 77, 81, 267, 72, 269] @
     [256, 271, 15, 344, 31, 18, 19, 34, 35, 36, 37, 38, 72, 40, 41, 35] @
     [36, 37, 38, 15, 47, 78, 18, 19, 294, 71, 72, 47, 4, 12, 57, 58] @
     [15, 16, 290, 78, 366, 57, 65, 66, 67, 68, 69, 70, 71, 65, 66, 67] @
     [68, 69, 70, 71, 50, 323, 52, 53, 83, 327, 40, 35, 36, 37, 38, 307] @
     [78, 309, 30, 78, 324, 78, 50, 47, 52, 53, 11, 345, 346, 78, 42, 43] @
     [44, 57, 46, 47, 71, 72, 356, 42, 42, 65, 66, 67, 68, 69, 70, 71] @
     [42, 30, 31, 42, 21, 34, 20, 71, 42, 22, 362, 40, 41, 73, 74, 31] @
     [72, 71, 34, 48, 22, 59, 40, 60, 40, 41, 42, 43, 44, 58, 46, 47] @
     [48, 9, 66, 76, 72, 66, 67, 68, 69, 71, 58, 65, 71, 71, 4, 72] @
     [71, 120, 65, 72, 81, 72, 83, 62, 72, 73, 74, 31, 72, 72, 34, 72] @
     [65, 81, 72, 83, 40, 41, 42, 43, 44, 63, 46, 47, 48, 71, 31, 71] @
     [85, 34, 86, 72, 34, 207, 58, 40, 41, 349, 40, 41, 42, 43, 44, 48] @
     [46, 47, 51, 73, 298, 73, 74, 111, 318, 58, -1, -1, 58, 81, -1, 83] @
     [42, 43, 44, 115, 46, 47, -1, -1, -1, -1, -1, 73, 74, -1, -1, -1] @
     [81, 34, 83, 81, -1, 83, -1, 40, 41, 42, 43, 44, -1, 46, 47, 73] @
     [74, -1, -1, -1, -1, 79, -1, -1, -1, 58, -1, -1, 33, -1, 35, 36] @
     [37, 38, -1, -1, -1, -1, -1, -1, 73, 74, 47, -1, 49, -1, -1, -1] @
     [81, 54, 83, 56, 57, -1, 33, -1, 35, 36, 37, 38, 65, 66, 67, 68] @
     [69, 70, 71, -1, 47, -1, 49, 35, 36, 37, 38, 54, 81, 56, 57, -1] @
     [42, 43, 44, 47, 46, 47, 65, 66, 67, 68, 69, 70, 71, 57, -1, -1] @
     [-1, -1, -1, -1, -1, 65, 66, 67, 68, 69, 70, 71, 72, -1, -1, 73] @
     [74, 35, 36, 37, 38, 79, -1, -1, 42, -1, -1, -1, -1, 47, -1, 49] @
     [-1, -1, -1, -1, 54, -1, 56, 57, -1, -1, 35, 36, 37, 38, -1, 65] @
     [66, 67, 68, 69, 70, 71, 47, -1, 49, -1, -1, -1, -1, 54, -1, 56] @
     [57, -1, -1, 35, 36, 37, 38, -1, 65, 66, 67, 68, 69, 70, 71, 47] @
     [-1, -1, 50, 35, 36, 37, 38, 39, -1, 57, -1, -1, -1, -1, -1, 47] @
     [-1, 65, 66, 67, 68, 69, 70, 71, -1, 57, -1, -1, 35, 36, 37, 38] @
     [39, 65, 66, 67, 68, 69, 70, 71, 47, -1, -1, 35, 36, 37, 38, -1] @
     [-1, -1, 57, -1, -1, -1, -1, 47, -1, -1, 65, 66, 67, 68, 69, 70] @
     [71, 57, 35, 36, 37, 38, -1, -1, -1, 65, 66, 67, 68, 69, 70, 71] @
     [-1, 42, 43, 44, -1, 46, 47, -1, 57, 50, 42, 43, 44, -1, 46, 47] @
     [65, 66, 67, 68, 69, 70, -1, 42, 43, 44, -1, 46, 47, -1, -1, -1] @
     [73, 74, 53, -1, -1, -1, -1, -1, 72, 73, 74, -1, -1, 42, 43, 44] @
     [-1, 46, 47, -1, -1, -1, 73, 74, 53, 42, 43, 44, -1, 46, 47, 42] @
     [43, 44, -1, 46, 47, -1, -1, -1, -1, -1, -1, -1, 73, 74, -1, -1] @
     [-1, -1, -1, -1, -1, -1, -1, 72, 73, 74, -1, -1, -1, -1, 73, 74]"

text \<open>The symbol that leads to each state.\<close>

definition yystos :: "int list" where
  "yystos =
    [0, 3, 25, 26, 27, 28, 85, 86, 87, 88, 89, 90, 4, 5, 10, 91] @
     [92, 29, 15, 18, 19, 93, 94, 93, 0, 35, 36, 37, 38, 42, 47, 49] @
     [54, 56, 57, 65, 66, 67, 68, 69, 70, 71, 98, 99, 100, 102, 103, 104] @
     [105, 119, 120, 136, 139, 4, 5, 66, 69, 71, 106, 107, 108, 112, 113, 15] @
     [18, 19, 95, 96, 113, 66, 69, 103, 50, 102, 137, 138, 71, 102, 71, 71] @
     [78, 78, 86, 102, 6, 77, 30, 31, 34, 40, 41, 48, 58, 66, 67, 68] @
     [69, 81, 83, 114, 115, 124, 42, 43, 44, 46, 47, 73, 74, 86, 64, 77] @
     [8, 9, 10, 109, 110, 78, 114, 6, 77, 78, 78, 78, 100, 137, 52, 53] @
     [138, 102, 72, 102, 121, 4, 42, 72, 121, 42, 66, 69, 42, 66, 69, 72] @
     [72, 106, 99, 115, 71, 81, 102, 124, 102, 103, 103, 103, 103, 103, 103, 103] @
     [72, 66, 104, 135, 107, 112, 8, 9, 113, 12, 15, 16, 116, 117, 106, 96] @
     [42, 113, 66, 69, 66, 69, 51, 52, 53, 102, 30, 72, 77, 121, 72, 72] @
     [78, 78, 78, 78, 7, 97, 121, 79, 102, 40, 77, 97, 13, 14, 111, 114] @
     [11, 97, 78, 102, 102, 53, 55, 56, 57, 121, 21, 129, 42, 42, 42, 42] @
     [33, 71, 81, 101, 102, 123, 136, 139, 20, 125, 72, 102, 39, 102, 103, 129] @
     [123, 71, 116, 17, 71, 129, 42, 53, 71, 72, 71, 72, 71, 72, 22, 72] @
     [71, 101, 102, 101, 31, 48, 81, 124, 79, 80, 82, 122, 22, 59, 128, 40] @
     [60, 131, 102, 9, 66, 118, 131, 121, 121, 121, 35, 57, 66, 104, 120, 130] @
     [86, 72, 71, 102, 31, 102, 124, 102, 101, 104, 126, 123, 129, 39, 102, 65] @
     [76, 134, 72, 71, 72, 77, 134, 72, 72, 72, 71, 71, 23, 24, 77, 127] @
     [72, 86, 121, 79, 71, 102, 81, 124, 77, 127, 131, 61, 77, 118, 118, 72] @
     [72, 72, 130, 72, 72, 102, 86, 121, 81, 124, 124, 102, 104, 62, 132, 65] @
     [65, 72, 72, 72, 124, 102, 102, 57, 66, 119, 63, 133, 102, 71, 71, 86] @
     [134]"

text \<open>The left-hand side of each rule.\<close>

definition yyr1 :: "int list" where
  "yyr1 =
    [0, 84, 85, 85, 85, 85, 85, 85, 86, 86, 87, 88, 89, 90, 91, 91] @
     [92, 92, 92, 92, 92, 93, 93, 94, 94, 94, 94, 94, 94, 95, 95, 95] @
     [96, 96, 96, 96, 97, 97, 98, 98, 99, 99, 99, 99, 99, 99, 99, 99] @
     [100, 100, 100, 100, 100, 100, 100, 101, 101, 101, 101, 101, 101, 101, 101, 101] @
     [101, 101, 101, 101, 101, 101, 101, 101, 102, 102, 102, 102, 102, 102, 102, 102] @
     [102, 102, 102, 103, 103, 103, 103, 104, 104, 104, 104, 104, 104, 105, 105, 105] @
     [105, 105, 105, 105, 105, 106, 106, 107, 107, 108, 109, 109, 109, 110, 110, 111] @
     [111, 111, 112, 112, 113, 113, 113, 114, 114, 114, 115, 115, 115, 115, 116, 116] @
     [116, 117, 117, 117, 118, 118, 119, 119, 119, 120, 120, 120, 121, 121, 122, 122] @
     [122, 123, 123, 123, 124, 124, 124, 124, 124, 124, 125, 125, 126, 126, 127, 127] @
     [127, 128, 128, 129, 129, 130, 130, 130, 130, 131, 131, 131, 131, 132, 132, 133] @
     [133, 134, 134, 135, 135, 135, 135, 136, 136, 136, 136, 137, 137, 138, 139, 139] @
     [139, 139, 139, 139, 139]"

text \<open>The length of the right-hand side of each rule.\<close>

definition yyr2 :: "int list" where
  "yyr2 =
    [0, 2, 0, 1, 1, 1, 1, 1, 13, 3, 2, 1, 9, 9, 0, 1] @
     [1, 1, 1, 2, 2, 0, 1, 1, 1, 1, 2, 2, 2, 0, 1, 3] @
     [1, 3, 5, 3, 0, 2, 1, 3, 2, 1, 3, 3, 5, 5, 5, 5] @
     [1, 3, 4, 1, 1, 5, 5, 1, 3, 4, 3, 5, 6, 6, 7, 5] @
     [6, 5, 6, 5, 3, 4, 1, 1, 1, 3, 3, 3, 3, 3, 3, 2] @
     [3, 3, 3, 1, 1, 1, 1, 1, 1, 3, 3, 3, 3, 1, 1, 1] @
     [1, 1, 1, 1, 1, 1, 3, 1, 1, 4, 2, 1, 1, 2, 1, 0] @
     [2, 4, 3, 5, 1, 1, 3, 0, 1, 2, 1, 1, 1, 1, 0, 5] @
     [7, 1, 1, 1, 1, 3, 4, 6, 4, 4, 3, 3, 1, 3, 1, 1] @
     [1, 3, 2, 1, 1, 1, 1, 1, 2, 1, 0, 4, 1, 3, 0, 1] @
     [1, 0, 2, 0, 4, 1, 1, 1, 3, 0, 2, 4, 4, 0, 2, 0] @
     [2, 0, 1, 3, 3, 5, 5, 3, 5, 4, 6, 1, 2, 4, 6, 9] @
     [6, 9, 6, 9, 2]"

section \<open>Entries\<close>

lemmas yytranslate_entries [simp] =
  entries_all [OF yytranslate_def, simplified entries_simps]

lemmas yypact_entries [simp] =
  entries_all [OF yypact_def, simplified entries_simps]

lemmas yydefact_entries [simp] =
  entries_all [OF yydefact_def, simplified entries_simps]

lemmas yypgoto_entries [simp] =
  entries_all [OF yypgoto_def, simplified entries_simps]

lemmas yydefgoto_entries [simp] =
  entries_all [OF yydefgoto_def, simplified entries_simps]

lemmas yytable_entries [simp] =
  entries_all [OF yytable_def, simplified entries_simps]

lemmas yycheck_entries [simp] =
  entries_all [OF yycheck_def, simplified entries_simps]

lemmas yystos_entries [simp] =
  entries_all [OF yystos_def, simplified entries_simps]

lemmas yyr1_entries [simp] =
  entries_all [OF yyr1_def, simplified entries_simps]

lemmas yyr2_entries [simp] =
  entries_all [OF yyr2_def, simplified entries_simps]

end
