(* ===== verification/Patterns.thy ===== *)
theory Patterns
  imports StrMisc
begin

text \<open>
  The black lists of a protocol (patterns.hpp, patterns.cpp): the sections of a pattern file
  are collected into one alternation per section, compiled with PCRE and matched.  PCRE is a
  parameter.  The ten pattern texts and the ten compiled expressions of the class, which are
  treated alike, are two functions of the section's \<open>MatchType\<close>.
\<close>

section \<open>State\<close>

datatype MatchType = SQL_ALTER | SQL_CREATE | SQL_DROP | SQL_INFO | SQL_BLOCK | SQL_S_TABLES
  | SQL_EMPTY_PWD | SQL_VAR_CMP | SQL_TRUE_CONSTANTS | SQL_BRUTEFORCE_FUNCTIONS | SQL_GRANT | SQL_REVOKE

text \<open>\<open>pcre_compile s = None\<close> is the null pointer; \<open>pcre_exec\<close> tells whether the
  result is not negative.  \<open>pcre_study\<close> only prepares a faster match.\<close>

record 're pcre =
  pcre_compile :: "string \<Rightarrow> 're option"
  pcre_exec :: "'re \<Rightarrow> string \<Rightarrow> bool"

record 're SQLPatterns =
  pat_str :: "MatchType \<Rightarrow> string"
  pat_re :: "MatchType \<Rightarrow> 're option"

definition patterns_clear :: "'re SQLPatterns" where
  "patterns_clear = \<lparr>pat_str = (\<lambda>_. []), pat_re = (\<lambda>_. None)\<rparr>"

definition patterns_free :: "'re SQLPatterns \<Rightarrow> 're SQLPatterns" where
  "patterns_free p = patterns_clear"

definition HasTrueConstantPatterns :: "'re SQLPatterns \<Rightarrow> bool" where
  "HasTrueConstantPatterns p = (pat_re p SQL_TRUE_CONSTANTS \<noteq> None)"

definition HasBruteforcePatterns :: "'re SQLPatterns \<Rightarrow> bool" where
  "HasBruteforcePatterns p = (pat_re p SQL_BRUTEFORCE_FUNCTIONS \<noteq> None)"

section \<open>Loading\<close>

definition section_type :: "string \<Rightarrow> MatchType option" where
  "section_type section =
     (if section = ''grant'' then None
      else if section = ''alter'' then Some SQL_ALTER
      else if section = ''create'' then Some SQL_CREATE
      else if section = ''drop'' then Some SQL_DROP
      else if section = ''info'' then Some SQL_INFO
      else if section = ''block'' then Some SQL_BLOCK
      else if section = ''sensitive tables'' then Some SQL_S_TABLES
      else if section = ''true constants'' then Some SQL_TRUE_CONSTANTS
      else if section = ''bruteforce functions'' then Some SQL_BRUTEFORCE_FUNCTIONS
      else None)"

definition LoadPattern :: "string \<Rightarrow> string \<Rightarrow> 're SQLPatterns \<Rightarrow> 're SQLPatterns" where
  "LoadPattern section line p =
     (case section_type section of
        None \<Rightarrow> p
      | Some t \<Rightarrow>
          p\<lparr>pat_str := (pat_str p)(t :=
             (if length (pat_str p t) > 0 then pat_str p t @ ''|'' else pat_str p t) @ line)\<rparr>)"

fun pattern_lines :: "string list \<Rightarrow> string \<Rightarrow> 're SQLPatterns \<Rightarrow> 're SQLPatterns \<times> bool" where
  "pattern_lines [] section p = (p, True)"
| "pattern_lines (line # lines) section p =
     (if length line = 0 then pattern_lines lines section p
      else if at line 0 = CHR ''#'' \<or> at line 0 = CHR '';'' then pattern_lines lines section p
      else if at line 0 = CHR ''['' then
        (case find_from (\<lambda>c. c = CHR '']'') line 0 of
           None \<Rightarrow> (p, False)
         | Some end_section \<Rightarrow>
             if end_section = 1 then (p, False)
             else pattern_lines lines (substr line 1 (end_section - 1)) p)
      else let line = TrimStr line in
        if length line = 0 then pattern_lines lines section p
        else if length section = 0 then (p, False)
        else pattern_lines lines section (LoadPattern section line p))"

text \<open>The test \<open>_re == NULL\<close> of the code looks at the address of the member, not at
  the compiled expression, so it never holds.\<close>

definition compile_pattern :: "'re pcre \<Rightarrow> MatchType \<Rightarrow> 're SQLPatterns \<Rightarrow> 're SQLPatterns \<times> bool" where
  "compile_pattern P t p =
     (if length (pat_str p t) > 0
      then (p\<lparr>pat_re := (pat_re p)(t := pcre_compile P (cstr (pat_str p t)))\<rparr>, True)
      else (p, True))"

definition compile_order :: "MatchType list" where
  "compile_order = [SQL_ALTER, SQL_DROP, SQL_INFO, SQL_CREATE, SQL_BLOCK, SQL_S_TABLES,
     SQL_EMPTY_PWD, SQL_VAR_CMP, SQL_TRUE_CONSTANTS, SQL_BRUTEFORCE_FUNCTIONS]"

fun compile_all :: "'re pcre \<Rightarrow> MatchType list \<Rightarrow> 're SQLPatterns \<Rightarrow> 're SQLPatterns \<times> bool" where
  "compile_all P [] p = (p, True)"
| "compile_all P (t # ts) p =
     (let (p, ok) = compile_pattern P t p in
      if \<not> ok then (patterns_free p, False) else compile_all P ts p)"

definition CompilePatterns :: "'re pcre \<Rightarrow> 're SQLPatterns \<Rightarrow> 're SQLPatterns \<times> bool" where
  "CompilePatterns P p = compile_all P compile_order p"

definition empty_pwd_pattern :: string where
  "empty_pwd_pattern =
     ''((where'' @ [BSL] @ ''s|and'' @ [BSL] @ ''s|or'' @ [BSL] @ ''s|not'' @ [BSL] @ ''s|^)|('' @ [BSL] @ ''('' @ [BSL]
     @ ''s*))?(pass|password|pwd|passwd)'' @ [BSL] @ ''s*'' @ [BSL] @ ''='' @ [BSL] @ ''s*('' @ [BSL, SQ, BSL, SQ]
     @ '')|('' @ [BSL, DQ, BSL, DQ] @ '')''"

definition var_cmp_pattern :: string where
  "var_cmp_pattern =
     ''((where'' @ [BSL] @ ''s|and'' @ [BSL] @ ''s|or'' @ [BSL] @ ''s|not'' @ [BSL] @ ''s|^)|('' @ [BSL] @ ''('' @ [BSL]
     @ ''s*))?'' @ [BSL] @ ''?'' @ [BSL] @ ''s*(>|!)?'' @ [BSL] @ ''='' @ [BSL] @ ''s*'' @ [BSL] @ ''?''"

text \<open>The end of \<open>Load\<close>: the lists matched as a whole are anchored or grouped.\<close>

definition wrap_patterns :: "'re SQLPatterns \<Rightarrow> 're SQLPatterns" where
  "wrap_patterns p =
     (let wrap = (\<lambda>pre post s. if length s > 0 then pre @ s @ post else s)
      in p\<lparr>pat_str := (pat_str p)(
           SQL_TRUE_CONSTANTS := wrap ''^('' '')$'' (pat_str p SQL_TRUE_CONSTANTS),
           SQL_BRUTEFORCE_FUNCTIONS := wrap ''^('' '')$'' (pat_str p SQL_BRUTEFORCE_FUNCTIONS),
           SQL_S_TABLES := wrap ''('' '')'' (pat_str p SQL_S_TABLES),
           SQL_EMPTY_PWD := empty_pwd_pattern,
           SQL_VAR_CMP := var_cmp_pattern)\<rparr>)"

definition patterns_Load :: "'re pcre \<Rightarrow> (string \<Rightarrow> string option) \<Rightarrow> string \<Rightarrow> 're SQLPatterns
    \<Rightarrow> 're SQLPatterns \<times> bool" where
  "patterns_Load P files cfg_file p =
     (case files (cstr cfg_file) of
        None \<Rightarrow> (p, False)
      | Some text \<Rightarrow>
          (let (p, ok) = pattern_lines (getlines text) [] p in
           if \<not> ok then (p, False)
           else (fst (CompilePatterns P (wrap_patterns p)), True)))"

section \<open>Matching\<close>

text \<open>\<open>pcre_exec\<close> with a null expression returns an error, which is negative.\<close>

definition Match :: "'re pcre \<Rightarrow> 're SQLPatterns \<Rightarrow> MatchType \<Rightarrow> string \<Rightarrow> bool" where
  "Match P p t str =
     (if t = SQL_GRANT \<or> t = SQL_REVOKE then False
      else if length (pat_str p t) = 0 then False
      else case pat_re p t of None \<Rightarrow> False | Some re \<Rightarrow> pcre_exec P re str)"

declare pattern_lines.simps(2) [simp del]

section \<open>Properties\<close>

lemma compile_pattern_ok [simp]: "snd (compile_pattern P t p) = True"
  by (simp add: compile_pattern_def)

lemma compile_pattern_str [simp]: "pat_str (fst (compile_pattern P t p)) = pat_str p"
  by (simp add: compile_pattern_def)

lemma compile_pattern_re:
  "pat_re (fst (compile_pattern P t p)) u =
     (if u = t \<and> pat_str p t \<noteq> [] then pcre_compile P (cstr (pat_str p t)) else pat_re p u)"
  by (simp add: compile_pattern_def)

lemma compile_all_spec:
  "compile_all P ts p = (p\<lparr>pat_re := (\<lambda>t. if t \<in> set ts \<and> pat_str p t \<noteq> []
      then pcre_compile P (cstr (pat_str p t)) else pat_re p t)\<rparr>, True)"
proof (induction ts arbitrary: p)
  case (Cons t ts)
  have step: "compile_all P (t # ts) p = compile_all P ts (fst (compile_pattern P t p))"
    by (simp add: split_beta Let_def)
  have "pat_re (fst (compile_pattern P t p)) =
      (\<lambda>u. if u = t \<and> pat_str p t \<noteq> [] then pcre_compile P (cstr (pat_str p t)) else pat_re p u)"
    using compile_pattern_re [of P t p] by (rule ext)
  then have "(\<lambda>u. if u \<in> set ts \<and> pat_str p u \<noteq> [] then pcre_compile P (cstr (pat_str p u))
        else pat_re (fst (compile_pattern P t p)) u) =
      (\<lambda>u. if u \<in> set (t # ts) \<and> pat_str p u \<noteq> [] then pcre_compile P (cstr (pat_str p u)) else pat_re p u)"
    by (intro ext) auto
  then have "(fst (compile_pattern P t p))\<lparr>pat_re := (\<lambda>u. if u \<in> set ts \<and> pat_str p u \<noteq> []
        then pcre_compile P (cstr (pat_str p u)) else pat_re (fst (compile_pattern P t p)) u)\<rparr> =
      p\<lparr>pat_re := (\<lambda>u. if u \<in> set (t # ts) \<and> pat_str p u \<noteq> []
        then pcre_compile P (cstr (pat_str p u)) else pat_re p u)\<rparr>"
    by (simp only:) (simp add: compile_pattern_def)
  then show ?case unfolding step Cons by (simp only: compile_pattern_str)
qed simp

text \<open>A pattern that PCRE rejects is dropped without an error: \<open>CompilePatterns\<close>
  always reports success, every other section keeps its compiled alternation, and the rejected
  section never matches again.\<close>

theorem CompilePatterns_drops_invalid:
  assumes "pcre_compile P (cstr (pat_str p t)) = None" "t \<in> set compile_order"
    and "pat_re p = (\<lambda>_. None)"
  shows "snd (CompilePatterns P p) \<and> \<not> Match P (fst (CompilePatterns P p)) t q"
  using assms by (auto simp: CompilePatterns_def compile_all_spec Match_def)

theorem CompilePatterns_drops_invalid_witness:
  "snd (CompilePatterns \<lparr>pcre_compile = (\<lambda>s. if s = ''('' then None else Some s), pcre_exec = (\<lambda>re s. re = s)\<rparr>
      (patterns_clear\<lparr>pat_str := (\<lambda>_. ''('')\<rparr>)) \<and>
   \<not> Match \<lparr>pcre_compile = (\<lambda>s. if s = ''('' then None else Some s), pcre_exec = (\<lambda>re s. re = s)\<rparr>
      (fst (CompilePatterns \<lparr>pcre_compile = (\<lambda>s. if s = ''('' then None else Some s), pcre_exec = (\<lambda>re s. re = s)\<rparr>
         (patterns_clear\<lparr>pat_str := (\<lambda>_. ''('')\<rparr>))) SQL_DROP ''(''"
  by (rule CompilePatterns_drops_invalid) (simp_all add: patterns_clear_def cstr_def compile_order_def)

text \<open>The reference meaning of a pattern file: the trimmed lines of each section.\<close>

definition join_bar :: "string \<Rightarrow> string list \<Rightarrow> string" where
  "join_bar s ls = fold (\<lambda>l s. (if s = [] then s else s @ ''|'') @ l) ls s"

lemma LoadPattern_str:
  "pat_str (LoadPattern sec l p) t =
     (if section_type sec = Some t then join_bar (pat_str p t) [l] else pat_str p t)"
  by (auto simp: LoadPattern_def join_bar_def split: option.splits)

definition pattern_line :: "string \<Rightarrow> bool" where
  "pattern_line l \<longleftrightarrow> l \<noteq> [] \<and> CHR ''#'' \<notin> set l \<and> at l 0 \<noteq> CHR '';'' \<and> at l 0 \<noteq> CHR ''['' \<and> TrimStr l = l"

lemma pattern_lines_section:
  assumes "\<forall>l\<in>set ls. pattern_line l" "sec \<noteq> []"
  shows "pattern_lines (ls @ rest) sec p = pattern_lines rest sec (fold (LoadPattern sec) ls p)"
  using assms(1)
proof (induction ls arbitrary: p)
  case (Cons l ls)
  then have pl: "pattern_line l" and IH: "pattern_lines (ls @ rest) sec (LoadPattern sec l p) =
      pattern_lines rest sec (fold (LoadPattern sec) ls (LoadPattern sec l p))" by simp_all
  from pl have l: "l \<noteq> []" "at l 0 \<noteq> CHR '';''" "at l 0 \<noteq> CHR ''[''" and trim: "TrimStr l = l"
    and "CHR ''#'' \<notin> set l" by (simp_all add: pattern_line_def)
  then have "at l 0 \<noteq> CHR ''#''" by (cases l) auto
  with l trim have "pattern_lines ((l # ls) @ rest) sec p = pattern_lines (ls @ rest) sec (LoadPattern sec l p)"
    using assms(2) by (simp add: pattern_lines.simps(2) Let_def)
  with IH show ?case by simp
qed simp

lemma fold_LoadPattern_str:
  "pat_str (fold (LoadPattern sec) ls p) t =
     (if section_type sec = Some t then join_bar (pat_str p t) ls else pat_str p t)"
  by (induction ls arbitrary: p) (simp_all add: LoadPattern_str join_bar_def)

definition section_header :: "string \<Rightarrow> string" where
  "section_header sec = CHR ''['' # sec @ '']''"

lemma pattern_lines_header:
  assumes "sec \<noteq> []" "CHR '']'' \<notin> set sec"
  shows "pattern_lines (section_header sec # ls) s p = pattern_lines ls sec p"
proof -
  have "find_idx (\<lambda>c. c = CHR '']'') (CHR ''['' # sec @ '']'') = Some (Suc (length sec))"
    using find_idx_first [of "CHR '']''" sec "[]"] assms(2) by simp
  then show ?thesis
    using assms(1) by (simp add: section_header_def pattern_lines.simps(2) find_from_def substr_def)
qed

text \<open>A section of a pattern file is collected in order, one alternative per line,
  into the pattern of its type, and into no other; the lines after it are read with the next
  section's name.\<close>

theorem pattern_section_collected:
  assumes "\<forall>l\<in>set ls. pattern_line l" "sec \<noteq> []" "CHR '']'' \<notin> set sec"
    and "section_type sec = Some t"
  shows "\<exists>p'. pattern_lines (section_header sec # ls @ rest) s p = pattern_lines rest sec p' \<and>
     pat_str p' t = join_bar (pat_str p t) ls \<and> (\<forall>u. u \<noteq> t \<longrightarrow> pat_str p' u = pat_str p u)"
  using assms by (intro exI [of _ "fold (LoadPattern sec) ls p"])
     (simp add: pattern_lines_header pattern_lines_section fold_LoadPattern_str)

theorem pattern_section_collected_witness:
  "\<exists>p'. pattern_lines (section_header ''drop'' # [''drop table'', ''drop view''] @ []) [] (patterns_clear :: string SQLPatterns)
       = pattern_lines [] ''drop'' p' \<and> pat_str p' SQL_DROP = ''drop table|drop view'' \<and>
     pat_str p' SQL_INFO = []"
proof -
  have l: "\<forall>l\<in>set [''drop table'', ''drop view'']. pattern_line l"
    by (simp add: pattern_line_def TrimStr_def find_from_def blank_def substr_def)
  have s: "section_type ''drop'' = Some SQL_DROP" by (simp add: section_type_def)
  show ?thesis
    using pattern_section_collected [OF l _ _ s, of "[]" "[]" "patterns_clear :: string SQLPatterns"]
    by (simp add: patterns_clear_def join_bar_def) blast
qed

end
