(* ===== verification/Parser.thy ===== *)
theory Parser
  imports Patterns Config
begin

text \<open>
  The objects and callbacks of the SQL parser (parser/expression.hpp, parser/parser.hpp,
  parser/parser.cpp and \<open>cmp_fn\<close> of parser/sql.ypp).  Expressions and strings are heap
  objects that enter a global list when they are made and leave it when they are deleted, so that
  \<open>query_parse\<close> can free what an aborted parse left behind.  Using a deleted object sets the sticky
  flag \<open>bad\<close>.  The rules and actions that call these operations are in \<open>Scanner\<close> and \<open>Yacc\<close>.
\<close>

section \<open>State\<close>

datatype ConstType = Undef | IntegerC | StringC | ComplexC

text \<open>\<open>fields\<close> is a \<open>std::set\<close>, kept as a list without duplicates.\<close>

record Expression =
  exp_fields :: "string list"
  has_const :: bool
  str_length :: nat
  const_type :: ConstType

record query_risk =
  has_bruteforce_function :: bool
  has_separator :: bool
  has_tautology :: bool
  has_empty_pwd :: bool
  has_s_table :: bool
  has_comment :: bool
  has_union :: bool
  has_or :: bool

definition risk_zero :: query_risk where
  "risk_zero = \<lparr>has_bruteforce_function = False, has_separator = False, has_tautology = False,
     has_empty_pwd = False, has_s_table = False, has_comment = False, has_union = False, has_or = False\<rparr>"

record parse_state =
  str_heap :: "nat \<rightharpoonup> string"
  exp_heap :: "nat \<rightharpoonup> Expression"
  sql_strings :: "nat list"
  expressions :: "nat list"
  next_id :: nat
  risk :: query_risk
  bad :: bool

section \<open>Expressions\<close>

definition new_Expression :: Expression where
  "new_Expression = \<lparr>exp_fields = [], has_const = False, str_length = 0, const_type = Undef\<rparr>"

definition insert_field :: "string \<Rightarrow> Expression \<Rightarrow> Expression" where
  "insert_field f e = e\<lparr>exp_fields := List.insert f (exp_fields e)\<rparr>"

definition add_const_str :: "string \<Rightarrow> Expression \<Rightarrow> Expression" where
  "add_const_str s e =
     (let e = e\<lparr>has_const := True\<rparr> in
      if const_type e = Undef then e\<lparr>const_type := StringC, str_length := length s\<rparr>
      else if const_type e = StringC then e\<lparr>str_length := str_length e + length s\<rparr>
      else e)"

definition add_const_int :: "Expression \<Rightarrow> Expression" where
  "add_const_int e = e\<lparr>has_const := True, const_type := IntegerC\<rparr>"

definition merge_exp :: "Expression \<Rightarrow> Expression \<Rightarrow> Expression" where
  "merge_exp e xp2 =
     (let e = fold insert_field (exp_fields xp2) e in
      if has_const xp2 then
        (let e = e\<lparr>has_const := True\<rparr> in
         if const_type xp2 = StringC then e\<lparr>str_length := max (str_length e) (str_length xp2)\<rparr> else e)
      else e)"

text \<open>\<open>set_difference\<close> of the two sets is empty.\<close>

definition Comp :: "Expression \<Rightarrow> Expression \<Rightarrow> bool" where
  "Comp e xp2 =
     (if length (exp_fields e) \<noteq> length (exp_fields xp2) then False
      else if length (exp_fields e) = 0 then True
      else if filter (\<lambda>f. f \<notin> set (exp_fields xp2)) (exp_fields e) = [] \<and> has_const e = has_const xp2 then True
      else False)"

definition IsTrue :: "Expression \<Rightarrow> bool" where
  "IsTrue e = (length (exp_fields e) = 0 \<and> has_const e)"

definition IsEmptyPwd :: "Expression \<Rightarrow> Expression \<Rightarrow> bool" where
  "IsEmptyPwd e xp2 =
     (if const_type xp2 = StringC \<and> str_length xp2 = 0 \<and> length (exp_fields xp2) = 0 \<and>
         const_type e = Undef \<and> length (exp_fields e) = 1
      then (let str = hd (exp_fields e)
            in strcaseeq str ''pwd'' \<or> strcaseeq str ''pass'' \<or> strcaseeq str ''password'')
      else False)"

section \<open>Objects\<close>

definition alloc_string :: "string \<Rightarrow> parse_state \<Rightarrow> nat \<times> parse_state" where
  "alloc_string s st =
     (let i = next_id st
      in (i, st\<lparr>str_heap := (str_heap st)(i \<mapsto> s), sql_strings := i # sql_strings st, next_id := Suc i\<rparr>))"

definition delete_string :: "nat \<Rightarrow> parse_state \<Rightarrow> parse_state" where
  "delete_string i st =
     (case str_heap st i of
        None \<Rightarrow> st\<lparr>bad := True\<rparr>
      | Some s \<Rightarrow> st\<lparr>str_heap := (str_heap st)(i := None), sql_strings := removeAll i (sql_strings st)\<rparr>)"

definition alloc_expr :: "parse_state \<Rightarrow> nat \<times> parse_state" where
  "alloc_expr st =
     (let i = next_id st
      in (i, st\<lparr>exp_heap := (exp_heap st)(i \<mapsto> new_Expression), expressions := i # expressions st, next_id := Suc i\<rparr>))"

definition delete_expr :: "nat \<Rightarrow> parse_state \<Rightarrow> parse_state" where
  "delete_expr i st =
     (case exp_heap st i of
        None \<Rightarrow> st\<lparr>bad := True\<rparr>
      | Some e \<Rightarrow> st\<lparr>exp_heap := (exp_heap st)(i := None), expressions := removeAll i (expressions st)\<rparr>)"

definition set_expr :: "nat \<Rightarrow> Expression \<Rightarrow> parse_state \<Rightarrow> parse_state" where
  "set_expr i e st = st\<lparr>exp_heap := (exp_heap st)(i \<mapsto> e)\<rparr>"

definition AddField :: "nat \<Rightarrow> nat \<Rightarrow> parse_state \<Rightarrow> parse_state" where
  "AddField x str st =
     (case (exp_heap st x, str_heap st str) of
        (Some e, Some s) \<Rightarrow> delete_string str (set_expr x (insert_field (cstr s) e) st)
      | _ \<Rightarrow> st\<lparr>bad := True\<rparr>)"

definition AddConst_str :: "nat \<Rightarrow> nat \<Rightarrow> parse_state \<Rightarrow> parse_state" where
  "AddConst_str x str st =
     (case (exp_heap st x, str_heap st str) of
        (Some e, Some s) \<Rightarrow> delete_string str (set_expr x (add_const_str s e) st)
      | _ \<Rightarrow> st\<lparr>bad := True\<rparr>)"

definition AddConst_int :: "nat \<Rightarrow> int \<Rightarrow> parse_state \<Rightarrow> parse_state" where
  "AddConst_int x value st =
     (case exp_heap st x of Some e \<Rightarrow> set_expr x (add_const_int e) st | None \<Rightarrow> st\<lparr>bad := True\<rparr>)"

definition Add :: "nat \<Rightarrow> nat \<Rightarrow> parse_state \<Rightarrow> parse_state" where
  "Add x xp2 st =
     (case (exp_heap st x, exp_heap st xp2) of
        (Some e, Some e2) \<Rightarrow> delete_expr xp2 (set_expr x (merge_exp e e2) st)
      | _ \<Rightarrow> st\<lparr>bad := True\<rparr>)"

section \<open>Callbacks\<close>

definition set_risk :: "(query_risk \<Rightarrow> query_risk) \<Rightarrow> parse_state \<Rightarrow> parse_state" where
  "set_risk f st = st\<lparr>risk := f (risk st)\<rparr>"

definition clb_found_or_token :: "parse_state \<Rightarrow> parse_state" where
  "clb_found_or_token st = set_risk (has_or_update (\<lambda>_. True)) st"

definition clb_found_union_token :: "parse_state \<Rightarrow> parse_state" where
  "clb_found_union_token st = set_risk (has_union_update (\<lambda>_. True)) st"

definition clb_found_empty_pwd :: "parse_state \<Rightarrow> parse_state" where
  "clb_found_empty_pwd st = set_risk (has_empty_pwd_update (\<lambda>_. True)) st"

definition clb_found_comment :: "parse_state \<Rightarrow> parse_state" where
  "clb_found_comment st = set_risk (has_comment_update (\<lambda>_. True)) st"

definition clb_found_tautology :: "parse_state \<Rightarrow> parse_state" where
  "clb_found_tautology st = set_risk (has_tautology_update (\<lambda>_. True)) st"

definition clb_found_query_separator :: "parse_state \<Rightarrow> parse_state" where
  "clb_found_query_separator st = set_risk (has_separator_update (\<lambda>_. True)) st"

definition clb_found_bruteforce_function :: "parse_state \<Rightarrow> parse_state" where
  "clb_found_bruteforce_function st = set_risk (has_bruteforce_function_update (\<lambda>_. True)) st"

text \<open>\<open>patterns\<close> may be the null pointer.\<close>

definition clb_found_table :: "'re pcre \<Rightarrow> GreenSQLConfig \<Rightarrow> 're SQLPatterns option \<Rightarrow> string
    \<Rightarrow> parse_state \<Rightarrow> parse_state" where
  "clb_found_table P conf patterns s st =
     (if length s = 0 then st
      else case patterns of
             None \<Rightarrow> st
           | Some p \<Rightarrow>
               if re_s_tables conf \<ge> 0 \<and> Match P p SQL_S_TABLES s
               then set_risk (has_s_table_update (\<lambda>_. True)) st else st)"

definition clb_check_true_constant :: "'re pcre \<Rightarrow> 're SQLPatterns option \<Rightarrow> string \<Rightarrow> bool" where
  "clb_check_true_constant P patterns s =
     (if length s = 0 then False
      else case patterns of
             None \<Rightarrow> False
           | Some p \<Rightarrow> HasTrueConstantPatterns p \<and> Match P p SQL_TRUE_CONSTANTS s)"

definition clb_check_bruteforce_function :: "'re pcre \<Rightarrow> 're SQLPatterns option \<Rightarrow> string
    \<Rightarrow> parse_state \<Rightarrow> bool \<times> parse_state" where
  "clb_check_bruteforce_function P patterns s st =
     (if length s = 0 then (False, st)
      else case patterns of
             None \<Rightarrow> (False, st)
           | Some p \<Rightarrow>
               if HasBruteforcePatterns p \<and> Match P p SQL_BRUTEFORCE_FUNCTIONS s
               then (True, set_risk (has_bruteforce_function_update (\<lambda>_. True)) st)
               else (False, st))"

definition cmp_fn :: "nat \<Rightarrow> nat \<Rightarrow> parse_state \<Rightarrow> parse_state" where
  "cmp_fn xp1 xp2 st =
     (case (exp_heap st xp1, exp_heap st xp2) of
        (Some e1, Some e2) \<Rightarrow>
          if Comp e1 e2 then clb_found_tautology st
          else if IsEmptyPwd e1 e2 then clb_found_empty_pwd st
          else st
      | _ \<Rightarrow> st\<lparr>bad := True\<rparr>)"

section \<open>Using a string\<close>

definition with_string :: "nat \<Rightarrow> (string \<Rightarrow> parse_state \<Rightarrow> parse_state) \<Rightarrow> parse_state \<Rightarrow> parse_state" where
  "with_string i f st = (case str_heap st i of None \<Rightarrow> st\<lparr>bad := True\<rparr> | Some s \<Rightarrow> f s st)"

section \<open>After a parse\<close>

text \<open>\<open>delete *itr\<close> for the first of the list until the list is empty.\<close>

fun free_list :: "nat \<Rightarrow> (parse_state \<Rightarrow> nat list) \<Rightarrow> (nat \<Rightarrow> parse_state \<Rightarrow> parse_state) \<Rightarrow> parse_state \<Rightarrow> parse_state" where
  "free_list 0 reg del st = st"
| "free_list (Suc n) reg del st =
     (case reg st of [] \<Rightarrow> st | i # _ \<Rightarrow> free_list n reg del (del i st))"

definition free_sql_strings :: "parse_state \<Rightarrow> parse_state" where
  "free_sql_strings st = free_list (length (sql_strings st)) sql_strings delete_string st"

definition free_expressions :: "parse_state \<Rightarrow> parse_state" where
  "free_expressions st = free_list (length (expressions st)) expressions delete_expr st"

section \<open>Properties\<close>

subsection \<open>Comparing expressions\<close>

text \<open>The field lists of reachable expressions have no duplicates.\<close>

lemma distinct_insert_field: "distinct (exp_fields e) \<Longrightarrow> distinct (exp_fields (insert_field f e))"
  by (simp add: insert_field_def)

lemma set_insert_field [simp]: "set (exp_fields (insert_field f e)) = insert f (set (exp_fields e))"
  by (simp add: insert_field_def)

lemma fold_insert_field:
  "set (exp_fields (fold insert_field fs e)) = set (exp_fields e) \<union> set fs"
  "distinct (exp_fields e) \<Longrightarrow> distinct (exp_fields (fold insert_field fs e))"
  "has_const (fold insert_field fs e) = has_const e" "const_type (fold insert_field fs e) = const_type e"
  by (induction fs arbitrary: e) (auto simp: distinct_insert_field insert_field_def)

lemma merge_exp_fields:
  "set (exp_fields (merge_exp e e2)) = set (exp_fields e) \<union> set (exp_fields e2)"
  "distinct (exp_fields e) \<Longrightarrow> distinct (exp_fields (merge_exp e e2))"
  "has_const (merge_exp e e2) = (has_const e \<or> has_const e2)"
  by (auto simp: merge_exp_def Let_def fold_insert_field)

text \<open>\<open>Comp\<close>, the tautology test of every comparison in a query, holds exactly when
  both sides mention the same set of fields and, if there is a field at all, agree on holding a
  constant: any two constants compare as a tautology, whatever their values.\<close>

theorem Comp_decides:
  assumes "distinct (exp_fields a)" "distinct (exp_fields b)"
  shows "Comp a b = (set (exp_fields a) = set (exp_fields b) \<and> (exp_fields a = [] \<or> has_const a = has_const b))"
proof -
  have la: "length (exp_fields a) = card (set (exp_fields a))" and lb: "length (exp_fields b) = card (set (exp_fields b))"
    using assms by (simp_all add: distinct_card)
  have f: "filter (\<lambda>f. f \<notin> set (exp_fields b)) (exp_fields a) = [] \<longleftrightarrow> set (exp_fields a) \<subseteq> set (exp_fields b)"
    by (auto simp: filter_empty_conv)
  have "card (set (exp_fields a)) = card (set (exp_fields b)) \<Longrightarrow> set (exp_fields a) \<subseteq> set (exp_fields b) \<Longrightarrow>
      set (exp_fields a) = set (exp_fields b)"
    by (rule card_subset_eq) auto
  then show ?thesis by (auto simp: Comp_def f la lb)
qed

theorem Comp_decides_witness:
  "Comp (add_const_int new_Expression) (add_const_str ''a'' new_Expression)"
  by (subst Comp_decides) (simp_all add: add_const_int_def add_const_str_def new_Expression_def Let_def)

subsection \<open>The object lists\<close>

definition parse_wf :: "parse_state \<Rightarrow> bool" where
  "parse_wf st \<longleftrightarrow> distinct (sql_strings st) \<and> distinct (expressions st) \<and>
     set (sql_strings st) = dom (str_heap st) \<and> set (expressions st) = dom (exp_heap st) \<and>
     (\<forall>i\<in>dom (str_heap st) \<union> dom (exp_heap st). i < next_id st)"

definition parse_start :: parse_state where
  "parse_start = \<lparr>str_heap = Map.empty, exp_heap = Map.empty, sql_strings = [], expressions = [],
     next_id = 0, risk = risk_zero, bad = False\<rparr>"

lemma wf_start: "parse_wf parse_start"
  by (simp add: parse_wf_def parse_start_def)

named_theorems wf_intros \<open>preservation of the object lists by each operation\<close>

lemma wf_risk [wf_intros]: "parse_wf st \<Longrightarrow> parse_wf (set_risk f st)"
  by (simp add: parse_wf_def set_risk_def)

lemma wf_bad [wf_intros]: "parse_wf st \<Longrightarrow> parse_wf (st\<lparr>bad := b\<rparr>)"
  by (simp add: parse_wf_def)

lemma wf_alloc_string [wf_intros]: "parse_wf st \<Longrightarrow> parse_wf (snd (alloc_string s st))"
  by (auto simp: parse_wf_def alloc_string_def Let_def less_Suc_eq)

lemma wf_alloc_expr [wf_intros]: "parse_wf st \<Longrightarrow> parse_wf (snd (alloc_expr st))"
  by (auto simp: parse_wf_def alloc_expr_def Let_def less_Suc_eq)

lemma wf_delete_string [wf_intros]: "parse_wf st \<Longrightarrow> parse_wf (delete_string i st)"
  by (auto simp: parse_wf_def delete_string_def distinct_removeAll split: option.splits)

lemma wf_delete_expr [wf_intros]: "parse_wf st \<Longrightarrow> parse_wf (delete_expr i st)"
  by (auto simp: parse_wf_def delete_expr_def distinct_removeAll split: option.splits)

lemma wf_set_expr: "parse_wf st \<Longrightarrow> exp_heap st i \<noteq> None \<Longrightarrow> parse_wf (set_expr i e st)"
  by (auto simp: parse_wf_def set_expr_def)

lemma wf_AddField [wf_intros]: "parse_wf st \<Longrightarrow> parse_wf (AddField x i st)"
  by (auto simp: AddField_def split: option.splits intro!: wf_delete_string wf_set_expr wf_bad)

lemma wf_AddConst_str [wf_intros]: "parse_wf st \<Longrightarrow> parse_wf (AddConst_str x i st)"
  by (auto simp: AddConst_str_def split: option.splits intro!: wf_delete_string wf_set_expr wf_bad)

lemma wf_AddConst_int [wf_intros]: "parse_wf st \<Longrightarrow> parse_wf (AddConst_int x v st)"
  by (auto simp: AddConst_int_def split: option.splits intro!: wf_set_expr wf_bad)

lemma wf_Add [wf_intros]: "parse_wf st \<Longrightarrow> parse_wf (Add x y st)"
  by (auto simp: Add_def split: option.splits intro!: wf_delete_expr wf_set_expr wf_bad)

lemmas clb_defs = clb_found_or_token_def clb_found_union_token_def clb_found_empty_pwd_def
  clb_found_comment_def clb_found_tautology_def clb_found_query_separator_def
  clb_found_bruteforce_function_def

lemma wf_cmp_fn [wf_intros]: "parse_wf st \<Longrightarrow> parse_wf (cmp_fn x y st)"
  by (auto simp: cmp_fn_def clb_defs split: option.splits intro!: wf_risk wf_bad)

lemma wf_found_table: "parse_wf st \<Longrightarrow> parse_wf (clb_found_table P conf p s st)"
  by (auto simp: clb_found_table_def split: option.splits intro!: wf_risk)

lemma wf_bruteforce: "parse_wf st \<Longrightarrow> parse_wf (snd (clb_check_bruteforce_function P p s st))"
  by (auto simp: clb_check_bruteforce_function_def split: option.splits intro!: wf_risk)

lemma wf_with_string: "parse_wf st \<Longrightarrow> (\<And>s. parse_wf (f s st)) \<Longrightarrow> parse_wf (with_string i f st)"
  by (auto simp: with_string_def split: option.splits intro!: wf_bad)

lemma free_strings_all:
  "parse_wf st \<Longrightarrow> length (sql_strings st) \<le> n \<Longrightarrow>
     (let st' = free_list n sql_strings delete_string st in
      parse_wf st' \<and> sql_strings st' = [] \<and> bad st' = bad st \<and> expressions st' = expressions st \<and> risk st' = risk st)"
proof (induction n arbitrary: st)
  case (Suc n)
  show ?case
  proof (cases "sql_strings st")
    case (Cons i js)
    then have "i \<in> dom (str_heap st)" using Suc.prems(1) by (metis list.set_intros(1) parse_wf_def)
    then obtain s where s: "str_heap st i = Some s" by blast
    have "i \<notin> set js" using Suc.prems(1) Cons by (simp add: parse_wf_def)
    then have "sql_strings (delete_string i st) = js" using s Cons by (simp add: delete_string_def)
    moreover have "parse_wf (delete_string i st)" using Suc.prems(1) by (rule wf_delete_string)
    moreover have "bad (delete_string i st) = bad st" "expressions (delete_string i st) = expressions st"
      "risk (delete_string i st) = risk st"
      using s by (simp_all add: delete_string_def)
    ultimately show ?thesis using Suc.IH [of "delete_string i st"] Suc.prems(2) Cons by (simp add: Let_def)
  qed (use Suc.prems in \<open>simp add: Let_def\<close>)
qed (simp add: Let_def)

lemma free_expressions_all:
  "parse_wf st \<Longrightarrow> length (expressions st) \<le> n \<Longrightarrow>
     (let st' = free_list n expressions delete_expr st in
      parse_wf st' \<and> expressions st' = [] \<and> bad st' = bad st \<and> sql_strings st' = sql_strings st \<and> risk st' = risk st)"
proof (induction n arbitrary: st)
  case (Suc n)
  show ?case
  proof (cases "expressions st")
    case (Cons i js)
    then have "i \<in> dom (exp_heap st)" using Suc.prems(1) by (metis list.set_intros(1) parse_wf_def)
    then obtain e where e: "exp_heap st i = Some e" by blast
    have "i \<notin> set js" using Suc.prems(1) Cons by (simp add: parse_wf_def)
    then have "expressions (delete_expr i st) = js" using e Cons by (simp add: delete_expr_def)
    moreover have "parse_wf (delete_expr i st)" using Suc.prems(1) by (rule wf_delete_expr)
    moreover have "bad (delete_expr i st) = bad st" "sql_strings (delete_expr i st) = sql_strings st"
      "risk (delete_expr i st) = risk st"
      using e by (simp_all add: delete_expr_def)
    ultimately show ?thesis using Suc.IH [of "delete_expr i st"] Suc.prems(2) Cons by (simp add: Let_def)
  qed (use Suc.prems in \<open>simp add: Let_def\<close>)
qed (simp add: Let_def)

lemma wf_empty: "parse_wf st \<Longrightarrow> sql_strings st = [] \<Longrightarrow> expressions st = [] \<Longrightarrow>
    str_heap st = Map.empty \<and> exp_heap st = Map.empty"
  by (auto simp: parse_wf_def)

end
