(* ===== verification/Scanner.thy ===== *)
theory Scanner
  imports FlexTables BisonTables Parser
begin

text \<open>
  The scanner generated from parser/sql.lex (parser/sql.cpp, flex 2.6.4): the input buffer, the
  table-driven matcher, the end-of-buffer protocol and the rule actions.

  Pointers into the buffer are offsets into \<open>yy_ch_buf\<close>, kept as \<open>int\<close>s.  The static variables of
  the file are the record \<open>flex\<close>; at most one buffer exists at a time (\<open>scan_buffer\<close> makes and
  deletes it), so the buffer stack is the option \<open>yy_current\<close>.  A step that leaves the defined
  behaviour of C++, or ends the process through \<open>yy_fatal_error\<close>, is \<open>Inl\<close> of the reason.
  Allocation succeeds.
\<close>

section \<open>State\<close>

datatype yy_fault = Null_file | Std_input | Out_of_bounds | Fatal string | No_fuel

definition bindE :: "'e + 'a \<Rightarrow> ('a \<Rightarrow> 'e + 'b) \<Rightarrow> 'e + 'b" where
  "bindE m f = (case m of Inl e \<Rightarrow> Inl e | Inr x \<Rightarrow> f x)"

text \<open>\<open>union YYSTYPE\<close>, with the member written last.\<close>

datatype YYSTYPE = V_none | V_int int | V_str nat | V_exp nat

datatype yy_file = Stdin

datatype yy_status = YY_BUFFER_NEW | YY_BUFFER_NORMAL | YY_BUFFER_EOF_PENDING

record yy_buffer_state =
  yy_input_file :: "yy_file option"
  yy_ch_buf :: string
  yy_buf_pos :: int
  yy_buf_size :: int
  b_n_chars :: int
  yy_is_our_buffer :: bool
  yy_fill_buffer :: bool
  yy_buffer_status :: yy_status

record flex =
  yy_current :: "yy_buffer_state option"
  yy_n_chars :: int
  yy_c_buf_p :: int
  yytext_ptr :: int
  yyleng :: int
  yy_hold_char :: char
  yy_init :: bool
  yy_start :: int
  yyin :: "yy_file option"
  yy_last_accepting_state :: int
  yy_last_accepting_cpos :: int
  yy_did_buffer_switch_on_eof :: bool
  yylval :: YYSTYPE

text \<open>The static initialisers.\<close>

definition flex_start :: flex where
  "flex_start = \<lparr>yy_current = None, yy_n_chars = 0, yy_c_buf_p = 0, yytext_ptr = 0, yyleng = 0,
     yy_hold_char = NUL, yy_init = False, yy_start = 0, yyin = None, yy_last_accepting_state = 0,
     yy_last_accepting_cpos = 0, yy_did_buffer_switch_on_eof = False, yylval = V_none\<rparr>"

text \<open>\<open>YY_CURRENT_BUFFER_LVALUE\<close>, and reading and writing through a \<open>char *\<close> into it.\<close>

definition cur :: "flex \<Rightarrow> yy_buffer_state" where
  "cur f = the (yy_current f)"

definition upd_cur :: "(yy_buffer_state \<Rightarrow> yy_buffer_state) \<Rightarrow> flex \<Rightarrow> flex" where
  "upd_cur g f = f\<lparr>yy_current := map_option g (yy_current f)\<rparr>"

definition peek :: "int \<Rightarrow> flex \<Rightarrow> yy_fault + char" where
  "peek p f = (case tab_at (yy_ch_buf (cur f)) p of None \<Rightarrow> Inl Out_of_bounds | Some c \<Rightarrow> Inr c)"

definition poke :: "int \<Rightarrow> char \<Rightarrow> flex \<Rightarrow> yy_fault + flex" where
  "poke p c f = (if 0 \<le> p \<and> p < int (length (yy_ch_buf (cur f)))
     then Inr (upd_cur (yy_ch_buf_update (\<lambda>s. s[nat p := c])) f) else Inl Out_of_bounds)"

section \<open>Buffers\<close>

definition yy_load_buffer_state :: "flex \<Rightarrow> yy_fault + flex" where
  "yy_load_buffer_state f =
     (let b = cur f;
          f = f\<lparr>yy_n_chars := b_n_chars b, yytext_ptr := yy_buf_pos b, yy_c_buf_p := yy_buf_pos b,
                yyin := yy_input_file b\<rparr>
      in bindE (peek (yy_c_buf_p f) f) (\<lambda>c. Inr (f\<lparr>yy_hold_char := c\<rparr>)))"

definition yy_flush_buffer :: "flex \<Rightarrow> yy_fault + flex" where
  "yy_flush_buffer f =
     bindE (poke 0 NUL (upd_cur (b_n_chars_update (\<lambda>_. 0)) f)) (\<lambda>f.
     bindE (poke 1 NUL f) (\<lambda>f.
     yy_load_buffer_state (upd_cur (\<lambda>b. b\<lparr>yy_buf_pos := 0, yy_buffer_status := YY_BUFFER_NEW\<rparr>) f)))"

definition yy_init_buffer :: "yy_file option \<Rightarrow> flex \<Rightarrow> yy_fault + flex" where
  "yy_init_buffer file f =
     bindE (yy_flush_buffer f) (\<lambda>f. Inr (upd_cur (\<lambda>b. b\<lparr>yy_input_file := file, yy_fill_buffer := True\<rparr>) f))"

text \<open>A fresh buffer of \<open>yy_create_buffer\<close>; the bytes \<open>malloc\<close> leaves undefined are shown as NUL.\<close>

definition yy_create_buffer :: "yy_file option \<Rightarrow> nat \<Rightarrow> yy_buffer_state" where
  "yy_create_buffer file size' = \<lparr>yy_input_file = file, yy_ch_buf = replicate (size' + 2) NUL, yy_buf_pos = 0,
     yy_buf_size = int size', b_n_chars = 0, yy_is_our_buffer = True, yy_fill_buffer = True,
     yy_buffer_status = YY_BUFFER_NEW\<rparr>"

definition YY_BUF_SIZE :: nat where "YY_BUF_SIZE = 16384"

definition ensure_current :: "flex \<Rightarrow> flex" where
  "ensure_current f = (if yy_current f = None
     then f\<lparr>yy_current := Some (yy_create_buffer (yyin f) YY_BUF_SIZE)\<rparr> else f)"

definition yyrestart :: "yy_file option \<Rightarrow> flex \<Rightarrow> yy_fault + flex" where
  "yyrestart input_file f = bindE (yy_init_buffer input_file (ensure_current f)) yy_load_buffer_state"

text \<open>The position saved in the buffer that is switched out is lost with it: nothing else refers
  to that buffer.\<close>

definition yy_switch_to_buffer :: "yy_buffer_state \<Rightarrow> flex \<Rightarrow> yy_fault + flex" where
  "yy_switch_to_buffer b f =
     bindE (yy_load_buffer_state (f\<lparr>yy_current := Some b\<rparr>)) (\<lambda>f. Inr (f\<lparr>yy_did_buffer_switch_on_eof := True\<rparr>))"

definition yy_scan_buffer :: "string \<Rightarrow> flex \<Rightarrow> yy_fault + (bool \<times> flex)" where
  "yy_scan_buffer base f =
     (let n = length base in
      if n < 2 \<or> base ! (n - 2) \<noteq> NUL \<or> base ! (n - 1) \<noteq> NUL then Inr (False, f)
      else let b = \<lparr>yy_input_file = None, yy_ch_buf = base, yy_buf_pos = 0, yy_buf_size = int n - 2,
                    b_n_chars = int n - 2, yy_is_our_buffer = False, yy_fill_buffer = False,
                    yy_buffer_status = YY_BUFFER_NEW\<rparr>
           in bindE (yy_switch_to_buffer b f) (\<lambda>f. Inr (True, f)))"

definition yy_scan_bytes :: "string \<Rightarrow> flex \<Rightarrow> yy_fault + flex" where
  "yy_scan_bytes bytes f =
     bindE (yy_scan_buffer (bytes @ [NUL, NUL]) f) (\<lambda>(ok, f).
     if \<not> ok then Inl (Fatal ''bad buffer in yy_scan_bytes()'')
     else Inr (upd_cur (yy_is_our_buffer_update (\<lambda>_. True)) f))"

definition yy_scan_string :: "string \<Rightarrow> flex \<Rightarrow> yy_fault + flex" where
  "yy_scan_string s f = yy_scan_bytes (cstr s) f"

definition yy_delete_buffer :: "flex \<Rightarrow> flex" where
  "yy_delete_buffer f = f\<lparr>yy_current := None\<rparr>"

text \<open>\<open>YY_INPUT\<close> on a FILE reads standard input, which no buffer of this program is attached to;
  on a null FILE it is undefined.  Growing the buffer before the read fails for a buffer the scanner
  does not own.\<close>

datatype eob_act = EOB_ACT_CONTINUE_SCAN | EOB_ACT_END_OF_FILE | EOB_ACT_LAST_MATCH

definition move_to_front :: "int \<Rightarrow> flex \<Rightarrow> yy_fault + flex" where
  "move_to_front n f =
     (let s = yy_ch_buf (cur f); i = nat (yytext_ptr f); n = nat n in
      if i + n \<le> length s then Inr (upd_cur (yy_ch_buf_update (\<lambda>s. take n (drop i s) @ drop n s)) f)
      else Inl Out_of_bounds)"

definition yy_get_next_buffer :: "flex \<Rightarrow> yy_fault + (eob_act \<times> flex)" where
  "yy_get_next_buffer f =
     (if yy_c_buf_p f > yy_n_chars f + 1
      then Inl (Fatal ''fatal flex scanner internal error--end of buffer missed'')
      else if \<not> yy_fill_buffer (cur f)
      then (if yy_c_buf_p f - yytext_ptr f = 1 then Inr (EOB_ACT_END_OF_FILE, f)
            else Inr (EOB_ACT_LAST_MATCH, f))
      else
        let n = yy_c_buf_p f - yytext_ptr f - 1 in
        bindE (move_to_front n f) (\<lambda>f.
        if yy_buffer_status (cur f) \<noteq> YY_BUFFER_EOF_PENDING
        then (if yy_buf_size (cur f) - n - 1 \<le> 0 \<and> \<not> yy_is_our_buffer (cur f)
              then Inl (Fatal ''fatal error - scanner input buffer overflow'')
              else case yyin f of None \<Rightarrow> Inl Null_file | Some _ \<Rightarrow> Inl Std_input)
        else
          let f = (upd_cur (b_n_chars_update (\<lambda>_. 0)) f)\<lparr>yy_n_chars := 0\<rparr> in
          bindE (if n = 0
                 then bindE (yyrestart (yyin f) f) (\<lambda>f. Inr (EOB_ACT_END_OF_FILE, f))
                 else Inr (EOB_ACT_LAST_MATCH, upd_cur (yy_buffer_status_update (\<lambda>_. YY_BUFFER_EOF_PENDING)) f))
            (\<lambda>(ret_val, f).
          if yy_n_chars f + n > yy_buf_size (cur f) then Inl Out_of_bounds
          else
            let f = f\<lparr>yy_n_chars := yy_n_chars f + n\<rparr> in
            bindE (poke (yy_n_chars f) NUL f) (\<lambda>f.
            bindE (poke (yy_n_chars f + 1) NUL f) (\<lambda>f.
            Inr (ret_val, f\<lparr>yytext_ptr := 0\<rparr>))))))"

section \<open>Matching\<close>

text \<open>One transition: the row of the state, or of the states it defers to.  The loop of the source
  need not end for arbitrary tables.\<close>

partial_function (option) yy_next :: "int \<Rightarrow> int \<Rightarrow> int option" where
  "yy_next s c =
     Option.bind (tab_at yy_base s) (\<lambda>b.
     Option.bind (tab_at yy_chk (b + c)) (\<lambda>k.
     if k = s then tab_at yy_nxt (b + c)
     else
       Option.bind (tab_at yy_def s) (\<lambda>s'.
       if s' \<ge> 632 then Option.bind (tab_at yy_meta c) (\<lambda>c'. yy_next s' c')
       else yy_next s' c)))"

text \<open>\<open>YY_SC_TO_UI\<close>.\<close>

definition sc_to_ui :: "char \<Rightarrow> int" where
  "sc_to_ui c = int (byte c)"

text \<open>The loop at \<open>yy_match\<close>, over the buffer from \<open>yy_cp\<close> on; the result is the last accepting
  state and the position it was met at.\<close>

fun yy_match :: "int \<Rightarrow> int \<Rightarrow> int \<Rightarrow> int \<Rightarrow> string \<Rightarrow> yy_fault + (int \<times> int)" where
  "yy_match s las lac cp [] = Inl Out_of_bounds"
| "yy_match s las lac cp (ch # rest) =
     (case tab_at yy_ec (sc_to_ui ch) of None \<Rightarrow> Inl Out_of_bounds | Some c \<Rightarrow>
      case tab_at yy_accept s of None \<Rightarrow> Inl Out_of_bounds | Some a \<Rightarrow>
        let las = (if a \<noteq> 0 then s else las); lac = (if a \<noteq> 0 then cp else lac) in
        case yy_next s c of None \<Rightarrow> Inl Out_of_bounds | Some s' \<Rightarrow>
          if s' = 631 then Inr (las, lac) else yy_match s' las lac (cp + 1) rest)"

text \<open>The loop of \<open>yy_get_previous_state\<close>, over the buffer from \<open>yytext_ptr\<close> to \<open>yy_c_buf_p\<close>.\<close>

fun yy_prev_loop :: "int \<Rightarrow> int \<Rightarrow> int \<Rightarrow> int \<Rightarrow> string \<Rightarrow> yy_fault + (int \<times> int \<times> int)" where
  "yy_prev_loop s las lac cp [] = Inr (s, las, lac)"
| "yy_prev_loop s las lac cp (ch # rest) =
     (case (if ch \<noteq> NUL then tab_at yy_ec (sc_to_ui ch) else Some 1) of None \<Rightarrow> Inl Out_of_bounds | Some c \<Rightarrow>
      case tab_at yy_accept s of None \<Rightarrow> Inl Out_of_bounds | Some a \<Rightarrow>
        let las = (if a \<noteq> 0 then s else las); lac = (if a \<noteq> 0 then cp else lac) in
        case yy_next s c of None \<Rightarrow> Inl Out_of_bounds | Some s' \<Rightarrow>
          yy_prev_loop s' las lac (cp + 1) rest)"

definition yy_get_previous_state :: "flex \<Rightarrow> yy_fault + (int \<times> flex)" where
  "yy_get_previous_state f =
     (let s = yy_ch_buf (cur f); i = nat (yytext_ptr f); j = nat (yy_c_buf_p f) in
      if length s < j then Inl Out_of_bounds
      else bindE (yy_prev_loop (yy_start f) (yy_last_accepting_state f) (yy_last_accepting_cpos f)
                    (yytext_ptr f) (take (j - i) (drop i s)))
             (\<lambda>(st, las, lac). Inr (st, f\<lparr>yy_last_accepting_state := las, yy_last_accepting_cpos := lac\<rparr>)))"

definition yy_try_NUL_trans :: "int \<Rightarrow> flex \<Rightarrow> yy_fault + (int \<times> flex)" where
  "yy_try_NUL_trans s f =
     (case tab_at yy_accept s of None \<Rightarrow> Inl Out_of_bounds | Some a \<Rightarrow>
      let f = (if a \<noteq> 0 then f\<lparr>yy_last_accepting_state := s, yy_last_accepting_cpos := yy_c_buf_p f\<rparr> else f) in
      case yy_next s 1 of None \<Rightarrow> Inl Out_of_bounds | Some s' \<Rightarrow>
        Inr (if s' = 631 then 0 else s', f))"

text \<open>\<open>YY_DO_BEFORE_ACTION\<close>.\<close>

definition yy_do_before_action :: "int \<Rightarrow> int \<Rightarrow> flex \<Rightarrow> yy_fault + flex" where
  "yy_do_before_action bp cp f =
     bindE (peek cp f) (\<lambda>c.
     bindE (poke cp NUL (f\<lparr>yytext_ptr := bp, yyleng := cp - bp, yy_hold_char := c\<rparr>)) (\<lambda>f.
     Inr (f\<lparr>yy_c_buf_p := cp\<rparr>)))"

section \<open>Reading inside a rule\<close>

definition yywrap :: int where "yywrap = 1"

text \<open>The character at \<open>yy_c_buf_p\<close> is returned and hidden by a NUL.\<close>

definition take_char :: "flex \<Rightarrow> yy_fault + (int \<times> flex)" where
  "take_char f =
     bindE (peek (yy_c_buf_p f) f) (\<lambda>c.
     bindE (poke (yy_c_buf_p f) NUL f) (\<lambda>f.
     bindE (peek (yy_c_buf_p f + 1) f) (\<lambda>h.
     Inr (sc_to_ui c, f\<lparr>yy_c_buf_p := yy_c_buf_p f + 1, yy_hold_char := h\<rparr>))))"

text \<open>At the end of the input the result is 0, not \<open>EOF\<close>.  \<open>yywrap\<close> is never 0, so the call does
  not repeat itself.\<close>

definition yyinput :: "flex \<Rightarrow> yy_fault + (int \<times> flex)" where
  "yyinput f =
     bindE (poke (yy_c_buf_p f) (yy_hold_char f) f) (\<lambda>f.
     if yy_hold_char f \<noteq> NUL \<or> yy_c_buf_p f < yy_n_chars f then take_char f
     else
       let offset = yy_c_buf_p f - yytext_ptr f in
       bindE (yy_get_next_buffer (f\<lparr>yy_c_buf_p := yy_c_buf_p f + 1\<rparr>)) (\<lambda>(r, f).
       case r of
         EOB_ACT_LAST_MATCH \<Rightarrow> bindE (yyrestart (yyin f) f) (\<lambda>f. Inr (0, f))
       | EOB_ACT_END_OF_FILE \<Rightarrow> Inr (0, f)
       | EOB_ACT_CONTINUE_SCAN \<Rightarrow> take_char (f\<lparr>yy_c_buf_p := yytext_ptr f + offset\<rparr>)))"

definition yyunput :: "char \<Rightarrow> int \<Rightarrow> flex \<Rightarrow> yy_fault + flex" where
  "yyunput c bp f =
     bindE (poke (yy_c_buf_p f) (yy_hold_char f) f) (\<lambda>f.
     let cp = yy_c_buf_p f; n = yy_n_chars f + 2; d = yy_buf_size (cur f) + 2 - n in
     bindE
       (if cp < 2 then
          (if n < 0 \<or> d < 0 \<or> int (length (yy_ch_buf (cur f))) < d + n then Inl Out_of_bounds
           else if cp + d < 2 then Inl (Fatal ''flex scanner push-back overflow'')
           else Inr (cp + d, bp + d,
             (upd_cur (\<lambda>b. b\<lparr>yy_ch_buf := take (nat d) (yy_ch_buf b) @ take (nat n) (yy_ch_buf b) @
                                drop (nat (d + n)) (yy_ch_buf b),
                              b_n_chars := yy_buf_size b\<rparr>) f)\<lparr>yy_n_chars := yy_buf_size (cur f)\<rparr>))
        else Inr (cp, bp, f))
       (\<lambda>(cp, bp, f).
     bindE (poke (cp - 1) c f) (\<lambda>f.
     Inr (f\<lparr>yytext_ptr := bp, yy_hold_char := c, yy_c_buf_p := cp - 1\<rparr>))))"

section \<open>Actions\<close>

definition EOF :: int where "EOF = -1"

definition new_SQLString :: "string \<Rightarrow> flex \<Rightarrow> parse_state \<Rightarrow> flex \<times> parse_state" where
  "new_SQLString s f st = (let (i, st) = alloc_string s st in (f\<lparr>yylval := V_str i\<rparr>, st))"

text \<open>The last lines of \<open>get_q_string\<close>: the string found and the token of its delimiter.\<close>

definition q_token :: "int \<Rightarrow> string \<Rightarrow> flex \<Rightarrow> parse_state \<Rightarrow> int \<times> flex \<times> parse_state" where
  "q_token delimeter s f st =
     (let (f, st) = new_SQLString s f st in
      (if delimeter = 39 then tok ''Q_STRING'' else if delimeter = 34 then tok ''DQ_STRING'' else tok ''NAME'', f, st))"

definition set_eof_pending :: "flex \<Rightarrow> flex" where
  "set_eof_pending f = upd_cur (yy_buffer_status_update (\<lambda>_. YY_BUFFER_EOF_PENDING)) f"

text \<open>The loop reads one character of the buffer in each round; the first argument bounds the
  rounds.\<close>

fun get_q_loop :: "nat \<Rightarrow> int \<Rightarrow> string \<Rightarrow> bool \<Rightarrow> flex \<Rightarrow> parse_state
    \<Rightarrow> yy_fault + (int \<times> flex \<times> parse_state)" where
  "get_q_loop 0 delimeter str quoted f st = Inl No_fuel"
| "get_q_loop (Suc k) delimeter str quoted f st =
     bindE (yyinput f) (\<lambda>(c, f).
     if c = EOF then Inr (q_token delimeter str (set_eof_pending f) st)
     else if c = delimeter \<and> \<not> quoted then
       (if delimeter = 39 \<or> delimeter = 34 then
          bindE (yyinput f) (\<lambda>(n, f).
          if n = delimeter then get_q_loop k delimeter (str @ [char_of c]) quoted f st
          else if n = EOF then Inr (q_token delimeter str (set_eof_pending f) st)
          else bindE (yyunput (char_of n) 0 f) (\<lambda>f. Inr (q_token delimeter str f st)))
        else Inr (q_token delimeter str f st))
     else get_q_loop k delimeter (str @ [char_of c]) (c = 92 \<and> \<not> quoted) f st)"

definition scan_fuel :: "flex \<Rightarrow> nat" where
  "scan_fuel f = 8 * length (yy_ch_buf (cur f)) + 8"

definition get_q_string :: "int \<Rightarrow> flex \<Rightarrow> parse_state \<Rightarrow> yy_fault + (int \<times> flex \<times> parse_state)" where
  "get_q_string delimeter f st = get_q_loop (scan_fuel f) delimeter [] False f st"

text \<open>The action of the rule for \<open>/*\<close>.  \<open>star\<close> tells the inner loop, after a star, from the outer
  one.\<close>

fun comment_loop :: "nat \<Rightarrow> bool \<Rightarrow> flex \<Rightarrow> yy_fault + flex" where
  "comment_loop 0 star f = Inl No_fuel"
| "comment_loop (Suc k) star f =
     bindE (yyinput f) (\<lambda>(c, f).
     if c = 42 then comment_loop k True f
     else if star \<and> c = 47 then Inr f
     else if c = EOF then Inr (set_eof_pending f)
     else comment_loop k False f)"

text \<open>The string at \<open>yytext\<close>.\<close>

definition yytext :: "flex \<Rightarrow> string" where
  "yytext f = cstr (drop (nat (yytext_ptr f)) (yy_ch_buf (cur f)))"

text \<open>The rules whose action is \<open>return TOKEN\<close>, in the order of the action switch.\<close>

definition yy_return_1 :: "(int \<times> string) list" where
  "yy_return_1 =
    [(1, ''SELECT''), (2, ''INSERT''), (3, ''UPDATE''), (4, ''DELETE''), (5, ''SHOW''),
     (6, ''SELECT_OPT''), (7, ''DISTINCT''), (8, ''SELECT_OPT''), (9, ''SELECT_OPT''),
     (10, ''STRAIGHT_JOIN''), (11, ''SELECT_OPT''), (12, ''SELECT_OPT''), (13, ''SELECT_OPT''),
     (14, ''SELECT_OPT''), (15, ''SELECT_OPT''), (16, ''SELECT_OPT''), (17, ''LOW_PRIORITY''),
     (18, ''QUICK''), (19, ''SET''), (20, ''BETWEEN''), (21, ''CASE''), (22, ''WHEN''),
     (23, ''THEN''), (24, ''ELSE''), (25, ''END_CASE''), (26, ''END_CASE''), (27, ''CAST''),
     (28, ''DATA_TYPE''), (29, ''DATA_TYPE'')]"

definition yy_return_2 :: "(int \<times> string) list" where
  "yy_return_2 =
    [(30, ''DATA_TYPE''), (31, ''DATA_TYPE''), (32, ''DATA_TYPE''), (33, ''BINARY''),
     (34, ''CHAR_TYPE''), (35, ''DATA_TYPE''), (36, ''DATA_TYPE''), (37, ''DATA_TYPE''),
     (38, ''DATA_TYPE''), (39, ''DATA_TYPE''), (40, ''DATA_TYPE''), (41, ''DATA_TYPE''),
     (42, ''DATA_TYPE''), (43, ''DATA_TYPE''), (44, ''DATA_TYPE''), (45, ''DATA_TYPE''),
     (46, ''DATA_TYPE''), (47, ''DATA_TYPE''), (48, ''DATA_TYPE''), (49, ''DATA_TYPE''),
     (50, ''DATA_TYPE''), (51, ''DATA_TYPE''), (52, ''DATA_TYPE''), (53, ''DATA_TYPE''),
     (54, ''DATA_TYPE''), (55, ''DATA_TYPE''), (56, ''DATA_TYPE'')]"

definition yy_return_3 :: "(int \<times> string) list" where
  "yy_return_3 =
    [(63, ''INDEX''), (64, ''INDEX''), (65, ''JOIN''), (66, ''JOIN_TYPE''), (67, ''JOIN_TYPE''),
     (68, ''JOIN_TYPE''), (69, ''JOIN_TYPE''), (70, ''JOIN_TYPE''), (71, ''JOIN_TYPE''),
     (72, ''USE''), (73, ''ON''), (74, ''USING''), (75, ''IGNORE''), (76, ''FORCE''),
     (77, ''FOR''), (78, ''REGEXP''), (80, ''FROM''), (81, ''WHERE''), (82, ''LIKE''),
     (83, ''LIKE''), (84, ''INTO''), (85, ''LIKE''), (86, ''AS''), (87, ''IN''), (88, ''AND'')]"

definition yy_return_4 :: "(int \<times> string) list" where
  "yy_return_4 =
    [(89, ''AND''), (92, ''NOT''), (93, ''GROUP''), (94, ''ORDER''), (95, ''BY''), (96, ''ASC''),
     (97, ''DESC''), (98, ''IS''), (99, ''NULLX''), (100, ''NULLX''), (101, ''ANY''),
     (102, ''EXISTS''), (103, ''HAVING''), (104, ''LIMIT''), (105, ''PROCEDURE''),
     (106, ''DEFAULT''), (107, ''UNKNOWN''), (108, ''TRUEX''), (109, ''FALSEX''),
     (110, ''DIVIDE''), (111, ''XOR'')]"

definition yy_return_5 :: "(int \<times> string) list" where
  "yy_return_5 =
    [(123, ''EQUAL''), (124, ''EQUAL''), (125, ''N_EQUAL''), (126, ''N_EQUAL''),
     (127, ''N_EQUAL''), (128, ''N_EQUAL''), (129, ''N_EQUAL''), (130, ''N_EQUAL''),
     (131, ''SHIFT''), (132, ''SHIFT''), (133, ''BASIC_OP''), (134, ''MULTIPLY''),
     (135, ''DIVIDE''), (136, ''POWER''), (137, ''BIT_OR''), (138, ''BIT_AND''),
     (140, ''O_BRACE''), (141, ''C_BRACE''), (142, ''COMMA''), (143, ''DOT'')]"

definition yy_return :: "int \<Rightarrow> string option" where
  "yy_return a = map_of (yy_return_1 @ yy_return_2 @ yy_return_3 @ yy_return_4 @ yy_return_5) a"

text \<open>The result of an action: Some token if it returns, None to scan on.\<close>

definition word_action :: "int \<Rightarrow> flex \<Rightarrow> parse_state \<Rightarrow> yy_fault + (int option \<times> flex \<times> parse_state)" where
  "word_action a f st =
     (if a = 112 \<or> a = 113 then Inr (Some (tok ''INTEGER''), f\<lparr>yylval := V_int 3\<rparr>, st)
      else if a = 114 then Inr (Some (tok ''INTEGER''), f\<lparr>yylval := V_int (atoi (yytext f))\<rparr>, st)
      else if a = 115 then
        (let (f, st) = new_SQLString ''version()'' f st in Inr (Some (tok ''STRING''), f, st))
      else if a = 116 then
        (let st = clb_found_comment st in bindE (comment_loop (scan_fuel f) False f) (\<lambda>f. Inr (None, f, st)))
      else if a = 117 \<or> a = 118 then Inr (None, f, clb_found_comment st)
      else if a = 121 then
        (let (f, st) = new_SQLString (yytext f) f st in Inr (Some (tok ''STRING''), f, st))
      else if a = 122 then Inr (Some (tok ''VARIABLE''), f\<lparr>yylval := V_int (int (length (yytext f)))\<rparr>, st)
      else Inr (None, f, st))"

text \<open>The action for \<open>;\<close>.\<close>

definition separator_action :: "flex \<Rightarrow> parse_state \<Rightarrow> int \<times> flex \<times> parse_state" where
  "separator_action f st =
     (let pos = yy_c_buf_p f in
      (tok ''END'', f, if pos < b_n_chars (cur f) - 1 then clb_found_query_separator st else st))"

text \<open>The rules for encodings, collations, white space and stray characters do nothing; the default
  rule 149 echoes to standard output.\<close>

definition yy_action :: "int \<Rightarrow> flex \<Rightarrow> parse_state \<Rightarrow> yy_fault + (int option \<times> flex \<times> parse_state)" where
  "yy_action a f st =
     (case yy_return a of
        Some t \<Rightarrow> Inr (Some (tok t), f, st)
      | None \<Rightarrow>
          if a = 79 then Inr (Some (tok ''UNION''), f, clb_found_union_token st)
          else if a = 90 \<or> a = 91 then Inr (Some (tok ''OR''), f, clb_found_or_token st)
          else if a = 139 then (let (t, f, st) = separator_action f st in Inr (Some t, f, st))
          else if a = 144 then bindE (get_q_string 39 f st) (\<lambda>(t, f, st). Inr (Some t, f, st))
          else if a = 145 then bindE (get_q_string 34 f st) (\<lambda>(t, f, st). Inr (Some t, f, st))
          else if a = 146 then bindE (get_q_string 96 f st) (\<lambda>(t, f, st). Inr (Some t, f, st))
          else word_action a f st)"

section \<open>yylex\<close>

text \<open>The labels \<open>yylex\<close> jumps to: the top of its loop, \<open>yy_match\<close> and \<open>yy_find_action\<close> with
  \<open>yy_current_state\<close>, \<open>yy_bp\<close> and \<open>yy_cp\<close>, and the return of the end-of-file rule.\<close>

datatype yy_label = Next_token | Yy_match int int int | Yy_find_action int int int | Yy_terminate

definition yy_end_of_buffer :: "int \<Rightarrow> flex \<Rightarrow> yy_fault + (yy_label \<times> flex)" where
  "yy_end_of_buffer cp f =
     (let amount = cp - yytext_ptr f - 1 in
      bindE (poke cp (yy_hold_char f) f) (\<lambda>f.
      let f = (if yy_buffer_status (cur f) = YY_BUFFER_NEW
               then (upd_cur (\<lambda>b. b\<lparr>yy_input_file := yyin f, yy_buffer_status := YY_BUFFER_NORMAL\<rparr>) f)
                      \<lparr>yy_n_chars := b_n_chars (cur f)\<rparr>
               else f) in
      if yy_c_buf_p f \<le> yy_n_chars f then
        bindE (yy_get_previous_state (f\<lparr>yy_c_buf_p := yytext_ptr f + amount\<rparr>)) (\<lambda>(s, f).
        bindE (yy_try_NUL_trans s f) (\<lambda>(s', f).
        if s' \<noteq> 0 then
          Inr (Yy_match s' (yytext_ptr f) (yy_c_buf_p f + 1), f\<lparr>yy_c_buf_p := yy_c_buf_p f + 1\<rparr>)
        else Inr (Yy_find_action (yy_last_accepting_state f) (yytext_ptr f) (yy_last_accepting_cpos f), f)))
      else
        bindE (yy_get_next_buffer f) (\<lambda>(r, f).
        case r of
          EOB_ACT_END_OF_FILE \<Rightarrow>
            Inr (Yy_terminate, f\<lparr>yy_did_buffer_switch_on_eof := False, yy_c_buf_p := yytext_ptr f\<rparr>)
        | EOB_ACT_CONTINUE_SCAN \<Rightarrow>
            bindE (yy_get_previous_state (f\<lparr>yy_c_buf_p := yytext_ptr f + amount\<rparr>)) (\<lambda>(s, f).
            Inr (Yy_match s (yytext_ptr f) (yy_c_buf_p f), f))
        | EOB_ACT_LAST_MATCH \<Rightarrow>
            bindE (yy_get_previous_state (f\<lparr>yy_c_buf_p := yy_n_chars f\<rparr>)) (\<lambda>(s, f).
            Inr (Yy_find_action s (yytext_ptr f) (yy_c_buf_p f), f)))))"

fun yylex_run :: "nat \<Rightarrow> yy_label \<Rightarrow> flex \<Rightarrow> parse_state \<Rightarrow> yy_fault + (int \<times> flex \<times> parse_state)" where
  "yylex_run 0 l f st = Inl No_fuel"
| "yylex_run (Suc k) Next_token f st =
     bindE (poke (yy_c_buf_p f) (yy_hold_char f) f) (\<lambda>f.
     yylex_run k (Yy_match (yy_start f) (yy_c_buf_p f) (yy_c_buf_p f)) f st)"
| "yylex_run (Suc k) (Yy_match s bp cp) f st =
     bindE (yy_match s (yy_last_accepting_state f) (yy_last_accepting_cpos f) cp
              (drop (nat cp) (yy_ch_buf (cur f)))) (\<lambda>(las, lac).
     yylex_run k (Yy_find_action las bp lac)
       (f\<lparr>yy_last_accepting_state := las, yy_last_accepting_cpos := lac\<rparr>) st)"
| "yylex_run (Suc k) (Yy_find_action s bp cp) f st =
     (case tab_at yy_accept s of None \<Rightarrow> Inl Out_of_bounds | Some act \<Rightarrow>
      bindE (yy_do_before_action bp cp f) (\<lambda>f.
      if act = 0 then
        bindE (poke cp (yy_hold_char f) f) (\<lambda>f.
        yylex_run k (Yy_find_action (yy_last_accepting_state f) bp (yy_last_accepting_cpos f)) f st)
      else if act = 150 then bindE (yy_end_of_buffer cp f) (\<lambda>(l, f). yylex_run k l f st)
      else
        bindE (yy_action act f st) (\<lambda>(r, f, st).
        case r of Some t \<Rightarrow> Inr (t, f, st) | None \<Rightarrow> yylex_run k Next_token f st)))"
| "yylex_run (Suc k) Yy_terminate f st = Inr (0, f, st)"

definition yylex :: "flex \<Rightarrow> parse_state \<Rightarrow> yy_fault + (int \<times> flex \<times> parse_state)" where
  "yylex f st =
     bindE
       (if yy_init f then Inr f
        else
          let f = f\<lparr>yy_init := True\<rparr>;
              f = (if yy_start f = 0 then f\<lparr>yy_start := 1\<rparr> else f);
              f = (if yyin f = None then f\<lparr>yyin := Some Stdin\<rparr> else f)
          in yy_load_buffer_state (ensure_current f))
       (\<lambda>f. yylex_run (scan_fuel f) Next_token f st)"

end
