(* ===== verification/Yacc.thy ===== *)
theory Yacc
  imports Scanner
begin

text \<open>
  The parser generated from parser/sql.ypp (parser/sql.tab.cpp, bison 3.0): the semantic actions of
  the rules, the driver \<open>yyparse\<close> over the LALR(1) tables and its error recovery.

  The stacks \<open>yyss\<close> and \<open>yyvs\<close> are lists with the top first, so \<open>yyvsp[-k]\<close> is element \<open>k\<close>.  The
  lexer is an argument of the driver: a function that returns the next token, the value left in
  \<open>yylval\<close> and the states after it.  Memory for the stacks can be had up to \<open>YYMAXDEPTH\<close>.
\<close>

section \<open>Semantic actions\<close>

text \<open>Reading a member of a semantic value that was not written last sets the flag \<open>bad\<close>, as the use
  of a deleted object does.\<close>

definition vsp :: "YYSTYPE list \<Rightarrow> nat \<Rightarrow> YYSTYPE" where
  "vsp vs k = (if k < length vs then vs ! k else V_none)"

definition with_exp :: "YYSTYPE \<Rightarrow> (nat \<Rightarrow> parse_state \<Rightarrow> parse_state) \<Rightarrow> parse_state \<Rightarrow> parse_state" where
  "with_exp v f st = (case v of V_exp x \<Rightarrow> f x st | _ \<Rightarrow> st\<lparr>bad := True\<rparr>)"

definition with_str :: "YYSTYPE \<Rightarrow> (nat \<Rightarrow> parse_state \<Rightarrow> parse_state) \<Rightarrow> parse_state \<Rightarrow> parse_state" where
  "with_str v f st = (case v of V_str i \<Rightarrow> f i st | _ \<Rightarrow> st\<lparr>bad := True\<rparr>)"

definition with_int :: "YYSTYPE \<Rightarrow> (int \<Rightarrow> parse_state \<Rightarrow> parse_state) \<Rightarrow> parse_state \<Rightarrow> parse_state" where
  "with_int v f st = (case v of V_int n \<Rightarrow> f n st | _ \<Rightarrow> st\<lparr>bad := True\<rparr>)"

text \<open>\<open>$$ = new Expression()\<close> followed by a call on it.\<close>

definition new_exp :: "(nat \<Rightarrow> parse_state \<Rightarrow> parse_state) \<Rightarrow> parse_state \<Rightarrow> YYSTYPE \<times> parse_state" where
  "new_exp f st = (let (x, st) = alloc_expr st in (V_exp x, f x st))"

definition exp_add :: "YYSTYPE \<Rightarrow> YYSTYPE \<Rightarrow> parse_state \<Rightarrow> parse_state" where
  "exp_add v w st = with_exp v (\<lambda>x. with_exp w (\<lambda>y. Add x y)) st"

definition exp_cmp :: "YYSTYPE \<Rightarrow> YYSTYPE \<Rightarrow> parse_state \<Rightarrow> parse_state" where
  "exp_cmp v w st = with_exp v (\<lambda>x. with_exp w (\<lambda>y. cmp_fn x y)) st"

definition add_fn :: "nat \<Rightarrow> parse_state \<Rightarrow> parse_state" where
  "add_fn x st = (let (j, st) = alloc_string ''fn()'' st in AddConst_str x j st)"

text \<open>\<open>clb_found_table($k); $$ = new Expression(); $$->AddField($k)\<close>.\<close>

definition table_exp :: "'re pcre \<Rightarrow> GreenSQLConfig \<Rightarrow> 're SQLPatterns option \<Rightarrow> YYSTYPE
    \<Rightarrow> parse_state \<Rightarrow> YYSTYPE \<times> parse_state" where
  "table_exp P conf p v st =
     new_exp (\<lambda>x. with_str v (AddField x)) (with_str v (\<lambda>i. with_string i (clb_found_table P conf p)) st)"

definition check_bruteforce :: "'re pcre \<Rightarrow> 're SQLPatterns option \<Rightarrow> YYSTYPE \<Rightarrow> parse_state \<Rightarrow> parse_state" where
  "check_bruteforce P p v st =
     with_str v (\<lambda>i. with_string i (\<lambda>s st. snd (clb_check_bruteforce_function P p s st))) st"

text \<open>The actions of \<open>select_cmd\<close>, \<open>select_exps\<close>, \<open>select_exp\<close> and \<open>math_op\<close>.\<close>

definition select_action :: "'re pcre \<Rightarrow> GreenSQLConfig \<Rightarrow> 're SQLPatterns option \<Rightarrow> int \<Rightarrow> YYSTYPE list
    \<Rightarrow> YYSTYPE \<Rightarrow> parse_state \<Rightarrow> YYSTYPE \<times> parse_state" where
  "select_action P conf p r vs yyval st =
     (if r = 8 then (vsp vs 10, st)
      else if r = 9 \<or> r = 38 then (vsp vs 0, st)
      else if r = 39 then (yyval, exp_add yyval (vsp vs 0) st)
      else if r = 40 then (vsp vs 1, st)
      else if r = 41 then new_exp (\<lambda>x st. st) st
      else if 42 \<le> r \<and> r \<le> 47 then table_exp P conf p (vsp vs 2) st
      else if r = 48 \<or> r = 51 \<or> r = 52 then (vsp vs 0, st)
      else if r = 49 \<or> r = 50 then (yyval, exp_add yyval (vsp vs 0) st)
      else if r = 53 \<or> r = 54 then (vsp vs 4, st)
      else (yyval, st))"

text \<open>\<open>logical_exp\<close>.\<close>

definition logical_action :: "int \<Rightarrow> YYSTYPE list \<Rightarrow> parse_state \<Rightarrow> parse_state" where
  "logical_action r vs st =
     (if r = 55 then
        with_exp (vsp vs 0) (\<lambda>x st. case exp_heap st x of
            None \<Rightarrow> st\<lparr>bad := True\<rparr>
          | Some e \<Rightarrow> if IsTrue e then clb_found_tautology st else st) st
      else if r = 56 then exp_cmp (vsp vs 2) (vsp vs 0) st
      else if r = 57 then exp_cmp (vsp vs 3) (vsp vs 0) st
      else if r = 58 then exp_cmp (vsp vs 2) (vsp vs 0) st
      else if 59 \<le> r \<and> r \<le> 62 then clb_found_tautology st
      else if r = 63 then exp_cmp (vsp vs 4) (vsp vs 1) st
      else if r = 64 then exp_cmp (vsp vs 5) (vsp vs 1) st
      else if r = 65 then exp_cmp (vsp vs 4) (vsp vs 1) st
      else if r = 66 then exp_cmp (vsp vs 5) (vsp vs 1) st
      else if r = 67 then exp_cmp (vsp vs 4) (vsp vs 0) (exp_cmp (vsp vs 4) (vsp vs 2) st)
      else st)"

text \<open>\<open>math_exp\<close>.\<close>

definition math_action :: "int \<Rightarrow> YYSTYPE list \<Rightarrow> YYSTYPE \<Rightarrow> parse_state \<Rightarrow> YYSTYPE \<times> parse_state" where
  "math_action r vs yyval st =
     (if r = 72 \<or> r = 79 then (vsp vs 0, st)
      else if r = 81 \<or> r = 82 then (vsp vs 1, st)
      else (yyval, exp_add yyval (vsp vs 0) st))"

text \<open>\<open>field\<close>, \<open>table_field\<close> and \<open>const_value\<close>.\<close>

definition field_action :: "'re pcre \<Rightarrow> 're SQLPatterns option \<Rightarrow> int \<Rightarrow> YYSTYPE list
    \<Rightarrow> parse_state \<Rightarrow> YYSTYPE \<times> parse_state" where
  "field_action P p r vs st =
     (if r = 83 then
        new_exp (\<lambda>x. with_str (vsp vs 0) (\<lambda>i. with_string i (\<lambda>s st.
          if clb_check_true_constant P p s then add_fn x st else AddField x i st))) st
      else if r = 84 \<or> r = 85 then (vsp vs 0, st)
      else if r = 86 then new_exp add_fn st
      else if 87 \<le> r \<and> r \<le> 92 then (vsp vs 0, st)
      else if r = 93 \<or> r = 94 then new_exp (\<lambda>x. with_int (vsp vs 0) (AddConst_int x)) st
      else if r = 95 \<or> r = 96 then new_exp (\<lambda>x. with_str (vsp vs 0) (AddConst_str x)) st
      else if r = 99 then new_exp (\<lambda>x. AddConst_int x 1) st
      else new_exp (\<lambda>x. AddConst_int x 0) st)"

text \<open>\<open>simple_table\<close>, \<open>fn\<close>, \<open>simple_fn\<close> and \<open>fn_args\<close>; the actions of \<open>alias\<close> are empty.\<close>

definition table_action :: "'re pcre \<Rightarrow> GreenSQLConfig \<Rightarrow> 're SQLPatterns option \<Rightarrow> int \<Rightarrow> YYSTYPE list
    \<Rightarrow> YYSTYPE \<Rightarrow> parse_state \<Rightarrow> YYSTYPE \<times> parse_state" where
  "table_action P conf p r vs yyval st =
     (if r = 116 \<or> r = 117 then table_exp P conf p (vsp vs 0) st
      else if r = 118 then (vsp vs 1, st)
      else (yyval, st))"

definition fn_action :: "'re pcre \<Rightarrow> 're SQLPatterns option \<Rightarrow> int \<Rightarrow> YYSTYPE list \<Rightarrow> YYSTYPE
    \<Rightarrow> parse_state \<Rightarrow> YYSTYPE \<times> parse_state" where
  "fn_action P p r vs yyval st =
     (if r = 134 then (vsp vs 1, check_bruteforce P p (vsp vs 3) st)
      else if r = 135 then (vsp vs 2, check_bruteforce P p (vsp vs 5) st)
      else if r = 136 then (vsp vs 1, st)
      else if r = 137 then (yyval, check_bruteforce P p (vsp vs 3) st)
      else if r = 138 then (yyval, check_bruteforce P p (vsp vs 2) st)
      else if r = 140 then (vsp vs 0, st)
      else if r = 141 then (yyval, exp_add yyval (vsp vs 0) st)
      else (yyval, st))"

text \<open>\<open>case_fn\<close>, \<open>case_cases\<close>, \<open>case_case\<close> and \<open>cast_fn\<close>.\<close>

definition case_action :: "int \<Rightarrow> YYSTYPE list \<Rightarrow> YYSTYPE \<Rightarrow> parse_state \<Rightarrow> YYSTYPE \<times> parse_state" where
  "case_action r vs yyval st =
     (if r = 183 then (vsp vs 1, st)
      else if r = 184 then (vsp vs 3, exp_add (vsp vs 3) (vsp vs 1) st)
      else if r = 185 then (vsp vs 2, exp_cmp (vsp vs 2) (vsp vs 1) st)
      else if r = 186 then
        (vsp vs 4, exp_add (vsp vs 4) (vsp vs 1) (exp_cmp (vsp vs 4) (vsp vs 1) (exp_cmp (vsp vs 4) (vsp vs 3) st)))
      else if r = 187 then (vsp vs 0, st)
      else if r = 188 then (yyval, exp_add yyval (vsp vs 0) st)
      else if r = 189 then (vsp vs 2, st)
      else if r = 190 \<or> r = 192 \<or> r = 194 then (vsp vs 3, st)
      else if r = 191 \<or> r = 193 \<or> r = 195 then (vsp vs 6, st)
      else (vsp vs 0, st))"

text \<open>The switch of \<open>yyreduce\<close>.\<close>

definition yy_semantic :: "'re pcre \<Rightarrow> GreenSQLConfig \<Rightarrow> 're SQLPatterns option \<Rightarrow> int \<Rightarrow> YYSTYPE list
    \<Rightarrow> YYSTYPE \<Rightarrow> parse_state \<Rightarrow> YYSTYPE \<times> parse_state" where
  "yy_semantic P conf p r vs yyval st =
     (if r \<le> 54 then select_action P conf p r vs yyval st
      else if r \<le> 71 then (yyval, logical_action r vs st)
      else if r \<le> 82 then math_action r vs yyval st
      else if r \<le> 100 then field_action P p r vs st
      else if r \<le> 133 then table_action P conf p r vs yyval st
      else if r \<le> 141 then fn_action P p r vs yyval st
      else if 183 \<le> r then case_action r vs yyval st
      else (yyval, st))"

section \<open>yyparse\<close>

definition YYINITDEPTH :: int where "YYINITDEPTH = 200"
definition YYMAXDEPTH :: int where "YYMAXDEPTH = 10000"
definition YYEMPTY :: int where "YYEMPTY = -2"
definition YYFINAL :: int where "YYFINAL = 24"
definition YYLAST :: int where "YYLAST = 831"

record 's yystate =
  yyss :: "int list"
  yyvs :: "YYSTYPE list"
  yystacksize :: int
  yychar :: int
  yyerrstatus :: int
  yynerrs :: int
  yyvalue :: YYSTYPE
  yylexer :: 's

definition yy_start_state :: "'s \<Rightarrow> 's yystate" where
  "yy_start_state s = \<lparr>yyss = [0], yyvs = [V_none], yystacksize = YYINITDEPTH, yychar = YYEMPTY,
     yyerrstatus = 0, yynerrs = 0, yyvalue = V_none, yylexer = s\<rparr>"

text \<open>A round of the driver goes on from \<open>yynewstate\<close> or returns from \<open>yyparse\<close>.\<close>

datatype 's yy_next_round = Yy_newstate "'s yystate" parse_state | Yy_return int "'s yystate" parse_state

type_synonym 's yy_lexer = "'s \<Rightarrow> parse_state \<Rightarrow> yy_fault + (int \<times> YYSTYPE \<times> 's \<times> parse_state)"

definition yypush :: "int \<Rightarrow> YYSTYPE \<Rightarrow> 's yystate \<Rightarrow> 's yystate" where
  "yypush s v c = c\<lparr>yyss := s # yyss c, yyvs := v # yyvs c\<rparr>"

definition YYTRANSLATE :: "int \<Rightarrow> int option" where
  "YYTRANSLATE x = (if x \<le> 338 then tab_at yytranslate x else Some 2)"

text \<open>\<open>yysetstate\<close>: None to go on, or the result of \<open>yyparse\<close>.\<close>

definition yysetstate :: "'s yystate \<Rightarrow> int option \<times> 's yystate" where
  "yysetstate c =
     (let top = int (length (yyss c)) - 1 in
      if yystacksize c - 1 \<le> top \<and> YYMAXDEPTH \<le> yystacksize c then (Some 2, c)
      else
        let c = (if yystacksize c - 1 \<le> top
                 then c\<lparr>yystacksize := min YYMAXDEPTH (2 * yystacksize c)\<rparr> else c) in
        if yystacksize c - 1 \<le> top then (Some 1, c)
        else if hd (yyss c) = YYFINAL then (Some 0, c)
        else (None, c))"

text \<open>The loop of \<open>yyerrlab1\<close>: pop the states that cannot shift the error token; None if the stack is
  used up.\<close>

fun yy_pop_error :: "int list \<Rightarrow> YYSTYPE list \<Rightarrow> yy_fault + (int \<times> int list \<times> YYSTYPE list) option" where
  "yy_pop_error [] vs = Inl Out_of_bounds"
| "yy_pop_error (s # ss) vs =
     (case tab_at yypact s of None \<Rightarrow> Inl Out_of_bounds | Some n \<Rightarrow>
        let n' = n + 1 in
        if n \<noteq> -275 \<and> 0 \<le> n' \<and> n' \<le> YYLAST \<and> tab_at yycheck n' = Some 1 \<and>
           (case tab_at yytable n' of Some q \<Rightarrow> 0 < q | None \<Rightarrow> False)
        then (case tab_at yytable n' of None \<Rightarrow> Inl Out_of_bounds | Some q \<Rightarrow> Inr (Some (q, s # ss, vs)))
        else if ss = [] then Inr None
        else yy_pop_error ss (tl vs))"

definition yyerrlab :: "'s yystate \<Rightarrow> parse_state \<Rightarrow> yy_fault + 's yy_next_round" where
  "yyerrlab c st =
     (let c = (if yyerrstatus c = 0 then c\<lparr>yynerrs := yynerrs c + 1\<rparr> else c) in
      if yyerrstatus c = 3 \<and> yychar c = 0 then Inr (Yy_return 1 c st)
      else
        let c = (if yyerrstatus c = 3 \<and> 0 < yychar c then c\<lparr>yychar := YYEMPTY\<rparr> else c);
            c = c\<lparr>yyerrstatus := 3\<rparr>
        in bindE (yy_pop_error (yyss c) (yyvs c)) (\<lambda>r.
           case r of
             None \<Rightarrow> Inr (Yy_return 1 c st)
           | Some (q, ss, vs) \<Rightarrow> Inr (Yy_newstate (yypush q (yyvalue c) (c\<lparr>yyss := ss, yyvs := vs\<rparr>)) st)))"

text \<open>The state entered on the nonterminal \<open>a\<close> from the uncovered state \<open>s\<close>.\<close>

definition yygoto :: "int \<Rightarrow> int \<Rightarrow> int option" where
  "yygoto a s =
     (case tab_at yypgoto (a - 84) of None \<Rightarrow> None | Some g \<Rightarrow>
      let n = g + s in
      if 0 \<le> n \<and> n \<le> YYLAST \<and> tab_at yycheck n = Some s then tab_at yytable n
      else tab_at yydefgoto (a - 84))"

definition yyreduce :: "'re pcre \<Rightarrow> GreenSQLConfig \<Rightarrow> 're SQLPatterns option \<Rightarrow> int \<Rightarrow> 's yystate
    \<Rightarrow> parse_state \<Rightarrow> yy_fault + 's yy_next_round" where
  "yyreduce P conf p r c st =
     (case tab_at yyr2 r of None \<Rightarrow> Inl Out_of_bounds | Some len \<Rightarrow>
      case tab_at yyr1 r of None \<Rightarrow> Inl Out_of_bounds | Some a \<Rightarrow>
      if int (length (yyss c)) \<le> len then Inl Out_of_bounds
      else
        let yyval = (if len = 0 then V_none else vsp (yyvs c) (nat (len - 1)));
            (yyval, st) = yy_semantic P conf p r (yyvs c) yyval st;
            c = c\<lparr>yyss := drop (nat len) (yyss c), yyvs := drop (nat len) (yyvs c)\<rparr>
        in case yygoto a (hd (yyss c)) of None \<Rightarrow> Inl Out_of_bounds | Some q \<Rightarrow>
           Inr (Yy_newstate (yypush q yyval c) st))"

definition yydefault :: "'re pcre \<Rightarrow> GreenSQLConfig \<Rightarrow> 're SQLPatterns option \<Rightarrow> 's yystate
    \<Rightarrow> parse_state \<Rightarrow> yy_fault + 's yy_next_round" where
  "yydefault P conf p c st =
     (case tab_at yydefact (hd (yyss c)) of None \<Rightarrow> Inl Out_of_bounds | Some r \<Rightarrow>
      if r = 0 then yyerrlab c st else yyreduce P conf p r c st)"

text \<open>The lookahead token is read if there is none.\<close>

definition yylookahead :: "'s yy_lexer \<Rightarrow> 's yystate \<Rightarrow> parse_state \<Rightarrow> yy_fault + ('s yystate \<times> parse_state)" where
  "yylookahead next_token c st =
     (if yychar c = YYEMPTY then
        bindE (next_token (yylexer c) st) (\<lambda>(t, v, s, st). Inr (c\<lparr>yychar := t, yyvalue := v, yylexer := s\<rparr>, st))
      else Inr (c, st))"

definition yyshift :: "int \<Rightarrow> 's yystate \<Rightarrow> parse_state \<Rightarrow> yy_fault + 's yy_next_round" where
  "yyshift q c st =
     (let c = c\<lparr>yyerrstatus := (if yyerrstatus c \<noteq> 0 then yyerrstatus c - 1 else 0), yychar := YYEMPTY\<rparr>
      in Inr (Yy_newstate (yypush q (yyvalue c) c) st))"

text \<open>The action on the lookahead token in a state whose row of the table starts at \<open>n\<close>.\<close>

definition yyaction :: "'re pcre \<Rightarrow> GreenSQLConfig \<Rightarrow> 're SQLPatterns option \<Rightarrow> int \<Rightarrow> 's yystate
    \<Rightarrow> parse_state \<Rightarrow> yy_fault + 's yy_next_round" where
  "yyaction P conf p n c st =
     (let c = (if yychar c \<le> 0 then c\<lparr>yychar := 0\<rparr> else c) in
      case YYTRANSLATE (yychar c) of None \<Rightarrow> Inl Out_of_bounds | Some yytoken \<Rightarrow>
      let n = n + yytoken in
      if n < 0 \<or> YYLAST < n \<or> tab_at yycheck n \<noteq> Some yytoken then yydefault P conf p c st
      else
        case tab_at yytable n of None \<Rightarrow> Inl Out_of_bounds | Some q \<Rightarrow>
        if q \<le> 0 then yyreduce P conf p (- q) c st else yyshift q c st)"

definition yybackup :: "'s yy_lexer \<Rightarrow> 're pcre \<Rightarrow> GreenSQLConfig \<Rightarrow> 're SQLPatterns option \<Rightarrow> 's yystate
    \<Rightarrow> parse_state \<Rightarrow> yy_fault + 's yy_next_round" where
  "yybackup next_token P conf p c st =
     (case tab_at yypact (hd (yyss c)) of None \<Rightarrow> Inl Out_of_bounds | Some n \<Rightarrow>
      if n = -275 then yydefault P conf p c st
      else bindE (yylookahead next_token c st) (\<lambda>(c, st). yyaction P conf p n c st))"

definition yyround :: "'s yy_lexer \<Rightarrow> 're pcre \<Rightarrow> GreenSQLConfig \<Rightarrow> 're SQLPatterns option \<Rightarrow> 's yystate
    \<Rightarrow> parse_state \<Rightarrow> yy_fault + 's yy_next_round" where
  "yyround next_token P conf p c st =
     (case yysetstate c of
        (Some r, c) \<Rightarrow> Inr (Yy_return r c st)
      | (None, c) \<Rightarrow> yybackup next_token P conf p c st)"

text \<open>The first argument bounds the rounds.\<close>

fun yyparse_run :: "nat \<Rightarrow> 's yy_lexer \<Rightarrow> 're pcre \<Rightarrow> GreenSQLConfig \<Rightarrow> 're SQLPatterns option
    \<Rightarrow> 's yystate \<Rightarrow> parse_state \<Rightarrow> yy_fault + (int \<times> 's \<times> parse_state)" where
  "yyparse_run 0 next_token P conf p c st = Inl No_fuel"
| "yyparse_run (Suc k) next_token P conf p c st =
     bindE (yyround next_token P conf p c st) (\<lambda>r.
     case r of
       Yy_return n c st \<Rightarrow> Inr (n, yylexer c, st)
     | Yy_newstate c st \<Rightarrow> yyparse_run k next_token P conf p c st)"

definition yyparse :: "nat \<Rightarrow> 's yy_lexer \<Rightarrow> 're pcre \<Rightarrow> GreenSQLConfig \<Rightarrow> 're SQLPatterns option
    \<Rightarrow> 's \<Rightarrow> parse_state \<Rightarrow> yy_fault + (int \<times> 's \<times> parse_state)" where
  "yyparse k next_token P conf p s st = yyparse_run k next_token P conf p (yy_start_state s) st"

section \<open>Scanning a query\<close>

definition flex_lexer :: "flex yy_lexer" where
  "flex_lexer f st = bindE (yylex f st) (\<lambda>(t, f, st). Inr (t, yylval f, f, st))"

definition parse_fuel :: "nat \<Rightarrow> nat" where
  "parse_fuel n = 24 * n + 72"

definition scan_buffer :: "'re pcre \<Rightarrow> GreenSQLConfig \<Rightarrow> 're SQLPatterns option \<Rightarrow> string
    \<Rightarrow> flex \<Rightarrow> parse_state \<Rightarrow> yy_fault + (flex \<times> parse_state)" where
  "scan_buffer P conf p data f st =
     bindE (yy_scan_string data f) (\<lambda>f.
     bindE (yyparse (parse_fuel (length (cstr data))) flex_lexer P conf p f st) (\<lambda>(n, f, st).
     Inr (yy_delete_buffer f, st)))"

end
