(* ===== verification/Grammar.thy ===== *)
theory Grammar
  imports BisonTables
begin

text \<open>
  The grammar of the parser (parser/sql.ypp) with the names of its symbols, and its agreement
  with the rule tables of the generated parser.
\<close>

section \<open>Symbols\<close>

text \<open>The names of the symbols, by number: the tokens, then the nonterminals.\<close>

definition yytname :: "string list" where
  "yytname =
    [''$end'', ''error'', ''$undefined'', ''SELECT'', ''DISTINCT'', ''SELECT_OPT'', ''FROM'',
     ''WHERE'', ''JOIN_TYPE'', ''JOIN'', ''STRAIGHT_JOIN'', ''INDEX'', ''USE'', ''ON'', ''USING'',
     ''IGNORE''] @
     [''FORCE'', ''FOR'', ''QUICK'', ''LOW_PRIORITY'', ''GROUP'', ''ORDER'', ''BY'', ''ASC'',
      ''DESC'', ''INSERT'', ''UPDATE'', ''DELETE'', ''SHOW'', ''INTO'', ''AS'', ''IN''] @
     [''ANY'', ''EXISTS'', ''IS'', ''NULLX'', ''UNKNOWN'', ''FALSEX'', ''TRUEX'', ''DEFAULT'',
      ''EQUAL'', ''N_EQUAL'', ''MULTIPLY'', ''DIVIDE'', ''POWER'', ''NEWLINE'', ''SHIFT'',
      ''BASIC_OP''] @
     [''BETWEEN'', ''CASE'', ''WHEN'', ''THEN'', ''ELSE'', ''END_CASE'', ''CAST'', ''DATA_TYPE'',
      ''BINARY'', ''CHAR_TYPE'', ''REGEXP'', ''HAVING'', ''LIMIT'', ''OFFSET'', ''PROCEDURE'',
      ''UNION''] @
     [''SET'', ''INTEGER'', ''STRING'', ''Q_STRING'', ''DQ_STRING'', ''NAME'', ''VARIABLE'',
      ''O_BRACE'', ''C_BRACE'', ''BIT_OR'', ''BIT_AND'', ''NEG'', ''END'', ''COMMA'', ''DOT'',
      ''AND''] @
     [''OR'', ''NOT'', ''XOR'', ''LIKE'', ''$accept'', ''command'', ''select_cmd'',
      ''insert_cmd'', ''show_cmd'', ''delete_cmd'', ''update_cmd'', ''select_options'',
      ''select_opts'', ''delete_option_list'', ''delete_option'', ''delete_table_list''] @
     [''delete_table'', ''where_cond'', ''select_exps'', ''select_exp'', ''math_op'',
      ''logical_exp'', ''math_exp'', ''field'', ''table_field'', ''const_value'',
      ''table_references'', ''table_reference'', ''join_table'', ''join_ops'', ''join_types'',
      ''join_cond''] @
     [''table_factor'', ''simple_table'', ''alias'', ''alias_str'', ''index_hint'', ''index_use'',
      ''index_list'', ''fn'', ''simple_fn'', ''fn_args'', ''logical_operator'',
      ''logical_exp_list'', ''comp_operator'', ''group_cond'', ''groupby_column_list'',
      ''sort_order''] @
     [''having_cond'', ''order_cond'', ''orderby_column_list'', ''limit_cond'',
      ''procedure_cond'', ''union_cond'', ''end_cond'', ''set_cond'', ''case_fn'', ''case_cases'',
      ''case_case'', ''cast_fn'']"

definition sym :: "string \<Rightarrow> int" where
  "sym s = the (map_of (zip yytname [0..139]) s)"

section \<open>Rules\<close>

text \<open>Rule \<open>n\<close> of the tables is element \<open>n - 1\<close>.\<close>

definition sql_grammar_1 :: "(string \<times> string list) list" where
  "sql_grammar_1 =
    [(''$accept'', [''command'', ''$end'']),
     (''command'', []),
     (''command'', [''select_cmd'']),
     (''command'', [''insert_cmd'']),
     (''command'', [''show_cmd'']),
     (''command'', [''delete_cmd'']),
     (''command'', [''update_cmd'']),
     (''select_cmd'', [''SELECT'', ''select_options'', ''select_exps'', ''FROM'',
        ''table_references'', ''where_cond'', ''group_cond'', ''having_cond'', ''order_cond'',
        ''limit_cond'', ''procedure_cond'', ''union_cond'', ''end_cond'']),
     (''select_cmd'', [''SELECT'', ''select_options'', ''select_exps'']),
     (''insert_cmd'', [''INSERT'', ''INTO'']),
     (''show_cmd'', [''SHOW'']),
     (''delete_cmd'', [''DELETE'', ''delete_option_list'', ''delete_table_list'', ''FROM'',
        ''table_references'', ''where_cond'', ''order_cond'', ''limit_cond'', ''end_cond'']),
     (''update_cmd'', [''UPDATE'', ''delete_option_list'', ''table_references'', ''SET'',
        ''set_cond'', ''where_cond'', ''order_cond'', ''limit_cond'', ''end_cond'']),
     (''select_options'', []),
     (''select_options'', [''select_opts'']),
     (''select_opts'', [''SELECT_OPT'']),
     (''select_opts'', [''STRAIGHT_JOIN'']),
     (''select_opts'', [''DISTINCT'']),
     (''select_opts'', [''select_opts'', ''SELECT_OPT'']),
     (''select_opts'', [''select_opts'', ''DISTINCT'']),
     (''delete_option_list'', []),
     (''delete_option_list'', [''delete_option'']),
     (''delete_option'', [''LOW_PRIORITY'']),
     (''delete_option'', [''IGNORE'']),
     (''delete_option'', [''QUICK'']),
     (''delete_option'', [''delete_option'', ''LOW_PRIORITY'']),
     (''delete_option'', [''delete_option'', ''IGNORE'']),
     (''delete_option'', [''delete_option'', ''QUICK'']),
     (''delete_table_list'', []),
     (''delete_table_list'', [''delete_table'']),
     (''delete_table_list'', [''delete_table_list'', ''COMMA'', ''delete_table'']),
     (''delete_table'', [''simple_table'']),
     (''delete_table'', [''simple_table'', ''DOT'', ''simple_table'']),
     (''delete_table'', [''simple_table'', ''DOT'', ''simple_table'', ''DOT'', ''MULTIPLY'']),
     (''delete_table'', [''simple_table'', ''DOT'', ''MULTIPLY''])]"

definition sql_grammar_2 :: "(string \<times> string list) list" where
  "sql_grammar_2 =
    [(''where_cond'', []),
     (''where_cond'', [''WHERE'', ''logical_exp_list'']),
     (''select_exps'', [''select_exp'']),
     (''select_exps'', [''select_exps'', ''COMMA'', ''select_exp'']),
     (''select_exp'', [''math_op'', ''alias'']),
     (''select_exp'', [''MULTIPLY'']),
     (''select_exp'', [''STRING'', ''DOT'', ''MULTIPLY'']),
     (''select_exp'', [''NAME'', ''DOT'', ''MULTIPLY'']),
     (''select_exp'', [''STRING'', ''DOT'', ''STRING'', ''DOT'', ''MULTIPLY'']),
     (''select_exp'', [''STRING'', ''DOT'', ''NAME'', ''DOT'', ''MULTIPLY'']),
     (''select_exp'', [''NAME'', ''DOT'', ''STRING'', ''DOT'', ''MULTIPLY'']),
     (''select_exp'', [''NAME'', ''DOT'', ''NAME'', ''DOT'', ''MULTIPLY'']),
     (''math_op'', [''math_exp'']),
     (''math_op'', [''math_op'', ''comp_operator'', ''math_exp'']),
     (''math_op'', [''math_op'', ''NOT'', ''comp_operator'', ''math_exp'']),
     (''math_op'', [''case_fn'']),
     (''math_op'', [''cast_fn'']),
     (''math_op'', [''math_op'', ''BETWEEN'', ''math_exp'', ''AND'', ''math_exp'']),
     (''math_op'', [''math_op'', ''IN'', ''O_BRACE'', ''fn_args'', ''C_BRACE'']),
     (''logical_exp'', [''math_exp'']),
     (''logical_exp'', [''math_exp'', ''comp_operator'', ''math_exp'']),
     (''logical_exp'', [''math_exp'', ''NOT'', ''comp_operator'', ''math_exp'']),
     (''logical_exp'', [''math_exp'', ''NOT'', ''math_exp'']),
     (''logical_exp'', [''math_exp'', ''comp_operator'', ''math_exp'', ''comp_operator'',
        ''math_exp'']),
     (''logical_exp'', [''math_exp'', ''NOT'', ''comp_operator'', ''math_exp'', ''comp_operator'',
        ''math_exp'']),
     (''logical_exp'', [''math_exp'', ''comp_operator'', ''math_exp'', ''NOT'', ''comp_operator'',
        ''math_exp'']),
     (''logical_exp'', [''math_exp'', ''NOT'', ''comp_operator'', ''math_exp'', ''NOT'',
        ''comp_operator'', ''math_exp'']),
     (''logical_exp'', [''math_exp'', ''IN'', ''O_BRACE'', ''fn_args'', ''C_BRACE'']),
     (''logical_exp'', [''math_exp'', ''NOT'', ''IN'', ''O_BRACE'', ''fn_args'', ''C_BRACE'']),
     (''logical_exp'', [''math_exp'', ''IN'', ''O_BRACE'', ''select_cmd'', ''C_BRACE'']),
     (''logical_exp'', [''math_exp'', ''NOT'', ''IN'', ''O_BRACE'', ''select_cmd'', ''C_BRACE'']),
     (''logical_exp'', [''math_exp'', ''BETWEEN'', ''math_exp'', ''AND'', ''math_exp'']),
     (''logical_exp'', [''O_BRACE'', ''logical_exp'', ''C_BRACE'']),
     (''logical_exp'', [''EXISTS'', ''O_BRACE'', ''select_cmd'', ''C_BRACE'']),
     (''logical_exp'', [''case_fn'']),
     (''logical_exp'', [''cast_fn''])]"

definition sql_grammar_3 :: "(string \<times> string list) list" where
  "sql_grammar_3 =
    [(''math_exp'', [''field'']),
     (''math_exp'', [''math_exp'', ''BASIC_OP'', ''field'']),
     (''math_exp'', [''math_exp'', ''MULTIPLY'', ''field'']),
     (''math_exp'', [''math_exp'', ''DIVIDE'', ''field'']),
     (''math_exp'', [''math_exp'', ''SHIFT'', ''field'']),
     (''math_exp'', [''math_exp'', ''BIT_OR'', ''field'']),
     (''math_exp'', [''math_exp'', ''BIT_AND'', ''field'']),
     (''math_exp'', [''BASIC_OP'', ''field'']),
     (''math_exp'', [''math_exp'', ''POWER'', ''field'']),
     (''math_exp'', [''O_BRACE'', ''math_exp'', ''C_BRACE'']),
     (''math_exp'', [''O_BRACE'', ''select_cmd'', ''C_BRACE'']),
     (''field'', [''table_field'']),
     (''field'', [''const_value'']),
     (''field'', [''fn'']),
     (''field'', [''simple_fn'']),
     (''table_field'', [''STRING'']),
     (''table_field'', [''NAME'']),
     (''table_field'', [''STRING'', ''DOT'', ''STRING'']),
     (''table_field'', [''STRING'', ''DOT'', ''NAME'']),
     (''table_field'', [''NAME'', ''DOT'', ''STRING'']),
     (''table_field'', [''NAME'', ''DOT'', ''NAME'']),
     (''const_value'', [''INTEGER'']),
     (''const_value'', [''VARIABLE'']),
     (''const_value'', [''Q_STRING'']),
     (''const_value'', [''DQ_STRING'']),
     (''const_value'', [''NULLX'']),
     (''const_value'', [''UNKNOWN'']),
     (''const_value'', [''TRUEX'']),
     (''const_value'', [''FALSEX'']),
     (''table_references'', [''table_reference'']),
     (''table_references'', [''table_references'', ''COMMA'', ''table_reference'']),
     (''table_reference'', [''table_factor'']),
     (''table_reference'', [''join_table''])]"

definition sql_grammar_4 :: "(string \<times> string list) list" where
  "sql_grammar_4 =
    [(''join_table'', [''table_reference'', ''join_ops'', ''table_factor'', ''join_cond'']),
     (''join_ops'', [''join_types'', ''JOIN'']),
     (''join_ops'', [''JOIN'']),
     (''join_ops'', [''STRAIGHT_JOIN'']),
     (''join_types'', [''join_types'', ''JOIN_TYPE'']),
     (''join_types'', [''JOIN_TYPE'']),
     (''join_cond'', []),
     (''join_cond'', [''ON'', ''logical_exp_list'']),
     (''join_cond'', [''USING'', ''O_BRACE'', ''math_exp'', ''C_BRACE'']),
     (''table_factor'', [''simple_table'', ''alias'', ''index_hint'']),
     (''table_factor'', [''simple_table'', ''DOT'', ''simple_table'', ''alias'', ''index_hint'']),
     (''simple_table'', [''STRING'']),
     (''simple_table'', [''NAME'']),
     (''simple_table'', [''O_BRACE'', ''select_cmd'', ''C_BRACE'']),
     (''alias'', []),
     (''alias'', [''alias_str'']),
     (''alias'', [''AS'', ''alias_str'']),
     (''alias_str'', [''STRING'']),
     (''alias_str'', [''NAME'']),
     (''alias_str'', [''Q_STRING'']),
     (''alias_str'', [''DQ_STRING'']),
     (''index_hint'', []),
     (''index_hint'', [''index_use'', ''INDEX'', ''O_BRACE'', ''index_list'', ''C_BRACE'']),
     (''index_hint'', [''index_use'', ''INDEX'', ''FOR'', ''JOIN'', ''O_BRACE'', ''index_list'',
        ''C_BRACE'']),
     (''index_use'', [''USE'']),
     (''index_use'', [''IGNORE'']),
     (''index_use'', [''FORCE'']),
     (''index_list'', [''STRING'']),
     (''index_list'', [''index_list'', ''COMMA'', ''index_list'']),
     (''fn'', [''STRING'', ''O_BRACE'', ''fn_args'', ''C_BRACE'']),
     (''fn'', [''STRING'', ''O_BRACE'', ''DISTINCT'', ''fn_args'', ''order_cond'', ''C_BRACE'']),
     (''fn'', [''CHAR_TYPE'', ''O_BRACE'', ''fn_args'', ''C_BRACE''])]"

definition sql_grammar_5 :: "(string \<times> string list) list" where
  "sql_grammar_5 =
    [(''simple_fn'', [''STRING'', ''O_BRACE'', ''MULTIPLY'', ''C_BRACE'']),
     (''simple_fn'', [''STRING'', ''O_BRACE'', ''C_BRACE'']),
     (''simple_fn'', [''CHAR_TYPE'', ''O_BRACE'', ''C_BRACE'']),
     (''fn_args'', [''math_exp'']),
     (''fn_args'', [''fn_args'', ''COMMA'', ''fn_args'']),
     (''logical_operator'', [''AND'']),
     (''logical_operator'', [''OR'']),
     (''logical_operator'', [''XOR'']),
     (''logical_exp_list'', [''logical_exp_list'', ''logical_operator'', ''logical_exp'']),
     (''logical_exp_list'', [''NOT'', ''logical_exp'']),
     (''logical_exp_list'', [''logical_exp'']),
     (''comp_operator'', [''EQUAL'']),
     (''comp_operator'', [''N_EQUAL'']),
     (''comp_operator'', [''LIKE'']),
     (''comp_operator'', [''REGEXP'']),
     (''comp_operator'', [''IS'', ''NOT'']),
     (''comp_operator'', [''IS'']),
     (''group_cond'', []),
     (''group_cond'', [''GROUP'', ''BY'', ''groupby_column_list'', ''sort_order'']),
     (''groupby_column_list'', [''table_field'']),
     (''groupby_column_list'', [''groupby_column_list'', ''COMMA'', ''table_field'']),
     (''sort_order'', []),
     (''sort_order'', [''ASC'']),
     (''sort_order'', [''DESC'']),
     (''having_cond'', []),
     (''having_cond'', [''HAVING'', ''logical_exp_list'']),
     (''order_cond'', []),
     (''order_cond'', [''ORDER'', ''BY'', ''orderby_column_list'', ''sort_order'']),
     (''orderby_column_list'', [''table_field'']),
     (''orderby_column_list'', [''simple_fn'']),
     (''orderby_column_list'', [''NULLX'']),
     (''orderby_column_list'', [''orderby_column_list'', ''COMMA'', ''orderby_column_list''])]"

definition sql_grammar_6 :: "(string \<times> string list) list" where
  "sql_grammar_6 =
    [(''limit_cond'', []),
     (''limit_cond'', [''LIMIT'', ''INTEGER'']),
     (''limit_cond'', [''LIMIT'', ''INTEGER'', ''COMMA'', ''INTEGER'']),
     (''limit_cond'', [''LIMIT'', ''INTEGER'', ''OFFSET'', ''INTEGER'']),
     (''procedure_cond'', []),
     (''procedure_cond'', [''PROCEDURE'', ''fn'']),
     (''union_cond'', []),
     (''union_cond'', [''UNION'', ''select_cmd'']),
     (''end_cond'', []),
     (''end_cond'', [''END'']),
     (''set_cond'', [''table_field'', ''EQUAL'', ''math_exp'']),
     (''set_cond'', [''table_field'', ''EQUAL'', ''DEFAULT'']),
     (''set_cond'', [''set_cond'', ''COMMA'', ''field'', ''EQUAL'', ''math_exp'']),
     (''set_cond'', [''set_cond'', ''COMMA'', ''field'', ''EQUAL'', ''DEFAULT'']),
     (''case_fn'', [''CASE'', ''case_cases'', ''END_CASE'']),
     (''case_fn'', [''CASE'', ''case_cases'', ''ELSE'', ''math_exp'', ''END_CASE'']),
     (''case_fn'', [''CASE'', ''math_exp'', ''case_cases'', ''END_CASE'']),
     (''case_fn'', [''CASE'', ''math_exp'', ''case_cases'', ''ELSE'', ''math_exp'', ''END_CASE'']),
     (''case_cases'', [''case_case'']),
     (''case_cases'', [''case_cases'', ''case_case'']),
     (''case_case'', [''WHEN'', ''math_op'', ''THEN'', ''math_exp'']),
     (''cast_fn'', [''CAST'', ''O_BRACE'', ''math_exp'', ''AS'', ''DATA_TYPE'', ''C_BRACE'']),
     (''cast_fn'', [''CAST'', ''O_BRACE'', ''math_exp'', ''AS'', ''DATA_TYPE'', ''O_BRACE'',
        ''fn_args'', ''C_BRACE'', ''C_BRACE'']),
     (''cast_fn'', [''CAST'', ''O_BRACE'', ''math_exp'', ''AS'', ''CHAR_TYPE'', ''C_BRACE'']),
     (''cast_fn'', [''CAST'', ''O_BRACE'', ''math_exp'', ''AS'', ''CHAR_TYPE'', ''O_BRACE'',
        ''fn_args'', ''C_BRACE'', ''C_BRACE'']),
     (''cast_fn'', [''CAST'', ''O_BRACE'', ''math_exp'', ''AS'', ''BINARY'', ''C_BRACE'']),
     (''cast_fn'', [''CAST'', ''O_BRACE'', ''math_exp'', ''AS'', ''BINARY'', ''O_BRACE'',
        ''fn_args'', ''C_BRACE'', ''C_BRACE'']),
     (''cast_fn'', [''BINARY'', ''math_exp''])]"

definition sql_grammar :: "(string \<times> string list) list" where
  "sql_grammar = sql_grammar_1 @ sql_grammar_2 @ sql_grammar_3 @ sql_grammar_4 @ sql_grammar_5 @ sql_grammar_6"

text \<open>The rules by symbol numbers.\<close>

definition sql_rules :: "(int \<times> int list) list" where
  "sql_rules = map (\<lambda>(a, xs). (sym a, map sym xs)) sql_grammar"

section \<open>Entries\<close>

fun symbols_of :: "(string \<times> int) list \<Rightarrow> bool" where
  "symbols_of [] = True"
| "symbols_of (e # es) = (sym (fst e) = snd e \<and> symbols_of es)"

lemma symbols_of_all: "zip yytname [0..139] = es \<Longrightarrow> distinct (map fst es) \<Longrightarrow> symbols_of es"
proof -
  have "set es' \<subseteq> set es \<Longrightarrow> zip yytname [0..139] = es \<Longrightarrow> distinct (map fst es) \<Longrightarrow> symbols_of es'" for es'
    by (induction es') (auto simp: sym_def)
  then show "zip yytname [0..139] = es \<Longrightarrow> distinct (map fst es) \<Longrightarrow> symbols_of es" by blast
qed

lemma yytname_numbers: "zip yytname [0..139] =
    [(''$end'', 0), (''error'', 1), (''$undefined'', 2), (''SELECT'', 3), (''DISTINCT'', 4),
     (''SELECT_OPT'', 5), (''FROM'', 6), (''WHERE'', 7), (''JOIN_TYPE'', 8), (''JOIN'', 9),
     (''STRAIGHT_JOIN'', 10), (''INDEX'', 11), (''USE'', 12), (''ON'', 13), (''USING'', 14),
     (''IGNORE'', 15), (''FORCE'', 16), (''FOR'', 17), (''QUICK'', 18), (''LOW_PRIORITY'', 19),
     (''GROUP'', 20), (''ORDER'', 21), (''BY'', 22), (''ASC'', 23), (''DESC'', 24),
     (''INSERT'', 25), (''UPDATE'', 26), (''DELETE'', 27), (''SHOW'', 28), (''INTO'', 29),
     (''AS'', 30), (''IN'', 31), (''ANY'', 32), (''EXISTS'', 33), (''IS'', 34), (''NULLX'', 35),
     (''UNKNOWN'', 36), (''FALSEX'', 37), (''TRUEX'', 38), (''DEFAULT'', 39), (''EQUAL'', 40),
     (''N_EQUAL'', 41), (''MULTIPLY'', 42), (''DIVIDE'', 43), (''POWER'', 44), (''NEWLINE'', 45),
     (''SHIFT'', 46), (''BASIC_OP'', 47), (''BETWEEN'', 48), (''CASE'', 49), (''WHEN'', 50),
     (''THEN'', 51), (''ELSE'', 52), (''END_CASE'', 53), (''CAST'', 54), (''DATA_TYPE'', 55),
     (''BINARY'', 56), (''CHAR_TYPE'', 57), (''REGEXP'', 58), (''HAVING'', 59), (''LIMIT'', 60),
     (''OFFSET'', 61), (''PROCEDURE'', 62), (''UNION'', 63), (''SET'', 64), (''INTEGER'', 65),
     (''STRING'', 66), (''Q_STRING'', 67), (''DQ_STRING'', 68), (''NAME'', 69),
     (''VARIABLE'', 70), (''O_BRACE'', 71), (''C_BRACE'', 72), (''BIT_OR'', 73),
     (''BIT_AND'', 74), (''NEG'', 75), (''END'', 76), (''COMMA'', 77), (''DOT'', 78),
     (''AND'', 79), (''OR'', 80), (''NOT'', 81), (''XOR'', 82), (''LIKE'', 83), (''$accept'', 84),
     (''command'', 85), (''select_cmd'', 86), (''insert_cmd'', 87), (''show_cmd'', 88),
     (''delete_cmd'', 89), (''update_cmd'', 90), (''select_options'', 91), (''select_opts'', 92),
     (''delete_option_list'', 93), (''delete_option'', 94), (''delete_table_list'', 95),
     (''delete_table'', 96), (''where_cond'', 97), (''select_exps'', 98), (''select_exp'', 99),
     (''math_op'', 100), (''logical_exp'', 101), (''math_exp'', 102), (''field'', 103),
     (''table_field'', 104), (''const_value'', 105), (''table_references'', 106),
     (''table_reference'', 107), (''join_table'', 108), (''join_ops'', 109),
     (''join_types'', 110), (''join_cond'', 111), (''table_factor'', 112),
     (''simple_table'', 113), (''alias'', 114), (''alias_str'', 115), (''index_hint'', 116),
     (''index_use'', 117), (''index_list'', 118), (''fn'', 119), (''simple_fn'', 120),
     (''fn_args'', 121), (''logical_operator'', 122), (''logical_exp_list'', 123),
     (''comp_operator'', 124), (''group_cond'', 125), (''groupby_column_list'', 126),
     (''sort_order'', 127), (''having_cond'', 128), (''order_cond'', 129),
     (''orderby_column_list'', 130), (''limit_cond'', 131), (''procedure_cond'', 132),
     (''union_cond'', 133), (''end_cond'', 134), (''set_cond'', 135), (''case_fn'', 136),
     (''case_cases'', 137), (''case_case'', 138), (''cast_fn'', 139)]"
  by (simp add: yytname_def upto.simps)

lemma distinct_symbols: "distinct (map fst (zip yytname [0..139]))"
  unfolding yytname_numbers by simp

lemmas sym_simps [simp] =
  symbols_of_all [OF yytname_numbers distinct_symbols [unfolded yytname_numbers], simplified symbols_of.simps fst_conv snd_conv simp_thms]


lemma sql_rules_rows: "sql_rules =
    [(84, [85, 0]), (85, []), (85, [86]), (85, [87]), (85, [88]), (85, [89]), (85, [90]), (86, [3,
      91, 98, 6, 106, 97, 125, 128, 129, 131, 132, 133, 134]), (86, [3, 91, 98]), (87, [25, 29]),
      (88, [28]), (89, [27, 93, 95, 6, 106, 97, 129, 131, 134]), (90, [26, 93, 106, 64, 135, 97,
      129, 131, 134]), (91, []), (91, [92]), (92, [5])] @
     [(92, [10]), (92, [4]), (92, [92, 5]), (92, [92, 4]), (93, []), (93, [94]), (94, [19]), (94,
      [15]), (94, [18]), (94, [94, 19]), (94, [94, 15]), (94, [94, 18]), (95, []), (95, [96]),
      (95, [95, 77, 96]), (96, [113])] @
     [(96, [113, 78, 113]), (96, [113, 78, 113, 78, 42]), (96, [113, 78, 42]), (97, []), (97, [7,
      123]), (98, [99]), (98, [98, 77, 99]), (99, [100, 114]), (99, [42]), (99, [66, 78, 42]),
      (99, [69, 78, 42]), (99, [66, 78, 66, 78, 42]), (99, [66, 78, 69, 78, 42]), (99, [69, 78,
      66, 78, 42]), (99, [69, 78, 69, 78, 42]), (100, [102])] @
     [(100, [100, 124, 102]), (100, [100, 81, 124, 102]), (100, [136]), (100, [139]), (100, [100,
      48, 102, 79, 102]), (100, [100, 31, 71, 121, 72]), (101, [102]), (101, [102, 124, 102]),
      (101, [102, 81, 124, 102]), (101, [102, 81, 102]), (101, [102, 124, 102, 124, 102]), (101,
      [102, 81, 124, 102, 124, 102]), (101, [102, 124, 102, 81, 124, 102]), (101, [102, 81, 124,
      102, 81, 124, 102]), (101, [102, 31, 71, 121, 72]), (101, [102, 81, 31, 71, 121, 72])] @
     [(101, [102, 31, 71, 86, 72]), (101, [102, 81, 31, 71, 86, 72]), (101, [102, 48, 102, 79,
      102]), (101, [71, 101, 72]), (101, [33, 71, 86, 72]), (101, [136]), (101, [139]), (102,
      [103]), (102, [102, 47, 103]), (102, [102, 42, 103]), (102, [102, 43, 103]), (102, [102,
      46, 103]), (102, [102, 73, 103]), (102, [102, 74, 103]), (102, [47, 103]), (102, [102, 44,
      103])] @
     [(102, [71, 102, 72]), (102, [71, 86, 72]), (103, [104]), (103, [105]), (103, [119]), (103,
      [120]), (104, [66]), (104, [69]), (104, [66, 78, 66]), (104, [66, 78, 69]), (104, [69, 78,
      66]), (104, [69, 78, 69]), (105, [65]), (105, [70]), (105, [67]), (105, [68])] @
     [(105, [35]), (105, [36]), (105, [38]), (105, [37]), (106, [107]), (106, [106, 77, 107]),
      (107, [112]), (107, [108]), (108, [107, 109, 112, 111]), (109, [110, 9]), (109, [9]), (109,
      [10]), (110, [110, 8]), (110, [8]), (111, []), (111, [13, 123])] @
     [(111, [14, 71, 102, 72]), (112, [113, 114, 116]), (112, [113, 78, 113, 114, 116]), (113,
      [66]), (113, [69]), (113, [71, 86, 72]), (114, []), (114, [115]), (114, [30, 115]), (115,
      [66]), (115, [69]), (115, [67]), (115, [68]), (116, []), (116, [117, 11, 71, 118, 72]),
      (116, [117, 11, 17, 9, 71, 118, 72])] @
     [(117, [12]), (117, [15]), (117, [16]), (118, [66]), (118, [118, 77, 118]), (119, [66, 71,
      121, 72]), (119, [66, 71, 4, 121, 129, 72]), (119, [57, 71, 121, 72]), (120, [66, 71, 42,
      72]), (120, [66, 71, 72]), (120, [57, 71, 72]), (121, [102]), (121, [121, 77, 121]), (122,
      [79]), (122, [80]), (122, [82])] @
     [(123, [123, 122, 101]), (123, [81, 101]), (123, [101]), (124, [40]), (124, [41]), (124,
      [83]), (124, [58]), (124, [34, 81]), (124, [34]), (125, []), (125, [20, 22, 126, 127]),
      (126, [104]), (126, [126, 77, 104]), (127, []), (127, [23]), (127, [24])] @
     [(128, []), (128, [59, 123]), (129, []), (129, [21, 22, 130, 127]), (130, [104]), (130,
      [120]), (130, [35]), (130, [130, 77, 130]), (131, []), (131, [60, 65]), (131, [60, 65, 77,
      65]), (131, [60, 65, 61, 65]), (132, []), (132, [62, 119]), (133, []), (133, [63, 86])] @
     [(134, []), (134, [76]), (135, [104, 40, 102]), (135, [104, 40, 39]), (135, [135, 77, 103,
      40, 102]), (135, [135, 77, 103, 40, 39]), (136, [49, 137, 53]), (136, [49, 137, 52, 102,
      53]), (136, [49, 102, 137, 53]), (136, [49, 102, 137, 52, 102, 53]), (137, [138]), (137,
      [137, 138]), (138, [50, 100, 51, 102]), (139, [54, 71, 102, 30, 55, 72]), (139, [54, 71,
      102, 30, 55, 71, 121, 72, 72]), (139, [54, 71, 102, 30, 57, 72])] @
     [(139, [54, 71, 102, 30, 57, 71, 121, 72, 72]), (139, [54, 71, 102, 30, 56, 72]), (139, [54,
      71, 102, 30, 56, 71, 121, 72, 72]), (139, [56, 102])]"
  by (simp add: sql_rules_def sql_grammar_def sql_grammar_1_def sql_grammar_2_def sql_grammar_3_def
    sql_grammar_4_def sql_grammar_5_def sql_grammar_6_def)

lemmas sql_rules_entries [simp] =
  entries_all [OF sql_rules_rows, simplified entries_simps]

text \<open>The tables of the parser agree with the rules.\<close>

definition rule_numbers :: "int \<Rightarrow> int \<times> int list \<Rightarrow> bool" where
  "rule_numbers i r \<longleftrightarrow> tab_at yyr1 (i + 1) = Some (fst r) \<and> tab_at yyr2 (i + 1) = Some (int (length (snd r)))"

lemma rules_agree: "all_from rule_numbers 0 sql_rules"
  unfolding sql_rules_rows by (simp add: rule_numbers_def)

end
