(* ===== verification/Lalr.thy ===== *)
theory Lalr
  imports Yacc Grammar
begin

text \<open>
  A certificate for the parser tables: for each state the states it can lie on, and a weight.  Checked
  against every shift and every reduction of the tables, it shows that the stack never underflows,
  that no table is read outside its bounds and that parsing ends.
\<close>

section \<open>The certificate\<close>

text \<open>The states below each state on a stack.\<close>

definition lr_pred :: "int list list" where
  "lr_pred =
    [[], [0, 41, 57, 225, 256, 290, 324, 362], [0], [0], [0], [0], [0], [0], [0], [0], [0], [0],
      [1], [1], [1], [1]] @
     [[1], [2], [3, 4], [3, 4], [3, 4], [3], [3, 4], [4], [6],
      [15, 30, 31, 33, 41, 72, 76, 78, 79, 85, 91, 101, 102, 103, 104, 105, 106, 107, 108, 126, 133, 148, 151, 182, 183, 188, 196, 199, 201, 202, 204, 225, 226, 241, 248, 250, 252, 261, 262, 263, 267, 269, 271, 290, 294, 323, 324, 327, 345, 346, 356, 365, 366],
      [15, 30, 31, 33, 41, 72, 76, 78, 79, 85, 91, 101, 102, 103, 104, 105, 106, 107, 108, 126, 133, 148, 151, 182, 183, 188, 196, 199, 201, 202, 204, 225, 226, 241, 248, 250, 252, 261, 262, 263, 267, 269, 271, 290, 294, 323, 324, 327, 345, 346, 356, 365, 366],
      [15, 30, 31, 33, 41, 72, 76, 78, 79, 85, 91, 101, 102, 103, 104, 105, 106, 107, 108, 126, 133, 148, 151, 182, 183, 188, 196, 199, 201, 202, 204, 225, 226, 241, 248, 250, 252, 261, 262, 263, 267, 269, 271, 290, 294, 323, 324, 327, 345, 346, 356, 365, 366],
      [15, 30, 31, 33, 41, 72, 76, 78, 79, 85, 91, 101, 102, 103, 104, 105, 106, 107, 108, 126, 133, 148, 151, 182, 183, 188, 196, 199, 201, 202, 204, 225, 226, 241, 248, 250, 252, 261, 262, 263, 267, 269, 271, 290, 294, 323, 324, 327, 345, 346, 356, 365, 366],
      [15, 85],
      [15, 31, 33, 41, 72, 76, 78, 79, 85, 91, 101, 126, 133, 148, 151, 182, 183, 188, 196, 199, 201, 204, 225, 226, 241, 248, 250, 252, 261, 262, 263, 267, 269, 271, 290, 294, 323, 324, 327, 345, 346, 356, 365, 366],
      [15, 72, 85, 196, 204, 225, 226, 267, 269]] @
     [[15, 72, 85, 196, 204, 225, 226, 267, 269], [15, 72, 85, 196, 204, 225, 226, 267, 269],
      [15, 30, 31, 33, 41, 72, 76, 78, 79, 85, 91, 101, 102, 103, 104, 105, 106, 107, 108, 126, 133, 148, 151, 182, 183, 188, 196, 199, 201, 202, 204, 225, 226, 241, 248, 250, 252, 261, 262, 263, 267, 269, 271, 290, 294, 323, 324, 327, 345, 346, 356, 365, 366],
      [15, 30, 31, 33, 41, 72, 76, 78, 79, 85, 91, 101, 102, 103, 104, 105, 106, 107, 108, 126, 133, 148, 151, 182, 183, 188, 196, 199, 201, 202, 204, 225, 226, 241, 248, 250, 252, 261, 262, 263, 267, 269, 271, 290, 294, 323, 324, 327, 345, 346, 356, 365, 366],
      [15, 85],
      [15, 30, 31, 33, 41, 72, 76, 78, 79, 85, 91, 101, 102, 103, 104, 105, 106, 107, 108, 126, 133, 148, 151, 182, 183, 188, 196, 199, 201, 202, 204, 225, 226, 241, 248, 250, 252, 261, 262, 263, 267, 269, 271, 290, 294, 323, 324, 327, 345, 346, 356, 365, 366],
      [15, 30, 31, 33, 41, 72, 76, 78, 79, 85, 91, 101, 102, 103, 104, 105, 106, 107, 108, 126, 133, 148, 151, 182, 183, 188, 196, 199, 201, 202, 204, 225, 226, 241, 248, 250, 252, 261, 262, 263, 267, 269, 271, 290, 294, 323, 324, 327, 345, 346, 356, 365, 366],
      [15, 85],
      [15, 30, 31, 33, 41, 72, 76, 78, 79, 85, 91, 101, 102, 103, 104, 105, 106, 107, 108, 126, 133, 148, 151, 182, 183, 188, 196, 199, 201, 202, 204, 225, 226, 241, 248, 250, 252, 261, 262, 263, 267, 269, 271, 290, 294, 323, 324, 327, 345, 346, 356, 365, 366],
      [15, 31, 33, 41, 72, 76, 78, 79, 85, 91, 101, 126, 133, 148, 151, 182, 183, 188, 199, 201, 241, 248, 250, 252, 261, 262, 263, 271, 290, 294, 323, 324, 327, 345, 346, 356, 365, 366],
      [15], [15], [15, 85], [15, 72, 85],
      [15, 31, 33, 41, 72, 76, 78, 79, 85, 91, 101, 126, 133, 148, 151, 182, 183, 188, 196, 199, 201, 204, 225, 226, 241, 248, 250, 252, 261, 262, 263, 267, 269, 271, 290, 294, 323, 324, 327, 345, 346, 356, 365, 366],
      [15, 30, 31, 33, 41, 72, 76, 78, 79, 85, 91, 101, 102, 103, 104, 105, 106, 107, 108, 126, 133, 148, 151, 182, 183, 188, 196, 199, 201, 202, 204, 225, 226, 241, 248, 250, 252, 261, 262, 263, 267, 269, 271, 290, 294, 323, 324, 327, 345, 346, 356, 365, 366]] @
     [
      [15, 30, 31, 33, 41, 72, 76, 78, 79, 85, 91, 101, 102, 103, 104, 105, 106, 107, 108, 126, 133, 148, 151, 182, 183, 188, 196, 199, 201, 202, 204, 225, 226, 241, 248, 250, 252, 261, 262, 263, 267, 269, 271, 290, 294, 323, 324, 327, 345, 346, 356, 365, 366],
      [15, 30, 31, 33, 41, 72, 76, 78, 79, 85, 91, 101, 102, 103, 104, 105, 106, 107, 108, 126, 133, 148, 151, 182, 183, 188, 196, 199, 201, 202, 204, 225, 226, 241, 248, 250, 252, 261, 262, 263, 267, 269, 271, 290, 294, 323, 324, 327, 345, 346, 356, 365, 366],
      [15, 30, 31, 33, 41, 72, 76, 78, 79, 85, 91, 101, 102, 103, 104, 105, 106, 107, 108, 126, 133, 148, 151, 182, 183, 188, 196, 199, 201, 202, 204, 225, 226, 241, 248, 250, 252, 261, 262, 263, 267, 269, 271, 290, 294, 323, 324, 327, 345, 346, 356, 365, 366],
      [15, 72, 85], [15, 72, 85], [16], [16], [21, 23, 84, 111, 115, 117, 119, 120, 121],
      [21, 23, 84, 111, 115, 117, 119, 120, 121],
      [21, 23, 84, 111, 115, 117, 119, 120, 121], [21], [21, 84, 119], [21, 84, 111, 119],
      [21, 84, 111, 119], [21, 84, 111, 115, 119], [22]] @
     [[22], [22], [23], [23], [23, 120],
      [30, 31, 33, 41, 72, 76, 78, 79, 91, 101, 102, 103, 104, 105, 106, 107, 108, 126, 133, 148, 151, 182, 183, 188, 196, 199, 201, 202, 204, 225, 226, 241, 248, 250, 252, 261, 262, 263, 267, 269, 271, 290, 294, 323, 324, 327, 345, 346, 356, 365, 366],
      [30, 31, 33, 41, 72, 76, 78, 79, 91, 101, 102, 103, 104, 105, 106, 107, 108, 110, 126, 133, 148, 151, 182, 183, 188, 196, 199, 201, 202, 204, 225, 226, 241, 248, 250, 252, 254, 261, 262, 263, 267, 268, 269, 271, 290, 294, 318, 323, 324, 327, 328, 345, 346, 356, 365, 366],
      [30], [31, 73, 74, 125], [31], [31], [31, 73], [32], [33], [34], [36, 69]] @
     [[36], [39], [41, 225], [41], [42], [42], [44, 62, 168], [44, 124],
      [44, 97, 124, 228, 258, 262, 295, 325, 326, 344],
      [44, 97, 124, 228, 258, 262, 295, 325, 326, 344],
      [44, 97, 124, 228, 258, 262, 295, 325, 326, 344], [44, 124],
      [44, 97, 124, 228, 258, 262, 295, 325, 326, 344], [44, 62, 86, 168],
      [44, 62, 86, 168], [44, 62, 86, 168]] @
     [[44, 62, 86, 168], [44, 124], [44, 97, 124, 228, 258, 262, 295, 325, 326, 344], [44],
      [44, 62, 168], [44, 124],
      [45, 73, 77, 83, 129, 131, 150, 152, 185, 200, 211, 212, 228, 235, 237, 258, 274, 291, 293, 295, 302, 325, 341, 347, 357, 358, 364],
      [45, 73, 77, 83, 129, 131, 150, 152, 185, 200, 211, 212, 228, 235, 237, 258, 274, 291, 293, 295, 302, 325, 341, 347, 357, 358, 364],
      [45, 73, 77, 83, 129, 131, 150, 152, 185, 200, 211, 212, 228, 235, 237, 258, 274, 291, 293, 295, 302, 325, 341, 347, 357, 358, 364],
      [45, 73, 77, 83, 129, 131, 150, 152, 185, 200, 211, 212, 228, 235, 237, 258, 274, 291, 293, 295, 302, 325, 341, 347, 357, 358, 364],
      [45, 73, 77, 83, 129, 131, 150, 152, 185, 200, 211, 212, 228, 235, 237, 258, 274, 291, 293, 295, 302, 325, 341, 347, 357, 358, 364],
      [45, 73, 77, 83, 129, 131, 150, 152, 185, 200, 211, 212, 228, 235, 237, 258, 274, 291, 293, 295, 302, 325, 341, 347, 357, 358, 364],
      [45, 73, 77, 83, 129, 131, 150, 152, 185, 200, 211, 212, 228, 235, 237, 258, 274, 291, 293, 295, 302, 325, 341, 347, 357, 358, 364],
      [57], [58], [58, 145, 174]] @
     [[59, 164], [59, 164], [59, 164], [59, 164], [59, 164], [62], [62], [66], [66], [68],
      [69, 161, 284], [70], [72], [73], [74], [74]] @
     [[74, 125], [76], [78, 314], [78, 79, 133, 148, 188, 248, 250, 252, 290, 324, 365, 366],
      [78, 365], [79, 366], [79, 315], [79, 315], [79, 366], [80], [80], [80], [81], [81],
      [81], [82]] @
     [[83, 258], [84], [85], [86], [87], [88], [91], [97], [101], [102], [103], [104], [105],
      [106], [107], [108]] @
     [[109], [110, 268, 328], [110], [110], [111], [115], [116], [116], [117], [118, 207],
      [118, 207], [118, 207], [118], [118, 207], [119], [120]] @
     [[121], [121], [122], [122], [123], [123], [124], [125], [125], [126], [129], [132],
      [132, 136, 189, 198, 279, 280, 281, 322, 343], [133], [134], [136]] @
     [[138], [139], [141], [142], [145, 163, 174], [145], [148], [150], [151], [162], [163],
      [163], [165], [165], [165], [168]] @
     [[173], [174], [177], [182], [183], [185], [186], [186], [186], [188], [189, 203, 209, 270],
      [189], [192], [193], [194], [195]] @
     [[196, 204, 225, 226, 267, 269], [196, 204, 225, 226, 267, 269], [196, 204, 269],
      [196, 204, 269], [196, 204, 226, 267, 269], [196], [196, 204, 225, 226, 267, 269],
      [196, 204, 225, 226, 267, 269], [197], [197], [198], [199], [201], [201], [202],
      [203]] @
     [[204], [205], [207], [208], [208], [209], [210], [212], [214], [214], [215], [215], [216],
      [216], [218], [219]] @
     [[224], [225], [225], [226], [228, 258], [228, 258], [228, 258], [228, 258],
      [229, 240, 299], [229, 240, 299], [229, 240, 299], [229, 240, 299], [232], [233],
      [233], [238]] @
     [[239, 245, 300], [239], [241], [243], [244, 307, 309], [244], [245], [248], [250], [252],
      [254, 318], [254, 318], [254, 318], [254, 318], [254, 318], [254]] @
     [[256], [257], [260], [261], [262], [262], [262], [263], [267], [268], [268], [269], [270],
      [271], [271], [272]] @
     [[273, 278, 363], [273], [274], [275], [277], [277, 333], [278], [279], [280], [281], [283],
      [284], [287, 298], [287, 298], [287], [287]] @
     [[288], [290], [290], [291], [292], [294], [295], [295], [298], [298], [300], [303], [303],
      [307], [309], [311]] @
     [[312], [313], [318], [321], [322], [323], [324], [324], [325], [325], [326], [327], [328],
      [330], [330], [331]] @
     [[332], [333], [342], [343], [344], [345], [346], [349], [349], [349], [350], [350], [356],
      [359], [360], [362]] @
     [[363]]"

text \<open>The weight of a state: a reduction lowers the weight of the top plus the height of the stack.\<close>

definition lr_rho :: "int list" where
  "lr_rho =
    [2, 2, 0, 2, 4, 2, 0, 1, 1, 1, 1, 1, 2, 2, 2, 0] @
     [1, 1, 4, 4, 4, 0, 3, 2, 0, 21, 21, 21, 21, 3, 0, 0] @
     [0, 0, 0, 21, 21, 21, 21, 21, 21, 0, 1, 2, 4, 5, 19, 20] @
     [20, 20, 20, 5, 5, 1, 1, 22, 22, 0, 0, 17, 18, 18, 21, 3] @
     [3, 3, 0, 1, 2, 21, 21, 18, 0, 0, 0, 1, 0, 18, 0, 0] @
     [0, 0, 0, 0, 0, 0, 0, 0, 1, 1, 1, 0, 1, 21, 21, 21] @
     [21, 0, 1, 2, 20, 0, 0, 0, 0, 0, 0, 0, 0, 0, 0, 0] @
     [1, 1, 1, 0, 0, 0, 19, 0, 0, 0, 0, 0, 0, 0, 0, 17] @
     [0, 0, 19, 3, 0, 0, 0, 19, 0, 1, 19, 19, 1, 19, 19, 17] @
     [17, 16, 0, 19, 0, 0, 0, 0, 3, 17, 17, 17, 17, 17, 17, 17] @
     [20, 14, 0, 8, 15, 18, 0, 0, 19, 1, 1, 1, 17, 0, 8, 0] @
     [0, 0, 19, 19, 19, 19, 0, 0, 16, 0, 0, 18, 0, 2, 18, 18] @
     [0, 0, 0, 0, 0, 14, 0, 0, 2, 0, 0, 6, 0, 0, 16, 17] @
     [0, 6, 0, 0, 0, 15, 0, 0, 0, 1, 0, 0, 0, 0, 0, 0] @
     [0, 0, 0, 17, 18, 14, 18, 18, 0, 12, 1, 1, 7, 7, 0, 4] @
     [16, 0, 15, 0, 0, 4, 0, 14, 0, 14, 0, 14, 0, 14, 0, 16] @
     [0, 0, 0, 16, 0, 0, 0, 0, 1, 1, 1, 0, 0, 0, 10, 0] @
     [0, 2, 0, 0, 1, 0, 2, 0, 0, 0, 9, 0, 10, 9, 9, 8] @
     [0, 16, 0, 0, 0, 16, 0, 16, 15, 13, 12, 10, 8, 5, 5, 6] @
     [1, 0, 14, 0, 14, 0, 0, 0, 0, 0, 0, 0, 11, 11, 0, 6] @
     [15, 0, 0, 0, 0, 15, 0, 0, 0, 10, 6, 0, 0, 0, 0, 11] @
     [11, 11, 7, 14, 14, 14, 0, 0, 0, 0, 0, 14, 11, 0, 4, 4] @
     [4, 12, 13, 13, 0, 13, 13, 0, 0, 4, 0, 2, 12, 0, 0, 2] @
     [0]"

text \<open>The entries of \<open>yytable\<close> that a state with \<open>yypact\<close> \<open>n\<close> may shift by, at \<open>n + 83\<close>.\<close>

definition lr_cells :: "int list list" where
  "lr_cells =
    [[], [], [], [], [], [], [], [], [], [5], [], [], [], [], [], []] @
     [[], [], [], [], [], [], [], [2], [], [], [], [], [], [], [21], []] @
     [[], [], [], [], [], [], [], [], [], [30, 35], [], [], [], [26, 39], [], [25, 41]] @
     [[], [], [38, 45], [], [], [], [], [], [], [31, 40], [], [], [7], [49, 56], [], [3]] @
     [[], [24, 54], [], [14, 50, 51, 52, 53], [], [1, 17, 19, 27, 58, 62], [], [], [10, 66], [],
      [46, 47, 48], [63], [8, 65], [], [], []] @
     [[], [69], [16, 70], [0, 57], [], [], [18, 75], [], [], [], [], [], [15, 86], [], [], []] @
     [[36, 37, 90], [20, 91], [22, 92], [23, 93], [], [], [42, 43, 96], [], [], [], [], [], [],
      [55], [], []] @
     [[], [], [], [32], [], [], [], [], [67, 103, 104, 105, 106, 115], [109, 116], [], [],
      [113, 118], [], [], []] @
     [[], [], [], [], [], [], [], [], [], [120, 123], [], [98, 122, 125], [], [], [], []] @
     [[], [], [], [99, 121, 130, 133], [107, 131, 134, 136], [132, 135], [], [], [], [], [], [],
      [139, 142], [], [117, 141, 144], []] @
     [[], [], [], [146, 149, 151], [], [], [], [], [163], [152, 153, 154, 155], [], [], [167],
      [],
      [94, 124, 126, 127, 128, 129, 138, 140, 145, 147, 148, 156, 157, 158, 159, 160, 161, 162],
      []] @
     [[], [], [], [], [], [], [], [], [], [], [175, 180], [], [], [110, 111], [], []] @
     [[181, 186], [], [183, 188], [184, 189], [], [], [], [119], [], [], [], [198], [], [], [],
      []] @
     [[], [], [206, 207, 209], [], [], [], [], [], [205], [], [], [], [], [], [], []] @
     [[], [], [215, 220], [], [], [], [], [], [221, 226], [], [222], [], [225, 230], [], [], []] @
     [[228, 229], [], [193, 199, 200, 217, 242], [], [165, 166, 171], [], [], [], [],
      [170, 201, 202, 203, 204, 208, 213, 223, 231, 232, 233, 234, 235, 236, 237, 238], [],
      [], [172, 194, 195, 196, 197], [], [252], []] @
     [[], [246, 251], [], [], [], [], [], [], [], [254], [191, 192], [], [], [], [], []] @
     [[], [], [], [], [], [], [], [268], [], [], [277], [], [], [], [], []] @
     [[218, 219], [], [], [], [], [281, 282], [], [], [291], [], [], [], [], [], [], []] @
     [[], [], [], [], [], [], [], [],
      [260, 263, 264, 265, 266, 267, 269, 270, 276, 286, 287, 294, 295, 296, 297, 298, 299, 300, 312],
      [], [], [], [], [], [243, 244, 245],
      [239, 271, 272, 273, 274, 283, 293, 301, 302, 303, 304, 305, 306, 307]] @
     [[], [], [], [], [], [320], [258, 261, 262], [], [323], [], [325], [], [], [], [], []] @
     [[], [], [333], [], [], [308, 310, 311], [], [275, 278, 279], [], [], [], [], [], [], [],
      []] @
     [[340, 341], [], [], [], [285, 288, 289], [314], [], [326, 328, 329], [], [], [],
      [284, 315, 316, 317, 318, 327, 337, 345, 346, 347, 348, 349, 350, 351], [], [], [],
      []] @
     [[], [], [], [359], [], [], [], [322, 334, 335, 336, 338, 339, 365, 366], [], [], [], [368],
      [], [369], [], []] @
     [[343], [344], [], [], [], [], [], [], [], [352], [387], [], [355], [373], [375], [388]] @
     [[], [360], [330], [386], [], [393],
      [353, 354, 357, 363, 364, 371, 381, 389, 390, 391, 392, 404, 406], [], [396], [397],
      [399], [], [400], [395], [403], []] @
     [[405], [374], [356],
      [367, 370, 376, 377, 378, 379, 380, 382, 383, 384, 394, 408, 409, 410, 417, 419],
      [402], [358], [361], [412], [413], [], [415], [], [407], [418], [], []] @
     [[], [372], [416], [], [], [], [], [], [], [429], [], [431], [], [425], [435], []] @
     [[], [], [], [], [], [], [], [], [], [], [], [385], [], [451], [],
      [411, 414, 420, 421, 422, 423, 424, 426, 427, 428, 438, 453, 454, 461, 463]] @
     [[], [], [], [], [], [], [], [], [], [], [], [], [], [398], [], []] @
     [[], [], [430, 433, 439, 440, 447, 450, 457, 480, 482], [], [],
      [436, 442, 443, 444, 445, 446, 448, 449, 460, 475, 476, 483, 485], [], [], [], [], [],
      [], [], [], [], []] @
     [[], [], [], [], [], [], [], [], [], [464, 465, 466, 468, 469, 495, 496, 501], [], [], [],
      [], [], []] @
     [[], [], [], [], [], [], [], [], [], [], [], [], [], [], [], []] @
     [[], [], [481, 487, 488, 489, 490, 491, 493, 494, 505, 520, 521, 528, 530], [], [], [], [],
      [], [], [], [], [], [], [], [], []] @
     [[], [], [], [], [], [], [], [], [], [], [], [], [], [],
      [508, 510, 511, 512, 513, 522, 524, 529, 531, 532, 540, 541, 542, 543, 544, 545, 546, 556],
      []] @
     [[], [], [], [], [], [], [], [], [], [], [], [], [], [], [], []] @
     [[], [], [], [], [], [], [], [],
      [534, 536, 537, 538, 539, 548, 550, 555, 557, 558, 566, 567, 568, 569, 570, 571, 572],
      [], [], [], [], [], [], []] @
     [[], [], [], [], [], [], [],
      [551, 552, 553, 554, 563, 573, 581, 582, 583, 584, 585, 586, 587, 588], [],
      [560, 561, 562, 564, 565, 591, 592, 597], [], [], [], [], [], []] @
     [[], [], [], [], [], [], [], [], [], [], [], [], [], [], [], []] @
     [[], [], [], [], [], [], [], [], [], [], [], [], [], [], [], []] @
     [[], [593, 594, 595, 596, 600, 605, 607, 612, 614, 615, 623, 624, 625, 626, 627, 628, 629],
      [], [], [], [], [], [], [], [], [], [], [], [], [], []] @
     [[], [], [], [], [], [], [], [], [], [],
      [618, 619, 620, 621, 630, 632, 637, 639, 640, 648, 649, 650, 651, 652, 653, 654], [],
      [], [], [], []] @
     [[], [], [], [], [], [], [], [], [], [], [], [], [], [], [], []] @
     [[], [], [], [643, 644, 645, 646, 655, 658, 665, 673, 674, 675, 676, 677, 678, 679], [], [],
      [], [], [], [], [], [], [], [], [], []] @
     [[], [], [], [659, 660, 661, 662, 663, 671, 681, 689, 690, 691, 692, 693, 694, 695], [], [],
      [], [], [], [], [], [], [], [], [], []] @
     [[], [], [], [], [], [], [], [], [], [], [], [],
      [684, 685, 686, 687, 688, 696, 706, 714, 715, 716, 717, 718, 719, 720], [], [], []] @
     [[], [], [], [], [], [], [], [], [], [], [],
      [699, 700, 701, 702, 711, 721, 729, 730, 731, 732, 733, 734, 735], [], [], [], []] @
     [[], [], [], [], [], [], [], [], [], [], [], [], [], [], [], []] @
     [[], [], [722, 723, 724, 725, 744, 752, 753, 754, 755, 756, 757], [], [], [], [], [], [],
      [], [737, 738, 739, 741, 742, 745, 768, 769], [], [], [], [], []] @
     [[], [], [], [746, 747, 748, 750, 751, 776, 777, 778], [], [], [], [], [], [], [], [], [],
      [], [], []] @
     [[759, 760, 761, 763, 764, 770, 790, 791], [], [], [], [], [], [], [], [], [], [], [], [],
      [], [], []] @
     [[], [], [], [], [], [], [781, 782, 783, 785, 786, 792, 812, 813], [], [], [], [], [], [],
      [], [], []] @
     [[], [], [793, 794, 795, 797, 798, 823, 824, 825], [], [], [], [], [],
      [799, 800, 801, 803, 804, 830, 831], [], [], [], [], [], [], []] @
     [[], [], [], [], [], [], [], [], [], [], [], [], [], [], [], []] @
     [[], [], [], [], [], [], [], [], [], [], [], [], [], [], [], []] @
     [[], [], [], [], [], [], [], [], [], [], [], [], [], [], [], []] @
     [[], [], [], [], [], [], [], [], [], [], [], [], [], [], [], []] @
     [[], [], []]"

lemmas lr_cells_entries [simp] =
  entries_all [OF lr_cells_def, simplified entries_simps]

lemmas lr_pred_entries [simp] =
  entries_all [OF lr_pred_def, simplified entries_simps]

lemmas lr_rho_entries [simp] =
  entries_all [OF lr_rho_def, simplified entries_simps]

definition preds :: "int \<Rightarrow> int list" where
  "preds s = (case tab_at lr_pred s of Some ps \<Rightarrow> ps | None \<Rightarrow> [])"

definition rho :: "int \<Rightarrow> int" where
  "rho s = (case tab_at lr_rho s of Some n \<Rightarrow> n | None \<Rightarrow> 0)"

definition cells :: "int \<Rightarrow> int list" where
  "cells n = (case tab_at lr_cells (n + 83) of Some is \<Rightarrow> is | None \<Rightarrow> [])"

section \<open>The checks\<close>

text \<open>Every path down from \<open>s\<close> along the symbols \<open>xs\<close> ends in a state that satisfies \<open>f\<close>.\<close>

fun back_ok :: "int list \<Rightarrow> int \<Rightarrow> (int \<Rightarrow> bool) \<Rightarrow> bool" where
  "back_ok [] s f = f s"
| "back_ok (x # xs) s f = (s \<noteq> 0 \<and> tab_at yystos s = Some x \<and> list_all (\<lambda>q. back_ok xs q f) (preds s))"

definition goto_ok :: "int \<Rightarrow> int \<Rightarrow> int \<Rightarrow> bool" where
  "goto_ok a n s \<longleftrightarrow>
     (case yygoto a s of
        None \<Rightarrow> False
      | Some q \<Rightarrow> s \<in> set (preds q) \<and> tab_at yystos q = Some a \<and> 2 + rho q \<le> n)"

definition reduce_ok :: "int \<Rightarrow> int \<Rightarrow> bool" where
  "reduce_ok s r \<longleftrightarrow> s = YYFINAL \<or> r = 0 \<or>
     (case tab_at sql_rules (r - 1) of
        None \<Rightarrow> False
      | Some (a, xs) \<Rightarrow> back_ok (rev xs) s (goto_ok a (rho s + int (length xs))))"

definition cell_ok :: "int \<Rightarrow> int \<Rightarrow> bool" where
  "cell_ok i c \<longleftrightarrow> (if 0 \<le> c \<and> c \<le> 83 then i \<in> set (cells (i - c)) else True)"

definition shift_ok :: "int \<Rightarrow> int \<Rightarrow> bool" where
  "shift_ok s i \<longleftrightarrow>
     (case (tab_at yycheck i, tab_at yytable i) of
        (Some t, Some q) \<Rightarrow> t \<noteq> 1 \<and> 0 < q \<and> s \<in> set (preds q) \<and> tab_at yystos q = Some t \<and> (t = 0 \<longrightarrow> q = YYFINAL)
      | _ \<Rightarrow> False)"

definition shifts_ok :: "int \<Rightarrow> int \<Rightarrow> bool" where
  "shifts_ok s n \<longleftrightarrow> n = -275 \<or> list_all (shift_ok s) (cells n)"

definition state_ok :: "int \<Rightarrow> bool" where
  "state_ok s \<longleftrightarrow>
     (case tab_at yydefact s of None \<Rightarrow> False | Some r \<Rightarrow> reduce_ok s r) \<and>
     (case tab_at yypact s of None \<Rightarrow> False | Some n \<Rightarrow> shifts_ok s n)"

lemmas state_ok_defs = state_ok_def reduce_ok_def goto_ok_def shifts_ok_def shift_ok_def preds_def rho_def
  yygoto_def YYLAST_def YYFINAL_def Let_def cells_def

lemma cells_ok: "all_from cell_ok 0 yycheck"
  unfolding yycheck_def by (simp add: cell_ok_def cells_def)

lemma states_ok_1: "list_all state_ok [0..39]"
  by (simp add: state_ok_defs upto.simps)

lemma states_ok_2: "list_all state_ok [40..79]"
  by (simp add: state_ok_defs upto.simps)

lemma states_ok_3: "list_all state_ok [80..119]"
  by (simp add: state_ok_defs upto.simps)

lemma states_ok_4: "list_all state_ok [120..159]"
  by (simp add: state_ok_defs upto.simps)

lemma states_ok_5: "list_all state_ok [160..199]"
  by (simp add: state_ok_defs upto.simps)

lemma states_ok_6: "list_all state_ok [200..239]"
  by (simp add: state_ok_defs upto.simps)

lemma states_ok_7: "list_all state_ok [240..279]"
  by (simp add: state_ok_defs upto.simps)

lemma states_ok_8: "list_all state_ok [280..319]"
  by (simp add: state_ok_defs upto.simps)

lemma states_ok_9: "list_all state_ok [320..368]"
  by (simp add: state_ok_defs upto.simps)

lemma state_ok:
  assumes "0 \<le> s" "s \<le> 368"
  shows "state_ok s"
proof -
  have "\<forall>s\<in>{0..39} \<union> {40..79} \<union> {80..119} \<union> {120..159} \<union> {160..199} \<union> {200..239} \<union> {240..279} \<union> {280..319} \<union> {320..368}.
      state_ok s"
    using states_ok_1 states_ok_2 states_ok_3 states_ok_4 states_ok_5 states_ok_6 states_ok_7 states_ok_8 states_ok_9
    unfolding list_all_iff set_upto by blast
  moreover have "s \<in> {0..39} \<union> {40..79} \<union> {80..119} \<union> {120..159} \<union> {160..199} \<union> {200..239} \<union> {240..279} \<union>
      {280..319} \<union> {320..368}"
    using assms by auto
  ultimately show ?thesis by blast
qed

lemma length_pred: "length lr_pred = 369"
  by (simp add: lr_pred_def)

lemma pred_range:
  assumes "t \<in> set (preds s)"
  shows "0 \<le> s \<and> s \<le> 368"
proof (cases "tab_at lr_pred s")
  case None
  then show ?thesis using assms by (simp add: preds_def)
next
  case (Some ps)
  show ?thesis using tab_at_SomeD [OF Some] length_pred by simp
qed

lemma rho_all: "all_from (\<lambda>i n. 0 \<le> n \<and> n \<le> 22) 0 lr_rho"
  by (simp add: lr_rho_def)

lemma rho_range: "0 \<le> rho s \<and> rho s \<le> 22"
  using all_fromD [OF rho_all, of s] by (auto simp: rho_def split: option.splits)

end
