(* ===== verification/Dfa.thy ===== *)
theory Dfa
  imports Scanner
begin

text \<open>
  Facts on the scanner tables of \<open>FlexTables\<close> and the automaton they encode: every transition from a
  live state is defined and stays in the tables, NUL leads to the end-of-buffer state 3, every other
  byte starts some token.  \<open>munch\<close> is the longest match of that automaton on a plain string.
\<close>

section \<open>The tables\<close>

lemma yy_next_code:
  "yy_next s c =
     (case tab_at yy_base s of None \<Rightarrow> None | Some b \<Rightarrow>
      case tab_at yy_chk (b + c) of None \<Rightarrow> None | Some k \<Rightarrow>
      if k = s then tab_at yy_nxt (b + c)
      else case tab_at yy_def s of None \<Rightarrow> None | Some s' \<Rightarrow>
       if s' \<ge> 632 then (case tab_at yy_meta c of None \<Rightarrow> None | Some c' \<Rightarrow> yy_next s' c')
       else yy_next s' c)"
  by (subst yy_next.simps) (auto split: option.splits simp: Option.bind_eq_None_conv)

lemma table_lengths: "length yy_base = 639" "length yy_def = 639" "length yy_chk = 1434"
    "length yy_nxt = 1434" "length yy_accept = 632" "length yy_ec = 256" "length yy_meta = 84"
  by (simp_all add: yy_base_def yy_def_def yy_chk_def yy_nxt_def yy_accept_def yy_ec_def yy_meta_def)

lemma base_entries: "all_from (\<lambda>s b. 0 \<le> b \<and> b \<le> 1350) 0 yy_base"
  by (simp add: yy_base_def)

lemma def_entries: "all_from (\<lambda>s d. s = 0 \<or> s = 631 \<or> d = 1 \<and> s = 2 \<or> 631 \<le> d \<and> d \<le> 638) 0 yy_def"
  by (simp add: yy_def_def)

lemma nxt_entries:
  "all_from (\<lambda>i (n, k). k = 0 \<or> 1 \<le> n \<and> n \<le> 631 \<and> (n = 3 \<longrightarrow> i = 1350)) 0 (zip yy_nxt yy_chk)"
  by (simp add: yy_nxt_def yy_chk_def)

lemma accept_entries: "all_from (\<lambda>s a. 0 \<le> a \<and> a \<le> 150 \<and> a \<noteq> 149 \<and> (a = 150 \<longrightarrow> s = 3)) 0 yy_accept"
  by (simp add: yy_accept_def)

lemma ec_entries: "all_from (\<lambda>b c. 0 \<le> c \<and> c \<le> 83 \<and> (b \<noteq> 0 \<longrightarrow> c \<noteq> 0)) 0 yy_ec"
  by (simp add: yy_ec_def)

lemma meta_entries: "all_from (\<lambda>b c. 0 \<le> c \<and> c \<le> 7 \<and> (b \<noteq> 0 \<longrightarrow> c \<noteq> 0)) 0 yy_meta"
  by (simp add: yy_meta_def)

section \<open>Transitions\<close>

text \<open>The row of state 631, the template rows and the rows of the start and end-of-buffer states,
  evaluated.\<close>

lemma next_631: "list_all (\<lambda>c. yy_next 631 c = Some (if c = 0 then 3 else 631)) [0..83]"
  by (simp add: yy_next_code upto.simps)

definition next_ok :: "int \<Rightarrow> int \<Rightarrow> bool" where
  "next_ok s c \<longleftrightarrow> (case yy_next s c of None \<Rightarrow> False | Some s' \<Rightarrow> 1 \<le> s' \<and> s' \<le> 631 \<and> (s' = 3 \<longrightarrow> c = 0))"

lemma next_templates: "list_all (\<lambda>s. list_all (next_ok s) [0..7]) [632..638]"
  by (simp add: yy_next_code upto.simps next_ok_def)

lemma next_start: "list_all (\<lambda>c. case yy_next 1 c of None \<Rightarrow> False | Some s \<Rightarrow>
     1 \<le> s \<and> s \<le> 630 \<and> s \<noteq> 3 \<and> the (tab_at yy_accept s) \<noteq> 0) [1..83]"
  by (simp add: yy_next_code upto.simps)

lemma start_next:
  assumes "c \<in> set [1..83]"
  shows "\<exists>s. yy_next 1 c = Some s \<and> 1 \<le> s \<and> s \<le> 630 \<and> s \<noteq> 3 \<and> the (tab_at yy_accept s) \<noteq> 0"
proof -
  have "case yy_next 1 c of None \<Rightarrow> False | Some s \<Rightarrow> 1 \<le> s \<and> s \<le> 630 \<and> s \<noteq> 3 \<and> the (tab_at yy_accept s) \<noteq> 0"
    using next_start assms unfolding list_all_iff by blast
  then show ?thesis by (cases "yy_next 1 c") auto
qed

lemma next_3: "list_all (\<lambda>c. yy_next 3 c = Some 631) [0..83]"
  by (simp add: yy_next_code upto.simps)

lemma next_NUL: "list_all (\<lambda>s. yy_next s 0 = Some (if s = 3 then 631 else 3)) [1..630]"
  by (simp add: yy_next_code upto.simps)

lemma yy_next_ok:
  assumes "1 \<le> s" "s \<le> 630" "0 \<le> c" "c \<le> 83"
  shows "next_ok s c"
proof -
  obtain b where b: "tab_at yy_base s = Some b" "0 \<le> b" "b \<le> 1350"
  proof -
    have "tab_at yy_base s = Some (yy_base ! nat s)" using assms by (simp add: tab_at_in_range table_lengths)
    then show ?thesis using that all_fromD [OF base_entries, of s] by simp
  qed
  obtain k where k: "tab_at yy_chk (b + c) = Some k" using assms b by (simp add: tab_at_in_range table_lengths)
  obtain n where n: "tab_at yy_nxt (b + c) = Some n" using assms b by (simp add: tab_at_in_range table_lengths)
  obtain d where d: "tab_at yy_def s = Some d" using assms by (simp add: tab_at_in_range table_lengths)
  obtain m where m: "tab_at yy_meta c = Some m" using assms by (simp add: tab_at_in_range table_lengths)
  have m7: "0 \<le> m" "m \<le> 7" "c \<noteq> 0 \<longrightarrow> m \<noteq> 0" using all_fromD [OF meta_entries, of c] m assms by auto
  show ?thesis
  proof (cases "k = s")
    case True
    have "tab_at (zip yy_nxt yy_chk) (b + c) = Some (n, k)"
      using n k by (auto simp: tab_at_def table_lengths split: if_splits)
    then have e: "k = 0 \<or> 1 \<le> n \<and> n \<le> 631 \<and> (n = 3 \<longrightarrow> b + c = 1350)"
      using all_fromD [OF nxt_entries, of "b + c"] assms b by force
    moreover have "b + c = 1350 \<longrightarrow> k = 631" using k by auto
    ultimately have "1 \<le> n" "n \<le> 631" "n \<noteq> 3" using True assms by auto
    moreover have "yy_next s c = Some n" using True b k n by (simp add: yy_next_code [of s])
    ultimately show ?thesis by (simp add: next_ok_def)
  next
    case False
    have "d = 1 \<and> s = 2 \<or> 631 \<le> d \<and> d \<le> 638" using all_fromD [OF def_entries, of s] d assms by auto
    then consider "d = 1" | "d = 631" | "632 \<le> d" "d \<le> 638" by linarith
    then show ?thesis
    proof cases
      case 1
      then have eq: "yy_next s c = yy_next 1 c" using False b k d by (simp add: yy_next_code [of s])
      show ?thesis
      proof (cases "c = 0")
        case True
        then show ?thesis using next_NUL eq by (auto simp: list_all_iff next_ok_def)
      next
        case False
        then have "c \<in> set [1..83]" using assms by simp
        then obtain s' where "yy_next 1 c = Some s'" "1 \<le> s'" "s' \<le> 630" "s' \<noteq> 3"
          using start_next by blast
        then show ?thesis using eq by (simp add: next_ok_def)
      qed
    next
      case 2
      then have "yy_next s c = yy_next 631 c" using False b k d by (simp add: yy_next_code [of s])
      moreover have "c \<in> set [0..83]" using assms by simp
      ultimately show ?thesis using next_631 by (auto simp: list_all_iff next_ok_def)
    next
      case 3
      then have "yy_next s c = yy_next d m" using False b k d m by (simp add: yy_next_code [of s])
      moreover have "d \<in> set [632..638]" "m \<in> set [0..7]" using 3 m7 by (simp_all only: set_upto atLeastAtMost_iff)
      then have "next_ok d m" using next_templates unfolding list_all_iff by blast
      ultimately show ?thesis using m7 by (auto simp: next_ok_def split: option.splits)
    qed
  qed
qed

section \<open>The automaton on bytes\<close>

text \<open>The rule of a state and its successor on a byte; a live state can still match.\<close>

definition acc :: "int \<Rightarrow> int" where
  "acc s = the (tab_at yy_accept s)"

definition dnext :: "int \<Rightarrow> char \<Rightarrow> int" where
  "dnext s ch = the (yy_next s (the (tab_at yy_ec (sc_to_ui ch))))"

definition live :: "int \<Rightarrow> bool" where
  "live s \<longleftrightarrow> 1 \<le> s \<and> s \<le> 630 \<and> s \<noteq> 3"

lemma live_1 [simp]: "live 1" by (simp add: live_def)

lemma acc_at: "live s \<Longrightarrow> tab_at yy_accept s = Some (acc s)"
  by (simp add: acc_def live_def tab_at_in_range table_lengths)

lemma acc_range: "live s \<Longrightarrow> 0 \<le> acc s \<and> acc s < 149"
  using all_fromD [OF accept_entries acc_at, of s] by (auto simp: live_def)

lemma sc_to_ui_0 [simp]: "sc_to_ui ch = 0 \<longleftrightarrow> ch = NUL"
proof -
  have "byte NUL = 0" by (simp add: byte_def)
  then show ?thesis by (metis byte_inject of_nat_eq_0_iff sc_to_ui_def)
qed

lemma ec_at: "\<exists>c. tab_at yy_ec (sc_to_ui ch) = Some c \<and> 0 \<le> c \<and> c \<le> 83 \<and> (ch \<noteq> NUL \<longrightarrow> c \<noteq> 0)"
proof -
  have "tab_at yy_ec (sc_to_ui ch) = Some (yy_ec ! nat (sc_to_ui ch))"
    by (simp add: tab_at_in_range table_lengths sc_to_ui_def)
  then show ?thesis using all_fromD [OF ec_entries] by fastforce
qed

lemma dnext_at:
  assumes "live s" "ch \<noteq> NUL"
  shows "\<exists>c. tab_at yy_ec (sc_to_ui ch) = Some c \<and> yy_next s c = Some (dnext s ch) \<and>
    (dnext s ch = 631 \<or> live (dnext s ch))"
proof -
  obtain c where c: "tab_at yy_ec (sc_to_ui ch) = Some c" "0 \<le> c" "c \<le> 83" "c \<noteq> 0"
    using assms(2) ec_at [of ch] by auto
  have "next_ok s c" using yy_next_ok [of s c] assms c by (simp add: live_def)
  then show ?thesis using c by (auto simp: next_ok_def dnext_def live_def split: option.splits)
qed

lemma next_NUL_live: "live s \<Longrightarrow> yy_next s 0 = Some 3"
  using next_NUL by (auto simp: list_all_iff live_def)

lemma first_byte:
  assumes "ch \<noteq> NUL"
  shows "live (dnext 1 ch) \<and> acc (dnext 1 ch) \<noteq> 0"
proof -
  obtain c where c: "tab_at yy_ec (sc_to_ui ch) = Some c" "0 \<le> c" "c \<le> 83" "c \<noteq> 0"
    using assms ec_at [of ch] by auto
  then have "c \<in> set [1..83]" by simp
  then obtain s where "yy_next 1 c = Some s" "live s" "acc s \<noteq> 0"
    using start_next by (auto simp: live_def acc_def)
  then show ?thesis using c by (simp add: dnext_def)
qed

lemma acc_1 [simp]: "acc 1 = 0" by (simp add: acc_def)

section \<open>Longest match\<close>

text \<open>\<open>munch\<close> tracks the last accepting state and its position, as \<open>yy_match\<close> does; \<open>jams\<close> tells
  whether the automaton stops inside the string and \<open>run\<close> is its state after the string.\<close>

fun munch :: "int \<Rightarrow> int \<Rightarrow> int \<Rightarrow> int \<Rightarrow> string \<Rightarrow> int \<times> int" where
  "munch s las lac cp [] = (if acc s \<noteq> 0 then (s, cp) else (las, lac))"
| "munch s las lac cp (ch # w) =
     (let las = (if acc s \<noteq> 0 then s else las); lac = (if acc s \<noteq> 0 then cp else lac) in
      if dnext s ch = 631 then (las, lac) else munch (dnext s ch) las lac (cp + 1) w)"

fun jams :: "int \<Rightarrow> string \<Rightarrow> bool" where
  "jams s [] \<longleftrightarrow> False"
| "jams s (ch # w) \<longleftrightarrow> dnext s ch = 631 \<or> jams (dnext s ch) w"

definition longest :: "string \<Rightarrow> int \<times> nat" where
  "longest w = (let (s, n) = munch 1 0 0 0 w in (acc s, nat n))"

lemma match_step:
  assumes "live s" "ch \<noteq> NUL"
  shows "yy_match s las lac cp (ch # rest) =
     (let las = (if acc s \<noteq> 0 then s else las); lac = (if acc s \<noteq> 0 then cp else lac) in
      if dnext s ch = 631 then Inr (las, lac) else yy_match (dnext s ch) las lac (cp + 1) rest)"
proof -
  obtain c where "tab_at yy_ec (sc_to_ui ch) = Some c" "yy_next s c = Some (dnext s ch)"
    using dnext_at [OF assms] by blast
  then show ?thesis using assms by (simp add: acc_at Let_def)
qed

lemma live_dnext: "live s \<Longrightarrow> ch \<noteq> NUL \<Longrightarrow> dnext s ch \<noteq> 631 \<Longrightarrow> live (dnext s ch)"
  using dnext_at by blast

lemma match_jams:
  "live s \<Longrightarrow> NUL \<notin> set w \<Longrightarrow> jams s w \<Longrightarrow> yy_match s las lac cp (w @ r) = Inr (munch s las lac cp w)"
proof (induction w arbitrary: s las lac cp)
  case (Cons ch w)
  then have "live s" "ch \<noteq> NUL" by auto
  with Cons show ?case
    by (cases "dnext s ch = 631") (simp_all add: match_step Let_def live_dnext del: yy_match.simps)
qed simp

lemma match_end:
  assumes "live s"
  shows "yy_match s las lac cp (NUL # NUL # r) = Inr (3, cp + 1)"
proof -
  have ec0: "tab_at yy_ec (sc_to_ui NUL) = Some 0" by (simp add: sc_to_ui_def byte_def)
  have "yy_next 3 0 = Some 631" using next_3 by (simp add: list_all_iff)
  then show ?thesis using assms by (simp add: ec0 acc_at next_NUL_live Let_def)
qed

lemma match_no_jam:
  "live s \<Longrightarrow> NUL \<notin> set w \<Longrightarrow> \<not> jams s w \<Longrightarrow>
     yy_match s las lac cp (w @ NUL # NUL # r) = Inr (3, cp + int (length w) + 1)"
proof (induction w arbitrary: s las lac cp)
  case Nil
  then show ?case by (simp only: append.simps match_end) simp
next
  case (Cons ch w)
  then have "live s" "ch \<noteq> NUL" by auto
  with Cons show ?case by (simp add: match_step Let_def live_dnext del: yy_match.simps)
qed

text \<open>At the end of the buffer \<open>yy_get_previous_state\<close> runs again over the text.\<close>

fun run :: "int \<Rightarrow> string \<Rightarrow> int" where
  "run s [] = s"
| "run s (ch # w) = run (dnext s ch) w"

lemma live_run: "live s \<Longrightarrow> NUL \<notin> set w \<Longrightarrow> \<not> jams s w \<Longrightarrow> live (run s w)"
  by (induction w arbitrary: s) (auto simp: live_dnext)

lemma prev_loop:
  assumes "live s" "NUL \<notin> set w" "\<not> jams s w"
  shows "\<exists>las' lac'. yy_prev_loop s las lac cp w = Inr (run s w, las', lac') \<and>
     munch s las lac cp w = (if acc (run s w) \<noteq> 0 then (run s w, cp + int (length w)) else (las', lac'))"
  using assms
proof (induction w arbitrary: s las lac cp)
  case (Cons ch w)
  then have s: "live s" "ch \<noteq> NUL" "dnext s ch \<noteq> 631" by auto
  then obtain c where c: "tab_at yy_ec (sc_to_ui ch) = Some c" "yy_next s c = Some (dnext s ch)"
    using dnext_at by blast
  have l: "live (dnext s ch)" using s by (rule live_dnext)
  show ?case
    using Cons.IH [OF l, of "if acc s \<noteq> 0 then s else las" "if acc s \<noteq> 0 then cp else lac" "cp + 1"] Cons.prems s c
    by (cases "acc s = 0"; cases "acc (run (dnext s ch) w) = 0") (simp_all add: acc_at Let_def algebra_simps)
qed simp

lemma munch_range:
  "live s \<Longrightarrow> NUL \<notin> set w \<Longrightarrow> munch s las lac cp w = (s', n) \<Longrightarrow>
     s' = las \<and> n = lac \<or> live s' \<and> acc s' \<noteq> 0 \<and> cp \<le> n \<and> n \<le> cp + int (length w)"
proof (induction w arbitrary: s las lac cp)
  case (Cons ch w)
  let ?las = "if acc s \<noteq> 0 then s else las" and ?lac = "if acc s \<noteq> 0 then cp else lac"
  show ?case
  proof (cases "dnext s ch = 631")
    case True
    then show ?thesis using Cons.prems by (auto split: if_splits)
  next
    case False
    then have "live (dnext s ch)" using Cons.prems by (auto intro: live_dnext)
    moreover have "munch (dnext s ch) ?las ?lac (cp + 1) w = (s', n)" using Cons.prems False by (simp add: Let_def)
    ultimately have "s' = ?las \<and> n = ?lac \<or> live s' \<and> acc s' \<noteq> 0 \<and> cp + 1 \<le> n \<and> n \<le> cp + 1 + int (length w)"
      using Cons.IH Cons.prems by auto
    then show ?thesis using Cons.prems(1) by (auto split: if_splits)
  qed
qed (auto split: if_splits)

lemma munch_shift:
  "acc s \<noteq> 0 \<or> las = las' \<and> lac' = lac + d \<Longrightarrow>
     munch s las' lac' (cp + d) w = (let (s', n) = munch s las lac cp w in (s', n + d))"
proof (induction w arbitrary: s las lac las' lac' cp)
  case (Cons ch w)
  show ?case
    using Cons.IH [of "dnext s ch" "if acc s \<noteq> 0 then s else las" "if acc s \<noteq> 0 then s else las'"
        "if acc s \<noteq> 0 then cp + d else lac'" "if acc s \<noteq> 0 then cp else lac" "cp + 1"] Cons.prems
    by (auto simp: Let_def algebra_simps split: prod.splits)
qed auto

text \<open>A nonempty string has a longest match, whatever was matched before.\<close>

lemma munch_longest:
  assumes "w \<noteq> []" "NUL \<notin> set w"
  obtains s n where "munch 1 las lac cp w = (s, cp + int n)" "longest w = (acc s, n)" "live s"
    "acc s \<noteq> 0" "1 \<le> n" "n \<le> length w"
proof -
  obtain ch v where w: "w = ch # v" using assms(1) by (cases w) auto
  then have ch: "ch \<noteq> NUL" "NUL \<notin> set v" using assms(2) by auto
  have l: "live (dnext 1 ch)" "acc (dnext 1 ch) \<noteq> 0" "dnext 1 ch \<noteq> 631"
    using first_byte [OF ch(1)] by (auto simp: live_def)
  obtain s m where m: "munch (dnext 1 ch) 0 0 1 v = (s, m)" by (cases "munch (dnext 1 ch) 0 0 1 v") auto
  have "munch 1 las lac cp w = munch (dnext 1 ch) las lac (1 + cp) v" using l w by (simp add: Let_def add.commute)
  also have "\<dots> = (s, m + cp)" using munch_shift [of "dnext 1 ch" 0 las lac 0 cp 1 v] l m by simp
  finally have e: "munch 1 las lac cp w = (s, m + cp)" .
  have "longest w = (acc s, nat m)" using m l w by (simp add: longest_def Let_def)
  moreover have "live s \<and> acc s \<noteq> 0 \<and> 1 \<le> m \<and> m \<le> 1 + int (length v)"
  proof -
    have "s = 0 \<and> m = 0 \<or> live s \<and> acc s \<noteq> 0 \<and> 1 \<le> m \<and> m \<le> 1 + int (length v)"
      using munch_range [OF l(1) ch(2) m] .
    moreover have "munch (dnext 1 ch) 1 7 1 v = (s, m)"
      using munch_shift [of "dnext 1 ch" 0 1 7 0 0 1 v] l m by simp
    then have "s = 1 \<and> m = 7 \<or> live s \<and> acc s \<noteq> 0 \<and> 1 \<le> m \<and> m \<le> 1 + int (length v)"
      using munch_range [OF l(1) ch(2)] by blast
    ultimately show ?thesis by auto
  qed
  moreover from this obtain k where "m = int k" using nonneg_int_cases [of m] by auto
  ultimately show ?thesis using that [of s k] e w by (simp del: munch.simps add: add.commute)
qed

end
