(* ===== verification/ScanSpec.thy ===== *)
theory ScanSpec
  imports Dfa Yacc
begin

text \<open>
  What the scanner of \<open>Scanner\<close> does to a query, without its buffer: a function that takes the longest
  match off the front of a string and runs the rule on what is left.  \<open>yylex\<close> is proved to refine it
  for every query, step by step, the end-of-buffer protocol, pushed-back characters and the reads
  inside rules included.
\<close>

section \<open>The scanner on strings\<close>

text \<open>What is left of the query; \<open>Flushed\<close> is the state after a quote was closed by the last
  character: reading past the end has emptied the buffer and attached it to a null FILE.\<close>

datatype source = Rest string | Flushed

text \<open>The text after a comment; None if it is not closed.\<close>

fun skip_comment :: "bool \<Rightarrow> string \<Rightarrow> string option" where
  "skip_comment star [] = None"
| "skip_comment star (c # cs) =
     (if c = CHR ''*'' then skip_comment True cs
      else if star \<and> c = CHR ''/'' then Some cs
      else skip_comment False cs)"

text \<open>The string up to a closing quote and the text after it; None if it is not closed.\<close>

fun q_scan :: "char \<Rightarrow> string \<Rightarrow> bool \<Rightarrow> string \<Rightarrow> (string \<times> source) option" where
  "q_scan d s quoted [] = None"
| "q_scan d s quoted (c # cs) =
     (if c = d \<and> \<not> quoted then
        (if d = SQ \<or> d = DQ then
           (case cs of
              [] \<Rightarrow> Some (s, Flushed)
            | n # cs' \<Rightarrow> if n = d then q_scan d (s @ [c]) quoted cs' else Some (s, Rest cs))
         else Some (s, Rest cs))
      else q_scan d (s @ [c]) (c = BSL \<and> \<not> quoted) cs)"

definition spec_string :: "string \<Rightarrow> string \<Rightarrow> source \<Rightarrow> parse_state
    \<Rightarrow> yy_fault + (int option \<times> source \<times> YYSTYPE \<times> parse_state)" where
  "spec_string t s src st = (let (i, st) = alloc_string s st in Inr (Some (tok t), src, V_str i, st))"

definition spec_quote :: "char \<Rightarrow> string \<Rightarrow> string \<Rightarrow> parse_state
    \<Rightarrow> yy_fault + (int option \<times> source \<times> YYSTYPE \<times> parse_state)" where
  "spec_quote d t r st =
     (case q_scan d [] False r of None \<Rightarrow> Inl Null_file | Some (s, src) \<Rightarrow> spec_string t s src st)"

text \<open>Rule \<open>a\<close> matched \<open>w\<close> in front of \<open>r\<close>, with \<open>v\<close> in \<open>yylval\<close>.\<close>

definition spec_action :: "int \<Rightarrow> string \<Rightarrow> string \<Rightarrow> YYSTYPE \<Rightarrow> parse_state
    \<Rightarrow> yy_fault + (int option \<times> source \<times> YYSTYPE \<times> parse_state)" where
  "spec_action a w r v st =
     (case yy_return a of
        Some t \<Rightarrow> Inr (Some (tok t), Rest r, v, st)
      | None \<Rightarrow>
          if a = 79 then Inr (Some (tok ''UNION''), Rest r, v, clb_found_union_token st)
          else if a = 90 \<or> a = 91 then Inr (Some (tok ''OR''), Rest r, v, clb_found_or_token st)
          else if a = 139 then
            Inr (Some (tok ''END''), Rest r, v, if 1 < length r then clb_found_query_separator st else st)
          else if a = 144 then spec_quote SQ ''Q_STRING'' r st
          else if a = 145 then spec_quote DQ ''DQ_STRING'' r st
          else if a = 146 then spec_quote (CHR 0x60) ''NAME'' r st
          else if a = 112 \<or> a = 113 then Inr (Some (tok ''INTEGER''), Rest r, V_int 3, st)
          else if a = 114 then Inr (Some (tok ''INTEGER''), Rest r, V_int (atoi w), st)
          else if a = 115 then spec_string ''STRING'' ''version()'' (Rest r) st
          else if a = 116 then
            (case skip_comment False r of
               None \<Rightarrow> Inl Null_file
             | Some r \<Rightarrow> Inr (None, Rest r, v, clb_found_comment st))
          else if a = 117 \<or> a = 118 then Inr (None, Rest r, v, clb_found_comment st)
          else if a = 121 then spec_string ''STRING'' w (Rest r) st
          else if a = 122 then Inr (Some (tok ''VARIABLE''), Rest r, V_int (int (length w)), st)
          else Inr (None, Rest r, v, st))"

lemma bindE_simps [simp]: "bindE (Inl e) f = Inl e" "bindE (Inr x) f = f x"
  by (simp_all add: bindE_def)

lemma bindE_cong [fundef_cong]: "m = m' \<Longrightarrow> (\<And>x. m' = Inr x \<Longrightarrow> f x = g x) \<Longrightarrow> bindE m f = bindE m' g"
  by (cases m') auto

function spec_lex :: "string \<Rightarrow> YYSTYPE \<Rightarrow> parse_state \<Rightarrow> yy_fault + (int \<times> YYSTYPE \<times> source \<times> parse_state)" where
  "spec_lex q v st =
     (if q = [] then Inr (0, v, Rest [], st)
      else
        let (a, n) = longest q in
        bindE (spec_action a (take n q) (drop n q) v st) (\<lambda>(t, src, v, st).
        case t of
          Some t \<Rightarrow> Inr (t, v, src, st)
        | None \<Rightarrow>
            (case src of
               Flushed \<Rightarrow> Inl Null_file
             | Rest r \<Rightarrow> if length r < length q then spec_lex r v st else Inl No_fuel)))"
  by pat_completeness auto
termination by (relation "measure (\<lambda>(q, v, st). length q)") auto

declare spec_lex.simps [simp del]

definition spec_lexer :: "(source \<times> YYSTYPE) yy_lexer" where
  "spec_lexer s st =
     (case fst s of
        Flushed \<Rightarrow> Inl Null_file
      | Rest q \<Rightarrow> bindE (spec_lex q (snd s) st) (\<lambda>(t, v, src, st). Inr (t, v, (src, v), st)))"

section \<open>The buffer of a query\<close>

text \<open>The parts of the state that do not change while a query is scanned.\<close>

definition buf_ok :: "string \<Rightarrow> flex \<Rightarrow> yy_buffer_state \<Rightarrow> bool" where
  "buf_ok data f b \<longleftrightarrow> yy_current f = Some b \<and> yy_input_file b = None \<and>
     length (yy_ch_buf b) = length data + 2 \<and> yy_buf_size b = int (length data) \<and>
     b_n_chars b = int (length data) \<and> yy_is_our_buffer b \<and> \<not> yy_fill_buffer b \<and>
     NUL \<notin> set data \<and> yy_n_chars f = int (length data) \<and> yy_init f \<and> yy_start f = 1 \<and> yyin f = None"

text \<open>The buffer holds the query from \<open>i\<close> on.\<close>

definition clean :: "string \<Rightarrow> nat \<Rightarrow> flex \<Rightarrow> bool" where
  "clean data i f \<longleftrightarrow> (\<exists>b. buf_ok data f b \<and> drop i (yy_ch_buf b) = drop i (data @ [NUL, NUL]))"

text \<open>The scanner is at \<open>i\<close>, with that character in \<open>yy_hold_char\<close>.\<close>

definition flex_at :: "string \<Rightarrow> nat \<Rightarrow> flex \<Rightarrow> bool" where
  "flex_at data i f \<longleftrightarrow> (\<exists>b. buf_ok data f b \<and> drop (Suc i) (yy_ch_buf b) = drop (Suc i) (data @ [NUL, NUL])) \<and>
     yy_hold_char f = (data @ [NUL, NUL]) ! i \<and> yy_c_buf_p f = int i \<and> i \<le> length data"

definition set_buf :: "string \<Rightarrow> flex \<Rightarrow> flex" where
  "set_buf s f = upd_cur (yy_ch_buf_update (\<lambda>_. s)) f"

lemma set_buf_simps [simp]:
  "yy_n_chars (set_buf s f) = yy_n_chars f" "yy_c_buf_p (set_buf s f) = yy_c_buf_p f"
  "yytext_ptr (set_buf s f) = yytext_ptr f" "yy_hold_char (set_buf s f) = yy_hold_char f"
  "yy_init (set_buf s f) = yy_init f" "yy_start (set_buf s f) = yy_start f" "yyin (set_buf s f) = yyin f"
  "yy_last_accepting_state (set_buf s f) = yy_last_accepting_state f"
  "yy_last_accepting_cpos (set_buf s f) = yy_last_accepting_cpos f" "yylval (set_buf s f) = yylval f"
  "yy_current (set_buf s f) = map_option (yy_ch_buf_update (\<lambda>_. s)) (yy_current f)"
  by (simp_all add: set_buf_def upd_cur_def)

lemma buf_ok_set_buf: "buf_ok data f b \<Longrightarrow> length s = length data + 2 \<Longrightarrow>
    buf_ok data (set_buf s f) (b\<lparr>yy_ch_buf := s\<rparr>)"
  by (simp add: buf_ok_def)

lemma cur_Some: "yy_current f = Some b \<Longrightarrow> cur f = b"
  by (simp add: cur_def)

lemma peek_Some: "yy_current f = Some b \<Longrightarrow> j < length (yy_ch_buf b) \<Longrightarrow> peek (int j) f = Inr (yy_ch_buf b ! j)"
  by (simp add: peek_def cur_Some tab_at_in_range)

lemma poke_Some: "yy_current f = Some b \<Longrightarrow> j < length (yy_ch_buf b) \<Longrightarrow>
    poke (int j) c f = Inr (set_buf ((yy_ch_buf b)[j := c]) f)"
  by (cases b) (simp add: poke_def cur_Some set_buf_def upd_cur_def)

lemma drop_update_same: "i < length s \<Longrightarrow> drop i (s[i := c]) = c # drop (Suc i) s"
  by (simp add: Cons_nth_drop_Suc [symmetric])

lemma nth_of_drop: "drop i s = drop i t \<Longrightarrow> i \<le> j \<Longrightarrow> j < length s \<Longrightarrow> length s = length t \<Longrightarrow> s ! j = t ! j"
  by (metis le_add_diff_inverse less_imp_le_nat nth_drop order_trans)

lemma drop_of_drop: "drop i s = drop i t \<Longrightarrow> i \<le> j \<Longrightarrow> drop j s = drop j t"
  by (metis drop_drop le_add_diff_inverse2)

text \<open>Putting the held character back.\<close>

lemma restore:
  assumes "flex_at data i f"
  shows "\<exists>s. poke (yy_c_buf_p f) (yy_hold_char f) f = Inr (set_buf s f) \<and> clean data i (set_buf s f)"
proof -
  obtain b where b: "buf_ok data f b" "drop (Suc i) (yy_ch_buf b) = drop (Suc i) (data @ [NUL, NUL])"
    and h: "yy_hold_char f = (data @ [NUL, NUL]) ! i" "yy_c_buf_p f = int i" "i \<le> length data"
    using assms by (auto simp: flex_at_def)
  let ?s = "(yy_ch_buf b)[i := (data @ [NUL, NUL]) ! i]"
  have l: "i < length (yy_ch_buf b)" "yy_current f = Some b" using b h by (auto simp: buf_ok_def)
  then have p: "poke (yy_c_buf_p f) (yy_hold_char f) f = Inr (set_buf ?s f)" using h by (simp add: poke_Some)
  have "drop i ?s = (data @ [NUL, NUL]) ! i # drop (Suc i) (data @ [NUL, NUL])"
    using l b by (simp add: drop_update_same)
  also have "\<dots> = drop i (data @ [NUL, NUL])" using h by (intro Cons_nth_drop_Suc) simp
  finally have d: "drop i ?s = drop i (data @ [NUL, NUL])" .
  have "buf_ok data (set_buf ?s f) (b\<lparr>yy_ch_buf := ?s\<rparr>)"
    using b by (intro buf_ok_set_buf) (auto simp: buf_ok_def)
  then have "clean data i (set_buf ?s f)" using d unfolding clean_def by (intro exI [of _ "b\<lparr>yy_ch_buf := ?s\<rparr>"]) simp
  with p show ?thesis by blast
qed

lemma flex_at_cong:
  assumes "flex_at data i f" "yy_current g = yy_current f" "yy_n_chars g = yy_n_chars f" "yy_c_buf_p g = yy_c_buf_p f"
    "yy_hold_char g = yy_hold_char f" "yy_init g = yy_init f" "yy_start g = yy_start f" "yyin g = yyin f"
  shows "flex_at data i g"
  using assms by (simp add: flex_at_def buf_ok_def)

lemma clean_cong:
  assumes "clean data i f" "yy_current g = yy_current f" "yy_n_chars g = yy_n_chars f"
    "yy_init g = yy_init f" "yy_start g = yy_start f" "yyin g = yyin f"
  shows "clean data i g"
  using assms by (simp add: clean_def buf_ok_def)

section \<open>One token\<close>

lemma cstr_cut:
  assumes "NUL \<notin> set data" "i \<le> j" "j \<le> length data"
  shows "cstr ((drop i (data @ [NUL, NUL]))[j - i := NUL]) = take (j - i) (drop i data)"
proof -
  have "(drop i (data @ [NUL, NUL]))[j - i := NUL] =
      take (j - i) (drop i (data @ [NUL, NUL])) @ NUL # drop (Suc (j - i)) (drop i (data @ [NUL, NUL]))"
    using assms by (intro upd_conv_take_nth_drop) simp
  also have "take (j - i) (drop i (data @ [NUL, NUL])) = take (j - i) (drop i data)" using assms by simp
  finally have e: "(drop i (data @ [NUL, NUL]))[j - i := NUL] =
      take (j - i) (drop i data) @ NUL # drop (Suc (j - i)) (drop i (data @ [NUL, NUL]))" .
  have "\<forall>c\<in>set (take (j - i) (drop i data)). c \<noteq> NUL" using assms(1) by (blast dest: in_set_takeD in_set_dropD)
  then have "takeWhile (\<lambda>c. c \<noteq> NUL) (take (j - i) (drop i data) @ NUL # r) = take (j - i) (drop i data)" for r
    by (subst takeWhile_append2) simp_all
  then show ?thesis unfolding e cstr_def .
qed

lemma before_action:
  assumes "clean data i f" "i \<le> j" "j \<le> length data + 1"
  shows "\<exists>s c. yy_do_before_action (int i) (int j) f =
      Inr ((set_buf s (f\<lparr>yytext_ptr := int i, yyleng := int j - int i, yy_hold_char := c\<rparr>))\<lparr>yy_c_buf_p := int j\<rparr>) \<and>
    c = (data @ [NUL, NUL]) ! j \<and> drop i s = (drop i (data @ [NUL, NUL]))[j - i := NUL] \<and> length s = length data + 2"
proof -
  obtain b where b: "buf_ok data f b" "drop i (yy_ch_buf b) = drop i (data @ [NUL, NUL])"
    using assms by (auto simp: clean_def)
  then have l: "yy_current f = Some b" "length (yy_ch_buf b) = length data + 2" by (auto simp: buf_ok_def)
  then have p: "peek (int j) f = Inr ((data @ [NUL, NUL]) ! j)"
    using assms b nth_of_drop [OF b(2), of j] by (simp add: peek_Some)
  let ?s = "(yy_ch_buf b)[j := NUL]"
  have "drop i ?s = (drop i (data @ [NUL, NUL]))[j - i := NUL]" using assms b by (simp add: drop_update_swap)
  then show ?thesis using p l assms
    by (intro exI [of _ ?s] exI [of _ "(data @ [NUL, NUL]) ! j"])
       (simp add: yy_do_before_action_def poke_Some)
qed

lemma find_action:
  assumes "clean data i f" "i < j" "j \<le> length data" "live s" "acc s \<noteq> 0"
  shows "\<exists>f'. yylex_run (Suc k) (Yy_find_action s (int i) (int j)) f st =
      bindE (yy_action (acc s) f' st) (\<lambda>(r, f, st). case r of Some t \<Rightarrow> Inr (t, f, st) | None \<Rightarrow> yylex_run k Next_token f st) \<and>
    flex_at data j f' \<and> yytext_ptr f' = int i \<and> yytext f' = take (j - i) (drop i data) \<and> yylval f' = yylval f"
proof -
  obtain w c where w: "yy_do_before_action (int i) (int j) f =
      Inr ((set_buf w (f\<lparr>yytext_ptr := int i, yyleng := int j - int i, yy_hold_char := c\<rparr>))\<lparr>yy_c_buf_p := int j\<rparr>)"
    "c = (data @ [NUL, NUL]) ! j" "drop i w = (drop i (data @ [NUL, NUL]))[j - i := NUL]" "length w = length data + 2"
    using before_action [OF assms(1), of j] assms by auto
  define f' where "f' = (set_buf w (f\<lparr>yytext_ptr := int i, yyleng := int j - int i, yy_hold_char := c\<rparr>))\<lparr>yy_c_buf_p := int j\<rparr>"
  obtain b where b: "buf_ok data f b" using assms by (auto simp: clean_def)
  have cur: "yy_current f' = Some (b\<lparr>yy_ch_buf := w\<rparr>)" using b by (simp add: f'_def buf_ok_def)
  have ok: "buf_ok data f' (b\<lparr>yy_ch_buf := w\<rparr>)" using b w by (simp add: f'_def buf_ok_def)
  have "drop (Suc j) w = drop (Suc j - i) (drop i w)" using assms by simp
  also have "\<dots> = drop (Suc j - i) (drop i (data @ [NUL, NUL]))" using w(3) assms by simp
  finally have "drop (Suc j) w = drop (Suc j) (data @ [NUL, NUL])" using assms by simp
  then have "flex_at data j f'" using ok w assms unfolding flex_at_def
    by (auto simp: f'_def intro!: exI [of _ "b\<lparr>yy_ch_buf := w\<rparr>"])
  moreover have "yytext f' = take (j - i) (drop i data)"
  proof -
    have "NUL \<notin> set data" using b by (simp add: buf_ok_def)
    then show ?thesis using w(3) cur cstr_cut [of data i j] assms by (simp add: yytext_def cur_Some f'_def)
  qed
  moreover have "yylex_run (Suc k) (Yy_find_action s (int i) (int j)) f st =
      bindE (yy_action (acc s) f' st) (\<lambda>(r, f, st). case r of Some t \<Rightarrow> Inr (t, f, st) | None \<Rightarrow> yylex_run k Next_token f st)"
    using w(1) assms acc_range [of s] by (simp add: acc_at f'_def)
  ultimately show ?thesis by (intro exI [of _ f']) (simp add: f'_def)
qed


text \<open>The end-of-buffer action, up to the call of \<open>yy_get_next_buffer\<close>, which finds that the buffer
  of a string is never refilled.\<close>

lemma drop_buffer: "i \<le> length data \<Longrightarrow> drop i (data @ [NUL, NUL]) = drop i data @ [NUL, NUL]"
  by simp

lemma end_of_buffer:
  assumes "clean data i f" "i \<le> length data" "yytext_ptr f = int i" "yy_c_buf_p f = int (length data) + 1"
    "yy_hold_char f = NUL"
  shows "\<exists>g. clean data i g \<and> yytext_ptr g = int i \<and> yy_hold_char g = NUL \<and> yylval g = yylval f \<and>
    yy_end_of_buffer (int (length data) + 1) f =
      (if i = length data
       then Inr (Yy_terminate, g\<lparr>yy_did_buffer_switch_on_eof := False, yy_c_buf_p := int i\<rparr>)
       else bindE (yy_get_previous_state (g\<lparr>yy_c_buf_p := int (length data)\<rparr>)) (\<lambda>(s, f).
            Inr (Yy_find_action s (yytext_ptr f) (yy_c_buf_p f), f)))"
proof -
  obtain b where b: "buf_ok data f b" "drop i (yy_ch_buf b) = drop i (data @ [NUL, NUL])"
    using assms(1) by (auto simp: clean_def)
  let ?n = "length data + 1"
  have cur: "yy_current f = Some b" "length (yy_ch_buf b) = length data + 2" using b by (auto simp: buf_ok_def)
  let ?w = "(yy_ch_buf b)[?n := NUL]"
  have "yy_ch_buf b ! ?n = NUL" using nth_of_drop [OF b(2), of ?n] cur assms(2) by (simp add: nth_append)
  then have w: "?w = yy_ch_buf b" by (metis list_update_id)
  define g where "g = (if yy_buffer_status b = YY_BUFFER_NEW
      then (upd_cur (\<lambda>b. b\<lparr>yy_input_file := None, yy_buffer_status := YY_BUFFER_NORMAL\<rparr>) (set_buf ?w f))
        \<lparr>yy_n_chars := int (length data)\<rparr> else set_buf ?w f)"
  have p: "poke (int (length data) + 1) NUL f = Inr (set_buf ?w f)"
    using poke_Some [OF cur(1), of ?n NUL] cur(2) by (simp add: add.commute)
  define b' where "b' = (if yy_buffer_status b = YY_BUFFER_NEW
      then b\<lparr>yy_buffer_status := YY_BUFFER_NORMAL\<rparr> else b)"
  have b': "buf_ok data g b'" "yy_ch_buf b' = yy_ch_buf b"
    using b w unfolding buf_ok_def g_def b'_def by (auto simp: upd_cur_def)
  have cl: "clean data i g" using b' b(2) unfolding clean_def by auto
  have fl: "yytext_ptr g = int i" "yy_hold_char g = NUL" "yylval g = yylval f" "yy_c_buf_p g = int (length data) + 1"
    "yy_n_chars g = int (length data)" "yyin f = None"
    using assms b by (auto simp: g_def upd_cur_def buf_ok_def)
  have gn: "yy_get_next_buffer g = (if i = length data then Inr (EOB_ACT_END_OF_FILE, g) else Inr (EOB_ACT_LAST_MATCH, g))"
    using fl b' assms(2) by (simp add: yy_get_next_buffer_def buf_ok_def cur_def)
  have step: "yy_end_of_buffer (int (length data) + 1) f = bindE (yy_get_next_buffer g) (\<lambda>(r, f).
        case r of
          EOB_ACT_END_OF_FILE \<Rightarrow>
            Inr (Yy_terminate, f\<lparr>yy_did_buffer_switch_on_eof := False, yy_c_buf_p := yytext_ptr f\<rparr>)
        | EOB_ACT_CONTINUE_SCAN \<Rightarrow>
            bindE (yy_get_previous_state (f\<lparr>yy_c_buf_p := yytext_ptr f + (int (length data) + 1 - int i - 1)\<rparr>)) (\<lambda>(s, f).
            Inr (Yy_match s (yytext_ptr f) (yy_c_buf_p f), f))
        | EOB_ACT_LAST_MATCH \<Rightarrow>
            bindE (yy_get_previous_state (f\<lparr>yy_c_buf_p := yy_n_chars f\<rparr>)) (\<lambda>(s, f).
            Inr (Yy_find_action s (yytext_ptr f) (yy_c_buf_p f), f)))"
  proof -
    have st: "yy_buffer_status (cur (set_buf ?w f)) = yy_buffer_status b" "b_n_chars (cur (set_buf ?w f)) = int (length data)"
      "yyin (set_buf ?w f) = None" "yy_hold_char f = NUL"
      using cur b fl assms(5) by (simp_all add: cur_def buf_ok_def)
    have g: "(if yy_buffer_status (cur (set_buf ?w f)) = YY_BUFFER_NEW
               then (upd_cur (\<lambda>b. b\<lparr>yy_input_file := yyin (set_buf ?w f), yy_buffer_status := YY_BUFFER_NORMAL\<rparr>) (set_buf ?w f))
                      \<lparr>yy_n_chars := b_n_chars (cur (set_buf ?w f))\<rparr>
               else set_buf ?w f) = g"
      unfolding st g_def ..
    show ?thesis using fl(4,5)
      unfolding yy_end_of_buffer_def Let_def st(4) p bindE_simps g assms(3) by simp
  qed
  show ?thesis using step gn cl fl by (intro exI [of _ g]) simp
qed

lemma previous_state:
  assumes "clean data i f" "i \<le> length data" "yytext_ptr f = int i" "yy_c_buf_p f = int (length data)"
    "\<not> jams 1 (drop i data)"
  shows "\<exists>las lac. yy_get_previous_state f = Inr (run 1 (drop i data),
      f\<lparr>yy_last_accepting_state := las, yy_last_accepting_cpos := lac\<rparr>) \<and>
    munch 1 (yy_last_accepting_state f) (yy_last_accepting_cpos f) (int i) (drop i data) =
      (if acc (run 1 (drop i data)) \<noteq> 0 then (run 1 (drop i data), int (length data)) else (las, lac))"
proof -
  obtain b where b: "buf_ok data f b" "drop i (yy_ch_buf b) = drop i (data @ [NUL, NUL])"
    using assms(1) by (auto simp: clean_def)
  have t: "take (length data - i) (drop i (yy_ch_buf b)) = drop i data" using b assms(2) by simp
  have "NUL \<notin> set (drop i data)" using b by (auto simp: buf_ok_def dest: in_set_dropD)
  then obtain las lac where l: "yy_prev_loop 1 (yy_last_accepting_state f) (yy_last_accepting_cpos f) (int i) (drop i data) =
      Inr (run 1 (drop i data), las, lac)"
    "munch 1 (yy_last_accepting_state f) (yy_last_accepting_cpos f) (int i) (drop i data) =
      (if acc (run 1 (drop i data)) \<noteq> 0 then (run 1 (drop i data), int i + int (length (drop i data))) else (las, lac))"
    using prev_loop [of 1 "drop i data" "yy_last_accepting_state f" "yy_last_accepting_cpos f" "int i"] assms(5) by auto
  have "yy_get_previous_state f = Inr (run 1 (drop i data), f\<lparr>yy_last_accepting_state := las, yy_last_accepting_cpos := lac\<rparr>)"
    using b(1) l(1) t assms(3,4) by (simp add: yy_get_previous_state_def buf_ok_def cur_def Let_def)
  then show ?thesis using l(2) assms(2) by auto
qed


lemma back_up:
  assumes "clean data i f" "i \<le> j" "j \<le> length data + 1" "live s" "acc s = 0"
  shows "\<exists>f'. yylex_run (Suc k) (Yy_find_action s (int i) (int j)) f st =
      yylex_run k (Yy_find_action (yy_last_accepting_state f) (int i) (yy_last_accepting_cpos f)) f' st \<and>
    clean data i f' \<and> yylval f' = yylval f"
proof -
  obtain w c where w: "yy_do_before_action (int i) (int j) f =
      Inr ((set_buf w (f\<lparr>yytext_ptr := int i, yyleng := int j - int i, yy_hold_char := c\<rparr>))\<lparr>yy_c_buf_p := int j\<rparr>)"
    "c = (data @ [NUL, NUL]) ! j" "drop i w = (drop i (data @ [NUL, NUL]))[j - i := NUL]" "length w = length data + 2"
    using before_action [OF assms(1), of j] assms by auto
  define g where "g = (set_buf w (f\<lparr>yytext_ptr := int i, yyleng := int j - int i, yy_hold_char := c\<rparr>))\<lparr>yy_c_buf_p := int j\<rparr>"
  obtain b where b: "buf_ok data f b" using assms by (auto simp: clean_def)
  have cur: "yy_current g = Some (b\<lparr>yy_ch_buf := w\<rparr>)" using b by (simp add: g_def buf_ok_def)
  have p: "poke (int j) (yy_hold_char g) g = Inr (set_buf (w[j := c]) g)"
    using poke_Some [OF cur, of j] w assms(3) by (simp add: g_def)
  have "drop i (w[j := c]) = (drop i w)[j - i := c]" using assms(2) by (simp add: drop_update_swap)
  also have "\<dots> = (drop i (data @ [NUL, NUL]))[j - i := (data @ [NUL, NUL]) ! j]" using w by simp
  also have "\<dots> = drop i (data @ [NUL, NUL])"
  proof -
    have "(data @ [NUL, NUL]) ! j = drop i (data @ [NUL, NUL]) ! (j - i)" using assms(2,3) by (subst nth_drop) auto
    then show ?thesis by (simp only: list_update_id)
  qed
  finally have d: "drop i (w[j := c]) = drop i (data @ [NUL, NUL])" .
  have "buf_ok data (set_buf (w[j := c]) g) (b\<lparr>yy_ch_buf := w[j := c]\<rparr>)"
    using b w by (simp add: g_def buf_ok_def)
  then have "clean data i (set_buf (w[j := c]) g)" using d unfolding clean_def by (intro exI [of _ "b\<lparr>yy_ch_buf := w[j := c]\<rparr>"]) simp
  moreover have "yylex_run (Suc k) (Yy_find_action s (int i) (int j)) f st =
      yylex_run k (Yy_find_action (yy_last_accepting_state f) (int i) (yy_last_accepting_cpos f)) (set_buf (w[j := c]) g) st"
    using w(1) assms(4,5) p by (simp add: acc_at g_def)
  ultimately show ?thesis by (intro exI [of _ "set_buf (w[j := c]) g"]) (simp add: g_def)
qed

lemma find_eob:
  assumes "clean data i f" "i \<le> length data"
  shows "\<exists>g. clean data i g \<and> yytext_ptr g = int i \<and> yy_hold_char g = NUL \<and> yylval g = yylval f \<and>
    yylex_run (Suc k) (Yy_find_action 3 (int i) (int (length data) + 1)) f st =
      (if i = length data
       then yylex_run k Yy_terminate (g\<lparr>yy_did_buffer_switch_on_eof := False, yy_c_buf_p := int i\<rparr>) st
       else bindE (yy_get_previous_state (g\<lparr>yy_c_buf_p := int (length data)\<rparr>)) (\<lambda>(s, f).
            yylex_run k (Yy_find_action s (yytext_ptr f) (yy_c_buf_p f)) f st))"
proof -
  let ?n = "length data + 1"
  obtain w c where w: "yy_do_before_action (int i) (int ?n) f =
      Inr ((set_buf w (f\<lparr>yytext_ptr := int i, yyleng := int ?n - int i, yy_hold_char := c\<rparr>))\<lparr>yy_c_buf_p := int ?n\<rparr>)"
    "c = (data @ [NUL, NUL]) ! ?n" "drop i w = (drop i (data @ [NUL, NUL]))[?n - i := NUL]" "length w = length data + 2"
    using before_action [OF assms(1), of ?n] assms by auto
  define g where "g = (set_buf w (f\<lparr>yytext_ptr := int i, yyleng := int ?n - int i, yy_hold_char := c\<rparr>))\<lparr>yy_c_buf_p := int ?n\<rparr>"
  obtain b where b: "buf_ok data f b" using assms by (auto simp: clean_def)
  have D: "drop i (data @ [NUL, NUL]) ! (?n - i) = NUL" using assms(2) by (subst nth_drop) (auto simp: nth_append)
  have "drop i w = drop i (data @ [NUL, NUL])" unfolding w(3) by (subst D [symmetric]) (rule list_update_id)
  moreover have "buf_ok data g (b\<lparr>yy_ch_buf := w\<rparr>)" using b w by (simp add: g_def buf_ok_def)
  ultimately have "clean data i g" unfolding clean_def by (intro exI [of _ "b\<lparr>yy_ch_buf := w\<rparr>"]) simp
  moreover have c: "c = NUL" using w(2) by (simp add: nth_append)
  ultimately obtain g' where g': "clean data i g'" "yytext_ptr g' = int i" "yy_hold_char g' = NUL" "yylval g' = yylval g"
    "yy_end_of_buffer (int (length data) + 1) g =
      (if i = length data
       then Inr (Yy_terminate, g'\<lparr>yy_did_buffer_switch_on_eof := False, yy_c_buf_p := int i\<rparr>)
       else bindE (yy_get_previous_state (g'\<lparr>yy_c_buf_p := int (length data)\<rparr>)) (\<lambda>(s, f).
            Inr (Yy_find_action s (yytext_ptr f) (yy_c_buf_p f), f)))"
    using end_of_buffer [of data i g] assms(2) by (auto simp: g_def)
  have n: "int (length data) + 1 = int ?n" by simp
  have "yylex_run (Suc k) (Yy_find_action 3 (int i) (int (length data) + 1)) f st =
      bindE (yy_end_of_buffer (int (length data) + 1) g) (\<lambda>(l, f). yylex_run k l f st)"
    unfolding n using w(1) by (simp add: g_def)
  then show ?thesis unfolding g'(5) using g'
    by (intro exI [of _ g']) (auto simp: g_def bindE_def split: sum.splits)
qed

end
