(* ===== verification/ScanRefine.thy ===== *)
theory ScanRefine
  imports ScanSpec
begin

text \<open>
  \<open>yylex\<close> refines the scanner on strings: one call, from any position of a query, returns the token,
  the semantic value and the rest that \<open>spec_lex\<close> returns, or fails as it does.
\<close>

section \<open>One match\<close>

declare yylex_run.simps [simp del]

lemma scan_token:
  assumes "flex_at data i f" "i < length data" "longest (drop i data) = (a, n)"
  shows "\<exists>k' f'. m \<le> k' \<and> 1 \<le> n \<and> i + n \<le> length data \<and> yylex_run (m + 5) Next_token f st =
      bindE (yy_action a f' st) (\<lambda>(r, f, st). case r of Some t \<Rightarrow> Inr (t, f, st) | None \<Rightarrow> yylex_run k' Next_token f st) \<and>
    flex_at data (i + n) f' \<and> yytext_ptr f' = int i \<and> yytext f' = take n (drop i data) \<and> yylval f' = yylval f"
proof -
  have m: "m + 5 = Suc (Suc (Suc (Suc (Suc m))))" by simp
  let ?w = "drop i data"
  obtain s where s: "poke (yy_c_buf_p f) (yy_hold_char f) f = Inr (set_buf s f)" "clean data i (set_buf s f)"
    using restore [OF assms(1)] by blast
  define f1 where "f1 = set_buf s f"
  obtain b where b: "buf_ok data f1 b" "drop i (yy_ch_buf b) = drop i (data @ [NUL, NUL])"
    using s(2) by (auto simp: clean_def f1_def)
  have nn: "NUL \<notin> set ?w" "?w \<noteq> []" using b assms(2) by (auto simp: buf_ok_def dest: in_set_dropD)
  have pos: "yy_c_buf_p f1 = int i" "yy_start f1 = 1" using assms(1) b by (auto simp: f1_def flex_at_def buf_ok_def)
  have buf: "drop (nat (int i)) (yy_ch_buf (cur f1)) = ?w @ [NUL, NUL]"
    using b assms(2) by (simp add: buf_ok_def cur_def)
  have step: "yylex_run (Suc (Suc k)) Next_token f st =
      bindE (yy_match 1 (yy_last_accepting_state f1) (yy_last_accepting_cpos f1) (int i) (?w @ [NUL, NUL])) (\<lambda>(las, lac).
        yylex_run k (Yy_find_action las (int i) lac) (f1\<lparr>yy_last_accepting_state := las, yy_last_accepting_cpos := lac\<rparr>) st)" for k
    using s(1) pos buf by (simp add: yylex_run.simps(2,3) f1_def)
  have clean1: "clean data i (f1\<lparr>yy_last_accepting_state := las, yy_last_accepting_cpos := lac\<rparr>)" for las lac
    using s(2) by (auto simp: f1_def intro: clean_cong)
  have fits: "1 \<le> n \<and> i + n \<le> length data"
  proof -
    obtain q n' where "longest ?w = (acc q, n')" "1 \<le> n'" "n' \<le> length ?w" by (rule munch_longest [OF nn(2,1)])
    then show ?thesis using assms(2,3) by simp
  qed
  have act: "\<exists>f'. yylex_run (Suc k) (Yy_find_action q (int i) (int (i + n))) g st =
      bindE (yy_action a f' st) (\<lambda>(r, f, st). case r of Some t \<Rightarrow> Inr (t, f, st) | None \<Rightarrow> yylex_run k Next_token f st) \<and>
    flex_at data (i + n) f' \<and> yytext_ptr f' = int i \<and> yytext f' = take n ?w \<and> yylval f' = yylval f"
    if h: "clean data i g" "live q" "acc q = a" "a \<noteq> 0" "yylval g = yylval f" for k g q
  proof -
    obtain f' where "yylex_run (Suc k) (Yy_find_action q (int i) (int (i + n))) g st =
        bindE (yy_action (acc q) f' st) (\<lambda>(r, f, st). case r of Some t \<Rightarrow> Inr (t, f, st) | None \<Rightarrow> yylex_run k Next_token f st)"
      "flex_at data (i + n) f'" "yytext_ptr f' = int i" "yytext f' = take (i + n - i) (drop i data)" "yylval f' = yylval g"
      using find_action [OF h(1), of "i + n" q k st] h fits by auto
    then show ?thesis unfolding h(3,5) by (intro exI [of _ f']) simp
  qed
  show ?thesis
  proof (cases "jams 1 ?w")
    case True
    obtain q n' where q: "munch 1 (yy_last_accepting_state f1) (yy_last_accepting_cpos f1) (int i) ?w = (q, int i + int n')"
      "longest ?w = (acc q, n')" "live q" "acc q \<noteq> 0"
      by (rule munch_longest [OF nn(2,1)])
    then have e: "n' = n" "acc q = a" using assms(3) by auto
    let ?f2 = "f1\<lparr>yy_last_accepting_state := q, yy_last_accepting_cpos := int (i + n)\<rparr>"
    have "yylex_run (m + 5) Next_token f st = yylex_run (Suc (Suc (Suc m))) (Yy_find_action q (int i) (int (i + n))) ?f2 st"
      unfolding m step using match_jams [OF _ nn(1) True] q(1) e by simp
    moreover obtain f' where "yylex_run (Suc (Suc (Suc m))) (Yy_find_action q (int i) (int (i + n))) ?f2 st =
        bindE (yy_action a f' st) (\<lambda>(r, f, st). case r of Some t \<Rightarrow> Inr (t, f, st) | None \<Rightarrow> yylex_run (Suc (Suc m)) Next_token f st)"
      "flex_at data (i + n) f'" "yytext_ptr f' = int i" "yytext f' = take n ?w" "yylval f' = yylval f"
      using act [of ?f2 q "Suc (Suc m)"] clean1 q e by (auto simp: f1_def)
    ultimately show ?thesis using fits by (intro exI [of _ "Suc (Suc m)"] exI [of _ f']) simp
  next
    case False
    let ?n = "length data"
    let ?f2 = "f1\<lparr>yy_last_accepting_state := 3, yy_last_accepting_cpos := int ?n + 1\<rparr>"
    obtain g where g: "clean data i g" "yytext_ptr g = int i" "yylval g = yylval f"
      "yylex_run (Suc (Suc (Suc m))) (Yy_find_action 3 (int i) (int ?n + 1)) ?f2 st =
        bindE (yy_get_previous_state (g\<lparr>yy_c_buf_p := int ?n\<rparr>)) (\<lambda>(s, f).
            yylex_run (Suc (Suc m)) (Yy_find_action s (yytext_ptr f) (yy_c_buf_p f)) f st)"
      using find_eob [OF clean1, of "int ?n + 1" 3 "Suc (Suc m)" st] assms(2) by (auto simp: f1_def)
    let ?g = "g\<lparr>yy_c_buf_p := int ?n\<rparr>" and ?q = "run 1 ?w"
    have cg0: "clean data i ?g" by (rule clean_cong [OF g(1)]) simp_all
    obtain las lac where l: "yy_get_previous_state ?g = Inr (?q, ?g\<lparr>yy_last_accepting_state := las, yy_last_accepting_cpos := lac\<rparr>)"
      "munch 1 (yy_last_accepting_state ?g) (yy_last_accepting_cpos ?g) (int i) ?w =
        (if acc ?q \<noteq> 0 then (?q, int ?n) else (las, lac))"
      using previous_state [OF cg0] g(2) assms(2) False by auto
    let ?g3 = "?g\<lparr>yy_last_accepting_state := las, yy_last_accepting_cpos := lac\<rparr>"
    have cg: "clean data i ?g3" by (rule clean_cong [OF g(1)]) simp_all
    have q: "live ?q" using False nn by (intro live_run) simp_all
    obtain q' n' where q': "munch 1 (yy_last_accepting_state ?g) (yy_last_accepting_cpos ?g) (int i) ?w = (q', int i + int n')"
      "longest ?w = (acc q', n')" "live q'" "acc q' \<noteq> 0"
      by (rule munch_longest [OF nn(2,1)])
    then have e: "n' = n" "acc q' = a" using assms(3) by auto
    have start: "yylex_run (m + 5) Next_token f st = yylex_run (Suc (Suc m)) (Yy_find_action ?q (int i) (int ?n)) ?g3 st"
    proof -
      have "yylex_run (m + 5) Next_token f st = yylex_run (Suc (Suc (Suc m))) (Yy_find_action 3 (int i) (int ?n + 1)) ?f2 st"
        unfolding m step using match_no_jam [OF live_1 nn(1) False] assms(2) by simp
      then show ?thesis unfolding g(4) l(1) using g(2) by simp
    qed
    show ?thesis
    proof (cases "acc ?q = 0")
      case True
      then have e2: "las = q'" "lac = int (i + n)" using l(2) q'(1) e by auto
      obtain g4 where g4: "yylex_run (Suc (Suc m)) (Yy_find_action ?q (int i) (int ?n)) ?g3 st =
          yylex_run (Suc m) (Yy_find_action las (int i) lac) g4 st" "clean data i g4" "yylval g4 = yylval f"
        using back_up [OF cg, of ?n ?q "Suc m" st] assms(2) q True g(3) by auto
      obtain f' where "yylex_run (Suc m) (Yy_find_action q' (int i) (int (i + n))) g4 st =
          bindE (yy_action a f' st) (\<lambda>(r, f, st). case r of Some t \<Rightarrow> Inr (t, f, st) | None \<Rightarrow> yylex_run m Next_token f st)"
        "flex_at data (i + n) f'" "yytext_ptr f' = int i" "yytext f' = take n ?w" "yylval f' = yylval f"
        using act [of g4 q' m] g4 q' e by auto
      then show ?thesis using fits start g4(1) e2 by (intro exI [of _ m] exI [of _ f']) simp
    next
      case False
      then have e2: "?q = q'" "?n = i + n" using l(2) q'(1) e by auto
      obtain f' where "yylex_run (Suc (Suc m)) (Yy_find_action q' (int i) (int (i + n))) ?g3 st =
          bindE (yy_action a f' st) (\<lambda>(r, f, st). case r of Some t \<Rightarrow> Inr (t, f, st) | None \<Rightarrow> yylex_run (Suc m) Next_token f st)"
        "flex_at data (i + n) f'" "yytext_ptr f' = int i" "yytext f' = take n ?w" "yylval f' = yylval f"
        using act [of ?g3 q' "Suc m"] cg g(3) q' e by auto
      then show ?thesis using fits start e2 by (intro exI [of _ "Suc m"] exI [of _ f']) simp
    qed
  qed
qed

lemma scan_eof:
  assumes "flex_at data (length data) f"
  shows "\<exists>f'. yylex_run (m + 4) Next_token f st = Inr (0, f', st) \<and> flex_at data (length data) f' \<and> yylval f' = yylval f"
proof -
  have m: "m + 4 = Suc (Suc (Suc (Suc m)))" by simp
  let ?n = "length data"
  obtain s where s: "poke (yy_c_buf_p f) (yy_hold_char f) f = Inr (set_buf s f)" "clean data ?n (set_buf s f)"
    using restore [OF assms] by blast
  define f1 where "f1 = set_buf s f"
  obtain b where b: "buf_ok data f1 b" "drop ?n (yy_ch_buf b) = drop ?n (data @ [NUL, NUL])"
    using s(2) by (auto simp: clean_def f1_def)
  have pos: "yy_c_buf_p f1 = int ?n" "yy_start f1 = 1" using assms b by (auto simp: f1_def flex_at_def buf_ok_def)
  have buf: "drop (nat (int ?n)) (yy_ch_buf (cur f1)) = [NUL, NUL]" using b by (simp add: buf_ok_def cur_def)
  let ?f2 = "f1\<lparr>yy_last_accepting_state := 3, yy_last_accepting_cpos := int ?n + 1\<rparr>"
  have c2: "clean data ?n ?f2" by (rule clean_cong [OF s(2) [folded f1_def]]) simp_all
  have "yylex_run (m + 4) Next_token f st = yylex_run (Suc (Suc m)) (Yy_find_action 3 (int ?n) (int ?n + 1)) ?f2 st"
    unfolding m using s(1) pos buf match_end [OF live_1, of _ _ "int ?n" "[]"] by (simp add: yylex_run.simps(2,3) f1_def)
  moreover obtain g where g: "clean data ?n g" "yytext_ptr g = int ?n" "yy_hold_char g = NUL" "yylval g = yylval f"
    "yylex_run (Suc (Suc m)) (Yy_find_action 3 (int ?n) (int ?n + 1)) ?f2 st =
      yylex_run (Suc m) Yy_terminate (g\<lparr>yy_did_buffer_switch_on_eof := False, yy_c_buf_p := int ?n\<rparr>) st"
    using find_eob [OF c2, of "Suc m" st] by (auto simp: f1_def)
  ultimately have "yylex_run (m + 4) Next_token f st = Inr (0, g\<lparr>yy_did_buffer_switch_on_eof := False, yy_c_buf_p := int ?n\<rparr>, st)"
    by (simp add: yylex_run.simps(5))
  moreover have "flex_at data ?n (g\<lparr>yy_did_buffer_switch_on_eof := False, yy_c_buf_p := int ?n\<rparr>)"
  proof -
    obtain b where b: "buf_ok data g b" "drop ?n (yy_ch_buf b) = drop ?n (data @ [NUL, NUL])"
      using g(1) by (auto simp: clean_def)
    have "drop (Suc ?n) (yy_ch_buf b) = drop (Suc ?n) (data @ [NUL, NUL])" by (rule drop_of_drop [OF b(2)]) simp
    then show ?thesis using b g(3) by (auto simp: flex_at_def buf_ok_def nth_append)
  qed
  ultimately show ?thesis using g(4) by (intro exI) auto
qed


section \<open>Reading inside a rule\<close>

lemma flex_at_buf:
  assumes "flex_at data j f"
  obtains b where "buf_ok data f b" "drop (Suc j) (yy_ch_buf b) = drop (Suc j) (data @ [NUL, NUL])"
    "yy_hold_char f = (data @ [NUL, NUL]) ! j" "yy_c_buf_p f = int j" "j \<le> length data"
    "yy_current f = Some b" "length (yy_ch_buf b) = length data + 2"
  using assms by (auto simp: flex_at_def buf_ok_def)

lemma yyinput_char:
  assumes "flex_at data j f" "j < length data"
  shows "\<exists>f'. yyinput f = Inr (sc_to_ui (data ! j), f') \<and> flex_at data (Suc j) f' \<and>
    yytext_ptr f' = yytext_ptr f \<and> yylval f' = yylval f"
proof -
  obtain b where b: "buf_ok data f b" "drop (Suc j) (yy_ch_buf b) = drop (Suc j) (data @ [NUL, NUL])"
    "yy_hold_char f = (data @ [NUL, NUL]) ! j" "yy_c_buf_p f = int j" "j \<le> length data"
    "yy_current f = Some b" "length (yy_ch_buf b) = length data + 2"
    by (rule flex_at_buf [OF assms(1)])
  have h: "yy_hold_char f = data ! j" "data ! j \<noteq> NUL"
    using b(1,3) assms(2) by (auto simp: nth_append buf_ok_def dest!: nth_mem)
  let ?w = "(yy_ch_buf b)[j := NUL]"
  let ?x = "(data @ [NUL, NUL]) ! Suc j"
  have w: "?w ! Suc j = ?x" using nth_of_drop [OF b(2), of "Suc j"] b assms(2) by simp
  have p1: "poke (int j) (data ! j) f = Inr (set_buf ((yy_ch_buf b)[j := data ! j]) f)"
    using b assms(2) by (simp add: poke_Some)
  define g where "g = set_buf ((yy_ch_buf b)[j := data ! j]) f"
  have g: "yy_current g = Some (b\<lparr>yy_ch_buf := (yy_ch_buf b)[j := data ! j]\<rparr>)" using b by (simp add: g_def)
  have p2: "peek (int j) g = Inr (data ! j)" using peek_Some [OF g, of j] b assms(2) by simp
  have p3: "poke (int j) NUL g = Inr (set_buf ?w g)" using poke_Some [OF g, of j] b assms(2) by simp
  have g': "yy_current (set_buf ?w g) = Some (b\<lparr>yy_ch_buf := ?w\<rparr>)" using g by simp
  have p4: "peek (int j + 1) (set_buf ?w g) = Inr ?x"
    using peek_Some [OF g', of "Suc j"] b assms(2) w by (simp add: add.commute)
  have p: "yy_c_buf_p g = int j" "yy_hold_char g = data ! j" using b h by (simp_all add: g_def)
  define f' where "f' = (set_buf ?w g)\<lparr>yy_c_buf_p := int j + 1, yy_hold_char := ?x\<rparr>"
  have "yyinput f = Inr (sc_to_ui (data ! j), f')"
    using p1 p2 p3 p4 h(2) p unfolding yyinput_def b(4) h(1) g_def [symmetric]
    by (simp add: take_char_def f'_def g_def)
  moreover have "drop (Suc (Suc j)) ?w = drop (Suc (Suc j)) (data @ [NUL, NUL])"
    using drop_of_drop [OF b(2), of "Suc (Suc j)"] by simp
  then have "flex_at data (Suc j) f'" using b(1,7) assms(2) unfolding flex_at_def
    by (auto simp: f'_def g_def buf_ok_def intro!: exI [of _ "b\<lparr>yy_ch_buf := ?w\<rparr>"])
  ultimately show ?thesis by (intro exI [of _ f']) (simp add: f'_def g_def)
qed

text \<open>At the end of the query the buffer is emptied, and the result is 0.\<close>

definition drained :: "string \<Rightarrow> flex \<Rightarrow> bool" where
  "drained data f \<longleftrightarrow> (\<exists>b. yy_current f = Some b \<and> length (yy_ch_buf b) = length data + 2 \<and>
     yy_ch_buf b ! 0 = NUL \<and> yy_ch_buf b ! 1 = NUL \<and> yy_buf_size b = int (length data) \<and>
     yy_is_our_buffer b \<and> yy_fill_buffer b \<and> yy_buffer_status b = YY_BUFFER_NEW \<and> b_n_chars b = 0 \<and>
     yy_n_chars f = 0 \<and> yy_c_buf_p f = 0 \<and> yytext_ptr f = 0 \<and> yy_hold_char f = NUL \<and>
     yy_init f \<and> yy_start f = 1 \<and> yyin f = None)"

lemma yy_load_buffer_state_Some:
  assumes "yy_current f = Some b" "yy_buf_pos b = 0" "0 < length (yy_ch_buf b)" "yy_ch_buf b ! 0 = NUL"
  shows "yy_load_buffer_state f = Inr (f\<lparr>yy_n_chars := b_n_chars b, yytext_ptr := 0, yy_c_buf_p := 0,
    yyin := yy_input_file b, yy_hold_char := NUL\<rparr>)"
proof -
  have "tab_at (yy_ch_buf b) 0 = Some NUL" using assms tab_at_in_range [of 0 "yy_ch_buf b"] by simp
  then show ?thesis using assms by (simp add: yy_load_buffer_state_def Let_def cur_def peek_def)
qed

lemma yy_flush_buffer_Some:
  assumes "yy_current f = Some b" "2 \<le> length (yy_ch_buf b)"
  shows "yy_flush_buffer f = Inr (f\<lparr>yy_current := Some (b\<lparr>b_n_chars := 0, yy_ch_buf := (yy_ch_buf b)[0 := NUL, 1 := NUL],
    yy_buf_pos := 0, yy_buffer_status := YY_BUFFER_NEW\<rparr>), yy_n_chars := 0, yytext_ptr := 0, yy_c_buf_p := 0,
    yyin := yy_input_file b, yy_hold_char := NUL\<rparr>)"
proof -
  have l: "0 < length (yy_ch_buf b)" "1 < length (yy_ch_buf b)" using assms(2) by auto
  let ?b = "b\<lparr>b_n_chars := 0, yy_ch_buf := (yy_ch_buf b)[0 := NUL, 1 := NUL],
    yy_buf_pos := 0, yy_buffer_status := YY_BUFFER_NEW\<rparr>"
  have "yy_flush_buffer f = yy_load_buffer_state (f\<lparr>yy_current := Some ?b\<rparr>)"
    using assms(1) l by (cases b) (simp add: yy_flush_buffer_def poke_def cur_def upd_cur_def)
  then show ?thesis using l by (subst (asm) yy_load_buffer_state_Some [of _ ?b]) simp_all
qed

lemma yyrestart_Some:
  assumes "yy_current f = Some b" "2 \<le> length (yy_ch_buf b)"
  shows "yyrestart None f = Inr (f\<lparr>yy_current := Some (b\<lparr>b_n_chars := 0, yy_ch_buf := (yy_ch_buf b)[0 := NUL, 1 := NUL],
    yy_buf_pos := 0, yy_buffer_status := YY_BUFFER_NEW, yy_input_file := None, yy_fill_buffer := True\<rparr>),
    yy_n_chars := 0, yytext_ptr := 0, yy_c_buf_p := 0, yyin := None, yy_hold_char := NUL\<rparr>)"
proof -
  let ?b = "b\<lparr>b_n_chars := 0, yy_ch_buf := (yy_ch_buf b)[0 := NUL, 1 := NUL],
    yy_buf_pos := 0, yy_buffer_status := YY_BUFFER_NEW, yy_input_file := None, yy_fill_buffer := True\<rparr>"
  let ?f = "f\<lparr>yy_current := Some ?b, yy_n_chars := 0, yytext_ptr := 0, yy_c_buf_p := 0,
    yyin := yy_input_file b, yy_hold_char := NUL\<rparr>"
  have "yyrestart None f = yy_load_buffer_state ?f"
    unfolding yyrestart_def ensure_current_def yy_init_buffer_def using assms(1)
    by (simp add: yy_flush_buffer_Some [OF assms]) (cases f, simp add: upd_cur_def)
  moreover have "0 < length (yy_ch_buf b)" using assms(2) by (cases "yy_ch_buf b") auto
  ultimately show ?thesis by (subst (asm) yy_load_buffer_state_Some [of _ ?b]) simp_all
qed

lemma yyinput_end:
  assumes "flex_at data (length data) f" "yytext_ptr f < int (length data)"
  shows "\<exists>f'. yyinput f = Inr (0, f') \<and> drained data f'"
proof -
  let ?n = "length data"
  obtain b where b: "buf_ok data f b" "drop (Suc ?n) (yy_ch_buf b) = drop (Suc ?n) (data @ [NUL, NUL])"
    "yy_hold_char f = (data @ [NUL, NUL]) ! ?n" "yy_c_buf_p f = int ?n" "?n \<le> length data"
    "yy_current f = Some b" "length (yy_ch_buf b) = length data + 2"
    by (rule flex_at_buf [OF assms(1)])
  have h: "yy_hold_char f = NUL" using b(3) by (simp add: nth_append)
  let ?w = "(yy_ch_buf b)[?n := NUL]"
  define g where "g = (set_buf ?w f)\<lparr>yy_c_buf_p := int ?n + 1\<rparr>"
  have g: "yy_current g = Some (b\<lparr>yy_ch_buf := ?w\<rparr>)" "yyin g = None" "yy_init g" "yy_start g = 1"
    using b by (simp_all add: g_def buf_ok_def)
  have next_buffer: "yy_get_next_buffer g = Inr (EOB_ACT_LAST_MATCH, g)"
    using b(1) g(1) assms(2) by (simp add: yy_get_next_buffer_def buf_ok_def cur_def g_def)
  obtain f' where f': "yyrestart None g = Inr f'" "drained data f'"
  proof (rule that [OF yyrestart_Some [OF g(1)]])
    show "2 \<le> length (yy_ch_buf (b\<lparr>yy_ch_buf := ?w\<rparr>))" using b by simp
    show "drained data (g\<lparr>yy_current := Some ((b\<lparr>yy_ch_buf := ?w\<rparr>)\<lparr>b_n_chars := 0,
        yy_ch_buf := (yy_ch_buf (b\<lparr>yy_ch_buf := ?w\<rparr>))[0 := NUL, 1 := NUL],
        yy_buf_pos := 0, yy_buffer_status := YY_BUFFER_NEW, yy_input_file := None, yy_fill_buffer := True\<rparr>),
        yy_n_chars := 0, yytext_ptr := 0, yy_c_buf_p := 0, yyin := None, yy_hold_char := NUL\<rparr>)"
      using b(1) g(3,4) by (simp add: drained_def buf_ok_def)
  qed
  have "poke (int ?n) NUL f = Inr (set_buf ?w f)" using b by (simp add: poke_Some)
  then have "yyinput f = bindE (yyrestart None g) (\<lambda>f. Inr (0, f))"
    using b(1,4) h next_buffer g(2) unfolding yyinput_def Let_def by (simp add: g_def [symmetric] buf_ok_def)
  then show ?thesis using f' by simp
qed

lemma yyinput_drained:
  assumes "drained data f"
  shows "yyinput f = Inl Null_file"
proof -
  obtain b where b: "yy_current f = Some b" "length (yy_ch_buf b) = length data + 2" "yy_is_our_buffer b" "yy_fill_buffer b"
    "yy_buffer_status b = YY_BUFFER_NEW" and f: "yy_n_chars f = 0" "yy_c_buf_p f = 0" "yytext_ptr f = 0"
    "yy_hold_char f = NUL" "yyin f = None"
    using assms by (auto simp: drained_def)
  define g where "g = (set_buf ((yy_ch_buf b)[0 := NUL]) f)\<lparr>yy_c_buf_p := 1\<rparr>"
  have "poke 0 NUL f = Inr (set_buf ((yy_ch_buf b)[0 := NUL]) f)" using poke_Some [OF b(1), of 0 NUL] b(2) by simp
  moreover have "yy_get_next_buffer g = Inl Null_file"
    using b f by (simp add: yy_get_next_buffer_def g_def cur_def move_to_front_def upd_cur_def)
  ultimately show ?thesis using f by (simp add: yyinput_def g_def)
qed


lemma yyunput_char:
  assumes "flex_at data (Suc j) f" "1 \<le> j" "c = data ! j"
  shows "\<exists>f'. yyunput c 0 f = Inr f' \<and> flex_at data j f' \<and> yytext_ptr f' = 0 \<and> yylval f' = yylval f"
proof -
  obtain b where b: "buf_ok data f b" "drop (Suc (Suc j)) (yy_ch_buf b) = drop (Suc (Suc j)) (data @ [NUL, NUL])"
    "yy_hold_char f = (data @ [NUL, NUL]) ! Suc j" "yy_c_buf_p f = int (Suc j)" "Suc j \<le> length data"
    "yy_current f = Some b" "length (yy_ch_buf b) = length data + 2"
    by (rule flex_at_buf [OF assms(1)])
  obtain w where w: "poke (yy_c_buf_p f) (yy_hold_char f) f = Inr (set_buf w f)" "clean data (Suc j) (set_buf w f)"
    using restore [OF assms(1)] by blast
  define g where "g = set_buf w f"
  obtain bg where bg: "buf_ok data g bg" "drop (Suc j) (yy_ch_buf bg) = drop (Suc j) (data @ [NUL, NUL])"
    using w(2) by (auto simp: clean_def g_def)
  then have l: "yy_current g = Some bg" "j < length (yy_ch_buf bg)" using b(5) by (auto simp: buf_ok_def)
  define f' where "f' = (set_buf ((yy_ch_buf bg)[j := c]) g)\<lparr>yytext_ptr := 0, yy_hold_char := c, yy_c_buf_p := int j\<rparr>"
  have "yyunput c 0 f = Inr f'"
    using w(1) b(4) assms(2) poke_Some [OF l, of c] unfolding yyunput_def g_def [symmetric]
    by (simp add: Let_def f'_def g_def)
  moreover have "flex_at data j f'" using bg b(5) assms(3) unfolding flex_at_def
    by (auto simp: f'_def buf_ok_def nth_append intro!: exI [of _ "bg\<lparr>yy_ch_buf := (yy_ch_buf bg)[j := c]\<rparr>"])
  ultimately show ?thesis by (intro exI [of _ f']) (simp add: f'_def g_def)
qed

text \<open>A 0 pushed back into an emptied buffer.\<close>

definition flushed :: "string \<Rightarrow> flex \<Rightarrow> bool" where
  "flushed data f \<longleftrightarrow> (\<exists>b n. yy_current f = Some b \<and> length data = Suc n \<and> length (yy_ch_buf b) = length data + 2 \<and>
     drop n (yy_ch_buf b) = [NUL, NUL, NUL] \<and> yy_is_our_buffer b \<and> yy_fill_buffer b \<and>
     yy_buffer_status b = YY_BUFFER_NEW \<and> b_n_chars b = int (length data) \<and>
     yy_n_chars f = int (length data) \<and> yy_c_buf_p f = int n \<and> yy_hold_char f = NUL \<and>
     yy_init f \<and> yy_start f = 1 \<and> yyin f = None)"

lemma yyunput_drained:
  assumes "drained data f" "2 \<le> length data"
  shows "\<exists>f'. yyunput NUL 0 f = Inr f' \<and> flushed data f'"
proof -
  obtain b where b: "yy_current f = Some b" "length (yy_ch_buf b) = length data + 2" "yy_is_our_buffer b" "yy_fill_buffer b"
    "yy_buffer_status b = YY_BUFFER_NEW" "yy_buf_size b = int (length data)" "yy_ch_buf b ! 0 = NUL" "yy_ch_buf b ! 1 = NUL"
    and f: "yy_n_chars f = 0" "yy_c_buf_p f = 0" "yytext_ptr f = 0" "yy_hold_char f = NUL" "yyin f = None"
    "yy_init f" "yy_start f = 1"
    using assms(1) by (auto simp: drained_def)
  obtain n where n: "length data = Suc n" "1 \<le> n" using assms(2) by (cases "length data") auto
  obtain r where r: "yy_ch_buf b = NUL # NUL # r" "length r = length data"
    using b(2,7,8) by (cases "yy_ch_buf b"; cases "tl (yy_ch_buf b)") auto
  define g where "g = set_buf (yy_ch_buf b) f"
  have p0: "poke 0 NUL f = Inr g" using poke_Some [OF b(1), of 0 NUL] r by (simp add: g_def)
  have g: "yy_current g = Some b" "yy_n_chars g = 0" "yy_c_buf_p g = 0" "yy_init g" "yy_start g = 1" "yyin g = None"
    using b(1) f by (simp_all add: g_def)
  let ?s = "take (Suc n) (yy_ch_buf b) @ [NUL, NUL]"
  let ?b = "b\<lparr>yy_ch_buf := ?s, b_n_chars := yy_buf_size b\<rparr>"
  define h where "h = (upd_cur (\<lambda>b. b\<lparr>yy_ch_buf := take (nat (int (Suc n))) (yy_ch_buf b) @ take (nat 2) (yy_ch_buf b) @
     drop (nat (int (Suc n) + 2)) (yy_ch_buf b), b_n_chars := yy_buf_size b\<rparr>) g)\<lparr>yy_n_chars := int (Suc n)\<rparr>"
  have "nat (int (Suc n) + 2) = n + 3" "nat (int (Suc n)) = Suc n" by simp_all
  then have h: "yy_current h = Some ?b" using g b(2) n r by (simp add: h_def upd_cur_def)
  have l: "n < length ?s" "length ?s = Suc n + 2" using b(2) n by simp_all
  let ?w = "?s[n := NUL]"
  define f' where "f' = (set_buf ?w h)\<lparr>yytext_ptr := int (Suc n), yy_hold_char := NUL, yy_c_buf_p := int n\<rparr>"
  have "yyunput NUL 0 f = bindE (poke (int (Suc n) - 1) NUL h)
      (\<lambda>f. Inr (f\<lparr>yytext_ptr := int (Suc n), yy_hold_char := NUL, yy_c_buf_p := int (Suc n) - 1\<rparr>))"
    using f b(2,6) n p0 g unfolding yyunput_def by (simp add: Let_def cur_def h_def)
  then have "yyunput NUL 0 f = Inr f'" using poke_Some [OF h, of n] l by (simp add: f'_def)
  moreover have "drop n ?w = [NUL, NUL, NUL]"
    using b(2) n drop_update_same [of n ?s NUL] by (simp add: l)
  then have "flushed data f'" using b g f n h l unfolding flushed_def
    by (intro exI [of _ "?b\<lparr>yy_ch_buf := ?w\<rparr>"] exI [of _ n]) (simp add: f'_def h_def upd_cur_def)
  ultimately show ?thesis by blast
qed


lemma next_facts:
  "yy_next 1 0 = Some 3" "yy_next 3 0 = Some 631" "yy_next 1 1 = Some 4" "yy_next 4 0 = Some 3"
  "tab_at yy_accept 1 = Some 0" "tab_at yy_accept 3 = Some 150" "tab_at yy_ec (sc_to_ui NUL) = Some 0"
  "tab_at yy_accept 4 = Some 148"
  by (simp_all add: yy_next_code Let_def sc_to_ui_def byte_def)

lemma poke_same:
  "yy_current f = Some b \<Longrightarrow> j < length (yy_ch_buf b) \<Longrightarrow> yy_ch_buf b ! j = c \<Longrightarrow> poke (int j) c f = Inr f"
  by (cases f; cases b) (auto simp: poke_Some set_buf_def upd_cur_def)

text \<open>The next token: a NUL that is taken for a character of the text, then a read of the null FILE.\<close>

lemma yylex_flushed:
  assumes "flushed data f"
  shows "yylex_run (k + 5) Next_token f st = Inl Null_file"
proof -
  obtain b n where b: "yy_current f = Some b" "length data = Suc n" "length (yy_ch_buf b) = n + 3"
    "drop n (yy_ch_buf b) = [NUL, NUL, NUL]" "yy_is_our_buffer b" "yy_fill_buffer b"
    "yy_buffer_status b = YY_BUFFER_NEW" "b_n_chars b = int (Suc n)"
    and f: "yy_n_chars f = int (Suc n)" "yy_c_buf_p f = int n" "yy_hold_char f = NUL" "yy_start f = 1" "yyin f = None"
    using assms by (auto simp: flushed_def)
  have at: "yy_ch_buf b ! n = NUL" "yy_ch_buf b ! (n + 1) = NUL" "yy_ch_buf b ! (n + 2) = NUL"
    using nth_drop [of n "yy_ch_buf b" 0] nth_drop [of n "yy_ch_buf b" 1] nth_drop [of n "yy_ch_buf b" 2] b(3,4)
    by simp_all
  have d: "drop (Suc n) (yy_ch_buf b) = [NUL, NUL]"
    using b(4) drop_drop [of 1 n "yy_ch_buf b"] by simp
  have same: "poke (int n) NUL g = Inr g" "poke (int n + 1) NUL g = Inr g" "poke (int n + 2) NUL g = Inr g"
    "peek (int n + 1) g = Inr NUL" "peek (int n + 2) g = Inr NUL"
    if "yy_current g = Some b'" "yy_ch_buf b' = yy_ch_buf b" for g b'
    using poke_same [OF that(1), of n] poke_same [OF that(1), of "n + 1"] poke_same [OF that(1), of "n + 2"]
      peek_Some [OF that(1), of "n + 1"] peek_Some [OF that(1), of "n + 2"] b(3) at that(2)
    by (simp_all add: add.commute)
  have k: "k + 5 = Suc (Suc (Suc (Suc (Suc k))))" by simp
  define g where "g = f\<lparr>yy_current := Some (b\<lparr>yy_input_file := None, yy_buffer_status := YY_BUFFER_NORMAL\<rparr>),
    yy_last_accepting_state := 3, yytext_ptr := int n, yyleng := 1\<rparr>"
  have "yylex_run (k + 5) Next_token f st = yylex_run (Suc (Suc (Suc k))) (Yy_find_action 3 (int n) (int n + 1))
      (f\<lparr>yy_last_accepting_state := 3, yy_last_accepting_cpos := int n + 1\<rparr>) st"
    using f b(1,4) same(1) [OF b(1)] unfolding k
    by (simp add: yylex_run.simps(2,3) cur_def next_facts Let_def)
  also have "\<dots> = yylex_run (Suc (Suc k)) (Yy_match 4 (int n) (int n + 1))
      (g\<lparr>yy_last_accepting_cpos := int n + 1, yy_c_buf_p := int n + 1\<rparr>) st"
    using f b(1,3,7,8) same [of _ b] same [of _ "b\<lparr>yy_input_file := None, yy_buffer_status := YY_BUFFER_NORMAL\<rparr>"]
    by (simp add: yylex_run.simps(4) cur_def next_facts Let_def yy_do_before_action_def yy_end_of_buffer_def upd_cur_def
      yy_get_previous_state_def yy_try_NUL_trans_def g_def) (cases f, simp)
  also have "\<dots> = yylex_run (Suc k) (Yy_find_action 3 (int n) (int n + 2))
      (g\<lparr>yy_last_accepting_cpos := int n + 2, yy_c_buf_p := int n + 1\<rparr>) st"
    using d by (simp add: yylex_run.simps(3) cur_def next_facts Let_def g_def nat_add_distrib) (cases f, simp add: add.commute)
  also have "\<dots> = Inl Null_file"
    using f b(3,5,6) same [of _ "b\<lparr>yy_input_file := None, yy_buffer_status := YY_BUFFER_NORMAL\<rparr>"]
    by (simp add: yylex_run.simps(4) cur_def next_facts Let_def yy_do_before_action_def yy_end_of_buffer_def upd_cur_def
      yy_get_next_buffer_def move_to_front_def g_def)
  finally show ?thesis .
qed


lemma sc_to_ui_inject [simp]: "sc_to_ui c = sc_to_ui d \<longleftrightarrow> c = d"
  by (simp add: sc_to_ui_def byte_def)

lemma sc_to_ui_not_EOF [simp]: "sc_to_ui c \<noteq> EOF"
  by (simp add: sc_to_ui_def EOF_def)

lemma end_char [simp]: "(0::int) \<noteq> EOF" "(char_of (0::int) :: char) = NUL"
  by (simp_all add: EOF_def char_of_def)

lemma char_of_sc_to_ui [simp]: "char_of (sc_to_ui c) = c"
  by (simp add: sc_to_ui_def byte_def)

lemma sc_to_ui_codes: "sc_to_ui SQ = 39" "sc_to_ui DQ = 34" "sc_to_ui (CHR 0x60) = 96" "sc_to_ui BSL = 92"
  "sc_to_ui (CHR ''*'') = 42" "sc_to_ui (CHR ''/'') = 47"
  by (simp_all add: sc_to_ui_def byte_def)

lemma sc_to_ui_eq [simp]: "sc_to_ui c = 39 \<longleftrightarrow> c = SQ" "sc_to_ui c = 34 \<longleftrightarrow> c = DQ" "sc_to_ui c = 96 \<longleftrightarrow> c = CHR 0x60"
  "sc_to_ui c = 92 \<longleftrightarrow> c = BSL" "sc_to_ui c = 42 \<longleftrightarrow> c = CHR ''*''" "sc_to_ui c = 47 \<longleftrightarrow> c = CHR ''/''"
  unfolding sc_to_ui_codes [symmetric] by simp_all

text \<open>The scanner stands in front of the rest of the query.\<close>

definition scan_at :: "string \<Rightarrow> source \<Rightarrow> flex \<Rightarrow> bool" where
  "scan_at data src f \<longleftrightarrow>
     (case src of Rest r \<Rightarrow> \<exists>j. r = drop j data \<and> flex_at data j f | Flushed \<Rightarrow> flushed data f)"

lemma drained_loops:
  assumes "drained data f"
  shows "get_q_loop (Suc k) d s quoted f st = Inl Null_file" "comment_loop (Suc k) star f = Inl Null_file"
  using yyinput_drained [OF assms] by simp_all

lemma get_q_loop_scans:
  assumes "flex_at data j f" "yytext_ptr f < int j" "1 \<le> j" "length data + 2 \<le> k + j"
    "d = SQ \<or> d = DQ \<or> d = CHR 0x60"
  shows "case q_scan d s quoted (drop j data) of
      None \<Rightarrow> get_q_loop k (sc_to_ui d) s quoted f st = Inl Null_file
    | Some (s', src) \<Rightarrow> \<exists>f'. get_q_loop k (sc_to_ui d) s quoted f st = Inr (q_token (sc_to_ui d) s' f' st) \<and> scan_at data src f'"
  using assms(1-4)
proof (induction k arbitrary: j f s quoted)
  case 0
  then show ?case by (auto simp: flex_at_def)
next
  case (Suc k)
  have j: "j \<le> length data" using Suc.prems(1) by (simp add: flex_at_def)
  then obtain k' where k': "k = Suc k'" using Suc.prems(4) by (cases k) auto
  show ?case
  proof (cases "j = length data")
    case True
    obtain f' where f': "yyinput f = Inr (0, f')" "drained data f'"
      using yyinput_end [of data f] Suc.prems(1,2) True by auto
    have "d \<noteq> NUL" using assms(5) by auto
    then have "sc_to_ui d \<noteq> 0" by simp
    then show ?thesis using f' True drained_loops [OF f'(2)] by (simp add: k')
  next
    case False
    then have l: "j < length data" "drop j data = data ! j # drop (Suc j) data"
      using j by (simp_all add: Cons_nth_drop_Suc)
    obtain f1 where f1: "yyinput f = Inr (sc_to_ui (data ! j), f1)" "flex_at data (Suc j) f1"
      "yytext_ptr f1 = yytext_ptr f" "yylval f1 = yylval f"
      using yyinput_char [OF Suc.prems(1) l(1)] by blast
    show ?thesis
    proof (cases "data ! j = d \<and> \<not> quoted")
      case False
      then have e: "q_scan d s quoted (drop j data) =
          q_scan d (s @ [data ! j]) (data ! j = BSL \<and> \<not> quoted) (drop (Suc j) data)"
        "get_q_loop (Suc k) (sc_to_ui d) s quoted f st =
          get_q_loop k (sc_to_ui d) (s @ [data ! j]) (data ! j = BSL \<and> \<not> quoted) f1 st"
        using f1(1) l(2) by auto
      show ?thesis unfolding e by (rule Suc.IH [OF f1(2)]) (use f1(3) Suc.prems in simp_all)
    next
      case close: True
      show ?thesis
      proof (cases "d = SQ \<or> d = DQ")
        case False
        then show ?thesis using close f1 l unfolding scan_at_def
          by (auto intro!: exI [of _ "Suc j"])
      next
        case q: True
        show ?thesis
        proof (cases "Suc j = length data")
          case True
          obtain f2 where f2: "yyinput f1 = Inr (0, f2)" "drained data f2"
            using yyinput_end [of data f1] f1 Suc.prems(2) True by auto
          have "2 \<le> length data" using Suc.prems(3) True by simp
          then obtain f3 where f3: "yyunput NUL 0 f2 = Inr f3" "flushed data f3"
            using yyunput_drained [OF f2(2)] by blast
          have "sc_to_ui d \<noteq> 0" using q by auto
          then show ?thesis using close q f1 f2 f3 l True by (auto simp: scan_at_def)
        next
          case False
          then have l2: "Suc j < length data" "drop (Suc j) data = data ! Suc j # drop (Suc (Suc j)) data"
            using l by (simp_all add: Cons_nth_drop_Suc)
          obtain f2 where f2: "yyinput f1 = Inr (sc_to_ui (data ! Suc j), f2)" "flex_at data (Suc (Suc j)) f2"
            "yytext_ptr f2 = yytext_ptr f1" "yylval f2 = yylval f1"
            using yyinput_char [OF f1(2) l2(1)] by blast
          show ?thesis
          proof (cases "data ! Suc j = d")
            case True
            then have e: "q_scan d s quoted (drop j data) = q_scan d (s @ [data ! j]) quoted (drop (Suc (Suc j)) data)"
              "get_q_loop (Suc k) (sc_to_ui d) s quoted f st =
                get_q_loop k (sc_to_ui d) (s @ [data ! j]) quoted f2 st"
              using f1(1) f2(1) l(2) l2(2) close q by auto
            show ?thesis unfolding e by (rule Suc.IH [OF f2(2)]) (use f1(3) f2(3) Suc.prems in simp_all)
          next
            case False
            obtain f3 where "yyunput (data ! Suc j) 0 f2 = Inr f3" "flex_at data (Suc j) f3"
              using yyunput_char [OF f2(2) _ refl] by auto
            then show ?thesis using False f1 f2 l l2 close q unfolding scan_at_def
              by (auto intro!: exI [of _ "Suc j"])
          qed
        qed
      qed
    qed
  qed
qed

lemma comment_loop_skips:
  assumes "flex_at data j f" "yytext_ptr f < int j" "length data + 2 \<le> k + j"
  shows "case skip_comment star (drop j data) of
      None \<Rightarrow> comment_loop k star f = Inl Null_file
    | Some r \<Rightarrow> \<exists>f'. comment_loop k star f = Inr f' \<and> scan_at data (Rest r) f' \<and> yylval f' = yylval f"
  using assms
proof (induction k arbitrary: j f star)
  case 0
  then show ?case by (auto simp: flex_at_def)
next
  case (Suc k)
  have j: "j \<le> length data" using Suc.prems(1) by (simp add: flex_at_def)
  then obtain k' where k': "k = Suc k'" using Suc.prems(3) by (cases k) auto
  show ?case
  proof (cases "j = length data")
    case True
    obtain f' where f': "yyinput f = Inr (0, f')" "drained data f'"
      using yyinput_end [of data f] Suc.prems(1,2) True by auto
    then show ?thesis using True drained_loops [OF f'(2)] by (simp add: k')
  next
    case False
    then have l: "j < length data" "drop j data = data ! j # drop (Suc j) data"
      using j by (simp_all add: Cons_nth_drop_Suc)
    obtain f1 where f1: "yyinput f = Inr (sc_to_ui (data ! j), f1)" "flex_at data (Suc j) f1"
      "yytext_ptr f1 = yytext_ptr f" "yylval f1 = yylval f"
      using yyinput_char [OF Suc.prems(1) l(1)] by blast
    define star' where "star' = (data ! j = CHR ''*'')"
    have "Inr f1 = Inr f1 \<and> scan_at data (Rest (drop (Suc j) data)) f1" using f1(2) by (auto simp: scan_at_def)
    moreover note Suc.IH [OF f1(2), of star']
    ultimately show ?thesis using f1 Suc.prems l star'_def by (auto split: option.splits)
  qed
qed


section \<open>Actions\<close>

lemma scan_at_yylval [simp]:
  "flex_at data j (f\<lparr>yylval := v\<rparr>) = flex_at data j f" "scan_at data src (f\<lparr>yylval := v\<rparr>) = scan_at data src f"
  by (simp_all add: scan_at_def flex_at_def flushed_def buf_ok_def cong: source.case_cong)

lemma scan_fuel_flex: "flex_at data j f \<Longrightarrow> scan_fuel f = 8 * length data + 24"
  by (auto simp: flex_at_def buf_ok_def scan_fuel_def cur_def)

lemma get_q_string_scans:
  assumes "flex_at data j f" "yytext_ptr f < int j" "1 \<le> j" "(d, t) \<in> {(SQ, ''Q_STRING''), (DQ, ''DQ_STRING''), (CHR 0x60, ''NAME'')}"
  shows "case spec_quote d t (drop j data) st of
      Inl e \<Rightarrow> get_q_string (sc_to_ui d) f st = Inl e
    | Inr (x, src, v, st') \<Rightarrow> \<exists>f' y. get_q_string (sc_to_ui d) f st = Inr (y, f', st') \<and> x = Some y \<and>
        scan_at data src f' \<and> yylval f' = v"
proof -
  have d: "d = SQ \<or> d = DQ \<or> d = CHR 0x60" using assms(4) by auto
  have k: "length data + 2 \<le> scan_fuel f + j" using scan_fuel_flex [OF assms(1)] by simp
  note L = get_q_loop_scans [OF assms(1-3) k d, of "[]" False st]
  show ?thesis
  proof (cases "q_scan d [] False (drop j data)")
    case None
    then show ?thesis using L by (simp add: spec_quote_def get_q_string_def)
  next
    case (Some r)
    obtain s src where r: "r = (s, src)" by (cases r)
    then obtain f' where f': "get_q_loop (scan_fuel f) (sc_to_ui d) [] False f st = Inr (q_token (sc_to_ui d) s f' st)"
      "scan_at data src f'" using L Some by auto
    obtain i st' where a: "alloc_string s st = (i, st')" by (cases "alloc_string s st")
    have "q_token (sc_to_ui d) s f' st = (tok t, f'\<lparr>yylval := V_str i\<rparr>, st')"
      using assms(4) a by (auto simp: q_token_def new_SQLString_def)
    then show ?thesis using Some r f' a
      by (simp add: spec_quote_def get_q_string_def spec_string_def)
  qed
qed


text \<open>An action that ends at \<open>j\<close> does what the rule does on the rest of the query.\<close>

lemma action_refines:
  assumes "flex_at data j f" "yytext_ptr f < int j" "1 \<le> j" "yytext f = w"
  shows "case spec_action a w (drop j data) (yylval f) st of
      Inl e \<Rightarrow> yy_action a f st = Inl e
    | Inr (t, src, v, st') \<Rightarrow> \<exists>f'. yy_action a f st = Inr (t, f', st') \<and> scan_at data src f' \<and> yylval f' = v"
proof -
  have here: "scan_at data (Rest (drop j data)) f" using assms(1) by (auto simp: scan_at_def)
  have quote: ?thesis
    if "(d, t) \<in> {(SQ, ''Q_STRING''), (DQ, ''DQ_STRING''), (CHR 0x60, ''NAME'')}"
      "spec_action a w (drop j data) (yylval f) st = spec_quote d t (drop j data) st"
      "yy_action a f st = bindE (get_q_string (sc_to_ui d) f st) (\<lambda>(t, f, st). Inr (Some t, f, st))" for d t
    using get_q_string_scans [OF assms(1-3) that(1), of st] unfolding that(2,3)
    by (auto split: sum.splits)
  have pos: "yy_c_buf_p f < b_n_chars (cur f) - 1 \<longleftrightarrow> 1 < length (drop j data)"
    using assms(1) by (auto simp: flex_at_def buf_ok_def cur_def)
  show ?thesis
  proof (cases "yy_return a")
    case (Some t)
    then show ?thesis using here by (simp add: spec_action_def yy_action_def)
  next
    case None
    consider "a = 144" | "a = 145" | "a = 146" | "a = 116" | "a = 115 \<or> a = 121" | "a \<notin> {144, 145, 146, 116, 115, 121}" by blast
    then show ?thesis
    proof cases
      case 1
      show ?thesis by (rule quote [of SQ "''Q_STRING''"]) (use 1 None in \<open>simp_all add: spec_action_def yy_action_def sc_to_ui_codes\<close>)
    next
      case 2
      show ?thesis by (rule quote [of DQ "''DQ_STRING''"]) (use 2 None in \<open>simp_all add: spec_action_def yy_action_def sc_to_ui_codes\<close>)
    next
      case 3
      show ?thesis by (rule quote [of "CHR 0x60" "''NAME''"]) (use 3 None in \<open>simp_all add: spec_action_def yy_action_def sc_to_ui_codes\<close>)
    next
      case 4
      have "length data + 2 \<le> scan_fuel f + j" using scan_fuel_flex [OF assms(1)] by simp
      then show ?thesis using comment_loop_skips [OF assms(1,2), of "scan_fuel f" False] 4 None
        by (auto simp: spec_action_def yy_action_def word_action_def Let_def split: option.splits)
    next
      case 5
      then show ?thesis using None here assms(4)
        by (auto simp: spec_action_def yy_action_def word_action_def new_SQLString_def spec_string_def split: prod.splits)
    next
      case 6
      then show ?thesis using here assms(4) pos
        unfolding spec_action_def yy_action_def None option.case word_action_def separator_action_def Let_def by simp
    qed
  qed
qed


section \<open>One call of yylex\<close>

lemma skip_comment_length: "skip_comment star r = Some r' \<Longrightarrow> length r' \<le> length r"
  by (induction star r rule: skip_comment.induct) (auto split: if_splits)

lemma spec_action_None:
  assumes "spec_action a w r v st = Inr (None, src, v', st')"
  shows "\<exists>r'. src = Rest r' \<and> length r' \<le> length r"
  using assms unfolding spec_action_def
  by (auto simp: spec_quote_def spec_string_def skip_comment_length split: option.splits if_splits prod.splits)

lemma yylex_run_refines:
  assumes "flex_at data i f" "5 * (length data - i) + 5 \<le> m"
  shows "case spec_lex (drop i data) (yylval f) st of
      Inl e \<Rightarrow> yylex_run m Next_token f st = Inl e
    | Inr (t, v, src, st') \<Rightarrow> \<exists>f'. yylex_run m Next_token f st = Inr (t, f', st') \<and> scan_at data src f' \<and> yylval f' = v"
  using assms
proof (induction "length data - i" arbitrary: i f m st rule: less_induct)
  case less
  obtain k where k: "m = k + 5" "5 * (length data - i) \<le> k" using less.prems(2) le_Suc_ex [of 5 m] by (auto simp: add.commute)
  have i: "i \<le> length data" using less.prems(1) by (simp add: flex_at_def)
  show ?case
  proof (cases "i = length data")
    case True
    obtain f' where f': "yylex_run (Suc k + 4) Next_token f st = Inr (0, f', st)" "flex_at data (length data) f'" "yylval f' = yylval f"
      using scan_eof [of data f "Suc k" st] less.prems(1) True by auto
    moreover have "Suc k + 4 = m" using k(1) by simp
    ultimately have "yylex_run m Next_token f st = Inr (0, f', st)" by simp
    then show ?thesis using True f'(2,3) by (auto simp: spec_lex.simps scan_at_def)
  next
    case False
    then have l: "i < length data" "drop i data \<noteq> []" using i by simp_all
    obtain a n where an: "longest (drop i data) = (a, n)" by (cases "longest (drop i data)")
    let ?next = "\<lambda>k' (r, f, st). case r of Some t \<Rightarrow> Inr (t, f, st) | None \<Rightarrow> yylex_run k' Next_token f st"
    obtain k' f1 where f1: "k \<le> k'" "1 \<le> n" "i + n \<le> length data" "flex_at data (i + n) f1" "yytext_ptr f1 = int i"
      "yytext f1 = take n (drop i data)" "yylval f1 = yylval f"
      "yylex_run (k + 5) Next_token f st = bindE (yy_action a f1 st) (?next k')"
      using scan_token [OF less.prems(1) l(1) an, of k st] by blast
    have d: "drop (i + n) data = drop n (drop i data)" by (simp add: add.commute)
    have A: "case spec_action a (take n (drop i data)) (drop (i + n) data) (yylval f) st of
        Inl e \<Rightarrow> yy_action a f1 st = Inl e
      | Inr (t, src, v, st') \<Rightarrow> \<exists>f'. yy_action a f1 st = Inr (t, f', st') \<and> scan_at data src f' \<and> yylval f' = v"
      using action_refines [OF f1(4) _ _ f1(6), of a st] f1(2,5,7) by simp
    show ?thesis
    proof (cases "spec_action a (take n (drop i data)) (drop (i + n) data) (yylval f) st")
      case (Inl e)
      then show ?thesis using A an l(2) f1(8) k(1) unfolding d by (simp add: spec_lex.simps [of "drop i data"])
    next
      case (Inr r)
      obtain t src v st' where r: "r = (t, src, v, st')" by (cases r)
      then obtain f2 where f2: "yy_action a f1 st = Inr (t, f2, st')" "scan_at data src f2" "yylval f2 = v"
        using A Inr by auto
      show ?thesis
      proof (cases t)
        case (Some t')
        then show ?thesis using Inr r f2 an l(2) f1(8) k(1) unfolding d by (simp add: spec_lex.simps [of "drop i data"])
      next
        case None
        have run: "yylex_run m Next_token f st = yylex_run k' Next_token f2 st'" using f1(8) f2(1) None k(1) by simp
        obtain r' where r': "src = Rest r'" "length r' \<le> length (drop (i + n) data)"
          using spec_action_None Inr r None by blast
        then obtain j where j: "r' = drop j data" "flex_at data j f2" using f2(2) by (auto simp: scan_at_def)
        then have lt: "length data - j < length data - i" using r'(2) f1(2,3) by (simp add: flex_at_def)
        have "spec_lex (drop i data) (yylval f) st = spec_lex (drop j data) (yylval f2) st'"
          using Inr r None r' j lt an l(2) f2(3) unfolding d
          by (subst spec_lex.simps) (simp add: bindE_def)
        then show ?thesis unfolding run using less.hyps [OF lt j(2), of k' st'] lt k(2) f1(1) by simp
      qed
    qed
  qed
qed


section \<open>From the first call to the last\<close>

text \<open>Between two queries no buffer is open.\<close>

definition idle :: "flex \<Rightarrow> bool" where
  "idle f \<longleftrightarrow> yy_current f = None \<and> yy_start f = (if yy_init f then 1 else 0)"

lemma idle_start: "idle flex_start"
  by (simp add: idle_def flex_start_def)

text \<open>The scanner in front of a source; before its first call \<open>yylex\<close> initialises itself.\<close>

definition scan_ready :: "string \<Rightarrow> source \<times> YYSTYPE \<Rightarrow> flex \<Rightarrow> bool" where
  "scan_ready data s f \<longleftrightarrow> yylval f = snd s \<and>
     (scan_at data (fst s) f \<or>
      \<not> yy_init f \<and> yy_start f = 0 \<and> (\<exists>f'. scan_at data (fst s) f' \<and> yylval f' = yylval f \<and> (\<forall>st. yylex f st = yylex f' st)))"

lemma scan_string_ready:
  assumes "idle f" "NUL \<notin> set data"
  shows "\<exists>f'. yy_scan_string data f = Inr f' \<and> scan_ready data (Rest data, yylval f) f'"
proof -
  have c: "cstr data = data" using assms(2) by (simp add: cstr_id)
  define s where "s = data @ [NUL, NUL]"
  have len: "length s = length data + 2" by (simp add: s_def)
  then have at: "tab_at s 0 = Some (s ! 0)" using tab_at_in_range [of 0 s] by simp
  define b where "b = \<lparr>yy_input_file = None, yy_ch_buf = s, yy_buf_pos = 0, yy_buf_size = int (length data),
    b_n_chars = int (length data), yy_is_our_buffer = False, yy_fill_buffer = False, yy_buffer_status = YY_BUFFER_NEW\<rparr>"
  define g where "g = f\<lparr>yy_current := Some (b\<lparr>yy_is_our_buffer := True\<rparr>), yy_n_chars := int (length data),
    yytext_ptr := 0, yy_c_buf_p := 0, yyin := None, yy_hold_char := s ! 0, yy_did_buffer_switch_on_eof := True\<rparr>"
  define h where "h = g\<lparr>yy_init := True, yy_start := 1\<rparr>"
  have ends: "s ! length data = NUL" "s ! Suc (length data) = NUL" by (simp_all add: s_def nth_append)
  have load: "yy_load_buffer_state k = Inr (k\<lparr>yy_n_chars := int (length data), yytext_ptr := 0, yy_c_buf_p := 0,
      yyin := None, yy_hold_char := s ! 0\<rparr>)"
    if "yy_current k = Some b \<or> yy_current k = Some (b\<lparr>yy_is_our_buffer := True\<rparr>)" for k
    using that at by (auto simp: yy_load_buffer_state_def Let_def cur_def peek_def b_def)
  have "yy_scan_buffer s f = bindE (yy_switch_to_buffer b f) (\<lambda>f. Inr (True, f))"
    using len ends by (simp add: yy_scan_buffer_def Let_def b_def)
  then have scan: "yy_scan_string data f = Inr g"
    unfolding yy_scan_string_def c yy_scan_bytes_def s_def [symmetric]
    by (simp add: yy_switch_to_buffer_def load upd_cur_def g_def) 
  have at_h: "flex_at data 0 h"
    using assms(2) len unfolding flex_at_def h_def g_def
    by (auto simp: buf_ok_def b_def s_def intro!: exI [of _ "b\<lparr>yy_is_our_buffer := True\<rparr>"])
  then have sh: "scan_at data (Rest data) h" by (auto simp: scan_at_def intro!: exI [of _ 0])
  have v: "yylval g = yylval f" "yylval h = yylval f" by (simp_all add: h_def g_def)
  show ?thesis
  proof (cases "yy_init f")
    case True
    then have "g = h" using assms(1) by (cases f) (simp add: h_def g_def idle_def)
    then show ?thesis using scan sh v by (simp add: scan_ready_def)
  next
    case False
    then have "yylex g st = yylex h st" for st
      using assms(1) unfolding yylex_def
      by (cases f) (simp add: Let_def load ensure_current_def idle_def g_def h_def)
    moreover have "\<not> yy_init g" "yy_start g = 0" using assms(1) False by (simp_all add: g_def idle_def)
    ultimately show ?thesis using scan sh v unfolding scan_ready_def by auto
  qed
qed


lemma yylex_refines:
  assumes "scan_at data (Rest q) f"
  shows "case spec_lex q (yylval f) st of
      Inl e \<Rightarrow> yylex f st = Inl e
    | Inr (t, v, src, st') \<Rightarrow> \<exists>f'. yylex f st = Inr (t, f', st') \<and> scan_at data src f' \<and> yylval f' = v"
proof -
  obtain j where j: "q = drop j data" "flex_at data j f" using assms by (auto simp: scan_at_def)
  then have e: "yylex f st = yylex_run (scan_fuel f) Next_token f st"
    by (auto simp: yylex_def flex_at_def buf_ok_def)
  have "5 * (length data - j) + 5 \<le> scan_fuel f" using scan_fuel_flex [OF j(2)] by simp
  then show ?thesis unfolding e j(1) by (rule yylex_run_refines [OF j(2)])
qed

lemma yylex_Flushed: "scan_at data Flushed f \<Longrightarrow> yylex f st = Inl Null_file"
proof -
  assume f: "scan_at data Flushed f"
  then have i: "yy_init f" by (auto simp: scan_at_def flushed_def)
  have "scan_fuel f = (scan_fuel f - 5) + 5" by (simp add: scan_fuel_def)
  then show ?thesis using yylex_flushed [of data f "scan_fuel f - 5" st] f i by (simp add: yylex_def scan_at_def)
qed

lemma flex_lexer_refines:
  assumes "scan_ready data s f"
  shows "case spec_lexer s st of
      Inl e \<Rightarrow> flex_lexer f st = Inl e
    | Inr (t, v, s', st') \<Rightarrow> \<exists>f'. flex_lexer f st = Inr (t, v, f', st') \<and> scan_ready data s' f'"
proof -
  obtain src v where s: "s = (src, v)" by (cases s)
  obtain g where g: "scan_at data src g" "yylval g = v" "yylex f st = yylex g st"
    using assms s unfolding scan_ready_def by auto
  show ?thesis
  proof (cases src)
    case Flushed
    then show ?thesis using g yylex_Flushed [of data g st] s by (simp add: spec_lexer_def flex_lexer_def)
  next
    case (Rest q)
    then show ?thesis using g(2,3) yylex_refines [of data q g st] g(1) s
      by (auto simp: spec_lexer_def flex_lexer_def scan_ready_def split: sum.splits)
  qed
qed

end
