(* ===== verification/YaccLexer.thy ===== *)
theory YaccLexer
  imports ScanRefine
begin

text \<open>
  \<open>yyparse\<close> and its lexer.  The parser reaches the query only through \<open>yylex\<close>, so a lexer that is refined
  by another can take its place: the parser over the generated scanner does what the parser over the
  scanner on strings does.  It also takes no decision on a semantic value, so two lexers with the same
  tokens lead it the same way whatever the values and the objects are.
\<close>

section \<open>Replacing the lexer\<close>

text \<open>\<open>full\<close> tells whether the two runs agree on values and objects, too.\<close>

definition same_state :: "bool \<Rightarrow> ('s \<Rightarrow> 't \<Rightarrow> bool) \<Rightarrow> 's yystate \<Rightarrow> 't yystate \<Rightarrow> bool" where
  "same_state full R c d \<longleftrightarrow> yyss d = yyss c \<and> yystacksize d = yystacksize c \<and> yychar d = yychar c \<and>
     yyerrstatus d = yyerrstatus c \<and> yynerrs d = yynerrs c \<and> R (yylexer c) (yylexer d) \<and>
     (full \<longrightarrow> yyvs d = yyvs c \<and> yyvalue d = yyvalue c)"

definition same_round :: "bool \<Rightarrow> ('s \<Rightarrow> 't \<Rightarrow> bool) \<Rightarrow> yy_fault + 's yy_next_round \<Rightarrow> yy_fault + 't yy_next_round \<Rightarrow> bool" where
  "same_round full R m n \<longleftrightarrow>
     (case m of
        Inl e \<Rightarrow> n = Inl e
      | Inr (Yy_newstate c st) \<Rightarrow> \<exists>d st'. n = Inr (Yy_newstate d st') \<and> same_state full R c d \<and> (full \<longrightarrow> st' = st)
      | Inr (Yy_return r c st) \<Rightarrow> \<exists>d st'. n = Inr (Yy_return r d st') \<and> same_state full R c d \<and> (full \<longrightarrow> st' = st))"

lemma same_round_intros [intro]:
  "same_round full R (Inl e) (Inl e)"
  "same_state full R c d \<Longrightarrow> (full \<longrightarrow> st' = st) \<Longrightarrow> same_round full R (Inr (Yy_newstate c st)) (Inr (Yy_newstate d st'))"
  "same_state full R c d \<Longrightarrow> (full \<longrightarrow> st' = st) \<Longrightarrow> same_round full R (Inr (Yy_return r c st)) (Inr (Yy_return r d st'))"
  by (simp_all add: same_round_def)

text \<open>The stack of values plays no part in the recovery from an error.\<close>

definition no_values :: "yy_fault + (int \<times> int list \<times> YYSTYPE list) option \<Rightarrow> yy_fault + (int \<times> int list) option" where
  "no_values = map_sum id (map_option (\<lambda>(q, ss, vs). (q, ss)))"

lemma pop_error_values: "no_values (yy_pop_error ss vs) = no_values (yy_pop_error ss ws)"
proof (induction ss arbitrary: vs ws)
  case (Cons s ss)
  show ?case using Cons.IH [of "tl vs" "tl ws"] by (simp add: no_values_def Let_def split: option.split)
qed simp

lemma same_yyerrlab:
  assumes "same_state full R c d" "full \<longrightarrow> st' = st"
  shows "same_round full R (yyerrlab c st) (yyerrlab d st')"
proof (cases full)
  case True
  then show ?thesis using assms
    by (auto simp: same_round_def same_state_def yyerrlab_def Let_def bindE_def yypush_def split: sum.splits option.splits)
next
  case False
  have s: "yyss d = yyss c" using assms(1) by (simp add: same_state_def)
  have v: "no_values (yy_pop_error (yyss c) (yyvs c)) = no_values (yy_pop_error (yyss c) (yyvs d))" by (rule pop_error_values)
  show ?thesis using assms(1) False v
    unfolding yyerrlab_def Let_def
    by (cases "yy_pop_error (yyss c) (yyvs c)"; cases "yy_pop_error (yyss c) (yyvs d)")
       (auto simp: same_round_def same_state_def no_values_def yypush_def split: option.splits)
qed

lemma same_yyreduce:
  assumes "same_state full R c d" "full \<longrightarrow> st' = st" "full \<longrightarrow> p' = p"
  shows "same_round full R (yyreduce P conf p r c st) (yyreduce P conf p' r d st')"
  using assms
  by (auto simp: same_round_def same_state_def yyreduce_def Let_def yypush_def split: option.splits prod.splits)

lemma same_yydefault:
  assumes "same_state full R c d" "full \<longrightarrow> st' = st" "full \<longrightarrow> p' = p"
  shows "same_round full R (yydefault P conf p c st) (yydefault P conf p' d st')"
proof -
  have "yyss d = yyss c" using assms(1) by (simp add: same_state_def)
  then show ?thesis using same_yyerrlab [OF assms(1,2)] same_yyreduce [OF assms, of P conf]
    by (auto simp: yydefault_def split: option.splits)
qed

lemma same_yyshift: "same_state full R c d \<Longrightarrow> (full \<longrightarrow> st' = st) \<Longrightarrow> same_round full R (yyshift q c st) (yyshift q d st')"
  by (auto simp: yyshift_def same_state_def yypush_def Let_def)

lemma same_yyaction:
  assumes "same_state full R c d" "full \<longrightarrow> st' = st" "full \<longrightarrow> p' = p"
  shows "same_round full R (yyaction P conf p n c st) (yyaction P conf p' n d st')"
proof -
  let ?c = "if yychar c \<le> 0 then c\<lparr>yychar := 0\<rparr> else c" and ?d = "if yychar d \<le> 0 then d\<lparr>yychar := 0\<rparr> else d"
  have s: "same_state full R ?c ?d" using assms(1) by (simp add: same_state_def)
  then have e: "yychar ?d = yychar ?c" by (simp add: same_state_def)
  show ?thesis
  proof (cases "YYTRANSLATE (yychar ?c)")
    case None
    then show ?thesis unfolding yyaction_def Let_def e by auto
  next
    case (Some t)
    have "yyaction P conf p n c st = (let c = ?c; n = n + t in
        if n < 0 \<or> YYLAST < n \<or> tab_at yycheck n \<noteq> Some t then yydefault P conf p c st
        else case tab_at yytable n of None \<Rightarrow> Inl Out_of_bounds | Some q \<Rightarrow>
          if q \<le> 0 then yyreduce P conf p (- q) c st else yyshift q c st)"
      "yyaction P conf p' n d st' = (let c = ?d; n = n + t in
        if n < 0 \<or> YYLAST < n \<or> tab_at yycheck n \<noteq> Some t then yydefault P conf p' c st'
        else case tab_at yytable n of None \<Rightarrow> Inl Out_of_bounds | Some q \<Rightarrow>
          if q \<le> 0 then yyreduce P conf p' (- q) c st' else yyshift q c st')"
      unfolding yyaction_def Let_def e Some by (simp_all only: option.case)
    moreover have D: "same_round full R (yydefault P conf p ?c st) (yydefault P conf p' ?d st')"
      "same_round full R (yyreduce P conf p r ?c st) (yyreduce P conf p' r ?d st')"
      "same_round full R (yyshift r ?c st) (yyshift r ?d st')" for r
      using s assms(2,3) by (rule same_yydefault, rule same_yyreduce, intro same_yyshift)
    ultimately show ?thesis unfolding Let_def by (cases "tab_at yytable (n + t)") (simp_all only: option.case split: if_split, auto)
  qed
qed

lemma same_yysetstate:
  assumes "same_state full R c d"
  shows "fst (yysetstate d) = fst (yysetstate c) \<and> same_state full R (snd (yysetstate c)) (snd (yysetstate d))"
  using assms by (auto simp: yysetstate_def same_state_def Let_def)

text \<open>The contract: \<open>next'\<close> returns the tokens, and if \<open>full\<close> the values and objects, that
  \<open>next_token\<close> returns, from related states.\<close>

locale lexer_refinement =
  fixes next_token :: "'s yy_lexer" and next' :: "'t yy_lexer" and R :: "'s \<Rightarrow> 't \<Rightarrow> bool" and full :: bool
  assumes refines: "R s t \<Longrightarrow> (full \<longrightarrow> st2 = st) \<Longrightarrow>
    (case next_token s st of
       Inl e \<Rightarrow> next' t st2 = Inl e
     | Inr (x, v, s', st') \<Rightarrow> \<exists>v2 t' st2'. next' t st2 = Inr (x, v2, t', st2') \<and> R s' t' \<and> (full \<longrightarrow> v2 = v \<and> st2' = st'))"
begin

lemma lookahead_refines:
  assumes "same_state full R c d" "full \<longrightarrow> st2 = st"
  shows "case yylookahead next_token c st of
      Inl e \<Rightarrow> yylookahead next' d st2 = Inl e
    | Inr (c', st') \<Rightarrow> \<exists>d' st2'. yylookahead next' d st2 = Inr (d', st2') \<and> same_state full R c' d' \<and> (full \<longrightarrow> st2' = st')"
proof (cases "yychar c = YYEMPTY")
  case True
  have "R (yylexer c) (yylexer d)" "yychar d = yychar c" using assms(1) by (simp_all add: same_state_def)
  then show ?thesis using True refines [of "yylexer c" "yylexer d", OF _ assms(2)] assms
    by (auto simp: yylookahead_def same_state_def split: sum.splits)
next
  case False
  then show ?thesis using assms by (auto simp: yylookahead_def same_state_def)
qed

lemma backup_refines:
  assumes "same_state full R c d" "full \<longrightarrow> st2 = st" "full \<longrightarrow> p' = p"
  shows "same_round full R (yybackup next_token P conf p c st) (yybackup next' P conf p' d st2)"
proof -
  have ss: "yyss d = yyss c" using assms(1) by (simp add: same_state_def)
  show ?thesis
    using lookahead_refines [OF assms(1,2)] same_yydefault [OF assms, of P conf] assms(3)
    unfolding yybackup_def ss by (auto simp: bindE_def split: option.splits sum.splits intro: same_yyaction)
qed

lemma round_refines:
  assumes "same_state full R c d" "full \<longrightarrow> st2 = st" "full \<longrightarrow> p' = p"
  shows "same_round full R (yyround next_token P conf p c st) (yyround next' P conf p' d st2)"
proof -
  obtain r c1 d1 where "yysetstate c = (r, c1)" "yysetstate d = (r, d1)" "same_state full R c1 d1"
    using same_yysetstate [OF assms(1)] by (metis prod.collapse)
  then show ?thesis using backup_refines [of c1 d1, OF _ assms(2,3), of P conf] assms(2) by (cases r) (auto simp: yyround_def)
qed

lemma run_refines:
  assumes "same_state full R c d" "full \<longrightarrow> st2 = st" "full \<longrightarrow> p' = p"
  shows "case yyparse_run k next_token P conf p c st of
      Inl e \<Rightarrow> yyparse_run k next' P conf p' d st2 = Inl e
    | Inr (n, s, st') \<Rightarrow> \<exists>t st2'. yyparse_run k next' P conf p' d st2 = Inr (n, t, st2') \<and> R s t \<and> (full \<longrightarrow> st2' = st')"
  using assms(1,2)
proof (induction k arbitrary: c d st st2)
  case 0
  then show ?case by simp
next
  case (Suc k)
  note step = round_refines [OF Suc.prems assms(3), of P conf]
  show ?case
  proof (cases "yyround next_token P conf p c st")
    case (Inl e)
    then show ?thesis using step by (simp add: same_round_def)
  next
    case (Inr r)
    show ?thesis
    proof (cases r)
      case (Yy_newstate c1 st1)
      then obtain d1 st3 where "yyround next' P conf p' d st2 = Inr (Yy_newstate d1 st3)" "same_state full R c1 d1" "full \<longrightarrow> st3 = st1"
        using step Inr by (auto simp: same_round_def)
      then have e: "yyparse_run (Suc k) next_token P conf p c st = yyparse_run k next_token P conf p c1 st1"
        "yyparse_run (Suc k) next' P conf p' d st2 = yyparse_run k next' P conf p' d1 st3" "same_state full R c1 d1" "full \<longrightarrow> st3 = st1"
        using Inr Yy_newstate by simp_all
      show ?thesis unfolding e(1,2) by (rule Suc.IH [OF e(3,4)])
    next
      case (Yy_return n c1 st1)
      then show ?thesis using step Inr by (auto simp: same_round_def same_state_def)
    qed
  qed
qed

lemma parse_refines:
  assumes "R s t" "full \<longrightarrow> st2 = st" "full \<longrightarrow> p' = p"
  shows "case yyparse k next_token P conf p s st of
      Inl e \<Rightarrow> yyparse k next' P conf p' t st2 = Inl e
    | Inr (n, s', st') \<Rightarrow> \<exists>t' st2'. yyparse k next' P conf p' t st2 = Inr (n, t', st2') \<and> R s' t' \<and> (full \<longrightarrow> st2' = st')"
  unfolding yyparse_def using assms by (intro run_refines) (simp_all add: same_state_def yy_start_state_def)

end

section \<open>The scanner on strings in place of the generated one\<close>

interpretation scan: lexer_refinement spec_lexer flex_lexer "scan_ready data" True for data
proof unfold_locales
  fix s f and st2 st :: parse_state
  assume "scan_ready data s f" "True \<longrightarrow> st2 = st"
  then show "case spec_lexer s st of
       Inl e \<Rightarrow> flex_lexer f st2 = Inl e
     | Inr (x, v, s', st') \<Rightarrow> \<exists>v2 f' st2'. flex_lexer f st2 = Inr (x, v2, f', st2') \<and> scan_ready data s' f' \<and>
         (True \<longrightarrow> v2 = v \<and> st2' = st')"
    using flex_lexer_refines [of data s f st] by (auto split: sum.splits prod.splits)
qed

lemma idle_delete: "scan_ready data s f \<Longrightarrow> idle (yy_delete_buffer f)"
  by (auto simp: scan_ready_def scan_at_def flex_at_def buf_ok_def flushed_def idle_def yy_delete_buffer_def split: source.splits)

definition scan_string :: "'re pcre \<Rightarrow> GreenSQLConfig \<Rightarrow> 're SQLPatterns option \<Rightarrow> string
    \<Rightarrow> YYSTYPE \<Rightarrow> parse_state \<Rightarrow> yy_fault + (int \<times> (source \<times> YYSTYPE) \<times> parse_state)" where
  "scan_string P conf p q v st = yyparse (parse_fuel (length q)) spec_lexer P conf p (Rest q, v) st"

lemma scan_buffer_refines:
  assumes "idle f" "NUL \<notin> set q"
  shows "case scan_string P conf p q (yylval f) st of
      Inl e \<Rightarrow> scan_buffer P conf p q f st = Inl e
    | Inr (n, s, st') \<Rightarrow> \<exists>f'. scan_buffer P conf p q f st = Inr (f', st') \<and> idle f' \<and> yylval f' = snd s"
proof -
  obtain g where g: "yy_scan_string q f = Inr g" "scan_ready q (Rest q, yylval f) g"
    using scan_string_ready [OF assms] by blast
  show ?thesis using scan.parse_refines [OF g(2), of st st p p "parse_fuel (length q)" P conf] g(1) assms(2)
    unfolding scan_buffer_def scan_string_def
    by (auto simp: cstr_id idle_delete split: sum.splits) (auto simp: scan_ready_def yy_delete_buffer_def)
qed

section \<open>Control\<close>

text \<open>The tokens of the scanner on strings, and so the way of the parser, do not depend on values or objects.\<close>

definition same_lexeme :: "yy_fault + ('a \<times> 'b \<times> YYSTYPE \<times> parse_state) \<Rightarrow> yy_fault + ('a \<times> 'b \<times> YYSTYPE \<times> parse_state) \<Rightarrow> bool" where
  "same_lexeme m n \<longleftrightarrow>
     (case m of Inl e \<Rightarrow> n = Inl e | Inr (t, src, v, st) \<Rightarrow> \<exists>v' st'. n = Inr (t, src, v', st'))"

lemma same_spec_string: "same_lexeme (spec_string t s src st) (spec_string t s src st')"
  by (simp add: same_lexeme_def spec_string_def split_beta)

lemma same_spec_quote: "same_lexeme (spec_quote d t r st) (spec_quote d t r st')"
proof (cases "q_scan d [] False r")
  case (Some x)
  then show ?thesis using same_spec_string [of t "fst x" "snd x" st st'] by (simp add: spec_quote_def split_beta)
qed (simp add: spec_quote_def same_lexeme_def)

lemma same_spec_action: "same_lexeme (spec_action a w r v st) (spec_action a w r v' st')"
proof (cases "yy_return a")
  case None
  have "same_lexeme (Inr (t, src, v, st)) (Inr (t, src, v', st'))" for t src v st v' st' by (simp add: same_lexeme_def)
  then show ?thesis using None same_spec_string same_spec_quote
    by (auto simp: spec_action_def same_lexeme_def split: option.split)
qed (simp add: spec_action_def same_lexeme_def)

lemma same_spec_lex:
  "case spec_lex q v st of
     Inl e \<Rightarrow> spec_lex q v' st' = Inl e
   | Inr (t, w, src, st1) \<Rightarrow> \<exists>w' st2. spec_lex q v' st' = Inr (t, w', src, st2)"
proof (induction q v st arbitrary: v' st' rule: spec_lex.induct)
  case (1 q v st)
  show ?case
  proof (cases "q = []")
    case True
    then show ?thesis by (simp add: spec_lex.simps)
  next
    case False
    obtain a n where l: "longest q = (a, n)" by (cases "longest q")
    note A = same_spec_action [of a "take n q" "drop n q" v st v' st']
    have e: "spec_lex q v st = bindE (spec_action a (take n q) (drop n q) v st) (\<lambda>(t, src, v, st).
        case t of Some t \<Rightarrow> Inr (t, v, src, st)
        | None \<Rightarrow> (case src of Flushed \<Rightarrow> Inl Null_file
             | Rest r \<Rightarrow> if length r < length q then spec_lex r v st else Inl No_fuel))" for v st
      using False l by (subst spec_lex.simps) simp
    show ?thesis
    proof (cases "spec_action a (take n q) (drop n q) v st")
      case (Inl x)
      then show ?thesis using A by (simp add: e same_lexeme_def)
    next
      case (Inr x)
      obtain t src w st1 where x: "x = (t, src, w, st1)" by (cases x)
      obtain w' st2 where y: "spec_action a (take n q) (drop n q) v' st' = Inr (t, src, w', st2)"
        using A Inr x by (auto simp: same_lexeme_def)
      show ?thesis
      proof (cases "t = None \<and> (\<exists>r. src = Rest r \<and> length r < length q)")
        case True
        then obtain r where r: "t = None" "src = Rest r" "length r < length q" by blast
        have E: "spec_lex q v st = spec_lex r w st1" "spec_lex q v' st' = spec_lex r w' st2" using Inr x y r by (simp_all add: e)
        show ?thesis unfolding E
          using "1.IH" [OF False l [symmetric] refl Inr [unfolded x] refl refl refl r] .
      next
        case False
        then show ?thesis using Inr x y by (cases t; cases src) (auto simp: e)
      qed
    qed
  qed
qed

interpretation control: lexer_refinement spec_lexer spec_lexer "\<lambda>s t. fst t = fst s" False
proof unfold_locales
  fix s t :: "source \<times> YYSTYPE" and st2 st
  assume "fst t = fst s"
  then show "case spec_lexer s st of
       Inl e \<Rightarrow> spec_lexer t st2 = Inl e
     | Inr (x, v, s', st') \<Rightarrow> \<exists>v2 t' st2'. spec_lexer t st2 = Inr (x, v2, t', st2') \<and> fst t' = fst s' \<and>
         (False \<longrightarrow> v2 = v \<and> st2' = st')"
  proof (cases "fst s")
    case (Rest q)
    then show ?thesis using \<open>fst t = fst s\<close> same_spec_lex [where q = q and v = "snd s" and st = st and v' = "snd t" and st' = st2]
      by (cases "spec_lex q (snd s) st") (auto simp: spec_lexer_def)
  qed (simp add: spec_lexer_def)
qed

lemma scan_string_control:
  "case scan_string P conf p q v st of
     Inl e \<Rightarrow> scan_string P conf p' q v' st' = Inl e
   | Inr (n, s, st1) \<Rightarrow> \<exists>s' st2. scan_string P conf p' q v' st' = Inr (n, s', st2) \<and> fst s' = fst s"
  using control.parse_refines [of "(Rest q, v')" "(Rest q, v)" st' st p' p "parse_fuel (length q)" P conf]
  by (auto simp: scan_string_def split: sum.splits)

end
