(* ===== verification/YaccRun.thy ===== *)
theory YaccRun
  imports Lalr YaccLexer
begin

text \<open>
  Every run of \<open>yyparse\<close>: the stack is a path of the automaton, so no reduction takes more than the stack
  holds and no table is read outside its bounds, and the run ends.
\<close>

section \<open>The stack\<close>

fun lr_path :: "int list \<Rightarrow> bool" where
  "lr_path [] = False"
| "lr_path [s] = (s = 0)"
| "lr_path (s # t # ss) = (t \<in> set (preds s) \<and> lr_path (t # ss))"

definition stos :: "int \<Rightarrow> int" where
  "stos s = (case tab_at yystos s of Some a \<Rightarrow> a | None \<Rightarrow> -1)"

lemma path_Cons: "lr_path (s # ss) \<Longrightarrow> ss \<noteq> [] \<Longrightarrow> hd ss \<in> set (preds s) \<and> lr_path ss"
  by (cases ss) auto

lemma path_push: "lr_path ss \<Longrightarrow> hd ss \<in> set (preds q) \<Longrightarrow> lr_path (q # ss)"
  by (cases ss) auto

lemma path_range: "lr_path ss \<Longrightarrow> 0 \<le> hd ss \<and> hd ss \<le> 368"
  by (cases ss rule: lr_path.cases) (auto dest: pred_range)

lemma path_state_ok: "lr_path ss \<Longrightarrow> state_ok (hd ss)"
  using path_range by (auto intro: state_ok)

lemma back_ok_path:
  assumes "back_ok xs (hd ss) f" "lr_path ss"
  shows "length xs < length ss \<and> f (hd (drop (length xs) ss)) \<and> lr_path (drop (length xs) ss) \<and>
    map stos (take (length xs) ss) = xs"
  using assms
proof (induction xs arbitrary: ss)
  case Nil
  then show ?case by (cases ss) auto
next
  case (Cons x xs)
  obtain s ts where ss: "ss = s # ts" using Cons.prems(2) by (cases ss) auto
  have s: "s \<noteq> 0" "stos s = x" "list_all (\<lambda>q. back_ok xs q f) (preds s)"
    using Cons.prems(1) ss by (auto simp: stos_def)
  then have "ts \<noteq> []" using Cons.prems(2) ss by auto
  then have t: "hd ts \<in> set (preds s)" "lr_path ts" using path_Cons Cons.prems(2) ss by auto
  then have "back_ok xs (hd ts) f" using s(3) by (simp add: list_all_iff)
  then show ?case using Cons.IH [OF _ t(2)] s(2) ss by simp
qed

section \<open>A reduction\<close>

lemma reduction:
  fixes P :: "'re pcre"
  assumes "lr_path (yyss c)" "tab_at yydefact (hd (yyss c)) = Some r" "r \<noteq> 0" "hd (yyss c) \<noteq> YYFINAL"
  obtains a xs q where "tab_at sql_rules (r - 1) = Some (a, xs)" "length xs < length (yyss c)"
    "map stos (take (length xs) (yyss c)) = rev xs" "lr_path (q # drop (length xs) (yyss c))" "stos q = a"
    "rho q + 2 \<le> rho (hd (yyss c)) + int (length xs)"
    "yyreduce P conf p r c st =
      (let yyval = (if xs = [] then V_none else vsp (yyvs c) (length xs - 1));
           (yyval, st) = yy_semantic P conf p r (yyvs c) yyval st
       in Inr (Yy_newstate (yypush q yyval (c\<lparr>yyss := drop (length xs) (yyss c), yyvs := drop (length xs) (yyvs c)\<rparr>)) st))"
proof -
  have "reduce_ok (hd (yyss c)) r"
    using path_state_ok [OF assms(1)] assms(2) by (simp add: state_ok_def)
  then obtain a xs where a: "tab_at sql_rules (r - 1) = Some (a, xs)"
    "back_ok (rev xs) (hd (yyss c)) (goto_ok a (rho (hd (yyss c)) + int (length xs)))"
    using assms(3,4) by (auto simp: reduce_ok_def split: option.splits)
  have b: "length xs < length (yyss c)" "goto_ok a (rho (hd (yyss c)) + int (length xs)) (hd (drop (length xs) (yyss c)))"
    "lr_path (drop (length xs) (yyss c))" "map stos (take (length xs) (yyss c)) = rev xs"
    using back_ok_path [OF a(2) assms(1)] by simp_all
  then obtain q where q: "yygoto a (hd (drop (length xs) (yyss c))) = Some q" "hd (drop (length xs) (yyss c)) \<in> set (preds q)"
    "tab_at yystos q = Some a" "2 + rho q \<le> rho (hd (yyss c)) + int (length xs)"
    by (auto simp: goto_ok_def split: option.splits)
  have r: "tab_at yyr1 r = Some a" "tab_at yyr2 r = Some (int (length xs))"
    using all_fromD [OF rules_agree a(1)] by (simp_all add: rule_numbers_def)
  show thesis
  proof (rule that [OF a(1) b(1) b(4) _ _ _])
    show "lr_path (q # drop (length xs) (yyss c))" using path_push [OF b(3) q(2)] .
    show "stos q = a" using q(3) by (simp add: stos_def)
    show "rho q + 2 \<le> rho (hd (yyss c)) + int (length xs)" using q(4) by simp
    show "yyreduce P conf p r c st =
      (let yyval = (if xs = [] then V_none else vsp (yyvs c) (length xs - 1));
           (yyval, st) = yy_semantic P conf p r (yyvs c) yyval st
       in Inr (Yy_newstate (yypush q yyval (c\<lparr>yyss := drop (length xs) (yyss c), yyvs := drop (length xs) (yyvs c)\<rparr>)) st))"
      using b(1) q(1) r by (simp add: yyreduce_def Let_def nat_diff_distrib' split: prod.split)
  qed
qed

section \<open>The error token\<close>

lemma no_error_shift:
  assumes "lr_path ss" "tab_at yypact (hd ss) = Some n" "n \<noteq> -275"
  shows "tab_at yycheck (n + 1) \<noteq> Some 1"
proof
  assume c: "tab_at yycheck (n + 1) = Some 1"
  then have "n + 1 \<in> set (cells n)" using all_fromD [OF cells_ok c] by (simp add: cell_ok_def)
  moreover have "list_all (shift_ok (hd ss)) (cells n)"
    using path_state_ok [OF assms(1)] assms(2,3) by (simp add: state_ok_def shifts_ok_def)
  ultimately have "shift_ok (hd ss) (n + 1)" by (simp add: list_all_iff)
  then show False using c by (simp add: shift_ok_def split: option.splits)
qed

lemma pop_error_all: "lr_path ss \<Longrightarrow> yy_pop_error ss vs = Inr None"
proof (induction ss arbitrary: vs)
  case (Cons s ss)
  have "state_ok s" using path_state_ok [OF Cons.prems] by simp
  then obtain n where n: "tab_at yypact s = Some n" by (auto simp: state_ok_def split: option.splits)
  have "n = -275 \<or> tab_at yycheck (n + 1) \<noteq> Some 1" using no_error_shift [OF Cons.prems] n by auto
  then show ?case using n Cons.IH path_Cons [OF Cons.prems] by (auto simp: Let_def)
qed simp


lemma errlab_returns: "lr_path (yyss c) \<Longrightarrow> \<exists>c'. yyerrlab c st = Inr (Yy_return 1 c' st) \<and> yylexer c' = yylexer c"
  by (simp add: yyerrlab_def Let_def pop_error_all)

section \<open>Tokens\<close>

definition token_code :: "int \<Rightarrow> bool" where
  "token_code t \<longleftrightarrow> t = 0 \<or> (258 \<le> t \<and> t \<le> 338)"

lemma translate_all: "all_from (\<lambda>i t. 0 \<le> t \<and> t \<le> 83) 0 yytranslate"
  unfolding yytranslate_def by simp

lemma length_translate: "length yytranslate = 339"
  by (simp add: yytranslate_def)

lemma translate_token:
  assumes "token_code t"
  obtains y where "YYTRANSLATE t = Some y" "0 \<le> y" "y \<le> 83" "t = 0 \<longrightarrow> y = 0"
proof -
  have "0 \<le> t" "t < int (length yytranslate)" using assms by (auto simp: token_code_def length_translate)
  then obtain y where y: "tab_at yytranslate t = Some y" using tab_at_in_range by blast
  then have "YYTRANSLATE t = Some y" using assms by (auto simp: YYTRANSLATE_def token_code_def)
  moreover have "t = 0 \<longrightarrow> y = 0" using y by auto
  ultimately show thesis using that all_fromD [OF translate_all y] by blast
qed

section \<open>Steps\<close>

text \<open>What a run is made of, with the facts the certificate gives for each step.\<close>

definition shifted :: "int \<Rightarrow> 's yystate \<Rightarrow> 's yystate" where
  "shifted q c = yypush q (yyvalue c)
     (c\<lparr>yyerrstatus := (if yyerrstatus c \<noteq> 0 then yyerrstatus c - 1 else 0), yychar := YYEMPTY\<rparr>)"

definition reduced :: "int \<Rightarrow> nat \<Rightarrow> YYSTYPE \<Rightarrow> 's yystate \<Rightarrow> 's yystate" where
  "reduced q n v c = yypush q v (c\<lparr>yyss := drop n (yyss c), yyvs := drop n (yyvs c)\<rparr>)"

inductive yy_step :: "'s yy_lexer \<Rightarrow> 're pcre \<Rightarrow> GreenSQLConfig \<Rightarrow> 're SQLPatterns option
    \<Rightarrow> 's yystate \<times> parse_state \<Rightarrow> 's yystate \<times> parse_state \<Rightarrow> bool"
  for next_token :: "'s yy_lexer" and P :: "'re pcre" and conf and p where
  look: "\<lbrakk>yychar c = YYEMPTY; next_token (yylexer c) st = Inr (t, v, s, st')\<rbrakk>
    \<Longrightarrow> yy_step next_token P conf p (c, st) (c\<lparr>yychar := t, yyvalue := v, yylexer := s\<rparr>, st')"
| grow: "yy_step next_token P conf p (c, st) (c\<lparr>yystacksize := n\<rparr>, st)"
| shift: "\<lbrakk>token_code (yychar c); YYTRANSLATE (yychar c) = Some (stos q); lr_path (q # yyss c);
      yychar c = 0 \<longrightarrow> q = YYFINAL\<rbrakk>
    \<Longrightarrow> yy_step next_token P conf p (c, st) (shifted q c, st)"
| reduce: "\<lbrakk>tab_at sql_rules (r - 1) = Some (a, xs); length xs < length (yyss c);
      map stos (take (length xs) (yyss c)) = rev xs; lr_path (q # drop (length xs) (yyss c)); stos q = a;
      yy_semantic P conf p r (yyvs c) (if xs = [] then V_none else vsp (yyvs c) (length xs - 1)) st = (v, st')\<rbrakk>
    \<Longrightarrow> yy_step next_token P conf p (c, st) (reduced q (length xs) v c, st')"

abbreviation yy_steps where
  "yy_steps next_token P conf p \<equiv> (yy_step next_token P conf p)\<^sup>*\<^sup>*"

lemma default_cases:
  assumes "lr_path (yyss c)" "hd (yyss c) \<noteq> YYFINAL"
  shows "(\<exists>c'. yydefault P conf p c st = Inr (Yy_return 1 c' st) \<and> yylexer c' = yylexer c) \<or>
    (\<exists>q n v st'. yydefault P conf p c st = Inr (Yy_newstate (reduced q n v c) st') \<and> n < length (yyss c) \<and>
      lr_path (q # drop n (yyss c)) \<and> rho q + 2 \<le> rho (hd (yyss c)) + int n \<and>
      (\<forall>next_token. yy_step next_token P conf p (c, st) (reduced q n v c, st')))"
proof -
  have "state_ok (hd (yyss c))" using path_state_ok [OF assms(1)] .
  then obtain r where r: "tab_at yydefact (hd (yyss c)) = Some r" by (auto simp: state_ok_def split: option.splits)
  show ?thesis
  proof (cases "r = 0")
    case True
    then show ?thesis using r errlab_returns [OF assms(1), of st] by (auto simp: yydefault_def)
  next
    case False
    obtain a xs q where x: "tab_at sql_rules (r - 1) = Some (a, xs)" "length xs < length (yyss c)"
      "map stos (take (length xs) (yyss c)) = rev xs" "lr_path (q # drop (length xs) (yyss c))" "stos q = a"
      "rho q + 2 \<le> rho (hd (yyss c)) + int (length xs)"
      "yyreduce P conf p r c st =
        (let yyval = (if xs = [] then V_none else vsp (yyvs c) (length xs - 1));
             (yyval, st) = yy_semantic P conf p r (yyvs c) yyval st
         in Inr (Yy_newstate (yypush q yyval (c\<lparr>yyss := drop (length xs) (yyss c), yyvs := drop (length xs) (yyvs c)\<rparr>)) st))"
      by (rule reduction [OF assms(1) r False assms(2), where P = P and conf = conf and p = p and st = st])
    obtain v st' where v: "yy_semantic P conf p r (yyvs c) (if xs = [] then V_none else vsp (yyvs c) (length xs - 1)) st = (v, st')"
      by fastforce
    have "yydefault P conf p c st = Inr (Yy_newstate (reduced q (length xs) v c) st')"
      using r False x(7) v by (simp add: yydefault_def reduced_def)
    then show ?thesis using x(2,4,6) yy_step.reduce [OF x(1-5) v] by blast
  qed
qed

lemma action_cases:
  assumes "lr_path (yyss c)" "tab_at yypact (hd (yyss c)) = Some n" "n \<noteq> -275" "token_code (yychar c)"
  shows "yyaction P conf p n c st = yydefault P conf p c st \<or>
    (\<exists>q. yyaction P conf p n c st = Inr (Yy_newstate (shifted q c) st) \<and> lr_path (q # yyss c) \<and>
      YYTRANSLATE (yychar c) = Some (stos q) \<and> (yychar c = 0 \<longrightarrow> q = YYFINAL))"
proof -
  obtain t where t: "YYTRANSLATE (yychar c) = Some t" "0 \<le> t" "t \<le> 83" "yychar c = 0 \<longrightarrow> t = 0"
    by (rule translate_token [OF assms(4)])
  have c: "(if yychar c \<le> 0 then c\<lparr>yychar := 0\<rparr> else c) = c" using assms(4) by (cases c) (auto simp: token_code_def)
  show ?thesis
  proof (cases "n + t < 0 \<or> YYLAST < n + t \<or> tab_at yycheck (n + t) \<noteq> Some t")
    case True
    then show ?thesis using t(1) unfolding yyaction_def Let_def c by simp
  next
    case False
    then have k: "tab_at yycheck (n + t) = Some t" by simp
    have "n + t \<in> set (cells n)" using all_fromD [OF cells_ok k] t(2,3) by (simp add: cell_ok_def)
    moreover have "list_all (shift_ok (hd (yyss c))) (cells n)"
      using path_state_ok [OF assms(1)] assms(2,3) by (simp add: state_ok_def shifts_ok_def)
    ultimately have "shift_ok (hd (yyss c)) (n + t)" by (simp add: list_all_iff)
    then obtain q where q: "tab_at yytable (n + t) = Some q" "0 < q" "hd (yyss c) \<in> set (preds q)"
      "tab_at yystos q = Some t" "t = 0 \<longrightarrow> q = YYFINAL"
      using k by (auto simp: shift_ok_def split: option.splits)
    have "yyaction P conf p n c st = yyshift q c st"
      using False t(1) q(1,2) unfolding yyaction_def Let_def c by simp
    moreover have "stos q = t" using q(4) by (simp add: stos_def)
    ultimately show ?thesis using path_push [OF assms(1) q(3)] t(1,4) q(5)
      by (intro disjI2 exI [of _ q]) (auto simp: yyshift_def shifted_def Let_def)
  qed
qed


section \<open>Runs\<close>

text \<open>Between two rounds.\<close>

definition at_round :: "'s yystate \<Rightarrow> bool" where
  "at_round c \<longleftrightarrow> lr_path (yyss c) \<and> (yychar c = YYEMPTY \<or> token_code (yychar c))"

text \<open>What is left to do: 24 rounds for each token, the weight of the top and the height of the stack.\<close>

definition potential :: "('s \<Rightarrow> nat) \<Rightarrow> 's yystate \<Rightarrow> int" where
  "potential left c = 24 * int (left (yylexer c)) + (if yychar c \<le> 0 then 24 else 48) +
     rho (hd (yyss c)) + int (length (yyss c))"

lemma potential_pos: "24 \<le> potential left c"
  using rho_range [of "hd (yyss c)"] by (simp add: potential_def)

lemma setstate_size: "\<exists>k. snd (yysetstate c) = c\<lparr>yystacksize := k\<rparr>"
proof -
  have "\<exists>k. c = c\<lparr>yystacksize := k\<rparr>" by (rule exI [of _ "yystacksize c"]) simp
  then show ?thesis by (auto simp: yysetstate_def Let_def)
qed

lemma setstate_cases:
  obtains n k where "yysetstate c = (Some n, c\<lparr>yystacksize := k\<rparr>)" "n \<in> {0, 1, 2}" "n = 0 \<longrightarrow> hd (yyss c) = YYFINAL"
    | k where "yysetstate c = (None, c\<lparr>yystacksize := k\<rparr>)" "hd (yyss c) \<noteq> YYFINAL"
proof -
  obtain k where k: "snd (yysetstate c) = c\<lparr>yystacksize := k\<rparr>" using setstate_size by blast
  show thesis
  proof (cases "fst (yysetstate c)")
    case None
    have "hd (yyss c) \<noteq> YYFINAL" using None by (auto simp: yysetstate_def Let_def split: if_splits)
    then show thesis using that(2) k None by (metis prod.collapse)
  next
    case (Some n)
    have "n \<in> {0, 1, 2}" "n = 0 \<longrightarrow> hd (yyss c) = YYFINAL" using Some by (auto simp: yysetstate_def Let_def split: if_splits)
    then show thesis using that(1) k Some by (metis prod.collapse)
  qed
qed

text \<open>The contract of a lexer: in the states it can be in, it returns token codes and has less of the
  input left after each.\<close>

locale token_source =
  fixes next_token :: "'s yy_lexer" and good :: "'s \<Rightarrow> bool" and left :: "'s \<Rightarrow> nat" and fault :: yy_fault
  assumes token: "good s \<Longrightarrow> next_token s st = Inr (t, v, s', st') \<Longrightarrow>
      good s' \<and> token_code t \<and> (t = 0 \<longrightarrow> left s' \<le> left s) \<and> (t \<noteq> 0 \<longrightarrow> left s' < left s)"
    and fails: "good s \<Longrightarrow> next_token s st = Inl e \<Longrightarrow> e = fault"
begin

lemma lookahead_cases:
  assumes "at_round c" "good (yylexer c)"
  obtains "yylookahead next_token c st = Inl fault"
    | c' st' where "yylookahead next_token c st = Inr (c', st')" "yyss c' = yyss c" "token_code (yychar c')"
      "lr_path (yyss c')" "good (yylexer c')" "potential left c' \<le> potential left c" "(yy_step next_token P conf p)\<^sup>*\<^sup>* (c, st) (c', st')"
proof (cases "yychar c = YYEMPTY")
  case True
  show thesis
  proof (cases "next_token (yylexer c) st")
    case (Inl e)
    then show thesis using that(1) True fails assms(2) by (simp add: yylookahead_def)
  next
    case (Inr r)
    obtain t v s st' where r: "r = (t, v, s, st')" by (cases r)
    let ?c = "c\<lparr>yychar := t, yyvalue := v, yylexer := s\<rparr>"
    note n = Inr [unfolded r]
    show thesis
    proof (rule that(2) [of ?c st'])
      show "yylookahead next_token c st = Inr (?c, st')" using True n by (simp add: yylookahead_def)
      show "potential left ?c \<le> potential left c"
        using token [OF assms(2) n] True by (auto simp: potential_def YYEMPTY_def token_code_def)
      show "(yy_step next_token P conf p)\<^sup>*\<^sup>* (c, st) (?c, st')"
        using yy_step.look [where next_token = next_token, OF True n] by blast
    qed (use assms token [OF assms(2) n] in \<open>auto simp: at_round_def\<close>)
  qed
next
  case False
  then show thesis using that(2) [of c st] assms by (auto simp: at_round_def yylookahead_def)
qed

text \<open>One round: a fault of the lexer, a result, or a state with less to do or the final state on top.\<close>

lemma newstate_reduced:
  assumes "lr_path (q # drop n (yyss c))" "rho q + 2 \<le> rho (hd (yyss c)) + int n" "n < length (yyss c)" "token_code (yychar c) \<or> yychar c = YYEMPTY"
  shows "at_round (reduced q n v c) \<and> potential left (reduced q n v c) < potential left c"
  using assms by (auto simp: at_round_def reduced_def yypush_def potential_def)

lemma newstate_shifted:
  assumes "lr_path (q # yyss c)" "token_code (yychar c)" "yychar c = 0 \<longrightarrow> q = YYFINAL"
  shows "at_round (shifted q c) \<and> (potential left (shifted q c) < potential left c \<or> q = YYFINAL)"
  using assms rho_range [of q] rho_range [of "hd (yyss c)"]
  by (auto simp: at_round_def shifted_def yypush_def potential_def YYEMPTY_def token_code_def)

definition round_ok :: "'re pcre \<Rightarrow> GreenSQLConfig \<Rightarrow> 're SQLPatterns option \<Rightarrow> 's yystate \<Rightarrow> parse_state
    \<Rightarrow> yy_fault + 's yy_next_round \<Rightarrow> bool" where
  "round_ok P conf p c st m \<longleftrightarrow>
     (case m of
        Inl e \<Rightarrow> e = fault
      | Inr (Yy_return n c' st') \<Rightarrow> n \<in> {0, 1, 2} \<and>
          (\<exists>d. (yy_step next_token P conf p)\<^sup>*\<^sup>* (c, st) (d, st') \<and> yylexer c' = yylexer d \<and> (n = 0 \<longrightarrow> hd (yyss d) = YYFINAL))
      | Inr (Yy_newstate c' st') \<Rightarrow> at_round c' \<and> good (yylexer c') \<and>
          (potential left c' < potential left c \<or> hd (yyss c') = YYFINAL) \<and>
          (yy_step next_token P conf p)\<^sup>*\<^sup>* (c, st) (c', st'))"

lemma round_ok_after:
  assumes "(yy_step next_token P conf p)\<^sup>*\<^sup>* (c, st) (d, st')" "potential left d \<le> potential left c" "round_ok P conf p d st' m"
  shows "round_ok P conf p c st m"
  using assms unfolding round_ok_def
  by (auto split: sum.splits yy_next_round.splits intro: rtranclp_trans)

lemma default_ok:
  assumes "lr_path (yyss c)" "hd (yyss c) \<noteq> YYFINAL" "yychar c = YYEMPTY \<or> token_code (yychar c)" "good (yylexer c)"
  shows "round_ok P conf p c st (yydefault P conf p c st)"
  using default_cases [OF assms(1,2), of P conf p st]
proof
  assume "\<exists>c'. yydefault P conf p c st = Inr (Yy_return 1 c' st) \<and> yylexer c' = yylexer c"
  then show ?thesis by (auto simp: round_ok_def)
next
  assume "\<exists>q n v st'. yydefault P conf p c st = Inr (Yy_newstate (reduced q n v c) st') \<and> n < length (yyss c) \<and>
      lr_path (q # drop n (yyss c)) \<and> rho q + 2 \<le> rho (hd (yyss c)) + int n \<and>
      (\<forall>next_token. yy_step next_token P conf p (c, st) (reduced q n v c, st'))"
  then obtain q n v st' where q: "yydefault P conf p c st = Inr (Yy_newstate (reduced q n v c) st')" "n < length (yyss c)"
    "lr_path (q # drop n (yyss c))" "rho q + 2 \<le> rho (hd (yyss c)) + int n"
    "yy_step next_token P conf p (c, st) (reduced q n v c, st')" by blast
  then show ?thesis using newstate_reduced [OF q(3,4,2), of v] assms(3,4)
    by (auto simp: round_ok_def reduced_def yypush_def)
qed

lemma action_ok:
  assumes "lr_path (yyss c)" "hd (yyss c) \<noteq> YYFINAL" "tab_at yypact (hd (yyss c)) = Some n" "n \<noteq> -275" "token_code (yychar c)"
    "good (yylexer c)"
  shows "round_ok P conf p c st (yyaction P conf p n c st)"
  using action_cases [OF assms(1,3-5), of P conf p st]
proof
  assume "yyaction P conf p n c st = yydefault P conf p c st"
  then show ?thesis using default_ok [OF assms(1,2), of P conf p st] assms(5,6) by simp
next
  assume "\<exists>q. yyaction P conf p n c st = Inr (Yy_newstate (shifted q c) st) \<and> lr_path (q # yyss c) \<and>
      YYTRANSLATE (yychar c) = Some (stos q) \<and> (yychar c = 0 \<longrightarrow> q = YYFINAL)"
  then obtain q where q: "yyaction P conf p n c st = Inr (Yy_newstate (shifted q c) st)" "lr_path (q # yyss c)"
    "YYTRANSLATE (yychar c) = Some (stos q)" "yychar c = 0 \<longrightarrow> q = YYFINAL" by blast
  have "yy_step next_token P conf p (c, st) (shifted q c, st)" using yy_step.shift [OF assms(5) q(3,2,4)] .
  then show ?thesis using newstate_shifted [OF q(2) assms(5) q(4)] q(1) assms(6)
    by (auto simp: round_ok_def shifted_def yypush_def)
qed

lemma round_cases:
  assumes "at_round c" "good (yylexer c)"
  shows "round_ok P conf p c st (yyround next_token P conf p c st)"
proof (cases rule: setstate_cases [of c])
  case (1 n k)
  then show ?thesis by (auto simp: yyround_def round_ok_def)
next
  case (2 k)
  define d where "d = c\<lparr>yystacksize := k\<rparr>"
  have d: "at_round d" "potential left d = potential left c" "hd (yyss d) \<noteq> YYFINAL" "good (yylexer d)"
    using assms 2(2) by (simp_all add: d_def at_round_def potential_def)
  have "round_ok P conf p d st (yybackup next_token P conf p d st)"
  proof -
    have "state_ok (hd (yyss d))" using path_state_ok d(1) by (simp add: at_round_def)
    then obtain n where n: "tab_at yypact (hd (yyss d)) = Some n" by (auto simp: state_ok_def split: option.splits)
    show ?thesis
    proof (cases "n = -275")
      case True
      then show ?thesis using n default_ok [of d P conf p st] d(1,3,4) by (simp add: yybackup_def at_round_def)
    next
      case False
      show ?thesis
      proof (rule lookahead_cases [OF d(1,4), where P = P and conf = conf and p = p and st = st])
        assume "yylookahead next_token d st = Inl fault"
        then show ?thesis using n False by (simp add: yybackup_def round_ok_def)
      next
        fix e st'
        assume e: "yylookahead next_token d st = Inr (e, st')" "yyss e = yyss d" "token_code (yychar e)"
          "lr_path (yyss e)" "good (yylexer e)" "potential left e \<le> potential left d" "(yy_step next_token P conf p)\<^sup>*\<^sup>* (d, st) (e, st')"
        have "yybackup next_token P conf p d st = yyaction P conf p n e st'" using n False e(1) by (simp add: yybackup_def)
        then show ?thesis using round_ok_after [OF e(7,6)] action_ok [of e n P conf p st'] e(2-5) d(3) n False by simp
      qed
    qed
  qed
  moreover have "yyround next_token P conf p c st = yybackup next_token P conf p d st" using 2(1) by (simp add: yyround_def d_def)
  moreover have "(yy_step next_token P conf p)\<^sup>*\<^sup>* (c, st) (d, st)" unfolding d_def by (rule r_into_rtranclp, rule yy_step.grow)
  ultimately show ?thesis using round_ok_after [of P conf p c st d st] d(2) by simp
qed

text \<open>With more fuel than there is to do a run ends, and it is a sequence of steps.\<close>

lemma run_ends:
  assumes "at_round c" "good (yylexer c)" "potential left c < int k \<or> (hd (yyss c) = YYFINAL \<and> 0 < k)"
  shows "case yyparse_run k next_token P conf p c st of
      Inl e \<Rightarrow> e = fault
    | Inr (n, s, st') \<Rightarrow> n \<in> {0, 1, 2} \<and>
        (\<exists>d. (yy_step next_token P conf p)\<^sup>*\<^sup>* (c, st) (d, st') \<and> s = yylexer d \<and> (n = 0 \<longrightarrow> hd (yyss d) = YYFINAL))"
  using assms
proof (induction k arbitrary: c st)
  case 0
  then show ?case using potential_pos [of left c] by simp
next
  case (Suc k)
  note R = round_cases [OF Suc.prems(1,2), of P conf p st]
  show ?case
  proof (cases "yyround next_token P conf p c st")
    case (Inl e)
    then show ?thesis using R by (simp add: round_ok_def)
  next
    case (Inr r)
    show ?thesis
    proof (cases r)
      case (Yy_return n c' st')
      then show ?thesis using R Inr by (simp add: round_ok_def)
    next
      case (Yy_newstate c' st')
      then have n: "at_round c'" "good (yylexer c')" "potential left c' < potential left c \<or> hd (yyss c') = YYFINAL"
        "(yy_step next_token P conf p)\<^sup>*\<^sup>* (c, st) (c', st')"
        using R Inr by (auto simp: round_ok_def)
      have run: "yyparse_run (Suc k) next_token P conf p c st = yyparse_run k next_token P conf p c' st'"
        using Inr Yy_newstate by simp
      show ?thesis
      proof (cases "hd (yyss c) = YYFINAL")
        case True
        then have False using Inr Yy_newstate by (auto simp: yyround_def yysetstate_def Let_def split: if_splits prod.splits)
        then show ?thesis ..
      next
        case False
        then have "potential left c < int (Suc k)" using Suc.prems(3) by simp
        then have "potential left c' < int k \<or> (hd (yyss c') = YYFINAL \<and> 0 < k)" using n(3) potential_pos [of left c] by auto
        then show ?thesis unfolding run using Suc.IH [OF n(1,2), of st'] n(4)
          by (auto split: sum.splits intro: rtranclp_trans)
      qed
    qed
  qed
qed

lemma parse_ends:
  assumes "good s" "24 * int (left s) + 48 < int k"
  shows "case yyparse k next_token P conf p s st of
      Inl e \<Rightarrow> e = fault
    | Inr (n, s', st') \<Rightarrow> n \<in> {0, 1, 2} \<and>
        (\<exists>d. (yy_step next_token P conf p)\<^sup>*\<^sup>* (yy_start_state s, st) (d, st') \<and> s' = yylexer d \<and> (n = 0 \<longrightarrow> hd (yyss d) = YYFINAL))"
  unfolding yyparse_def
proof (rule run_ends)
  show "at_round (yy_start_state s)" by (simp add: at_round_def yy_start_state_def)
  show "good (yylexer (yy_start_state s))" using assms(1) by (simp add: yy_start_state_def)
  show "potential left (yy_start_state s) < int k \<or> (hd (yyss (yy_start_state s)) = YYFINAL \<and> 0 < k)"
    using assms(2) rho_range [of 0] by (simp add: potential_def yy_start_state_def YYEMPTY_def)
qed

end

section \<open>Runs over a refined lexer\<close>

context lexer_refinement
begin

text \<open>Steps are related for lexers that agree on values.\<close>

lemma step_refines:
  assumes full and "yy_step next' P conf p a b" "same_state True R c (fst a)"
  shows "\<exists>d. yy_step next_token P conf p (c, snd a) (d, snd b) \<and> same_state True R d (fst b)"
  using assms(2,3)
proof (induction rule: yy_step.induct)
  case (look e st t v s st')
  have c: "yychar c = YYEMPTY" "R (yylexer c) (yylexer e)" using look by (simp_all add: same_state_def)
  obtain s0 where s0: "next_token (yylexer c) st = Inr (t, v, s0, st')" "R s0 s"
    using refines [OF c(2), of st st] assms(1) look.hyps(2) by (cases "next_token (yylexer c) st") auto
  show ?case using yy_step.look [where next_token = next_token, OF c(1) s0(1)] s0(2) look.prems
    by (intro exI [of _ "c\<lparr>yychar := t, yyvalue := v, yylexer := s0\<rparr>"]) (simp add: same_state_def)
next
  case (grow e st n)
  then show ?case using yy_step.grow
    by (intro exI [of _ "c\<lparr>yystacksize := n\<rparr>"]) (simp add: same_state_def)
next
  case (shift e q st)
  then have "yychar e = yychar c" "yyss e = yyss c" by (simp_all add: same_state_def)
  then have "yy_step next_token P conf p (c, st) (shifted q c, st)" using shift.hyps by (intro yy_step.shift) simp_all
  then show ?case using shift.prems
    by (intro exI [of _ "shifted q c"]) (simp add: same_state_def shifted_def yypush_def)
next
  case (reduce r a xs e q st v st')
  have "yyvs e = yyvs c" "yyss e = yyss c" using reduce.prems by (simp_all add: same_state_def)
  note hyps = reduce.hyps [unfolded this]
  have "yy_step next_token P conf p (c, st) (reduced q (length xs) v c, st')" by (rule yy_step.reduce [OF hyps])
  then show ?case using reduce.prems
    by (intro exI [of _ "reduced q (length xs) v c"]) (simp add: same_state_def reduced_def yypush_def)
qed

lemma steps_refine:
  assumes full and "yy_steps next' P conf p (e, st) (e', st')" "same_state True R c e"
  shows "\<exists>d. yy_steps next_token P conf p (c, st) (d, st') \<and> same_state True R d e'"
  using assms(2)
proof (induction "(e', st')" arbitrary: e' st' rule: rtranclp_induct)
  case base
  then show ?case using assms(3) by blast
next
  case (step y)
  obtain d where "yy_steps next_token P conf p (c, st) (d, snd y)" "same_state True R d (fst y)" using step(3) [of "fst y" "snd y"] by auto
  then show ?case using step_refines [OF assms(1) step(2), of d] by (auto intro: rtranclp.rtrancl_into_rtrancl)
qed

end

end
