(* ===== verification/Ownership.thy ===== *)
theory Ownership
  imports YaccRun
begin

text \<open>
  Who owns the strings and expressions of a parse.  Each symbol has a type, the member of the union its
  semantic value is read as; the values of the stack and of the lookahead token own distinct objects
  that are alive, so no action reads a wrong member or uses a deleted object.
\<close>

section \<open>Types of symbols\<close>

datatype ty = T_none | T_int | T_str | T_exp

text \<open>\<open>simple_fn\<close> is declared with an expression but no action makes one, and none reads it.\<close>

definition sym_ty :: "int \<Rightarrow> ty" where
  "sym_ty a =
     (if a \<in> {65, 70} then T_int
      else if a \<in> {66, 67, 68, 69, 104} then T_str
      else if a \<in> {86, 98, 99, 100, 102, 103, 105, 113, 119, 121, 136, 137, 138, 139} then T_exp
      else T_none)"

lemma typed_symbols:
  "map sym_ty (map sym [''INTEGER'', ''VARIABLE'']) = [T_int, T_int]"
  "map sym_ty (map sym [''STRING'', ''Q_STRING'', ''DQ_STRING'', ''NAME'', ''table_field'']) = [T_str, T_str, T_str, T_str, T_str]"
  "map sym_ty (map sym [''select_cmd'', ''select_exps'', ''select_exp'', ''math_op'', ''math_exp'', ''field'', ''const_value'',
     ''simple_table'', ''fn'', ''fn_args'', ''case_fn'', ''case_cases'', ''case_case'', ''cast_fn'']) = replicate 14 T_exp"
  by (simp_all add: sym_ty_def numeral_eq_Suc)

section \<open>Ownership\<close>

fun value_ok :: "parse_state \<Rightarrow> ty \<times> YYSTYPE \<Rightarrow> bool" where
  "value_ok st (T_none, v) = True"
| "value_ok st (T_int, v) = (\<exists>n. v = V_int n)"
| "value_ok st (T_str, v) = (\<exists>i. v = V_str i \<and> i \<in> dom (str_heap st))"
| "value_ok st (T_exp, v) = (\<exists>x. v = V_exp x \<and> x \<in> dom (exp_heap st))"

text \<open>Two values that own the same object.\<close>

definition apart :: "ty \<times> YYSTYPE \<Rightarrow> ty \<times> YYSTYPE \<Rightarrow> bool" where
  "apart a b \<longleftrightarrow> \<not> (fst a = fst b \<and> fst a \<in> {T_str, T_exp} \<and> snd a = snd b)"

definition owned :: "(ty \<times> YYSTYPE) list \<Rightarrow> parse_state \<Rightarrow> bool" where
  "owned tvs st \<longleftrightarrow> list_all (value_ok st) tvs \<and> sorted_wrt apart tvs \<and> parse_wf st \<and> \<not> bad st"

lemma apart_sym: "apart a b = apart b a"
  by (auto simp: apart_def)

lemma owned_none [simp]: "owned ((T_none, v) # tvs) st = owned tvs st"
  by (auto simp: owned_def apart_def)

lemma owned_append: "owned (as @ bs) st \<Longrightarrow> owned bs st"
  by (simp add: owned_def sorted_wrt_append)

lemma owned_risk [simp]: "owned tvs (set_risk f st) = owned tvs st"
proof -
  have "value_ok (set_risk f st) = value_ok st"
  proof
    fix tv show "value_ok (set_risk f st) tv = value_ok st tv" by (cases "(st, tv)" rule: value_ok.cases) (simp_all add: set_risk_def)
  qed
  then show ?thesis by (simp add: owned_def set_risk_def parse_wf_def)
qed

text \<open>The values of some of the symbols a rule takes off the stack.\<close>

lemma owned_pick:
  assumes "owned (zip ts ws @ os) st" "i < length ts" "i < length ws"
  shows "owned ((ts ! i, ws ! i) # os) st"
proof -
  have "(ts ! i, ws ! i) \<in> set (zip ts ws)" using assms(2,3) by (auto simp: set_zip)
  then show ?thesis using assms(1) by (auto simp: owned_def sorted_wrt_append list_all_iff)
qed

lemma owned_pick2:
  assumes "owned (zip ts ws @ os) st" "i < length ts" "i < length ws" "j < length ts" "j < length ws" "i \<noteq> j"
  shows "owned ((ts ! i, ws ! i) # (ts ! j, ws ! j) # os) st"
proof -
  have "sorted_wrt apart (zip ts ws)" using assms(1) by (simp add: owned_def sorted_wrt_append)
  then have "apart (zip ts ws ! i) (zip ts ws ! j)"
    using sorted_wrt_nth_less [of apart "zip ts ws"] assms(2-6) by (metis apart_sym length_zip linorder_neqE_nat min_less_iff_conj)
  then have "apart (ts ! i, ws ! i) (ts ! j, ws ! j)" using assms(2-5) by simp
  then show ?thesis using owned_pick [OF assms(1-3)] owned_pick [OF assms(1,4,5)] by (auto simp: owned_def)
qed

section \<open>Operations\<close>

lemma owned_exp: "owned ((T_exp, v) # os) st \<Longrightarrow> \<exists>x e. v = V_exp x \<and> exp_heap st x = Some e"
  by (auto simp: owned_def)

lemma owned_str: "owned ((T_str, v) # os) st \<Longrightarrow> \<exists>i s. v = V_str i \<and> str_heap st i = Some s"
  by (auto simp: owned_def)

text \<open>An operation that keeps the objects of \<open>os\<close>.\<close>

lemma value_ok_mono:
  "value_ok st tv \<Longrightarrow> (fst tv = T_str \<Longrightarrow> \<forall>i\<in>dom (str_heap st). snd tv = V_str i \<longrightarrow> i \<in> dom (str_heap st')) \<Longrightarrow>
     (fst tv = T_exp \<Longrightarrow> \<forall>x\<in>dom (exp_heap st). snd tv = V_exp x \<longrightarrow> x \<in> dom (exp_heap st')) \<Longrightarrow> value_ok st' tv"
  by (cases "(st, tv)" rule: value_ok.cases) auto

lemma owned_cmp:
  assumes "owned ((T_exp, v) # os) st" "owned ((T_exp, w) # os') st" "owned tvs st"
  shows "owned tvs (exp_cmp v w st)"
proof -
  obtain x e y e' where x: "v = V_exp x" "exp_heap st x = Some e" "w = V_exp y" "exp_heap st y = Some e'"
    using owned_exp [OF assms(1)] owned_exp [OF assms(2)] by blast
  then show ?thesis using assms(3)
    by (simp add: exp_cmp_def with_exp_def cmp_fn_def clb_defs)
qed

lemma owned_Add:
  assumes "owned ((T_exp, v) # (T_exp, w) # os) st"
  shows "owned ((T_exp, v) # os) (exp_add v w st)"
proof -
  obtain x e where x: "v = V_exp x" "exp_heap st x = Some e" using owned_exp [OF assms] by blast
  have "owned ((T_exp, w) # os) st" using assms by (auto simp: owned_def)
  then obtain y e' where y: "w = V_exp y" "exp_heap st y = Some e'" using owned_exp by blast
  have ne: "x \<noteq> y" using assms x y by (auto simp: owned_def apart_def)
  define st' where "st' = Add x y st"
  have st': "str_heap st' = str_heap st" "dom (exp_heap st') = dom (exp_heap st) - {y}" "bad st' = bad st"
    using x y ne by (auto simp: st'_def Add_def delete_expr_def set_expr_def)
  have "parse_wf st'" using assms wf_Add by (simp add: st'_def owned_def)
  moreover have "list_all (value_ok st') ((T_exp, v) # os)"
  proof -
    have "value_ok st' tv" if "tv \<in> set os" for tv
    proof (rule value_ok_mono)
      show "value_ok st tv" using assms that by (auto simp: owned_def list_all_iff)
      have "apart (T_exp, w) tv" using assms that by (auto simp: owned_def)
      then show "\<forall>z\<in>dom (exp_heap st). snd tv = V_exp z \<longrightarrow> z \<in> dom (exp_heap st')" if "fst tv = T_exp"
        using that st'(2) y(1) by (auto simp: apart_def)
    qed (simp add: st'(1))
    moreover have "value_ok st' (T_exp, v)" using x st'(2) ne by auto
    ultimately show ?thesis by (auto simp: list_all_iff)
  qed
  ultimately have "owned ((T_exp, v) # os) st'" using assms st'(3) by (auto simp: owned_def)
  then show ?thesis using x y by (simp add: exp_add_def with_exp_def st'_def)
qed


text \<open>Giving the string \<open>i\<close> to an expression.\<close>

lemma owned_take_string:
  assumes "owned ((T_exp, V_exp x) # (T_str, V_str i) # os) st" "exp_heap st x = Some e" "str_heap st i = Some s"
  shows "owned ((T_exp, V_exp x) # os) (delete_string i (set_expr x e' st))"
proof -
  define st' where "st' = delete_string i (set_expr x e' st)"
  have st': "dom (str_heap st') = dom (str_heap st) - {i}" "dom (exp_heap st') = dom (exp_heap st)" "bad st' = bad st"
    using assms(2,3) by (auto simp: st'_def delete_string_def set_expr_def)
  have "parse_wf st'" unfolding st'_def
    by (intro wf_delete_string wf_set_expr) (use assms in \<open>auto simp: owned_def\<close>)
  moreover have "list_all (value_ok st') ((T_exp, V_exp x) # os)"
  proof -
    have "value_ok st' tv" if "tv \<in> set os" for tv
    proof (rule value_ok_mono)
      show "value_ok st tv" using assms(1) that by (auto simp: owned_def list_all_iff)
      have "apart (T_str, V_str i) tv" using assms(1) that by (auto simp: owned_def)
      then show "\<forall>j\<in>dom (str_heap st). snd tv = V_str j \<longrightarrow> j \<in> dom (str_heap st')" if "fst tv = T_str"
        using that st'(1) by (auto simp: apart_def)
    qed (simp add: st'(2))
    moreover have "value_ok st' (T_exp, V_exp x)" using assms(2) st'(2) by auto
    ultimately show ?thesis by (auto simp: list_all_iff)
  qed
  ultimately show ?thesis using assms(1) st'(3) unfolding st'_def [symmetric] by (auto simp: owned_def)
qed

lemma owned_give:
  assumes "owned ((T_exp, V_exp x) # (T_str, v) # os) st"
  shows "owned ((T_exp, V_exp x) # os) (with_str v (AddField x) st)"
    "owned ((T_exp, V_exp x) # os) (with_str v (AddConst_str x) st)"
proof -
  obtain e where e: "exp_heap st x = Some e" using owned_exp [OF assms] by blast
  have "owned ((T_str, v) # os) st" using assms by (auto simp: owned_def)
  then obtain i s where i: "v = V_str i" "str_heap st i = Some s" using owned_str by blast
  show "owned ((T_exp, V_exp x) # os) (with_str v (AddField x) st)"
    "owned ((T_exp, V_exp x) # os) (with_str v (AddConst_str x) st)"
    using owned_take_string [OF assms [unfolded i(1)] e i(2)] e i
    by (simp_all add: with_str_def AddField_def AddConst_str_def)
qed

lemma owned_const_int:
  assumes "owned ((T_exp, V_exp x) # os) st"
  shows "owned ((T_exp, V_exp x) # os) (AddConst_int x n st)"
proof -
  obtain e where e: "exp_heap st x = Some e" using owned_exp [OF assms] by blast
  define st' where "st' = set_expr x (add_const_int e) st"
  have st': "str_heap st' = str_heap st" "dom (exp_heap st') = dom (exp_heap st)" "bad st' = bad st"
    using e by (auto simp: st'_def set_expr_def)
  have "parse_wf st'" unfolding st'_def by (intro wf_set_expr) (use assms e in \<open>auto simp: owned_def\<close>)
  moreover have "list_all (value_ok st') ((T_exp, V_exp x) # os)"
    unfolding list_all_iff
  proof
    fix tv assume "tv \<in> set ((T_exp, V_exp x) # os)"
    then have "value_ok st tv" using assms by (auto simp: owned_def list_all_iff)
    then show "value_ok st' tv" by (rule value_ok_mono) (simp_all add: st')
  qed
  ultimately show ?thesis using assms st'(3) e by (simp add: AddConst_int_def st'_def owned_def)
qed

text \<open>New objects.\<close>

lemma owned_fresh:
  assumes "owned os st"
  shows "owned ((T_exp, V_exp (fst (alloc_expr st))) # os) (snd (alloc_expr st))"
    "owned ((T_str, V_str (fst (alloc_string s st))) # os) (snd (alloc_string s st))"
proof -
  let ?i = "next_id st"
  have new: "?i \<notin> dom (str_heap st)" "?i \<notin> dom (exp_heap st)" "parse_wf st"
    using assms by (auto simp: owned_def parse_wf_def)
  have apart: "apart (T_exp, V_exp ?i) tv \<and> apart (T_str, V_str ?i) tv" if "tv \<in> set os" for tv
  proof -
    have "value_ok st tv" using assms that by (auto simp: owned_def list_all_iff)
    then show ?thesis using new by (cases "(st, tv)" rule: value_ok.cases) (auto simp: apart_def)
  qed
  have keep: "value_ok (snd (alloc_expr st)) tv" "value_ok (snd (alloc_string s st)) tv" if "tv \<in> set os" for tv
  proof -
    have v: "value_ok st tv" using assms that by (auto simp: owned_def list_all_iff)
    show "value_ok (snd (alloc_expr st)) tv" by (rule value_ok_mono [OF v]) (auto simp: alloc_expr_def Let_def)
    show "value_ok (snd (alloc_string s st)) tv" by (rule value_ok_mono [OF v]) (auto simp: alloc_string_def Let_def)
  qed
  show "owned ((T_exp, V_exp (fst (alloc_expr st))) # os) (snd (alloc_expr st))"
    using assms apart keep(1) wf_alloc_expr [OF new(3)]
    by (auto simp: owned_def list_all_iff) (simp_all add: alloc_expr_def Let_def)
  show "owned ((T_str, V_str (fst (alloc_string s st))) # os) (snd (alloc_string s st))"
    using assms apart keep(2) wf_alloc_string [OF new(3), of s]
    by (auto simp: owned_def list_all_iff) (simp_all add: alloc_string_def Let_def)
qed

lemma owned_new_exp:
  assumes "owned os st" "\<And>x st. owned ((T_exp, V_exp x) # os) st \<Longrightarrow> owned ((T_exp, V_exp x) # os') (f x st)"
  shows "owned ((T_exp, fst (new_exp f st)) # os') (snd (new_exp f st))"
  using assms(2) [OF owned_fresh(1) [OF assms(1)]] by (simp add: new_exp_def split_beta)

lemma owned_add_fn:
  assumes "owned ((T_exp, V_exp x) # os) st"
  shows "owned ((T_exp, V_exp x) # os) (add_fn x st)"
proof -
  obtain j st1 where j: "alloc_string ''fn()'' st = (j, st1)" by (cases "alloc_string ''fn()'' st")
  have "owned ((T_str, V_str j) # (T_exp, V_exp x) # os) st1" using owned_fresh(2) [OF assms, of "''fn()''"] j by simp
  then have "owned ((T_exp, V_exp x) # (T_str, V_str j) # os) st1" by (auto simp: owned_def apart_sym)
  from owned_give(2) [OF this] show ?thesis by (simp add: add_fn_def j with_str_def)
qed

lemma owned_table:
  assumes "owned ((T_str, v) # os) st"
  shows "owned ((T_exp, fst (table_exp P conf p v st)) # os) (snd (table_exp P conf p v st))"
proof -
  obtain i s where i: "v = V_str i" "str_heap st i = Some s" using owned_str [OF assms] by blast
  have r: "owned tvs (clb_found_table P conf p s st) = owned tvs st" for tvs
    by (simp add: clb_found_table_def split: option.split)
  have e: "with_str v (\<lambda>i. with_string i (clb_found_table P conf p)) st = clb_found_table P conf p s st"
    using i by (simp add: with_str_def with_string_def)
  show ?thesis unfolding table_exp_def e
  proof (rule owned_new_exp)
    show "owned ((T_str, v) # os) (clb_found_table P conf p s st)" using assms r by simp
    show "owned ((T_exp, V_exp x) # os) (with_str v (AddField x) st)"
      if "owned ((T_exp, V_exp x) # (T_str, v) # os) st" for x st
      using owned_give(1) [OF that] .
  qed
qed

lemma owned_bruteforce:
  assumes "owned ((T_str, v) # os) st"
  shows "owned tvs (check_bruteforce P p v st) = owned tvs st"
proof -
  obtain i s where "v = V_str i" "str_heap st i = Some s" using owned_str [OF assms] by blast
  then show ?thesis by (simp add: check_bruteforce_def with_str_def with_string_def clb_check_bruteforce_function_def split: option.split)
qed

lemma owned_field:
  assumes "owned ((T_str, v) # os) st"
  shows "owned ((T_exp, fst (field_action P p 83 [v] st)) # os) (snd (field_action P p 83 [v] st))"
proof -
  have "owned ((T_exp, V_exp x) # os) (with_str v (\<lambda>i. with_string i (\<lambda>s st.
      if clb_check_true_constant P p s then add_fn x st else AddField x i st)) st)"
    if o: "owned ((T_exp, V_exp x) # (T_str, v) # os) st" for x st
  proof -
    have "owned ((T_str, v) # os) st" using o by (auto simp: owned_def)
    then obtain i s where i: "v = V_str i" "str_heap st i = Some s" using owned_str by blast
    have "owned ((T_exp, V_exp x) # os) st" using o by (auto simp: owned_def)
    then show ?thesis using owned_add_fn owned_give(1) [OF o] i by (simp add: with_str_def with_string_def)
  qed
  then show ?thesis using owned_new_exp [OF assms] by (simp add: field_action_def vsp_def)
qed

lemma owned_is_true:
  assumes "owned ((T_exp, v) # os) st"
  shows "owned tvs (logical_action 55 [v] st) = owned tvs st"
proof -
  obtain x e where "v = V_exp x" "exp_heap st x = Some e" using owned_exp [OF assms] by blast
  then show ?thesis by (simp add: logical_action_def with_exp_def vsp_def clb_defs)
qed

end
