(* ===== verification/ParseSafe.thy ===== *)
theory ParseSafe
  imports Ownership
begin

text \<open>
  Type safety of the parser: every semantic action finds the members it reads and the objects it uses,
  and leaves a value of the type of its symbol.
\<close>

section \<open>Semantic actions\<close>

text \<open>\<open>ws\<close> are the values of the right-hand side, the last one first; \<open>os\<close> what the rest of the stack owns.\<close>

definition sem_ok :: "'re pcre \<Rightarrow> GreenSQLConfig \<Rightarrow> 're SQLPatterns option \<Rightarrow> int \<Rightarrow> int \<Rightarrow> int list \<Rightarrow> bool" where
  "sem_ok P conf p r a xs \<longleftrightarrow>
     (\<forall>ws rest os st. length ws = length xs \<longrightarrow> owned (zip (map sym_ty (rev xs)) ws @ os) st \<longrightarrow>
       (case yy_semantic P conf p r (ws @ rest) (if xs = [] then V_none else vsp (ws @ rest) (length xs - 1)) st of
          (v, st') \<Rightarrow> owned ((sym_ty a, v) # os) st'))"

lemma sem_okI:
  assumes "\<And>ws rest os st. length ws = length xs \<Longrightarrow> owned (zip (map sym_ty (rev xs)) ws @ os) st \<Longrightarrow>
    owned os st \<Longrightarrow> (\<And>k. k < length xs \<Longrightarrow> vsp (ws @ rest) k = ws ! k) \<Longrightarrow>
    (\<And>k. k < length xs \<Longrightarrow> owned ((sym_ty (rev xs ! k), ws ! k) # os) st) \<Longrightarrow>
    (\<And>k j. k < length xs \<Longrightarrow> j < length xs \<Longrightarrow> k \<noteq> j \<Longrightarrow>
      owned ((sym_ty (rev xs ! k), ws ! k) # (sym_ty (rev xs ! j), ws ! j) # os) st) \<Longrightarrow>
    (case yy_semantic P conf p r (ws @ rest) (if xs = [] then V_none else vsp (ws @ rest) (length xs - 1)) st of
       (v, st') \<Rightarrow> owned ((sym_ty a, v) # os) st')"
  shows "sem_ok P conf p r a xs"
  unfolding sem_ok_def
proof (intro allI impI)
  fix ws rest os st
  assume l: "length ws = length xs" and o: "owned (zip (map sym_ty (rev xs)) ws @ os) st"
  have v: "vsp (ws @ rest) k = ws ! k" if "k < length xs" for k using that l by (simp add: vsp_def nth_append)
  have 1: "owned ((sym_ty (rev xs ! k), ws ! k) # os) st" if "k < length xs" for k
    using owned_pick [OF o, of k] that l by simp
  have 2: "owned ((sym_ty (rev xs ! k), ws ! k) # (sym_ty (rev xs ! j), ws ! j) # os) st"
    if "k < length xs" "j < length xs" "k \<noteq> j" for k j
    using owned_pick2 [OF o, of k j] that l by simp
  show "case yy_semantic P conf p r (ws @ rest) (if xs = [] then V_none else vsp (ws @ rest) (length xs - 1)) st of
       (v, st') \<Rightarrow> owned ((sym_ty a, v) # os) st'"
    using assms [OF l o owned_append [OF o] v 1 2] .
qed

lemma sem_okD:
  assumes "sem_ok P conf p r a xs" "length ws = length xs" "owned (zip (map sym_ty (rev xs)) ws @ os) st"
    "yy_semantic P conf p r (ws @ rest) (if xs = [] then V_none else vsp (ws @ rest) (length xs - 1)) st = (v, st')"
  shows "owned ((sym_ty a, v) # os) st'"
proof -
  have "case yy_semantic P conf p r (ws @ rest) (if xs = [] then V_none else vsp (ws @ rest) (length xs - 1)) st of
      (v, st') \<Rightarrow> owned ((sym_ty a, v) # os) st'"
    using assms(1) [unfolded sem_ok_def, rule_format, OF assms(2,3), of rest] .
  then show ?thesis unfolding assms(4) by simp
qed

lemma sem_none:
  assumes "\<And>vs v st. yy_semantic P conf p r vs v st = (v, st)" "sym_ty a = T_none"
  shows "sem_ok P conf p r a xs"
  by (rule sem_okI) (simp add: assms)

lemma sem_copy:
  assumes "\<And>vs v st. yy_semantic P conf p r vs v st = (vsp vs k, st)" "k < length xs" "sym_ty (rev xs ! k) = sym_ty a"
  shows "sem_ok P conf p r a xs"
  by (rule sem_okI) (simp add: assms(1,2) assms(3) [symmetric])

lemma sem_add:
  assumes "\<And>vs v st. yy_semantic P conf p r vs v st = (v, exp_add v (vsp vs j) st)" "j < length xs - 1"
    "sym_ty (rev xs ! (length xs - 1)) = T_exp" "sym_ty (rev xs ! j) = T_exp" "sym_ty a = T_exp"
  shows "sem_ok P conf p r a xs"
proof (rule sem_okI)
  fix ws rest os st
  assume v: "\<And>k. k < length xs \<Longrightarrow> vsp (ws @ rest) k = ws ! k"
    and two: "\<And>k j. k < length xs \<Longrightarrow> j < length xs \<Longrightarrow> k \<noteq> j \<Longrightarrow>
      owned ((sym_ty (rev xs ! k), ws ! k) # (sym_ty (rev xs ! j), ws ! j) # os) st"
  have l: "xs \<noteq> []" "length xs - 1 < length xs" "j < length xs" "length xs - 1 \<noteq> j" using assms(2) by auto
  show "case yy_semantic P conf p r (ws @ rest) (if xs = [] then V_none else vsp (ws @ rest) (length xs - 1)) st of
       (v, st') \<Rightarrow> owned ((sym_ty a, v) # os) st'"
    using owned_Add [of "ws ! (length xs - 1)" "ws ! j" os st] two [OF l(2-4)] v [OF l(2)] v [OF l(3)] l(1) assms(1,3-5)
    by simp
qed

lemma sem_add_at:
  assumes "\<And>vs v st. yy_semantic P conf p r vs v st = (vsp vs k, exp_add (vsp vs k) (vsp vs j) st)"
    "k < length xs" "j < length xs" "k \<noteq> j"
    "sym_ty (rev xs ! k) = T_exp" "sym_ty (rev xs ! j) = T_exp" "sym_ty a = T_exp"
  shows "sem_ok P conf p r a xs"
proof (rule sem_okI)
  fix ws rest os st
  assume v: "\<And>k. k < length xs \<Longrightarrow> vsp (ws @ rest) k = ws ! k"
    and two: "\<And>k j. k < length xs \<Longrightarrow> j < length xs \<Longrightarrow> k \<noteq> j \<Longrightarrow>
      owned ((sym_ty (rev xs ! k), ws ! k) # (sym_ty (rev xs ! j), ws ! j) # os) st"
  show "case yy_semantic P conf p r (ws @ rest) (if xs = [] then V_none else vsp (ws @ rest) (length xs - 1)) st of
       (v, st') \<Rightarrow> owned ((sym_ty a, v) # os) st'"
    using owned_Add [of "ws ! k" "ws ! j" os st] two [OF assms(2-4)] v assms by simp
qed

lemma sem_cmp:
  assumes "\<And>vs v st. yy_semantic P conf p r vs v st = (v, exp_cmp (vsp vs k) (vsp vs j) st)"
    "k < length xs" "j < length xs" "sym_ty (rev xs ! k) = T_exp" "sym_ty (rev xs ! j) = T_exp" "sym_ty a = T_none"
  shows "sem_ok P conf p r a xs"
proof (rule sem_okI)
  fix ws rest os st
  assume o: "owned os st" and v: "\<And>k. k < length xs \<Longrightarrow> vsp (ws @ rest) k = ws ! k"
    and one: "\<And>k. k < length xs \<Longrightarrow> owned ((sym_ty (rev xs ! k), ws ! k) # os) st"
  show "case yy_semantic P conf p r (ws @ rest) (if xs = [] then V_none else vsp (ws @ rest) (length xs - 1)) st of
       (v, st') \<Rightarrow> owned ((sym_ty a, v) # os) st'"
    using owned_cmp [of "ws ! k" os st "ws ! j" os os] one [OF assms(2)] one [OF assms(3)] o v assms by simp
qed

lemma sem_risk:
  assumes "\<And>vs v st. yy_semantic P conf p r vs v st = (v, clb_found_tautology st)" "sym_ty a = T_none"
  shows "sem_ok P conf p r a xs"
  by (rule sem_okI) (simp add: assms clb_found_tautology_def)

lemma sem_table:
  assumes "\<And>vs v st. yy_semantic P conf p r vs v st = table_exp P conf p (vsp vs k) st"
    "k < length xs" "sym_ty (rev xs ! k) = T_str" "sym_ty a = T_exp"
  shows "sem_ok P conf p r a xs"
proof (rule sem_okI)
  fix ws rest os st
  assume v: "\<And>k. k < length xs \<Longrightarrow> vsp (ws @ rest) k = ws ! k"
    and one: "\<And>k. k < length xs \<Longrightarrow> owned ((sym_ty (rev xs ! k), ws ! k) # os) st"
  show "case yy_semantic P conf p r (ws @ rest) (if xs = [] then V_none else vsp (ws @ rest) (length xs - 1)) st of
       (v, st') \<Rightarrow> owned ((sym_ty a, v) # os) st'"
    using owned_table [of "ws ! k" os st P conf p] one [OF assms(2)] v assms by (simp add: split_beta)
qed

lemma sem_bruteforce:
  assumes "\<And>vs v st. yy_semantic P conf p r vs v st = (vsp vs m, check_bruteforce P p (vsp vs k) st)"
    "k < length xs" "m < length xs" "sym_ty (rev xs ! k) = T_str" "sym_ty (rev xs ! m) = sym_ty a"
  shows "sem_ok P conf p r a xs"
proof (rule sem_okI)
  fix ws rest os st
  assume v: "\<And>k. k < length xs \<Longrightarrow> vsp (ws @ rest) k = ws ! k"
    and one: "\<And>k. k < length xs \<Longrightarrow> owned ((sym_ty (rev xs ! k), ws ! k) # os) st"
  show "case yy_semantic P conf p r (ws @ rest) (if xs = [] then V_none else vsp (ws @ rest) (length xs - 1)) st of
       (v, st') \<Rightarrow> owned ((sym_ty a, v) # os) st'"
    using owned_bruteforce [of "ws ! k" os st, where P = P and p = p] one [OF assms(2)] one [OF assms(3)] v assms by simp
qed

lemma sem_bruteforce_none:
  assumes "\<And>vs v st. yy_semantic P conf p r vs v st = (v, check_bruteforce P p (vsp vs k) st)"
    "k < length xs" "sym_ty (rev xs ! k) = T_str" "sym_ty a = T_none"
  shows "sem_ok P conf p r a xs"
proof (rule sem_okI)
  fix ws rest os st
  assume o: "owned os st" and v: "\<And>k. k < length xs \<Longrightarrow> vsp (ws @ rest) k = ws ! k"
    and one: "\<And>k. k < length xs \<Longrightarrow> owned ((sym_ty (rev xs ! k), ws ! k) # os) st"
  show "case yy_semantic P conf p r (ws @ rest) (if xs = [] then V_none else vsp (ws @ rest) (length xs - 1)) st of
       (v, st') \<Rightarrow> owned ((sym_ty a, v) # os) st'"
    using owned_bruteforce [of "ws ! k" os st, where P = P and p = p] one [OF assms(2)] o v assms by simp
qed

text \<open>A new expression with a constant.\<close>

lemma sem_new:
  assumes "\<And>vs v st. yy_semantic P conf p r vs v st = new_exp f st" "sym_ty a = T_exp"
    "\<And>x os st. owned ((T_exp, V_exp x) # os) st \<Longrightarrow> owned ((T_exp, V_exp x) # os) (f x st)"
  shows "sem_ok P conf p r a xs"
proof (rule sem_okI)
  fix ws rest os st
  assume o: "owned os st"
  show "case yy_semantic P conf p r (ws @ rest) (if xs = [] then V_none else vsp (ws @ rest) (length xs - 1)) st of
       (v, st') \<Rightarrow> owned ((sym_ty a, v) # os) st'"
    using owned_new_exp [OF o assms(3)] assms(1,2) by (simp add: split_beta)
qed

lemma with_int_V [simp]: "with_int (V_int n) f = f n"
  by (rule ext) (simp add: with_int_def)

lemma sem_new_int:
  assumes "\<And>vs v st. yy_semantic P conf p r vs v st = new_exp (\<lambda>x. with_int (vsp vs k) (AddConst_int x)) st"
    "k < length xs" "sym_ty (rev xs ! k) = T_int" "sym_ty a = T_exp"
  shows "sem_ok P conf p r a xs"
proof (rule sem_okI)
  fix ws rest os st
  assume o: "owned os st" and v: "\<And>k. k < length xs \<Longrightarrow> vsp (ws @ rest) k = ws ! k"
    and one: "\<And>k. k < length xs \<Longrightarrow> owned ((sym_ty (rev xs ! k), ws ! k) # os) st"
  obtain n where "ws ! k = V_int n" using one [OF assms(2)] assms(3) by (auto simp: owned_def)
  then show "case yy_semantic P conf p r (ws @ rest) (if xs = [] then V_none else vsp (ws @ rest) (length xs - 1)) st of
       (v, st') \<Rightarrow> owned ((sym_ty a, v) # os) st'"
    using owned_new_exp [OF o, of os "\<lambda>x. AddConst_int x n"] owned_const_int v assms by (simp add: split_beta)
qed

lemma sem_new_str:
  assumes "\<And>vs v st. yy_semantic P conf p r vs v st = new_exp (\<lambda>x. with_str (vsp vs k) (AddConst_str x)) st"
    "k < length xs" "sym_ty (rev xs ! k) = T_str" "sym_ty a = T_exp"
  shows "sem_ok P conf p r a xs"
proof (rule sem_okI)
  fix ws rest os st
  assume v: "\<And>k. k < length xs \<Longrightarrow> vsp (ws @ rest) k = ws ! k"
    and one: "\<And>k. k < length xs \<Longrightarrow> owned ((sym_ty (rev xs ! k), ws ! k) # os) st"
  have "owned ((T_str, ws ! k) # os) st" using one [OF assms(2)] assms(3) by simp
  then show "case yy_semantic P conf p r (ws @ rest) (if xs = [] then V_none else vsp (ws @ rest) (length xs - 1)) st of
       (v, st') \<Rightarrow> owned ((sym_ty a, v) # os) st'"
    using owned_new_exp [of "(T_str, ws ! k) # os" st os "\<lambda>x. with_str (ws ! k) (AddConst_str x)"] owned_give(2) v assms
    by (simp add: split_beta)
qed


lemma sem_true:
  assumes "\<And>vs v st. yy_semantic P conf p r vs v st =
      (v, with_exp (vsp vs k) (\<lambda>x st. case exp_heap st x of
            None \<Rightarrow> st\<lparr>bad := True\<rparr>
          | Some e \<Rightarrow> if IsTrue e then clb_found_tautology st else st) st)"
    "k < length xs" "sym_ty (rev xs ! k) = T_exp" "sym_ty a = T_none"
  shows "sem_ok P conf p r a xs"
proof (rule sem_okI)
  fix ws rest os st
  assume o: "owned os st" and v: "\<And>k. k < length xs \<Longrightarrow> vsp (ws @ rest) k = ws ! k"
    and one: "\<And>k. k < length xs \<Longrightarrow> owned ((sym_ty (rev xs ! k), ws ! k) # os) st"
  obtain x e where "ws ! k = V_exp x" "exp_heap st x = Some e" using owned_exp one [OF assms(2)] assms(3) by metis
  then show "case yy_semantic P conf p r (ws @ rest) (if xs = [] then V_none else vsp (ws @ rest) (length xs - 1)) st of
       (v, st') \<Rightarrow> owned ((sym_ty a, v) # os) st'"
    using o v assms by (simp add: with_exp_def clb_found_tautology_def)
qed

lemma sem_cmp2:
  assumes "\<And>vs v st. yy_semantic P conf p r vs v st =
      (v, exp_cmp (vsp vs k) (vsp vs j) (exp_cmp (vsp vs k) (vsp vs i) st))"
    "k < length xs" "j < length xs" "i < length xs"
    "sym_ty (rev xs ! k) = T_exp" "sym_ty (rev xs ! j) = T_exp" "sym_ty (rev xs ! i) = T_exp" "sym_ty a = T_none"
  shows "sem_ok P conf p r a xs"
proof (rule sem_okI)
  fix ws rest os st
  assume o: "owned os st" and v: "\<And>k. k < length xs \<Longrightarrow> vsp (ws @ rest) k = ws ! k"
    and one: "\<And>k. k < length xs \<Longrightarrow> owned ((sym_ty (rev xs ! k), ws ! k) # os) st"
  have t: "owned ((T_exp, ws ! k) # os) st" "owned ((T_exp, ws ! j) # os) st" "owned ((T_exp, ws ! i) # os) st"
    using one [OF assms(2)] one [OF assms(3)] one [OF assms(4)] assms(5-7) by simp_all
  show "case yy_semantic P conf p r (ws @ rest) (if xs = [] then V_none else vsp (ws @ rest) (length xs - 1)) st of
       (v, st') \<Rightarrow> owned ((sym_ty a, v) # os) st'"
    using owned_cmp [OF owned_cmp [OF t(1,3,1)] owned_cmp [OF t(1,3,2)] owned_cmp [OF t(1,3) o]] v assms by simp
qed

lemma sem_copy_cmp:
  assumes "\<And>vs v st. yy_semantic P conf p r vs v st = (vsp vs k, exp_cmp (vsp vs k) (vsp vs j) st)"
    "k < length xs" "j < length xs" "sym_ty (rev xs ! k) = T_exp" "sym_ty (rev xs ! j) = T_exp" "sym_ty a = T_exp"
  shows "sem_ok P conf p r a xs"
proof (rule sem_okI)
  fix ws rest os st
  assume v: "\<And>k. k < length xs \<Longrightarrow> vsp (ws @ rest) k = ws ! k"
    and one: "\<And>k. k < length xs \<Longrightarrow> owned ((sym_ty (rev xs ! k), ws ! k) # os) st"
  have t: "owned ((T_exp, ws ! k) # os) st" "owned ((T_exp, ws ! j) # os) st"
    using one [OF assms(2)] one [OF assms(3)] assms(4,5) by simp_all
  show "case yy_semantic P conf p r (ws @ rest) (if xs = [] then V_none else vsp (ws @ rest) (length xs - 1)) st of
       (v, st') \<Rightarrow> owned ((sym_ty a, v) # os) st'"
    using owned_cmp [OF t(1,2,1)] v assms by simp
qed

lemma sem_case_else:
  assumes "\<And>vs v st. yy_semantic P conf p r vs v st =
      (vsp vs k, exp_add (vsp vs k) (vsp vs j) (exp_cmp (vsp vs k) (vsp vs j) (exp_cmp (vsp vs k) (vsp vs i) st)))"
    "k < length xs" "j < length xs" "i < length xs" "k \<noteq> j"
    "sym_ty (rev xs ! k) = T_exp" "sym_ty (rev xs ! j) = T_exp" "sym_ty (rev xs ! i) = T_exp" "sym_ty a = T_exp"
  shows "sem_ok P conf p r a xs"
proof (rule sem_okI)
  fix ws rest os st
  assume v: "\<And>k. k < length xs \<Longrightarrow> vsp (ws @ rest) k = ws ! k"
    and one: "\<And>k. k < length xs \<Longrightarrow> owned ((sym_ty (rev xs ! k), ws ! k) # os) st"
    and two: "\<And>k j. k < length xs \<Longrightarrow> j < length xs \<Longrightarrow> k \<noteq> j \<Longrightarrow>
      owned ((sym_ty (rev xs ! k), ws ! k) # (sym_ty (rev xs ! j), ws ! j) # os) st"
  have t: "owned ((T_exp, ws ! k) # os) st" "owned ((T_exp, ws ! j) # os) st" "owned ((T_exp, ws ! i) # os) st"
    "owned ((T_exp, ws ! k) # (T_exp, ws ! j) # os) st"
    using one [OF assms(2)] one [OF assms(3)] one [OF assms(4)] two [OF assms(2,3,5)] assms(6-8) by simp_all
  show "case yy_semantic P conf p r (ws @ rest) (if xs = [] then V_none else vsp (ws @ rest) (length xs - 1)) st of
       (v, st') \<Rightarrow> owned ((sym_ty a, v) # os) st'"
    using owned_Add [OF owned_cmp [OF owned_cmp [OF t(1,3,1)] owned_cmp [OF t(1,3,2)] owned_cmp [OF t(1,3,4)]]] v assms by simp
qed

lemma sem_field:
  assumes "\<And>v w ws st. yy_semantic P conf p r (w # ws) v st = field_action P p 83 [w] st" "sym_ty x = T_str" "sym_ty a = T_exp"
  shows "sem_ok P conf p r a [x]"
proof (rule sem_okI)
  fix ws rest os st
  assume l: "length ws = length [x]"
    and one: "\<And>k. k < length [x] \<Longrightarrow> owned ((sym_ty (rev [x] ! k), ws ! k) # os) st"
  obtain w where w: "ws = [w]" using l by (cases ws) auto
  have "owned ((T_str, w) # os) st" using one [of 0] w assms(2) by simp
  then show "case yy_semantic P conf p r (ws @ rest) (if [x] = [] then V_none else vsp (ws @ rest) (length [x] - 1)) st of
       (v, st') \<Rightarrow> owned ((sym_ty a, v) # os) st'"
    using owned_field [of w os st P p] w assms(1,3) by (simp add: split_beta)
qed

section \<open>The actions of all rules\<close>

text \<open>The shapes of the actions; a number is the position of a value, 0 for the last symbol of the rule.\<close>

datatype sem =
    S_none
  | S_copy nat
  | S_add nat
  | S_add_at nat nat
  | S_cmp nat nat
  | S_cmp2 nat nat nat
  | S_copy_cmp nat nat
  | S_case_else nat nat nat
  | S_true nat
  | S_tautology
  | S_table nat
  | S_brute nat nat
  | S_brute_none nat
  | S_new
  | S_int nat
  | S_str nat
  | S_const int
  | S_fn
  | S_field

fun sem_run :: "'re pcre \<Rightarrow> GreenSQLConfig \<Rightarrow> 're SQLPatterns option \<Rightarrow> sem \<Rightarrow> YYSTYPE list \<Rightarrow> YYSTYPE
    \<Rightarrow> parse_state \<Rightarrow> YYSTYPE \<times> parse_state" where
  "sem_run P conf p S_none vs v st = (v, st)"
| "sem_run P conf p (S_copy k) vs v st = (vsp vs k, st)"
| "sem_run P conf p (S_add j) vs v st = (v, exp_add v (vsp vs j) st)"
| "sem_run P conf p (S_add_at k j) vs v st = (vsp vs k, exp_add (vsp vs k) (vsp vs j) st)"
| "sem_run P conf p (S_cmp k j) vs v st = (v, exp_cmp (vsp vs k) (vsp vs j) st)"
| "sem_run P conf p (S_cmp2 k i j) vs v st = (v, exp_cmp (vsp vs k) (vsp vs j) (exp_cmp (vsp vs k) (vsp vs i) st))"
| "sem_run P conf p (S_copy_cmp k j) vs v st = (vsp vs k, exp_cmp (vsp vs k) (vsp vs j) st)"
| "sem_run P conf p (S_case_else k i j) vs v st =
     (vsp vs k, exp_add (vsp vs k) (vsp vs j) (exp_cmp (vsp vs k) (vsp vs j) (exp_cmp (vsp vs k) (vsp vs i) st)))"
| "sem_run P conf p (S_true k) vs v st =
     (v, with_exp (vsp vs k) (\<lambda>x st. case exp_heap st x of
            None \<Rightarrow> st\<lparr>bad := True\<rparr>
          | Some e \<Rightarrow> if IsTrue e then clb_found_tautology st else st) st)"
| "sem_run P conf p S_tautology vs v st = (v, clb_found_tautology st)"
| "sem_run P conf p (S_table k) vs v st = table_exp P conf p (vsp vs k) st"
| "sem_run P conf p (S_brute m k) vs v st = (vsp vs m, check_bruteforce P p (vsp vs k) st)"
| "sem_run P conf p (S_brute_none k) vs v st = (v, check_bruteforce P p (vsp vs k) st)"
| "sem_run P conf p S_new vs v st = new_exp (\<lambda>x st. st) st"
| "sem_run P conf p (S_int k) vs v st = new_exp (\<lambda>x. with_int (vsp vs k) (AddConst_int x)) st"
| "sem_run P conf p (S_str k) vs v st = new_exp (\<lambda>x. with_str (vsp vs k) (AddConst_str x)) st"
| "sem_run P conf p (S_const n) vs v st = new_exp (\<lambda>x. AddConst_int x n) st"
| "sem_run P conf p S_fn vs v st = new_exp add_fn st"
| "sem_run P conf p S_field vs v st = field_action P p 83 [vsp vs 0] st"

definition at_ty :: "int list \<Rightarrow> nat \<Rightarrow> ty \<Rightarrow> bool" where
  "at_ty xs k t \<longleftrightarrow> k < length xs \<and> sym_ty (rev xs ! k) = t"

fun sem_typed :: "sem \<Rightarrow> ty \<Rightarrow> int list \<Rightarrow> bool" where
  "sem_typed S_none t xs = (t = T_none)"
| "sem_typed (S_copy k) t xs = at_ty xs k t"
| "sem_typed (S_add j) t xs = (t = T_exp \<and> at_ty xs (length xs - 1) T_exp \<and> at_ty xs j T_exp \<and> j < length xs - 1)"
| "sem_typed (S_add_at k j) t xs = (t = T_exp \<and> at_ty xs k T_exp \<and> at_ty xs j T_exp \<and> k \<noteq> j)"
| "sem_typed (S_cmp k j) t xs = (t = T_none \<and> at_ty xs k T_exp \<and> at_ty xs j T_exp)"
| "sem_typed (S_cmp2 k i j) t xs = (t = T_none \<and> at_ty xs k T_exp \<and> at_ty xs i T_exp \<and> at_ty xs j T_exp)"
| "sem_typed (S_copy_cmp k j) t xs = (t = T_exp \<and> at_ty xs k T_exp \<and> at_ty xs j T_exp)"
| "sem_typed (S_case_else k i j) t xs = (t = T_exp \<and> at_ty xs k T_exp \<and> at_ty xs i T_exp \<and> at_ty xs j T_exp \<and> k \<noteq> j)"
| "sem_typed (S_true k) t xs = (t = T_none \<and> at_ty xs k T_exp)"
| "sem_typed S_tautology t xs = (t = T_none)"
| "sem_typed (S_table k) t xs = (t = T_exp \<and> at_ty xs k T_str)"
| "sem_typed (S_brute m k) t xs = (at_ty xs m t \<and> at_ty xs k T_str)"
| "sem_typed (S_brute_none k) t xs = (t = T_none \<and> at_ty xs k T_str)"
| "sem_typed S_new t xs = (t = T_exp)"
| "sem_typed (S_int k) t xs = (t = T_exp \<and> at_ty xs k T_int)"
| "sem_typed (S_str k) t xs = (t = T_exp \<and> at_ty xs k T_str)"
| "sem_typed (S_const n) t xs = (t = T_exp)"
| "sem_typed S_fn t xs = (t = T_exp)"
| "sem_typed S_field t xs = (t = T_exp \<and> length xs = 1 \<and> at_ty xs 0 T_str)"

lemma sem_typed_ok:
  assumes "\<And>vs v st. yy_semantic P conf p r vs v st = sem_run P conf p A vs v st" "sem_typed A (sym_ty a) xs"
  shows "sem_ok P conf p r a xs"
proof (cases A)
  case S_none then show ?thesis using assms by (intro sem_none) simp_all
next
  case (S_copy k) then show ?thesis using assms by (intro sem_copy [of P conf p r k]) (simp_all add: at_ty_def)
next
  case (S_add j) then show ?thesis using assms by (intro sem_add [of P conf p r j]) (simp_all add: at_ty_def)
next
  case (S_add_at k j) then show ?thesis using assms by (intro sem_add_at [of P conf p r k j]) (simp_all add: at_ty_def)
next
  case (S_cmp k j) then show ?thesis using assms by (intro sem_cmp [of P conf p r k j]) (simp_all add: at_ty_def)
next
  case (S_cmp2 k i j) then show ?thesis using assms by (intro sem_cmp2 [of P conf p r k j i]) (simp_all add: at_ty_def)
next
  case (S_copy_cmp k j) then show ?thesis using assms by (intro sem_copy_cmp [of P conf p r k j]) (simp_all add: at_ty_def)
next
  case (S_case_else k i j) then show ?thesis using assms by (intro sem_case_else [of P conf p r k j i]) (simp_all add: at_ty_def)
next
  case (S_true k) then show ?thesis using assms by (intro sem_true [of P conf p r k]) (simp_all add: at_ty_def)
next
  case S_tautology then show ?thesis using assms by (intro sem_risk) simp_all
next
  case (S_table k) then show ?thesis using assms by (intro sem_table [of P conf p r k]) (simp_all add: at_ty_def)
next
  case (S_brute m k) then show ?thesis using assms by (intro sem_bruteforce [of P conf p r m k]) (simp_all add: at_ty_def)
next
  case (S_brute_none k) then show ?thesis using assms by (intro sem_bruteforce_none [of P conf p r k]) (simp_all add: at_ty_def)
next
  case S_new then show ?thesis using assms by (intro sem_new [of P conf p r "\<lambda>x st. st"]) simp_all
next
  case (S_int k) then show ?thesis using assms by (intro sem_new_int [of P conf p r k]) (simp_all add: at_ty_def)
next
  case (S_str k) then show ?thesis using assms by (intro sem_new_str [of P conf p r k]) (simp_all add: at_ty_def)
next
  case (S_const n) then show ?thesis using assms owned_const_int by (intro sem_new [of P conf p r "\<lambda>x. AddConst_int x n"]) simp_all
next
  case S_fn then show ?thesis using assms owned_add_fn by (intro sem_new [of P conf p r add_fn]) simp_all
next
  case S_field
  then obtain x where "xs = [x]" using assms(2) by (cases xs) auto
  then show ?thesis using S_field assms by (auto intro!: sem_field simp: at_ty_def vsp_def)
qed

text \<open>The shape of the action of each rule.\<close>

definition sem_table :: "sem list" where
  "sem_table =
    [S_none, S_none, S_none, S_none, S_none, S_none, S_none, S_none, S_copy 10, S_copy 0,
      S_none, S_none, S_none, S_none, S_none, S_none] @
     [S_none, S_none, S_none, S_none, S_none, S_none, S_none, S_none, S_none, S_none, S_none,
      S_none, S_none, S_none, S_none, S_none] @
     [S_none, S_none, S_none, S_none, S_none, S_none, S_copy 0, S_add 0, S_copy 1, S_new,
      S_table 2, S_table 2, S_table 2, S_table 2, S_table 2, S_table 2] @
     [S_copy 0, S_add 0, S_add 0, S_copy 0, S_copy 0, S_copy 4, S_copy 4, S_true 0, S_cmp 2 0,
      S_cmp 3 0, S_cmp 2 0, S_tautology, S_tautology, S_tautology, S_tautology, S_cmp 4 1] @
     [S_cmp 5 1, S_cmp 4 1, S_cmp 5 1, S_cmp2 4 2 0, S_none, S_none, S_none, S_none, S_copy 0,
      S_add 0, S_add 0, S_add 0, S_add 0, S_add 0, S_add 0, S_copy 0] @
     [S_add 0, S_copy 1, S_copy 1, S_field, S_copy 0, S_copy 0, S_fn, S_copy 0, S_copy 0,
      S_copy 0, S_copy 0, S_copy 0, S_copy 0, S_int 0, S_int 0, S_str 0] @
     [S_str 0, S_const 0, S_const 0, S_const 1, S_const 0, S_none, S_none, S_none, S_none,
      S_none, S_none, S_none, S_none, S_none, S_none, S_none] @
     [S_none, S_none, S_none, S_none, S_table 0, S_table 0, S_copy 1, S_none, S_none, S_none,
      S_none, S_none, S_none, S_none, S_none, S_none] @
     [S_none, S_none, S_none, S_none, S_none, S_none, S_brute 1 3, S_brute 2 5, S_copy 1,
      S_brute_none 3, S_brute_none 2, S_none, S_copy 0, S_add 0, S_none, S_none] @
     [S_none, S_none, S_none, S_none, S_none, S_none, S_none, S_none, S_none, S_none, S_none,
      S_none, S_none, S_none, S_none, S_none] @
     [S_none, S_none, S_none, S_none, S_none, S_none, S_none, S_none, S_none, S_none, S_none,
      S_none, S_none, S_none, S_none, S_none] @
     [S_none, S_none, S_none, S_none, S_none, S_none, S_none, S_copy 1, S_add_at 3 1,
      S_copy_cmp 2 1, S_case_else 4 3 1, S_copy 0, S_add 0, S_copy 2, S_copy 3, S_copy 6] @
     [S_copy 3, S_copy 6, S_copy 3, S_copy 6, S_copy 0]"

lemmas sem_table_entries [simp] =
  entries_all [OF sem_table_def, simplified entries_simps]

definition sem_of :: "int \<Rightarrow> sem" where
  "sem_of r = (case tab_at sem_table r of Some A \<Rightarrow> A | None \<Rightarrow> S_none)"

lemmas sem_defs = yy_semantic_def select_action_def logical_action_def math_action_def field_action_def
  table_action_def fn_action_def case_action_def

lemma rules_typed: "all_from (\<lambda>i (a, xs). sem_typed (sem_of (i + 1)) (sym_ty a) xs) 0 sql_rules"
  unfolding sql_rules_rows by (simp add: sem_of_def at_ty_def sym_ty_def)

lemma sem_of_runs_1: "list_all (\<lambda>r. yy_semantic P conf p r vs v st = sem_run P conf p (sem_of r) vs v st) [1..71]"
  by (simp add: upto.simps sem_of_def sem_defs)

lemma sem_of_runs_2: "list_all (\<lambda>r. yy_semantic P conf p r vs v st = sem_run P conf p (sem_of r) vs v st) [72..133]"
  by (simp add: upto.simps sem_of_def sem_defs vsp_def)

lemma sem_of_runs_3: "list_all (\<lambda>r. yy_semantic P conf p r vs v st = sem_run P conf p (sem_of r) vs v st) [134..196]"
  by (simp add: upto.simps sem_of_def sem_defs)


lemma action_typed:
  assumes "tab_at sql_rules (r - 1) = Some (a, xs)"
  shows "sem_ok P conf p r a xs"
proof -
  have "0 \<le> r - 1 \<and> r - 1 < int (length sql_rules)" using tab_at_SomeD [OF assms] by simp
  moreover have "length sql_rules = 196" by (simp add: sql_rules_rows)
  ultimately have r: "r \<in> {1..71} \<union> {72..133} \<union> {134..196}" by auto
  have "yy_semantic P conf p r vs v st = sem_run P conf p (sem_of r) vs v st" for vs v st
    using r sem_of_runs_1 [of P conf p vs v st] sem_of_runs_2 [of P conf p vs v st] sem_of_runs_3 [of P conf p vs v st]
    unfolding list_all_iff set_upto by blast
  moreover have "sem_typed (sem_of r) (sym_ty a) xs" using all_fromD [OF rules_typed assms] by simp
  ultimately show ?thesis by (rule sem_typed_ok)
qed

section \<open>The stack and the lookahead token\<close>

definition look_types :: "'s yystate \<Rightarrow> (ty \<times> YYSTYPE) list" where
  "look_types c = (if yychar c = YYEMPTY then [] else [(sym_ty (the (YYTRANSLATE (yychar c))), yyvalue c)])"

definition stack_types :: "'s yystate \<Rightarrow> (ty \<times> YYSTYPE) list" where
  "stack_types c = zip (map (sym_ty \<circ> stos) (yyss c)) (yyvs c)"

fun typed_state :: "'s yystate \<times> parse_state \<Rightarrow> bool" where
  "typed_state (c, st) \<longleftrightarrow> length (yyvs c) = length (yyss c) \<and> owned (look_types c @ stack_types c) st"

lemma owned_swap: "owned (as @ bs @ cs) st \<longleftrightarrow> owned (bs @ as @ cs) st"
  by (auto simp: owned_def sorted_wrt_append apart_sym)

lemma typed_shift:
  assumes "typed_state (c, st)" "token_code (yychar c)" "YYTRANSLATE (yychar c) = Some (stos q)"
  shows "typed_state (shifted q c, st)"
proof -
  have "yychar c \<noteq> YYEMPTY" using assms(2) by (auto simp: token_code_def YYEMPTY_def)
  then show ?thesis using assms(1,3)
    by (simp add: shifted_def look_types_def stack_types_def yypush_def)
qed

lemma typed_reduce:
  assumes "typed_state (c, st)" "tab_at sql_rules (r - 1) = Some (a, xs)" "length xs < length (yyss c)"
    "map stos (take (length xs) (yyss c)) = rev xs" "stos q = a"
    "yy_semantic P conf p r (yyvs c) (if xs = [] then V_none else vsp (yyvs c) (length xs - 1)) st = (v, st')"
  shows "typed_state (reduced q (length xs) v c, st')"
proof -
  let ?n = "length xs"
  let ?ws = "take ?n (yyvs c)" and ?rest = "drop ?n (yyvs c)" and ?rs = "zip (map (sym_ty \<circ> stos) (drop ?n (yyss c))) (drop ?n (yyvs c))"
  have l: "length (yyvs c) = length (yyss c)" and o: "owned (look_types c @ stack_types c) st" using assms(1) by simp_all
  have "stack_types c = zip (map (sym_ty \<circ> stos) (take ?n (yyss c)) @ map (sym_ty \<circ> stos) (drop ?n (yyss c))) (?ws @ ?rest)"
    by (simp only: map_append [symmetric] append_take_drop_id stack_types_def)
  also have "\<dots> = zip (map (sym_ty \<circ> stos) (take ?n (yyss c))) ?ws @ ?rs" using l by (intro zip_append) simp
  also have "map (sym_ty \<circ> stos) (take ?n (yyss c)) = map sym_ty (rev xs)" unfolding assms(4) [symmetric] by simp
  finally have "stack_types c = zip (map sym_ty (rev xs)) ?ws @ ?rs" .
  then have "owned (zip (map sym_ty (rev xs)) ?ws @ look_types c @ ?rs) st" using o owned_swap by metis
  moreover have "length ?ws = ?n" using assms(3) l by simp
  moreover have "yy_semantic P conf p r (?ws @ ?rest) (if xs = [] then V_none else vsp (?ws @ ?rest) (length xs - 1)) st = (v, st')"
    using assms(6) by (simp only: append_take_drop_id)
  ultimately have "owned ((sym_ty a, v) # look_types c @ ?rs) st'"
    using sem_okD [OF action_typed [OF assms(2)]] by blast
  then have "owned (look_types c @ [(sym_ty a, v)] @ ?rs) st'" using owned_swap [of "look_types c" "[(sym_ty a, v)]" ?rs st'] by simp
  then show ?thesis using assms(5) l
    by (simp add: reduced_def yypush_def look_types_def stack_types_def split: if_splits)
qed

lemma typed_start: "parse_wf st \<Longrightarrow> \<not> bad st \<Longrightarrow> typed_state (yy_start_state s, st)"
  by (simp add: yy_start_state_def look_types_def stack_types_def YYEMPTY_def owned_def stos_def sym_ty_def)

text \<open>A lexer whose values have the type of their tokens and own fresh objects.\<close>

locale typed_source = token_source next_token good left fault
  for next_token :: "'s yy_lexer" and good :: "'s \<Rightarrow> bool" and left :: "'s \<Rightarrow> nat" and fault :: yy_fault +
  assumes typed_token: "good s \<Longrightarrow> owned os st \<Longrightarrow> next_token s st = Inr (t, v, s', st') \<Longrightarrow>
    owned ((sym_ty (the (YYTRANSLATE t)), v) # os) st'"
begin

lemma step_typed:
  assumes "yy_step next_token P conf p a b" "typed_state a" "good (yylexer (fst a))"
  shows "typed_state b \<and> good (yylexer (fst b))"
  using assms
proof (induction rule: yy_step.induct)
  case (look c st t v s st')
  have "owned (stack_types c) st" using look.prems(1) look.hyps(1) by (simp add: look_types_def)
  then have "owned ((sym_ty (the (YYTRANSLATE t)), v) # stack_types c) st'"
    using typed_token [OF _ _ look.hyps(2)] look.prems(2) by simp
  moreover have "good s \<and> t \<noteq> YYEMPTY" using token [OF _ look.hyps(2)] look.prems(2) by (auto simp: token_code_def YYEMPTY_def)
  ultimately show ?case using look.prems by (simp add: look_types_def stack_types_def)
next
  case (grow c st n)
  then show ?case by (simp add: look_types_def stack_types_def split: if_splits)
next
  case (shift c q st)
  have "yylexer (shifted q c) = yylexer c" by (simp add: shifted_def yypush_def)
  then show ?case using typed_shift [OF shift.prems(1) shift.hyps(1,2)] shift.prems(2) by simp
next
  case (reduce r a xs c q st v st')
  have "yylexer (reduced q (length xs) v c) = yylexer c" by (simp add: reduced_def yypush_def)
  then show ?case using typed_reduce [OF reduce.prems(1) reduce.hyps(1-3,5,6)] reduce.prems(2) by simp
qed

lemma steps_typed:
  assumes "(yy_step next_token P conf p)\<^sup>*\<^sup>* a b" "typed_state a" "good (yylexer (fst a))"
  shows "typed_state b"
proof -
  have "typed_state b \<and> good (yylexer (fst b))"
    using assms by (induction rule: rtranclp_induct) (auto dest: step_typed)
  then show ?thesis ..
qed

lemma parse_typed:
  assumes "good s" "24 * int (left s) + 48 < int k" "parse_wf st" "\<not> bad st" "yyparse k next_token P conf p s st = Inr (n, s', st')"
  shows "parse_wf st' \<and> \<not> bad st'"
proof -
  obtain d where d: "(yy_step next_token P conf p)\<^sup>*\<^sup>* (yy_start_state s, st) (d, st')"
    using parse_ends [OF assms(1,2), of P conf p st] assms(5) by auto
  have "typed_state (yy_start_state s, st)" using assms(3,4) by (rule typed_start)
  then have "typed_state (d, st')" using steps_typed [OF d] assms(1) by (simp add: yy_start_state_def)
  then show ?thesis by (simp add: owned_def)
qed

end

end
