(* ===== verification/ScanRun.thy ===== *)
theory ScanRun
  imports ParseSafe
begin

text \<open>
  The scanner as the lexer of the parser: it keeps the contracts of \<open>YaccRun\<close> and \<open>ParseSafe\<close>, so the
  scan of every query ends, without a fault but that of a quote or a comment that is not closed, and
  its actions use no deleted object.
\<close>

section \<open>What the lexer has left\<close>

fun src_ok :: "source \<Rightarrow> bool" where
  "src_ok (Rest q) = (NUL \<notin> set q)"
| "src_ok Flushed = True"

fun src_left :: "source \<Rightarrow> nat" where
  "src_left (Rest q) = length q"
| "src_left Flushed = 0"

section \<open>Tokens\<close>

definition token_ty :: "int \<Rightarrow> ty" where
  "token_ty t = sym_ty (the (YYTRANSLATE t))"

lemma token_types:
  "token_ty 0 = T_none" "token_ty (tok ''UNION'') = T_none" "token_ty (tok ''OR'') = T_none"
  "token_ty (tok ''END'') = T_none" "token_ty (tok ''Q_STRING'') = T_str" "token_ty (tok ''DQ_STRING'') = T_str"
  "token_ty (tok ''NAME'') = T_str" "token_ty (tok ''STRING'') = T_str" "token_ty (tok ''INTEGER'') = T_int"
  "token_ty (tok ''VARIABLE'') = T_int"
  by (simp_all add: token_ty_def YYTRANSLATE_def sym_ty_def)

lemmas token_numbers = token_types [simplified]

definition plain_token :: "int \<times> string \<Rightarrow> bool" where
  "plain_token e \<longleftrightarrow> 258 \<le> tok (snd e) \<and> tok (snd e) \<le> 338 \<and> token_ty (tok (snd e)) = T_none"

lemma plain_tokens:
  "list_all plain_token yy_return_1" "list_all plain_token yy_return_2" "list_all plain_token yy_return_3"
  "list_all plain_token yy_return_4" "list_all plain_token yy_return_5"
  by (simp_all add: yy_return_1_def yy_return_2_def yy_return_3_def yy_return_4_def yy_return_5_def plain_token_def
      token_ty_def YYTRANSLATE_def sym_ty_def)

lemma yy_return_token:
  assumes "yy_return a = Some t"
  shows "258 \<le> tok t \<and> tok t \<le> 338 \<and> token_ty (tok t) = T_none"
proof -
  have "(a, t) \<in> set (yy_return_1 @ yy_return_2 @ yy_return_3 @ yy_return_4 @ yy_return_5)"
    using assms unfolding yy_return_def by (rule map_of_SomeD)
  then have "plain_token (a, t)" using plain_tokens by (auto simp: list_all_iff)
  then show ?thesis by (simp add: plain_token_def)
qed

section \<open>One rule\<close>

text \<open>A rule keeps the heap well-formed and its value owns a new string, if any.\<close>

definition step_ok :: "nat \<Rightarrow> parse_state \<Rightarrow> int option \<times> source \<times> YYSTYPE \<times> parse_state \<Rightarrow> bool" where
  "step_ok n st r \<longleftrightarrow>
     (case r of (t, src, v, st') \<Rightarrow>
        src_ok src \<and> src_left src \<le> n \<and>
        (case t of
           None \<Rightarrow> (\<exists>r'. src = Rest r') \<and> (\<forall>os. owned os st \<longrightarrow> owned os st')
         | Some t \<Rightarrow> 258 \<le> t \<and> t \<le> 338 \<and> (\<forall>os. owned os st \<longrightarrow> owned ((token_ty t, v) # os) st')))"

lemma q_scan_left: "q_scan d s quoted r = Some (s', src) \<Longrightarrow> NUL \<notin> set r \<Longrightarrow> src_ok src \<and> src_left src \<le> length r"
  by (induction d s quoted r rule: q_scan.induct) (auto split: if_splits list.splits)

lemma skip_comment_left: "skip_comment star r = Some r' \<Longrightarrow> NUL \<notin> set r \<Longrightarrow> NUL \<notin> set r' \<and> length r' \<le> length r"
  by (induction star r rule: skip_comment.induct) (auto split: if_splits)

lemma spec_string_ok:
  assumes "spec_string t s src st = Inr r" "token_ty (tok t) = T_str" "258 \<le> tok t" "tok t \<le> 338"
    "src_ok src" "src_left src \<le> n"
  shows "step_ok n st r"
proof -
  have "r = (Some (tok t), src, V_str (fst (alloc_string s st)), snd (alloc_string s st))"
    using assms(1) by (simp add: spec_string_def split_beta)
  then show ?thesis using assms(2-) owned_fresh(2) by (simp add: step_ok_def)
qed

lemma spec_quote_ok:
  assumes "spec_quote d t q st = Inr r" "token_ty (tok t) = T_str" "258 \<le> tok t" "tok t \<le> 338" "NUL \<notin> set q"
  shows "step_ok (length q) st r"
proof (cases "q_scan d [] False q")
  case (Some x)
  obtain s src where x: "x = (s, src)" by (cases x)
  have "spec_string t s src st = Inr r" using assms(1) Some x by (simp add: spec_quote_def)
  then show ?thesis using q_scan_left [OF Some [unfolded x] assms(5)] assms(2-4) by (elim conjE) (rule spec_string_ok)
qed (use assms(1) in \<open>simp add: spec_quote_def\<close>)

lemma owned_int: "owned os st \<Longrightarrow> owned ((T_int, V_int n) # os) st"
  by (auto simp: owned_def apart_def)

lemma spec_action_ok:
  assumes "spec_action a w q v st = Inr r" "NUL \<notin> set q"
  shows "step_ok (length q) st r"
proof (cases "yy_return a")
  case (Some t)
  then show ?thesis using assms yy_return_token [OF Some] by (auto simp: spec_action_def step_ok_def)
next
  case None
  consider "a = 79" | "a = 90 \<or> a = 91" | "a = 139" | "a = 144" | "a = 145" | "a = 146" | "a = 112 \<or> a = 113 \<or> a = 114"
    | "a = 115" | "a = 116" | "a = 117 \<or> a = 118" | "a = 121" | "a = 122"
    | "a \<notin> {79, 90, 91, 139, 144, 145, 146, 112, 113, 114, 115, 116, 117, 118, 121, 122}" by auto
  then show ?thesis
  proof cases
    case 4
    then show ?thesis using assms None spec_quote_ok [of SQ "''Q_STRING''" q st r] by (simp add: spec_action_def token_numbers)
  next
    case 5
    then show ?thesis using assms None spec_quote_ok [of DQ "''DQ_STRING''" q st r] by (simp add: spec_action_def token_numbers)
  next
    case 6
    then show ?thesis using assms None spec_quote_ok [of "CHR 0x60" "''NAME''" q st r] by (simp add: spec_action_def token_numbers)
  next
    case 8
    then show ?thesis using assms None spec_string_ok [of "''STRING''" "''version()''" "Rest q" st r]
      by (simp add: spec_action_def token_numbers)
  next
    case 9
    then show ?thesis using assms None skip_comment_left [of False q]
      by (auto simp: spec_action_def step_ok_def clb_defs split: option.splits)
  next
    case 11
    then show ?thesis using assms None spec_string_ok [of "''STRING''" w "Rest q" st r]
      by (simp add: spec_action_def token_numbers)
  qed (use assms None token_numbers owned_int in \<open>auto simp: spec_action_def step_ok_def clb_defs\<close>)
qed

lemma spec_action_fault: "spec_action a w q v st = Inl e \<Longrightarrow> e = Null_file"
  by (auto simp: spec_action_def spec_quote_def spec_string_def split: option.splits if_splits prod.splits)

section \<open>The lexer\<close>

lemma spec_lex_ok:
  assumes "NUL \<notin> set q"
  shows "case spec_lex q v st of
      Inl e \<Rightarrow> e = Null_file
    | Inr (t, v', src, st') \<Rightarrow> src_ok src \<and> token_code t \<and> (t = 0 \<longrightarrow> src_left src \<le> length q) \<and>
        (t \<noteq> 0 \<longrightarrow> src_left src < length q) \<and> (\<forall>os. owned os st \<longrightarrow> owned ((token_ty t, v') # os) st')"
  using assms
proof (induction q v st rule: spec_lex.induct)
  case (1 q v st)
  show ?case
  proof (cases "q = []")
    case True
    then show ?thesis by (subst spec_lex.simps) (simp add: token_numbers token_code_def)
  next
    case False
    obtain s n where l: "longest q = (acc s, n)" "1 \<le> n" "n \<le> length q"
      using munch_longest [OF False "1.prems"] by metis
    have r: "NUL \<notin> set (drop n q)" "length (drop n q) < length q" using "1.prems" l(2,3) False
      by (auto dest: in_set_dropD)
    show ?thesis
    proof (cases "spec_action (acc s) (take n q) (drop n q) v st")
      case (Inl e)
      then show ?thesis using spec_action_fault [OF Inl] False l(1) by (subst spec_lex.simps) simp
    next
      case (Inr x)
      obtain t src v' st' where x: "x = (t, src, v', st')" by (cases x)
      note ok = spec_action_ok [OF Inr [unfolded x] r(1)]
      show ?thesis
      proof (cases t)
        case (Some t)
        have "spec_lex q v st = Inr (t, v', src, st')" using Inr x Some False l(1) by (subst spec_lex.simps) simp
        then show ?thesis using ok r(2) Some by (simp add: step_ok_def token_code_def)
      next
        case None
        then obtain r' where r': "src = Rest r'" "NUL \<notin> set r'" "length r' < length q" "\<forall>os. owned os st \<longrightarrow> owned os st'"
          using ok r(2) by (auto simp: step_ok_def)
        have e: "spec_lex q v st = spec_lex r' v' st'" using Inr x None False l(1) r'(1,3) by (subst spec_lex.simps) simp
        have "case spec_lex r' v' st' of
            Inl e \<Rightarrow> e = Null_file
          | Inr (t, v', src, st'') \<Rightarrow> src_ok src \<and> token_code t \<and> (t = 0 \<longrightarrow> src_left src \<le> length r') \<and>
              (t \<noteq> 0 \<longrightarrow> src_left src < length r') \<and> (\<forall>os. owned os st' \<longrightarrow> owned ((token_ty t, v') # os) st'')"
          using "1.IH" [OF False l(1) [symmetric] refl Inr [unfolded x] refl refl refl None r'(1,3,2)] .
        then show ?thesis unfolding e using r'(3,4) by (auto split: sum.splits prod.splits)
      qed
    qed
  qed
qed

lemma spec_lexer_ok:
  fixes s :: "source \<times> YYSTYPE"
  assumes "src_ok (fst s)"
  shows "case spec_lexer s st of
      Inl e \<Rightarrow> e = Null_file
    | Inr (t, v', s', st') \<Rightarrow> src_ok (fst s') \<and> token_code t \<and> (t = 0 \<longrightarrow> src_left (fst s') \<le> src_left (fst s)) \<and>
        (t \<noteq> 0 \<longrightarrow> src_left (fst s') < src_left (fst s)) \<and> (\<forall>os. owned os st \<longrightarrow> owned ((token_ty t, v') # os) st')"
proof (cases "fst s")
  case (Rest q)
  then show ?thesis using assms spec_lex_ok [of q st "snd s"]
    by (auto simp: spec_lexer_def split: sum.splits)
next
  case Flushed
  then show ?thesis by (simp add: spec_lexer_def)
qed

interpretation query: typed_source spec_lexer "\<lambda>s. src_ok (fst s)" "\<lambda>s. src_left (fst s)" Null_file
proof unfold_locales
  fix s :: "source \<times> YYSTYPE" and st t v s' st'
  assume "src_ok (fst s)" "spec_lexer s st = Inr (t, v, s', st')"
  then show "src_ok (fst s') \<and> token_code t \<and> (t = 0 \<longrightarrow> src_left (fst s') \<le> src_left (fst s)) \<and>
      (t \<noteq> 0 \<longrightarrow> src_left (fst s') < src_left (fst s))"
    using spec_lexer_ok [of s st] by simp
next
  fix s :: "source \<times> YYSTYPE" and st e
  assume "src_ok (fst s)" "spec_lexer s st = Inl e"
  then show "e = Null_file" using spec_lexer_ok [of s st] by simp
next
  fix s :: "source \<times> YYSTYPE" and os st t v s' st'
  assume "src_ok (fst s)" "owned os st" "spec_lexer s st = Inr (t, v, s', st')"
  then show "owned ((sym_ty (the (YYTRANSLATE t)), v) # os) st'"
    using spec_lexer_ok [of s st] by (simp add: token_ty_def)
qed

section \<open>The scan of a query\<close>

lemma scan_string_ends:
  assumes "NUL \<notin> set q"
  shows "case scan_string P conf p q v st of
      Inl e \<Rightarrow> e = Null_file
    | Inr (n, s', st') \<Rightarrow> n \<in> {0, 1, 2} \<and>
        (\<exists>d. yy_steps spec_lexer P conf p (yy_start_state (Rest q, v), st) (d, st') \<and> s' = yylexer d \<and>
          (n = 0 \<longrightarrow> hd (yyss d) = YYFINAL))"
  unfolding scan_string_def using assms by (intro query.parse_ends) (simp_all add: parse_fuel_def)

lemma scan_string_typed:
  assumes "NUL \<notin> set q" "parse_wf st" "\<not> bad st" "scan_string P conf p q v st = Inr (n, s, st')"
  shows "parse_wf st' \<and> \<not> bad st'"
  using assms(4) unfolding scan_string_def
  by (rule query.parse_typed [rotated 4]) (use assms(1-3) in \<open>simp_all add: parse_fuel_def\<close>)

end
