(* ===== verification/PlainQuery.thy ===== *)
theory PlainQuery
  imports ScanRun
begin

text \<open>
  The words that make the scanner read on: only a quote character and the star of a comment lead to the
  states of those rules, so a query without them is scanned without a fault.
\<close>

section \<open>Transitions into a state\<close>

text \<open>A transition comes from an entry of the row of the state itself, of row 1 or of a template row.\<close>

definition inner :: "int \<Rightarrow> bool" where
  "inner s \<longleftrightarrow> 1 \<le> s \<and> s \<le> 630"

definition entry_of :: "int \<Rightarrow> int \<Rightarrow> int \<Rightarrow> bool" where
  "entry_of s c t \<longleftrightarrow> (\<exists>k b c'. tab_at yy_base k = Some b \<and> tab_at yy_chk (b + c') = Some k \<and>
     tab_at yy_nxt (b + c') = Some t \<and> (inner k \<longrightarrow> inner s \<and> c' = c))"

lemma outer_rows: "all_from (\<lambda>s d. inner s \<or> d = 0 \<or> d = 631) 0 yy_def"
  by (simp add: yy_def_def inner_def)

lemma entry_own:
  "tab_at yy_base s = Some b \<Longrightarrow> tab_at yy_chk (b + c) = Some s \<Longrightarrow> tab_at yy_nxt (b + c) = Some t \<Longrightarrow> entry_of s c t"
  unfolding entry_of_def by blast

lemma entry_default:
  assumes "tab_at yy_def s = Some d" "entry_of d c' t" "d < 632 \<longrightarrow> c' = c"
  shows "entry_of s c t"
proof -
  obtain k b e where k: "tab_at yy_base k = Some b" "tab_at yy_chk (b + e) = Some k" "tab_at yy_nxt (b + e) = Some t"
    "inner k \<longrightarrow> inner d \<and> e = c'"
    using assms(2) by (auto simp: entry_of_def)
  have "inner d \<Longrightarrow> inner s \<and> c' = c" using all_fromD [OF outer_rows assms(1)] assms(3) by (auto simp: inner_def)
  then show ?thesis using k unfolding entry_of_def by blast
qed

lemma yy_next_entry: "yy_next s c = Some t \<Longrightarrow> entry_of s c t"
proof (rule yy_next.raw_induct [where P = entry_of])
  fix nxt s c t
  assume IH: "\<And>s c t. nxt s c = Some t \<Longrightarrow> entry_of s c t"
    and eq: "Option.bind (tab_at yy_base s) (\<lambda>b. Option.bind (tab_at yy_chk (b + c)) (\<lambda>k.
      if k = s then tab_at yy_nxt (b + c)
      else Option.bind (tab_at yy_def s) (\<lambda>s'.
        if 632 \<le> s' then Option.bind (tab_at yy_meta c) (nxt s') else nxt s' c))) = Some t"
  obtain b k where b: "tab_at yy_base s = Some b" "tab_at yy_chk (b + c) = Some k" using eq by (auto simp: Option.bind_eq_Some_conv)
  show "entry_of s c t"
  proof (cases "k = s")
    case True
    then show ?thesis using eq b entry_own by simp
  next
    case False
    then obtain d where d: "tab_at yy_def s = Some d" "(if 632 \<le> d then Option.bind (tab_at yy_meta c) (nxt d) else nxt d c) = Some t"
      using eq b by (auto simp: Option.bind_eq_Some_conv)
    then obtain c' where "entry_of d c' t" "d < 632 \<longrightarrow> c' = c"
      using IH by (auto simp: Option.bind_eq_Some_conv split: if_splits)
    then show ?thesis using entry_default d(1) by blast
  qed
qed

section \<open>Quotes and comments\<close>

text \<open>The states of the rules for the three quote characters and for a comment.\<close>

definition reads_on :: "int \<Rightarrow> bool" where
  "reads_on s \<longleftrightarrow> s \<in> {8, 12, 55, 65}"

lemma opening_rules:
  "all_from (\<lambda>s a. (a = 116 \<longrightarrow> s = 65) \<and> (a = 144 \<longrightarrow> s = 12) \<and> (a = 145 \<longrightarrow> s = 8) \<and> (a = 146 \<longrightarrow> s = 55)) 0 yy_accept"
  by (simp add: yy_accept_def)

lemma opening_entries:
  "all_from (\<lambda>i (n, k). (n = 8 \<longrightarrow> i = 6 \<and> k = 1) \<and> (n = 12 \<longrightarrow> i = 10 \<and> k = 1) \<and> (n = 55 \<longrightarrow> i = 56 \<and> k = 1) \<and>
     (n = 65 \<longrightarrow> i = 486 \<and> k = 19)) 0 (zip yy_nxt yy_chk)"
  by (simp add: yy_nxt_def yy_chk_def)

lemma opening_classes: "all_from (\<lambda>b c. c \<in> {6, 10, 56, 13} \<longrightarrow> b \<in> {34, 39, 96, 42}) 0 yy_ec"
  by (simp add: yy_ec_def)

definition quiet_char :: "char \<Rightarrow> bool" where
  "quiet_char ch \<longleftrightarrow> ch \<noteq> SQ \<and> ch \<noteq> DQ \<and> ch \<noteq> CHR 0x60 \<and> ch \<noteq> CHR ''*''"

lemma star_code [simp]: "sc_to_ui ch = 42 \<longleftrightarrow> ch = CHR ''*''"
proof -
  have "sc_to_ui (CHR ''*'') = 42" by (simp add: sc_to_ui_def byte_def)
  then show ?thesis by (metis sc_to_ui_inject)
qed

lemma opening_next:
  assumes "live s" "ch \<noteq> NUL" "quiet_char ch"
  shows "\<not> reads_on (dnext s ch)"
proof
  assume o: "reads_on (dnext s ch)"
  obtain c where c: "tab_at yy_ec (sc_to_ui ch) = Some c" "yy_next s c = Some (dnext s ch)" using dnext_at [OF assms(1,2)] by blast
  obtain k b c' where k: "tab_at yy_base k = Some b" "tab_at yy_chk (b + c') = Some k" "tab_at yy_nxt (b + c') = Some (dnext s ch)"
    "inner k \<longrightarrow> c' = c"
    using yy_next_entry [OF c(2)] by (auto simp: entry_of_def)
  have "tab_at (zip yy_nxt yy_chk) (b + c') = Some (dnext s ch, k)"
    using k(2,3) by (auto simp: tab_at_def table_lengths split: if_splits)
  from all_fromD [OF opening_entries this] o
  have "k = 1 \<and> b + c' \<in> {6, 10, 56} \<or> k = 19 \<and> b + c' = 486" by (auto simp: reads_on_def)
  moreover have "tab_at yy_base 1 = Some 0" "tab_at yy_base 19 = Some 473" by simp_all
  ultimately have "c \<in> {6, 10, 56, 13}" using k(1,4) by (auto simp: inner_def)
  then have "sc_to_ui ch \<in> {34, 39, 96, 42}" using all_fromD [OF opening_classes c(1)] by simp
  then show False using assms(3) by (auto simp: quiet_char_def)
qed

lemma munch_quiet:
  "live s \<Longrightarrow> NUL \<notin> set w \<Longrightarrow> \<forall>ch\<in>set w. quiet_char ch \<Longrightarrow> \<not> reads_on s \<Longrightarrow> \<not> reads_on las \<Longrightarrow>
     munch s las lac cp w = (s', n) \<Longrightarrow> \<not> reads_on s'"
proof (induction w arbitrary: s las lac cp)
  case (Cons ch w)
  show ?case
  proof (cases "dnext s ch = 631")
    case True
    then show ?thesis using Cons.prems by (auto split: if_splits)
  next
    case False
    have ch: "ch \<noteq> NUL" "quiet_char ch" using Cons.prems by auto
    have l: "live (dnext s ch)" using Cons.prems(1) ch(1) False by (rule live_dnext)
    have m: "munch (dnext s ch) (if acc s \<noteq> 0 then s else las) (if acc s \<noteq> 0 then cp else lac) (cp + 1) w = (s', n)"
      using Cons.prems(6) False by (simp add: Let_def)
    show ?thesis
      by (rule Cons.IH [OF l _ _ opening_next [OF Cons.prems(1) ch] _ m]) (use Cons.prems in auto)
  qed
qed (auto split: if_splits)

lemma longest_quiet:
  assumes "q \<noteq> []" "NUL \<notin> set q" "\<forall>ch\<in>set q. quiet_char ch" "longest q = (a, n)"
  shows "a \<notin> {116, 144, 145, 146}"
proof -
  obtain s m where s: "munch 1 0 0 0 q = (s, 0 + int m)" "longest q = (acc s, m)" "live s"
    using munch_longest [OF assms(1,2)] by metis
  have "\<not> reads_on s" using munch_quiet [OF live_1 assms(2,3) _ _ s(1)] by (simp add: reads_on_def)
  then show ?thesis using all_fromD [OF opening_rules acc_at [OF s(3)]] assms(4) s(2) by (auto simp: reads_on_def)
qed

section \<open>A query without them\<close>

fun src_quiet :: "source \<Rightarrow> bool" where
  "src_quiet (Rest q) = (NUL \<notin> set q \<and> (\<forall>ch\<in>set q. quiet_char ch))"
| "src_quiet Flushed = False"

lemma spec_action_quiet:
  assumes "a \<notin> {116, 144, 145, 146}"
  shows "\<exists>t v' st'. spec_action a w r v st = Inr (t, Rest r, v', st')"
proof (cases "yy_return a")
  case None
  have s: "\<exists>t v' st'. spec_string x y (Rest r) st = Inr (t, Rest r, v', st')" for x y
    by (simp add: spec_string_def split_beta)
  show ?thesis using assms None s unfolding spec_action_def by (simp split: if_split)
qed (simp add: spec_action_def)

lemma spec_lex_quiet:
  assumes "src_quiet (Rest q)"
  shows "\<exists>t v' r st'. spec_lex q v st = Inr (t, v', Rest r, st') \<and> src_quiet (Rest r)"
  using assms
proof (induction q v st rule: spec_lex.induct)
  case (1 q v st)
  show ?case
  proof (cases "q = []")
    case True
    then show ?thesis by (subst spec_lex.simps) simp
  next
    case False
    obtain s n where l: "longest q = (acc s, n)" "1 \<le> n" "n \<le> length q"
      using "1.prems" munch_longest [OF False] by (metis src_quiet.simps(1))
    have r: "src_quiet (Rest (drop n q))" "length (drop n q) < length q" using "1.prems" l(2,3) False
      by (auto dest: in_set_dropD)
    have "acc s \<notin> {116, 144, 145, 146}" using longest_quiet [OF False _ _ l(1)] "1.prems" by simp
    then obtain t v' st' where x: "spec_action (acc s) (take n q) (drop n q) v st = Inr (t, Rest (drop n q), v', st')"
      using spec_action_quiet by blast
    show ?thesis
    proof (cases t)
      case (Some t)
      then show ?thesis using x False l(1) r(1) by (subst spec_lex.simps) simp
    next
      case None
      have e: "spec_lex q v st = spec_lex (drop n q) v' st'" using x None False l(1) r(2) by (subst spec_lex.simps) simp
      show ?thesis unfolding e
        using "1.IH" [OF False l(1) [symmetric] refl x refl refl refl None refl r(2,1)] .
    qed
  qed
qed

text \<open>The lexer on such a query has no fault at all.\<close>

interpretation quiet: token_source spec_lexer "\<lambda>s. src_quiet (fst s)" "\<lambda>s. src_left (fst s)" fault for fault
proof unfold_locales
  fix s :: "source \<times> YYSTYPE" and st t v s' st'
  assume s: "src_quiet (fst s)" and n: "spec_lexer s st = Inr (t, v, s', st')"
  then obtain q where q: "fst s = Rest q" by (cases "fst s") auto
  then have "src_ok (fst s)" using s by simp
  then have "token_code t \<and> (t = 0 \<longrightarrow> src_left (fst s') \<le> src_left (fst s)) \<and> (t \<noteq> 0 \<longrightarrow> src_left (fst s') < src_left (fst s))"
    using query.token [OF _ n] by blast
  moreover have "src_quiet (fst s')" using spec_lex_quiet [of q "snd s" st] n s q by (auto simp: spec_lexer_def)
  ultimately show "src_quiet (fst s') \<and> token_code t \<and> (t = 0 \<longrightarrow> src_left (fst s') \<le> src_left (fst s)) \<and>
      (t \<noteq> 0 \<longrightarrow> src_left (fst s') < src_left (fst s))" by blast
next
  fix s :: "source \<times> YYSTYPE" and st e
  assume s: "src_quiet (fst s)" and n: "spec_lexer s st = Inl e"
  then obtain q where q: "fst s = Rest q" by (cases "fst s") auto
  then show "e = fault" using spec_lex_quiet [of q "snd s" st] n s by (auto simp: spec_lexer_def)
qed

lemma scan_string_quiet:
  assumes "NUL \<notin> set q" "\<forall>ch\<in>set q. quiet_char ch"
  shows "\<exists>n s st'. scan_string P conf p q v st = Inr (n, s, st')"
proof (cases "scan_string P conf p q v st")
  case (Inl e)
  have "e = fault" for fault
    using quiet.parse_ends [where s = "(Rest q, v)" and k = "parse_fuel (length q)" and P = P and conf = conf and p = p and st = st and fault = fault] assms Inl
    by (simp add: scan_string_def parse_fuel_def)
  from this [of Null_file] this [of No_fuel] show ?thesis by simp
next
  case (Inr r)
  then show ?thesis by (cases r) auto
qed

end
