(* ===== verification/QueryParse.thy ===== *)
theory QueryParse
  imports PlainQuery
begin

text \<open>
  \<open>query_parse\<close> of parser/parser.cpp over the generated scanner and parser: the risk record is cleared,
  the query is scanned, and what an aborted parse left behind is freed.
\<close>

section \<open>The operation\<close>

text \<open>The state is that of the scanner and of the parser's objects.\<close>

definition query_parse :: "'re pcre \<Rightarrow> GreenSQLConfig \<Rightarrow> 're SQLPatterns option \<Rightarrow> string
    \<Rightarrow> flex \<times> parse_state \<Rightarrow> yy_fault + (flex \<times> parse_state)" where
  "query_parse P conf patterns q s =
     (case s of (f, st) \<Rightarrow>
      bindE (scan_buffer P conf patterns q f (st\<lparr>risk := risk_zero\<rparr>)) (\<lambda>(f, st).
      Inr (f, free_expressions (free_sql_strings st))))"

section \<open>Between two queries\<close>

definition parser_ok :: "flex \<times> parse_state \<Rightarrow> bool" where
  "parser_ok s \<longleftrightarrow> idle (fst s) \<and> parse_wf (snd s) \<and> \<not> bad (snd s)"

definition no_objects :: "parse_state \<Rightarrow> bool" where
  "no_objects st \<longleftrightarrow> str_heap st = Map.empty \<and> exp_heap st = Map.empty \<and> sql_strings st = [] \<and> expressions st = []"

lemma parser_ok_start: "parser_ok (flex_start, parse_start)"
  by (simp add: parser_ok_def idle_start wf_start) (simp add: parse_start_def)

lemma frees_all:
  assumes "parse_wf st"
  shows "parse_wf (free_expressions (free_sql_strings st)) \<and> no_objects (free_expressions (free_sql_strings st)) \<and>
    bad (free_expressions (free_sql_strings st)) = bad st \<and> risk (free_expressions (free_sql_strings st)) = risk st"
proof -
  define s1 where "s1 = free_sql_strings st"
  have s1: "parse_wf s1" "sql_strings s1 = []" "bad s1 = bad st" "risk s1 = risk st"
    using free_strings_all [OF assms le_refl] by (simp_all add: s1_def free_sql_strings_def Let_def)
  then have s2: "parse_wf (free_expressions s1)" "expressions (free_expressions s1) = []" "bad (free_expressions s1) = bad st"
    "sql_strings (free_expressions s1) = []" "risk (free_expressions s1) = risk st"
    using free_expressions_all [OF s1(1) le_refl] by (simp_all add: free_expressions_def Let_def)
  then show ?thesis using wf_empty [OF s2(1)] by (simp add: s1_def no_objects_def)
qed

lemma cstr_cstr [simp]: "cstr (cstr s) = cstr s"
  by (rule cstr_id) (rule cstr_no_NUL)

lemma scan_buffer_cstr: "scan_buffer P conf p (cstr q) = scan_buffer P conf p q"
  by (simp add: fun_eq_iff scan_buffer_def yy_scan_string_def)

text \<open>A parse, in terms of the scanner on strings.\<close>

lemma query_parse_string:
  assumes "parser_ok (f, st)"
  shows "case scan_string P conf p (cstr q) (yylval f) (st\<lparr>risk := risk_zero\<rparr>) of
      Inl e \<Rightarrow> query_parse P conf p q (f, st) = Inl e
    | Inr (n, s, st') \<Rightarrow> \<exists>f'. query_parse P conf p q (f, st) = Inr (f', free_expressions (free_sql_strings st')) \<and> idle f'"
proof -
  have "idle f" using assms by (simp add: parser_ok_def)
  note S = scan_buffer_refines [OF this cstr_no_NUL, of P conf p q "st\<lparr>risk := risk_zero\<rparr>", unfolded scan_buffer_cstr]
  show ?thesis
  proof (cases "scan_string P conf p (cstr q) (yylval f) (st\<lparr>risk := risk_zero\<rparr>)")
    case (Inl e)
    then show ?thesis using S by (simp add: query_parse_def)
  next
    case (Inr r)
    obtain n s st' where r: "r = (n, s, st')" by (cases r)
    obtain f' where "scan_buffer P conf p q f (st\<lparr>risk := risk_zero\<rparr>) = Inr (f', st')" "idle f'"
      using S Inr r by auto
    then show ?thesis using Inr r by (simp add: query_parse_def)
  qed
qed

lemma query_parse_cases:
  assumes "parser_ok s"
  obtains "query_parse P conf p q s = Inl Null_file"
    | f st n l st' where "query_parse P conf p q s = Inr (f, st)" "parser_ok (f, st)" "no_objects st"
      "scan_string P conf p (cstr q) (yylval (fst s)) ((snd s)\<lparr>risk := risk_zero\<rparr>) = Inr (n, l, st')" "risk st = risk st'"
proof -
  have s: "parser_ok (fst s, snd s)" using assms by simp
  have wf: "parse_wf ((snd s)\<lparr>risk := risk_zero\<rparr>)" "\<not> bad ((snd s)\<lparr>risk := risk_zero\<rparr>)"
    using assms by (simp_all add: parser_ok_def parse_wf_def)
  note S = query_parse_string [OF s, of P conf p q]
  show thesis
  proof (cases "scan_string P conf p (cstr q) (yylval (fst s)) ((snd s)\<lparr>risk := risk_zero\<rparr>)")
    case (Inl e)
    have "e = Null_file"
      using scan_string_ends [OF cstr_no_NUL [of q], where P = P and conf = conf and p = p and v = "yylval (fst s)"
          and st = "(snd s)\<lparr>risk := risk_zero\<rparr>"] Inl by simp
    then show thesis using that(1) S Inl by simp
  next
    case (Inr r)
    obtain n l st' where r: "r = (n, l, st')" by (cases r)
    obtain f' where f': "query_parse P conf p q s = Inr (f', free_expressions (free_sql_strings st'))" "idle f'"
      using S Inr r by auto
    have "parse_wf st' \<and> \<not> bad st'" using scan_string_typed [OF cstr_no_NUL wf] Inr r by blast
    then show thesis using that(2) [OF f'(1)] f'(2) frees_all [of st'] Inr r by (simp add: parser_ok_def)
  qed
qed

lemma query_parse_quiet:
  assumes "parser_ok s" "\<forall>ch\<in>set (cstr q). quiet_char ch"
  shows "\<exists>f st. query_parse P conf p q s = Inr (f, st) \<and> parser_ok (f, st)"
proof (rule query_parse_cases [OF assms(1), of P conf p q])
  have s: "parser_ok (fst s, snd s)" using assms(1) by simp
  obtain n l st' where "scan_string P conf p (cstr q) (yylval (fst s)) ((snd s)\<lparr>risk := risk_zero\<rparr>) = Inr (n, l, st')"
    using scan_string_quiet [OF cstr_no_NUL assms(2)] by metis
  then show ?thesis if "query_parse P conf p q s = Inl Null_file"
    using query_parse_string [OF s, of P conf p q] that by auto
qed blast

section \<open>Properties\<close>

text \<open>C13: the generated scanner, with its buffer, its end-of-buffer protocol and the characters its rules read
  and push back, implements longest match on plain strings: a scan and parse of any query has the outcome
  and the effects of the parser over the scanner on strings.\<close>

theorem scan_buffer_implements:
  assumes "idle f"
  shows "case scan_string P conf p (cstr q) (yylval f) st of
      Inl e \<Rightarrow> scan_buffer P conf p q f st = Inl e
    | Inr (n, s, st') \<Rightarrow> \<exists>f'. scan_buffer P conf p q f st = Inr (f', st') \<and> idle f' \<and> yylval f' = snd s"
  using scan_buffer_refines [OF assms cstr_no_NUL, of P conf p q st] unfolding scan_buffer_cstr .

theorem scan_buffer_implements_witness:
  "case scan_string \<lparr>pcre_compile = Some, pcre_exec = (=)\<rparr> config_init None (cstr ''id'') (yylval flex_start) parse_start of
      Inl e \<Rightarrow> scan_buffer \<lparr>pcre_compile = Some, pcre_exec = (=)\<rparr> config_init None ''id'' flex_start parse_start = Inl e
    | Inr (n, s, st') \<Rightarrow> \<exists>f'. scan_buffer \<lparr>pcre_compile = Some, pcre_exec = (=)\<rparr> config_init None ''id'' flex_start parse_start = Inr (f', st') \<and>
        idle f' \<and> yylval f' = snd s"
  by (rule scan_buffer_implements [OF idle_start])

text \<open>C11: the scan of every query ends: the scanner and the parser stay inside their tables, buffers and
  stacks, within the fuel of the model and without a fatal scanner error, and \<open>query_parse\<close> leaves the
  scanner and the objects ready for the next query.  The one way not to return is to read from the null
  file, past the end of the query.\<close>

theorem query_parse_total:
  assumes "parser_ok s"
  shows "query_parse P conf p q s = Inl Null_file \<or> (\<exists>s'. query_parse P conf p q s = Inr s' \<and> parser_ok s')"
  by (rule query_parse_cases [OF assms, of P conf p q]) blast+

theorem query_parse_total_witness:
  "query_parse \<lparr>pcre_compile = Some, pcre_exec = (=)\<rparr> config_init None ''id'' (flex_start, parse_start) = Inl Null_file \<or>
    (\<exists>s'. query_parse \<lparr>pcre_compile = Some, pcre_exec = (=)\<rparr> config_init None ''id'' (flex_start, parse_start) = Inr s' \<and> parser_ok s')"
  by (rule query_parse_total [OF parser_ok_start])

text \<open>C15: a query without quote characters and stars cannot make the scanner read past its end: its
  parse returns.\<close>

theorem query_parse_returns:
  assumes "parser_ok s" "\<forall>ch\<in>set (cstr q). ch \<noteq> SQ \<and> ch \<noteq> DQ \<and> ch \<noteq> CHR 0x60 \<and> ch \<noteq> CHR ''*''"
  shows "\<exists>s'. query_parse P conf p q s = Inr s' \<and> parser_ok s'"
  using query_parse_quiet [OF assms(1), of q P conf p] assms(2) by (auto simp: quiet_char_def)

theorem query_parse_returns_witness:
  "\<exists>s'. query_parse \<lparr>pcre_compile = Some, pcre_exec = (=)\<rparr> config_init None ''id'' (flex_start, parse_start) = Inr s' \<and> parser_ok s'"
  by (rule query_parse_returns [OF parser_ok_start]) (simp add: cstr_def)

text \<open>C16: a parse leaks nothing and frees nothing twice: whatever the query and wherever its parse is
  aborted, \<open>query_parse\<close> ends with no string and no expression left, and neither an action nor the
  clean-up has used a deleted object.\<close>

theorem query_parse_frees_all:
  assumes "parser_ok s" "query_parse P conf p q s = Inr (f, st)"
  shows "no_objects st \<and> \<not> bad st"
  by (rule query_parse_cases [OF assms(1), of P conf p q]) (use assms(2) in \<open>auto simp: parser_ok_def\<close>)

theorem query_parse_frees_all_witness:
  "\<exists>f st. query_parse \<lparr>pcre_compile = Some, pcre_exec = (=)\<rparr> config_init None ''id'' (flex_start, parse_start) = Inr (f, st) \<and>
    no_objects st \<and> \<not> bad st"
proof -
  have "\<forall>ch\<in>set (cstr ''id''). quiet_char ch" by (simp add: cstr_def quiet_char_def)
  then obtain f st where "query_parse \<lparr>pcre_compile = Some, pcre_exec = (=)\<rparr> config_init None ''id'' (flex_start, parse_start) = Inr (f, st)"
    using query_parse_quiet [OF parser_ok_start] by blast
  with query_parse_frees_all [OF parser_ok_start this] show ?thesis by blast
qed



end
