(* ===== verification/Connection.thy ===== *)
theory Connection
  imports NormProps RiskEngine Buffer DbMap Alert Log QueryParse
begin

text \<open>
  The connection and its query check (connection.hpp, connection.cpp): every client session is a
  \<open>Connection\<close>, and every query that a protocol class finds in its requests goes through
  \<open>check_query\<close>, which decides whether it is passed on.

  \<open>glob\<close> collects the objects the check changes: the alert cache with the storage
  connection (alert.cpp, sql_api.c), the parser lists, the database map, the log streams and the
  static \<open>status\<close> of connection.hpp.  \<open>ctx\<close> holds what it only reads: the entry points of the
  storage library, the configuration, PCRE, the scanner and the file system.  A step that
  dereferences a null or dangling pointer, reads out of bounds or formats with a bad format string
  has the result \<open>None\<close>.  The progress messages sent to \<open>logevent\<close> are left out here
  (\<open>logevent\<close> itself is modelled in \<open>Log\<close>); alerts and events are not.
\<close>

section \<open>State\<close>

record Connection =
  request_in :: Buffer
  request_out :: Buffer
  response_in :: Buffer
  response_out :: Buffer
  first_request :: bool
  con_proxy_id :: int
  db_srv_version :: string
  con_db_name :: string
  db_new_name :: string
  con_db_user :: string
  con_db_type :: string
  db_user_ip :: string
  con_db :: "addr option"
  SecondPacket :: bool
  original_query :: string
  first_response :: bool

definition new_Connection :: "int \<Rightarrow> Connection" where
  "new_Connection proxy_id = \<lparr>request_in = new_Buffer, request_out = new_Buffer, response_in = new_Buffer,
     response_out = new_Buffer, first_request = True, con_proxy_id = proxy_id, db_srv_version = [],
     con_db_name = [], db_new_name = [], con_db_user = [], con_db_type = [], db_user_ip = [],
     con_db = None, SecondPacket = False, original_query = [], first_response = True\<rparr>"

record 'w glob =
  alerts :: "'w alertst"
  scanner :: flex
  parser :: parse_state
  dbsmap :: dbmap
  logs :: logst
  status :: DBBlockLevel

record ('w, 're) ctx =
  cx_env :: "'w env"
  cx_conf :: GreenSQLConfig
  cx_pcre :: "'re pcre"
  cx_log :: logenv

text \<open>\<open>*db\<close>: the object the connection points to.\<close>

definition deref_db :: "'z Connection_scheme \<Rightarrow> 'w glob \<Rightarrow> DBPermObj option" where
  "deref_db c g = (case con_db c of None \<Rightarrow> None | Some a \<Rightarrow> heap (dbsmap g) a)"

text \<open>Run an operation of the storage library, of the alert cache or of the log.\<close>

definition on_lib :: "('w dblib \<Rightarrow> 'a \<times> 'w dblib) \<Rightarrow> 'w glob \<Rightarrow> 'a \<times> 'w glob" where
  "on_lib f g = (let (r, l) = f (lib (alerts g)) in (r, g\<lparr>alerts := (alerts g)\<lparr>lib := l\<rparr>\<rparr>))"

definition on_alerts :: "('w alertst \<Rightarrow> 'a \<times> 'w alertst) \<Rightarrow> 'w glob \<Rightarrow> 'w glob" where
  "on_alerts f g = g\<lparr>alerts := snd (f (alerts g))\<rparr>"

definition on_logs :: "(logst \<Rightarrow> logst) \<Rightarrow> 'w glob \<Rightarrow> 'w glob" where
  "on_logs f g = g\<lparr>logs := f (logs g)\<rparr>"

definition on_event :: "(logst \<Rightarrow> logst option) \<Rightarrow> 'w glob \<Rightarrow> 'w glob option" where
  "on_event f g = map_option (\<lambda>l. g\<lparr>logs := l\<rparr>) (f (logs g))"

section \<open>The risk of a query\<close>

text \<open>One \<open>if\<close> of \<open>calculateRisk\<close>: a factor counts if it is enabled and found.
  The sum is an \<open>unsigned int\<close>.\<close>

definition add_factor :: "int \<Rightarrow> bool \<Rightarrow> string \<Rightarrow> 32 word \<times> string \<Rightarrow> 32 word \<times> string" where
  "add_factor weight found text sofar =
     (if weight > 0 \<and> found then (fst sofar + word_of_int weight, snd sofar @ text @ [LF]) else sofar)"

definition calculateRisk :: "('w, 're) ctx \<Rightarrow> 're SQLPatterns \<Rightarrow> string \<Rightarrow> string \<Rightarrow> 'w glob
    \<Rightarrow> (32 word \<times> string \<times> 'w glob) option" where
  "calculateRisk X pats query reason g =
     (case query_parse (cx_pcre X) (cx_conf X) (Some pats) (cstr query) (scanner g, parser g) of
        Inl e \<Rightarrow> None
      | Inr (f, p) \<Rightarrow>
     (let conf = cx_conf X;
          g = g\<lparr>scanner := f, parser := p\<rparr>;
          sofar = (0, reason);
          sofar = add_factor (re_sql_comments conf) (has_comment (risk p)) ''Query has comments'' sofar;
          sofar = add_factor (re_s_tables conf) (has_s_table (risk p)) ''Query uses sensitive tables'' sofar;
          sofar = add_factor (re_multiple_queries conf) (has_separator (risk p)) ''Multiple queries found'' sofar;
          sofar = add_factor (re_or_token conf) (has_or (risk p)) (''Query has '' @ [SQ] @ ''or'' @ [SQ] @ '' token'') sofar;
          sofar = add_factor (re_union_token conf) (has_union (risk p)) (''Query has '' @ [SQ] @ ''union'' @ [SQ] @ '' token'') sofar;
          sofar = add_factor (re_var_cmp_var conf) (has_tautology (risk p)) ''True expression detected (SQL tautology)'' sofar;
          sofar = add_factor (re_empty_password conf) (has_empty_pwd (risk p)) ''Query has empty password expression'' sofar;
          sofar = add_factor (re_bruteforce conf) (has_bruteforce_function (risk p))
                  ''Query has SQL fuction that can be used to bruteforce db contents'' sofar
      in Some (fst sofar, snd sofar, g)))"

section \<open>Explanations\<close>

text \<open>\<open>question\<close> and \<open>block_reason\<close> append to the string they are given and
  return it.\<close>

definition question :: "('w, 're) ctx \<Rightarrow> 'z Connection_scheme \<Rightarrow> string \<Rightarrow> string \<Rightarrow> 'w glob
    \<Rightarrow> (string \<times> 'w glob) option" where
  "question X c query reason g =
     (if check_or_token query then Some (reason @ ''Query has '' @ [SQ] @ ''or'' @ [SQ] @ '' token.'', g)
      else if check_not_token query then Some (reason @ ''Query has '' @ [SQ] @ ''not'' @ [SQ] @ '' token.'', g)
      else if check_true_token query then Some (reason @ ''Query has '' @ [SQ] @ ''true'' @ [SQ] @ '' token.'', g)
      else if check_comments query then Some (reason @ ''Query has comments.'', g)
      else if check_union_token query then Some (reason @ ''Query has '' @ [SQ] @ ''union'' @ [SQ] @ '' token.'', g)
      else if check_in_token query then Some (reason @ ''Query has '' @ [SQ] @ ''in'' @ [SQ] @ '' token.'', g)
      else if check_and_token query then Some (reason @ ''Query has '' @ [SQ] @ ''and'' @ [SQ] @ '' token.'', g)
      else case deref_db c g of
             None \<Rightarrow> None
           | Some d \<Rightarrow>
               (let (ok, g) = on_lib (check_user_permiss (cx_env X) (con_db_user c) query) g
                in Some (reason @ (if ok then ''Checking query.'' else ''Unknown query.''), g)))"

text \<open>One \<open>if\<close> of \<open>block_reason\<close>.\<close>

definition add_reason :: "bool \<Rightarrow> DBBlockLevel \<Rightarrow> string \<Rightarrow> DBBlockLevel \<times> string \<Rightarrow> DBBlockLevel \<times> string" where
  "add_reason b level text sofar = (if b then (level, snd sofar @ text) else sofar)"

definition block_reason :: "('w, 're) ctx \<Rightarrow> 'z Connection_scheme \<Rightarrow> string \<Rightarrow> string \<Rightarrow> 'w glob
    \<Rightarrow> (string \<times> 'w glob) option" where
  "block_reason X c query reason g =
     (case deref_db c g of
        None \<Rightarrow> None
      | Some d \<Rightarrow>
          (let (ok, g) = on_lib (check_user_permiss (cx_env X) (con_db_user c) query) g;
               sofar = (if ok then (WARN, reason @ ''Co quyen truy cap.'')
                      else (BLOCKED, reason @ ''Khong co quyen truy cap. ''));
               sofar = add_reason (check_not_token query) BLOCKED ''Chua bieu thuc dieu kien cu the la NOT. '' sofar;
               sofar = add_reason (check_true_token query) BLOCKED ''Chua bieu thuc dieu kien cu the la TRUE. '' sofar;
               sofar = add_reason (check_or_token query) BLOCKED ''Chua bieu thuc dieu kien cu the la OR. '' sofar;
               sofar = add_reason (check_union_token query) BLOCKED ''Chua bieu thuc dieu kien cu the la UNION. '' sofar;
               sofar = add_reason (check_in_token query) BLOCKED ''Chua bieu thuc dieu kien cu the la IN. '' sofar;
               sofar = add_reason (check_and_token query) BLOCKED ''Chua bieu thuc dieu kien cu the la AND. '' sofar;
               sofar = add_reason (\<not> check_command query) SQL_ERROR ''Loi do nhap sai cu phap. '' sofar;
               sofar = add_reason (\<not> check_white_space query) SQL_ERROR ''Loi do thieu khoang trang giua cac lenh. '' sofar;
               sofar = add_reason (check_comments query) BLOCKED ''Chua cac ki tu dac biet trong query. '' sofar
           in Some (snd sofar, g\<lparr>status := fst sofar\<rparr>)))"

section \<open>The check\<close>

definition event_format :: string where
  "event_format = ''[User: %s]**[Query: %s]**[Questions: %s]**[Block reasons: %s]'' @ [LF]"

definition not_in_whitelist :: string where
  "not_in_whitelist = ''Query blocked because it is not in whitelist''"

definition learning_mode :: "DBBlockStatus \<Rightarrow> bool" where
  "learning_mode st \<longleftrightarrow> st = LEARNING_MODE \<or> st = LEARNING_MODE_3DAYS \<or> st = LEARNING_MODE_7DAYS"

text \<open>\<open>black\<close> is the virtual \<open>checkBlacklist\<close> on the object the connection points to
  and \<open>pats\<close> what the virtual \<open>getSQLPatterns\<close> returns.  The query is an in-out argument:
  the check leaves the pattern in it.  In the block above the warning level the test of
  \<open>risk_block_level\<close>, which is still \<open>WARN\<close>, is written out.\<close>

definition check_query :: "('w, 're) ctx \<Rightarrow> 're SQLPatterns \<Rightarrow> (DBPermObj \<Rightarrow> string \<Rightarrow> string \<Rightarrow> bool \<times> string)
    \<Rightarrow> 'z Connection_scheme \<Rightarrow> string \<Rightarrow> 'w glob \<Rightarrow> (bool \<times> string \<times> 'w glob) option" where
  "check_query X pats black c query g = do {
     let original_query = query;
     let conf = cx_conf X;
     let E = cx_env X;
     let user = con_db_user c;
     (questions, g) \<leftarrow> question X c original_query [] g;
     let reason = questions;
     (block_reasons, g) \<leftarrow> block_reason X c original_query [] g;
     pattern \<leftarrow> normalizeQuery (str_lowercase query);
     d \<leftarrow> deref_db c g;
     if CheckWhitelist d pattern \<noteq> 0 then Some (True, pattern, g)
     else do {
       let (privileged_operation, reason) = black d pattern reason;
       (r, reason, g) \<leftarrow> calculateRisk X pats original_query reason g;
       let risk = sint r;
       if block_status d = ALWAYS_BLOCK_NEW then do {
         let reason = reason @ not_in_whitelist @ ''.'' @ [LF];
         let g = on_alerts (logalert E (sDbType conf) (con_proxy_id c) (con_db_name c) user (db_user_ip c)
                   original_query pattern reason risk (block_level_int BLOCKED)) g;
         let g = g\<lparr>status := BLOCKED\<rparr>;
         g \<leftarrow> on_event (log_event (cx_log X) conf event_format [user, original_query, questions, not_in_whitelist]) g;
         g \<leftarrow> on_event (log_event (cx_log X) conf user [original_query, questions, not_in_whitelist]) g;
         Some (False, pattern, g)
       }
       else if learning_mode (block_status d) then do {
         let (added, g) = on_lib (AddToWhitelist E d user pattern) g;
         let level = (if risk \<ge> re_block_level conf then HIGH_RISK
                      else if risk \<ge> re_warn_level conf then WARN else LOW);
         let g = on_alerts (logwhitelist E (sDbType conf) (con_proxy_id c) (con_db_name c) user (db_user_ip c)
                   original_query pattern reason risk (block_level_int level)) g;
         let g = on_logs (log_alert (cx_log X) conf user (con_db_name c) original_query level) g;
         Some (True, pattern, g)
       }
       else do {
         let risk_block_level = WARN;
         let g = (if risk \<ge> re_block_level conf \<or> risk \<ge> re_warn_level conf
                  then on_alerts (logalert E (sDbType conf) (con_proxy_id c) (con_db_name c) user (db_user_ip c)
                         original_query pattern reason risk (block_level_int risk_block_level)) g
                  else g);
         if risk \<ge> re_block_level conf \<and> risk_block_level = BLOCKED then do {
           g \<leftarrow> on_event (log_event (cx_log X) conf event_format [user, original_query, questions, block_reasons]) g;
           let g = on_logs (log_alert (cx_log X) conf user (con_db_name c) original_query (status g)) g;
           Some (False, pattern, g)
         }
         else do {
           let (ok, g) = on_lib (check_user_permiss E user original_query) g;
           g \<leftarrow> on_event (log_event (cx_log X) conf event_format [user, original_query, questions, block_reasons]) g;
           if ok then Some (True, pattern, on_logs (log_alert (cx_log X) conf user (con_db_name c) original_query (status g)) g)
           else do {
             let (original_query, bad_token) = check_token original_query;
             let g = (if bad_token then g\<lparr>status := BLOCKED\<rparr> else g);
             let g = on_logs (log_alert (cx_log X) conf user (con_db_name c) original_query (status g)) g;
             Some (False, pattern, g)
           }
         }
       }
     }
   }"

definition copy_sql :: "('w, 're) ctx \<Rightarrow> 'z Connection_scheme \<Rightarrow> string \<Rightarrow> 'w glob \<Rightarrow> 'w glob option" where
  "copy_sql X c query g =
     (case deref_db c g of
        None \<Rightarrow> None
      | Some d \<Rightarrow> Some (snd (on_lib (backup_sql (cx_env X) query (con_db_user c)) g)))"

section \<open>Properties\<close>

subsection \<open>What the steps leave alone\<close>

lemma on_lib_keeps [simp]:
  "dbsmap (snd (on_lib f g)) = dbsmap g" "logs (snd (on_lib f g)) = logs g"
  "scanner (snd (on_lib f g)) = scanner g" "parser (snd (on_lib f g)) = parser g" "status (snd (on_lib f g)) = status g"
  "agroupmap (alerts (snd (on_lib f g))) = agroupmap (alerts g)"
  "fst (on_lib f g) = fst (f (lib (alerts g)))"
  by (simp_all add: on_lib_def split_beta Let_def)

lemma on_alerts_keeps [simp]:
  "dbsmap (on_alerts f' g) = dbsmap g" "logs (on_alerts f' g) = logs g"
  "scanner (on_alerts f' g) = scanner g" "parser (on_alerts f' g) = parser g" "status (on_alerts f' g) = status g"
  by (simp_all add: on_alerts_def)

lemma on_logs_keeps [simp]: "dbsmap (on_logs f' g) = dbsmap g" "alerts (on_logs f' g) = alerts g"
  by (simp_all add: on_logs_def)

lemma on_event_eq: "f (logs g) = Some l \<Longrightarrow> on_event f g = Some (g\<lparr>logs := l\<rparr>)"
  by (simp add: on_event_def)

lemma deref_db_cong: "dbsmap g = dbsmap g' \<Longrightarrow> deref_db c g = deref_db c g'"
  by (cases "con_db c") (simp_all add: deref_db_def)

lemma deref_db_status [simp]: "deref_db c (g\<lparr>status := b\<rparr>) = deref_db c g" "deref_db c (g\<lparr>logs := l\<rparr>) = deref_db c g"
  by (rule deref_db_cong, simp)+

text \<open>What the explanations do to the state: nothing but storage traffic and \<open>status\<close>.\<close>

definition quiet :: "'w glob \<Rightarrow> 'w glob \<Rightarrow> bool" where
  "quiet g g' \<longleftrightarrow> dbsmap g' = dbsmap g \<and> logs g' = logs g \<and> scanner g' = scanner g \<and> parser g' = parser g \<and>
     agroupmap (alerts g') = agroupmap (alerts g)"

lemma question_quiet:
  assumes "deref_db c g = Some d"
  shows "\<exists>q g'. question X c query r g = Some (q, g') \<and> quiet g g'"
proof -
  obtain ok g1 where o: "on_lib (check_user_permiss (cx_env X) (con_db_user c) query) g = (ok, g1)"
    by (cases "on_lib (check_user_permiss (cx_env X) (con_db_user c) query) g")
  then have "quiet g g1" using on_lib_keeps [of "check_user_permiss (cx_env X) (con_db_user c) query" g]
    by (simp add: quiet_def)
  then show ?thesis using o assms by (simp add: question_def quiet_def)
qed

lemma block_reason_quiet:
  assumes "deref_db c g = Some d"
  shows "\<exists>q g'. block_reason X c query r g = Some (q, g') \<and> quiet g g'"
proof -
  obtain ok g1 where o: "on_lib (check_user_permiss (cx_env X) (con_db_user c) query) g = (ok, g1)"
    by (cases "on_lib (check_user_permiss (cx_env X) (con_db_user c) query) g")
  then have "quiet g g1" using on_lib_keeps [of "check_user_permiss (cx_env X) (con_db_user c) query" g]
    by (simp add: quiet_def)
  then show ?thesis using o assms by (simp add: block_reason_def quiet_def Let_def)
qed

lemma quiet_trans: "quiet a b \<Longrightarrow> quiet b c \<Longrightarrow> quiet a c"
  by (simp add: quiet_def)

lemma explanations:
  assumes "deref_db c g = Some d"
  shows "\<exists>q g1 b g2. question X c query [] g = Some (q, g1) \<and> block_reason X c query [] g1 = Some (b, g2) \<and>
    quiet g g2 \<and> deref_db c g2 = Some d"
proof -
  obtain q g1 where 1: "question X c query [] g = Some (q, g1)" "quiet g g1"
    using question_quiet [OF assms] by blast
  then have "deref_db c g1 = Some d" using assms deref_db_cong [of g1 g c] by (simp add: quiet_def)
  then obtain b g2 where 2: "block_reason X c query [] g1 = Some (b, g2)" "quiet g1 g2"
    using block_reason_quiet by blast
  have "quiet g g2" using 1 2 quiet_trans by blast
  moreover have "deref_db c g2 = Some d" using assms \<open>quiet g g2\<close> deref_db_cong [of g2 g c] by (simp add: quiet_def)
  ultimately show ?thesis using 1 2 by blast
qed

lemma explanations_null:
  assumes "deref_db c g = None"
  shows "check_query X pats black c query g = None"
proof (cases "question X c query [] g")
  case (Some a)
  obtain q g1 where a: "a = (q, g1)" by (cases a)
  have "g1 = g" using Some assms by (auto simp: a question_def split: if_splits)
  then show ?thesis using Some assms by (simp add: a check_query_def block_reason_def)
qed (simp add: check_query_def)

lemma c_format_event: "\<exists>t. c_format (cstr event_format) [a, b, c, d] = Some t"
  by (simp add: event_format_def cstr_def)

lemma cstr_plain: "c \<notin> set f \<Longrightarrow> c \<notin> set (cstr f)"
  by (auto simp: cstr_def dest: set_takeWhileD)

lemma log_event_formatted: "\<exists>l'. log_event V cfg event_format [a, b, c, d] l = Some l'"
  using c_format_event by (fastforce simp: log_event_def Let_def)

lemma log_event_plain: "CHR ''%'' \<notin> set f \<Longrightarrow> \<exists>l'. log_event V cfg f args l = Some l'"
  using c_format_plain [OF cstr_plain, of f args] by (simp add: log_event_def Let_def)

subsection \<open>The verdict\<close>

text \<open>What the check promises: a whitelisted pattern passes; otherwise everything is blocked
  in the mode that blocks new queries, everything passes while learning, and in all other modes the
  privileges of the user decide.\<close>

definition verdict :: "DBPermObj \<Rightarrow> string \<Rightarrow> bool \<Rightarrow> bool" where
  "verdict d pattern permitted \<longleftrightarrow>
     CheckWhitelist d pattern \<noteq> 0 \<or>
     (block_status d \<noteq> ALWAYS_BLOCK_NEW \<and> (learning_mode (block_status d) \<or> permitted))"

lemma on_event_formatted: "\<exists>g'. on_event (log_event V cfg event_format [w, x, y, z]) g = Some g'"
  using log_event_formatted [of V cfg w x y z "logs g"] on_event_eq by blast

lemma on_event_plain: "CHR ''%'' \<notin> set f \<Longrightarrow> \<exists>g'. on_event (log_event V cfg f args) g = Some g'"
  using log_event_plain [of f V cfg args "logs g"] on_event_eq by blast

text \<open>The scan of the query returns.\<close>

definition parses :: "('w, 're) ctx \<Rightarrow> 're SQLPatterns \<Rightarrow> string \<Rightarrow> 'w glob \<Rightarrow> bool" where
  "parses X pats query g \<longleftrightarrow> (\<exists>s. query_parse (cx_pcre X) (cx_conf X) (Some pats) (cstr query) (scanner g, parser g) = Inr s)"

lemma parses_quiet: "quiet g g' \<Longrightarrow> parses X pats query g' = parses X pats query g"
  by (simp add: quiet_def parses_def)

lemma calculateRisk_returns: "(\<exists>x. calculateRisk X pats query reason g = Some x) = parses X pats query g"
  by (auto simp: calculateRisk_def parses_def Let_def split: sum.splits)

text \<open>A query without quote characters and stars parses.\<close>

lemma quiet_query_parses:
  assumes "parser_ok (scanner g, parser g)" "\<forall>ch\<in>set (cstr query). quiet_char ch"
  shows "parses X pats query g"
  using query_parse_quiet [OF assms(1), of "cstr query" "cx_pcre X" "cx_conf X" "Some pats"] assms(2)
  by (auto simp: parses_def)

lemma check_query_verdict:
  assumes db: "deref_db c g = Some d"
    and pattern: "normalizeQuery (str_lowercase query) = Some pattern"
    and scan: "CheckWhitelist d pattern \<noteq> 0 \<or> parses X pats query g"
    and permitted: "\<forall>l. fst (check_user_permiss (cx_env X) (con_db_user c) query l) = permitted"
    and user: "CHR ''%'' \<notin> set (con_db_user c)"
  shows "\<exists>g'. check_query X pats black c query g = Some (verdict d pattern permitted, pattern, g')"
proof -
  obtain q g1 b g2 where e: "question X c query [] g = Some (q, g1)" "block_reason X c query [] g1 = Some (b, g2)"
      "quiet g g2" "deref_db c g2 = Some d"
    using explanations [OF db] by blast
  obtain pr reason where black: "black d pattern q = (pr, reason)" by (cases "black d pattern q")
  let ?ev = "\<lambda>g as. on_event (log_event (cx_log X) (cx_conf X) event_format as) g"
  have ok: "fst (on_lib (check_user_permiss (cx_env X) (con_db_user c) query) g) = permitted" for g
    using permitted by simp
  show ?thesis
  proof (cases "CheckWhitelist d pattern = 0")
    case False
    then show ?thesis by (simp add: check_query_def e pattern verdict_def)
  next
    case wl: True
    then have "parses X pats query g2" using scan parses_quiet [OF e(3)] by blast
    then obtain r reason' g3 where risk: "calculateRisk X pats query reason g2 = Some (r, reason', g3)"
      using calculateRisk_returns [of X pats query reason g2] by auto
    consider "block_status d = ALWAYS_BLOCK_NEW" | "block_status d \<noteq> ALWAYS_BLOCK_NEW" "learning_mode (block_status d)"
      | "block_status d \<noteq> ALWAYS_BLOCK_NEW" "\<not> learning_mode (block_status d)" by blast
    then show ?thesis
    proof cases
      case 1
      obtain ga where a: "?ev ((on_alerts (logalert (cx_env X) (sDbType (cx_conf X)) (con_proxy_id c) (con_db_name c) (con_db_user c)
          (db_user_ip c) query pattern (reason' @ not_in_whitelist @ ''.'' @ [LF]) (sint r) (block_level_int BLOCKED)) g3)
          \<lparr>status := BLOCKED\<rparr>) [con_db_user c, query, q, not_in_whitelist] = Some ga"
        using on_event_formatted by blast
      obtain gb where b: "on_event (log_event (cx_log X) (cx_conf X) (con_db_user c) [query, q, not_in_whitelist]) ga = Some gb"
        using on_event_plain [OF user] by blast
      show ?thesis using a b by (simp add: check_query_def e pattern wl black risk 1 verdict_def)
    next
      case 2
      then show ?thesis
        by (simp add: check_query_def e pattern wl black risk verdict_def Let_def split_beta)
    next
      case 3
      define g4 where "g4 = (if sint r \<ge> re_block_level (cx_conf X) \<or> sint r \<ge> re_warn_level (cx_conf X)
        then on_alerts (logalert (cx_env X) (sDbType (cx_conf X)) (con_proxy_id c) (con_db_name c) (con_db_user c)
          (db_user_ip c) query pattern reason' (sint r) (block_level_int WARN)) g3 else g3)"
      obtain g5 where g5: "on_lib (check_user_permiss (cx_env X) (con_db_user c) query) g4 = (permitted, g5)"
        using ok [of g4] by (cases "on_lib (check_user_permiss (cx_env X) (con_db_user c) query) g4") (simp del: on_lib_keeps)
      obtain g6 where g6: "?ev g5 [con_db_user c, query, q, b] = Some g6" using on_event_formatted by blast
      obtain q' bad where tok: "check_token query = (q', bad)" by (cases "check_token query")
      show ?thesis
        by (simp add: check_query_def e pattern wl black risk 3 verdict_def Let_def g5 g6 tok flip: g4_def)
    qed
  qed
qed

text \<open>A query that is not whitelisted and whose scan does not return ends the program.\<close>

lemma check_query_unparsed:
  assumes "deref_db c g = Some d" "normalizeQuery (str_lowercase query) = Some pattern" "CheckWhitelist d pattern = 0"
    and "\<not> parses X pats query g"
  shows "check_query X pats black c query g = None"
proof -
  obtain q g1 b g2 where e: "question X c query [] g = Some (q, g1)" "block_reason X c query [] g1 = Some (b, g2)"
      "quiet g g2" "deref_db c g2 = Some d"
    using explanations [OF assms(1)] by blast
  obtain pr reason where black: "black d pattern q = (pr, reason)" by (cases "black d pattern q")
  have "calculateRisk X pats query reason g2 = None"
    using calculateRisk_returns [of X pats query reason g2] assms(4) parses_quiet [OF e(3), of X pats query]
    by (cases "calculateRisk X pats query reason g2") auto
  then show ?thesis by (simp add: check_query_def e assms(2,3) black)
qed

text \<open>C1: the verdict of \<open>check_query\<close> is a function of the pattern, the mode of the
  database and the privileges of the user.  The risk score, the risk levels of the configuration
  and the blacklist, the other inputs of the check, never change it.\<close>

theorem check_query_decides:
  assumes db: "deref_db c g = Some d"
    and pattern: "normalizeQuery (str_lowercase query) = Some pattern"
    and scan: "CheckWhitelist d pattern \<noteq> 0 \<or> parses X pats query g"
    and permitted: "\<forall>l. fst (check_user_permiss (cx_env X) (con_db_user c) query l) = permitted"
    and user: "CHR ''%'' \<notin> set (con_db_user c)"
  shows "\<exists>g'. check_query X pats black c query g = Some (verdict d pattern permitted, pattern, g')"
  by (rule check_query_verdict [OF assms])

text \<open>A session used in the examples below: user green on a database object in the default
  mode.\<close>

definition demo_ctx :: "exec_result \<Rightarrow> (unit, unit) ctx" where
  "demo_ctx r = \<lparr>cx_env = demo_env r, cx_conf = config_init,
     cx_pcre = \<lparr>pcre_compile = (\<lambda>s. Some ()), pcre_exec = (\<lambda>r s. False)\<rparr>,
     cx_log = \<lparr>can_open = (\<lambda>f. False), deleted = (\<lambda>n. False), stamp = []\<rparr>\<rparr>"

definition demo_conn :: Connection where
  "demo_conn = (new_Connection 1)\<lparr>con_db_user := ''green'', con_db := Some 0\<rparr>"

definition demo_glob :: "DBPermObj \<Rightarrow> unit glob" where
  "demo_glob d = \<lparr>alerts = \<lparr>agroupmap = Map.empty, lib = demo_lib\<rparr>, scanner = flex_start, parser = parse_start,
     dbsmap = dbmap_start\<lparr>heap := [0 \<mapsto> d]\<rparr>, logs = log_start, status = WARN\<rparr>"

lemma demo_deref: "deref_db demo_conn (demo_glob d) = Some d"
  by (simp add: deref_db_def demo_conn_def demo_glob_def)

lemma demo_user [simp]: "con_db_user demo_conn = ''green''"
  by (simp add: demo_conn_def)

lemma demo_pattern: "normalizeQuery (str_lowercase ''A'') = Some ''a''"
proof -
  have "str_lowercase ''A'' = ''a''"
    by (simp add: str_lowercase_def tolower_def is_upper_def byte_def char_of_def bit_0)
  then show ?thesis
    by (simp add: normalizeQuery_normal_form normal_form_def strip_numbers_def
      sql_space_def schar_def byte_def trim_last_def tidy.simps before_close_def after_open_def
      fix_neg.simps is_delim_def)
qed

lemma demo_scan: "parses X pats ''A'' (demo_glob d)"
  by (rule quiet_query_parses) (simp_all add: demo_glob_def parser_ok_start cstr_def quiet_char_def)

lemma demo_permitted:
  "fst (check_user_permiss (cx_env (demo_ctx (Tuples_ok [[''t'']]))) u q l)"
  using check_user_permiss_answer [OF demo_ready, of "Tuples_ok [[''t'']]" u q "Tuples_ok [[''t'']]" l]
  by (simp add: demo_ctx_def demo_answer cell_def cstr_def)

theorem check_query_decides_witness:
  "\<exists>g'. check_query (demo_ctx (Tuples_ok [[''t'']])) patterns_clear (\<lambda>d p r. (True, r)) demo_conn ''A''
      (demo_glob new_DBPermObj) = Some (True, ''a'', g')"
  using check_query_decides [OF demo_deref demo_pattern disjI2 [OF demo_scan], where X = "demo_ctx (Tuples_ok [[''t'']])" and permitted = True
      and d = new_DBPermObj and pats = patterns_clear and black = "\<lambda>d p r. (True, r)"]
  by (simp add: demo_permitted verdict_def CheckWhitelist_def new_DBPermObj_def learning_mode_def)

subsection \<open>Whitelisted queries and bad format strings\<close>





subsection \<open>Scores\<close>

text \<open>The factors of the score of a parsed query, in the order of the code.\<close>

definition risk_factors :: "GreenSQLConfig \<Rightarrow> query_risk \<Rightarrow> (int \<times> bool) list" where
  "risk_factors conf r =
     [(re_sql_comments conf, has_comment r), (re_s_tables conf, has_s_table r),
      (re_multiple_queries conf, has_separator r), (re_or_token conf, has_or r),
      (re_union_token conf, has_union r), (re_var_cmp_var conf, has_tautology r),
      (re_empty_password conf, has_empty_pwd r), (re_bruteforce conf, has_bruteforce_function r)]"

definition risk_sum :: "GreenSQLConfig \<Rightarrow> query_risk \<Rightarrow> int" where
  "risk_sum conf r = (\<Sum>(w, found)\<leftarrow>risk_factors conf r. if w > 0 \<and> found then w else 0)"

lemma sint_word_of_int_eq: "sint (word_of_int i :: 32 word) = signed_take_bit 31 i"
  by transfer simp

lemma fst_add_factor: "fst (add_factor w b t sofar) = fst sofar + word_of_int (if w > 0 \<and> b then w else 0)"
  by (simp add: add_factor_def)

lemma calculateRisk_word:
  assumes "query_parse (cx_pcre X) (cx_conf X) (Some pats) (cstr q) (scanner g, parser g) = Inr (f, st)"
  shows "\<exists>reason' g'. calculateRisk X pats q reason g = Some (word_of_int (risk_sum (cx_conf X) (risk st)), reason', g') \<and>
    scanner g' = f \<and> parser g' = st"
  using assms by (simp add: calculateRisk_def Let_def fst_add_factor risk_sum_def risk_factors_def wi_hom_syms add.assoc)



lemma fst_add_reason: "fst (add_reason b l t sofar) = (if b then l else fst sofar)"
  by (simp add: add_reason_def)

lemma block_reason_level:
  assumes "deref_db c g = Some d" "on_lib (check_user_permiss (cx_env X) (con_db_user c) q) g = (ok, g1)"
    and "block_reason X c q r g = Some (t, g')"
  shows "status g' =
    (if check_comments q then BLOCKED
     else if \<not> check_white_space q \<or> \<not> check_command q then SQL_ERROR
     else if check_and_token q \<or> check_in_token q \<or> check_union_token q \<or> check_or_token q \<or> check_true_token q \<or>
       check_not_token q \<or> \<not> ok then BLOCKED
     else WARN)"
proof -
  show ?thesis
    using assms(3) by (simp only: block_reason_def assms(1,2) option.case Let_def prod.case option.inject prod.inject)
      (elim conjE, hypsubst, simp add: fst_add_reason)
qed

text \<open>C34: the level written with the alerts, \<open>status\<close>, after the explanation of a
  query: special characters outrank a missing command or blank, which outranks the tokens and a
  missing privilege.\<close>

theorem block_reason_status:
  assumes "block_reason X c q r g = Some (t, g')"
  shows "status g' =
    (if check_comments q then BLOCKED
     else if \<not> check_white_space q \<or> \<not> check_command q then SQL_ERROR
     else if check_and_token q \<or> check_in_token q \<or> check_union_token q \<or> check_or_token q \<or> check_true_token q \<or>
       check_not_token q \<or> \<not> fst (check_user_permiss (cx_env X) (con_db_user c) q (lib (alerts g))) then BLOCKED
     else WARN)"
proof -
  obtain ok g1 where o: "on_lib (check_user_permiss (cx_env X) (con_db_user c) q) g = (ok, g1)"
    by (cases "on_lib (check_user_permiss (cx_env X) (con_db_user c) q) g")
  then have "ok = fst (check_user_permiss (cx_env X) (con_db_user c) q (lib (alerts g)))"
    by (metis fst_conv on_lib_keeps(7))
  then show ?thesis
    using block_reason_level [OF _ o assms] assms by (cases "deref_db c g") (simp_all add: block_reason_def)
qed

theorem block_reason_status_witness:
  "\<exists>t g'. block_reason (demo_ctx (Tuples_ok [[''t'']])) demo_conn ''a=b'' [] (demo_glob new_DBPermObj) = Some (t, g') \<and>
     status g' = BLOCKED"
proof -
  obtain t g' where b: "block_reason (demo_ctx (Tuples_ok [[''t'']])) demo_conn ''a=b'' [] (demo_glob new_DBPermObj) = Some (t, g')"
    using block_reason_quiet [OF demo_deref] by blast
  have "check_comments ''a=b''" by (simp add: check_comments_def special_char_def)
  with block_reason_status [OF b] b show ?thesis by auto
qed

subsection \<open>Shared by the protocols\<close>

text \<open>The checks read only who is connected to what.\<close>

lemma check_query_cong:
  assumes "con_db c' = con_db c" "con_db_user c' = con_db_user c" "con_proxy_id c' = con_proxy_id c"
    "con_db_name c' = con_db_name c" "db_user_ip c' = db_user_ip c"
  shows "check_query X pats black c' q g = check_query X pats black c q g"
proof -
  have d: "deref_db c' = deref_db c" using assms(1) by (simp add: deref_db_def fun_eq_iff)
  have 1: "question X c' q r g = question X c q r g" for q r g
    unfolding question_def d assms(2) by (rule refl)
  have 2: "block_reason X c' q r g = block_reason X c q r g" for q r g
    unfolding block_reason_def d assms(2) by (rule refl)
  show ?thesis unfolding check_query_def d assms 1 2 by (rule refl)
qed

lemma copy_sql_cong:
  assumes "con_db c' = con_db c" "con_db_user c' = con_db_user c"
  shows "copy_sql X c' q g = copy_sql X c q g"
proof -
  have d: "deref_db c' = deref_db c" using assms(1) by (simp add: deref_db_def fun_eq_iff)
  show ?thesis unfolding copy_sql_def d assms(2) by (rule refl)
qed

lemma demo_refused: "\<not> fst (check_user_permiss (cx_env (demo_ctx (Tuples_ok [[''f'']]))) u q l)"
  using check_user_permiss_answer [OF demo_ready, of "Tuples_ok [[''f'']]" u q "Tuples_ok [[''f'']]" l]
  by (simp add: demo_ctx_def demo_answer cell_def cstr_def)

end
