(* ===== verification/Protocol.thy ===== *)
theory Protocol
  imports Connection "HOL-Library.Sublist"
begin

text \<open>
  What the two protocol classes share: reading packets from a raw buffer, answering a blocked
  query, and the contract of the virtual methods the proxy calls.  Both classes derive from
  \<open>Connection\<close>; in the model their states extend its record.

  A raw pointer into a buffer is the rest of the buffer from that position on; a read at its end
  gives the terminating NUL of the \<open>std::string\<close> and a read beyond it is undefined, \<open>None\<close>.
  Sizes are \<open>size_t\<close>, natural numbers below \<open>2 ^ 64\<close> with the wrap-around written
  out.  Buffers hold less than \<open>2 ^ 31\<close> bytes, the range of \<open>Buffer::size\<close>.
\<close>

section \<open>Reading packets\<close>

text \<open>\<open>(const char *) data + i\<close> read as a C string.\<close>

definition cstr_at :: "string \<Rightarrow> nat \<Rightarrow> string option" where
  "cstr_at data i = (if i \<le> length data then Some (cstr (drop i data)) else None)"

text \<open>\<open>data[i] << 24 | data[i+1] << 16 | data[i+2] << 8 | data[i+3]\<close>, an \<open>int\<close>.\<close>

definition be32 :: "string \<Rightarrow> nat \<Rightarrow> int option" where
  "be32 data i = (if i + 3 \<le> length data
     then (let v = int (byte (at data i)) * 2 ^ 24 + int (byte (at data (i + 1))) * 2 ^ 16 +
                   int (byte (at data (i + 2))) * 2 ^ 8 + int (byte (at data (i + 3)))
           in Some (if v < 2 ^ 31 then v else v - 2 ^ 32))
     else None)"

text \<open>The conversion of an \<open>int\<close> to \<open>size_t\<close>, and additions: \<open>int_succ\<close> is undefined
  on overflow, \<open>szadd\<close> wraps.\<close>

definition sz :: "int \<Rightarrow> nat" where
  "sz i = nat (i mod 2 ^ 64)"

definition int_succ :: "int \<Rightarrow> int option" where
  "int_succ i = (if i = 2 ^ 31 - 1 then None else Some (i + 1))"

definition szadd :: "nat \<Rightarrow> nat \<Rightarrow> nat" where
  "szadd a b = (a + b) mod 2 ^ 64"

text \<open>\<open>while (i < n && data[i] != '\0') ++i;\<close>\<close>

function scan_nul :: "string \<Rightarrow> nat \<Rightarrow> nat \<Rightarrow> nat" where
  "scan_nul data n i = (if i < n \<and> at data i \<noteq> NUL then scan_nul data n (Suc i) else i)"
  by pat_completeness auto
termination by (relation "measure (\<lambda>(data, n, i). n - i)") auto

declare scan_nul.simps [simp del]

lemma scan_nul_ge: "i \<le> scan_nul data n i"
proof (induction data n i rule: scan_nul.induct)
  case (1 data n i)
  then show ?case by (subst scan_nul.simps) (auto dest: Suc_leD)
qed

lemma be32_bounds: "be32 data i = Some v \<Longrightarrow> - (2 ^ 31) \<le> v \<and> v < 2 ^ 31"
proof -
  assume v: "be32 data i = Some v"
  define a b c d where "a = int (byte (at data i))" and "b = int (byte (at data (i + 1)))"
    and "c = int (byte (at data (i + 2)))" and "d = int (byte (at data (i + 3)))"
  have r: "0 \<le> x \<and> x \<le> 255" if "x = int (byte y)" for x y
    using byte_less [of y] that by (simp add: less_Suc_eq_le [symmetric])
  have "0 \<le> a \<and> a \<le> 255" "0 \<le> b \<and> b \<le> 255" "0 \<le> c \<and> c \<le> 255" "0 \<le> d \<and> d \<le> 255"
    using r [OF a_def] r [OF b_def] r [OF c_def] r [OF d_def] by simp_all
  then show ?thesis
    using v unfolding be32_def Let_def a_def [symmetric] b_def [symmetric] c_def [symmetric] d_def [symmetric] by (simp split: if_splits)
qed

lemma sz_nonneg: "0 \<le> i \<Longrightarrow> i < 2 ^ 64 \<Longrightarrow> sz i = nat i"
  by (simp add: sz_def)

lemma byte_sum: "n < 2 ^ 31 \<Longrightarrow>
    n div 2 ^ 24 mod 256 * 2 ^ 24 + n div 2 ^ 16 mod 256 * 2 ^ 16 + n div 2 ^ 8 mod 256 * 2 ^ 8 + n mod 256 = (n::nat)"
proof -
  assume n: "n < 2 ^ 31"
  define a b c d where "a = n div 2 ^ 24" and "b = n div 2 ^ 16 mod 256" and "c = n div 2 ^ 8 mod 256" and "d = n mod 256"
  have "a < 256" using n by (simp add: a_def)
  moreover have "a * 256 + b = n div 2 ^ 16"
    using div_mult_mod_eq [of "n div 2 ^ 16" 256] by (simp add: a_def b_def div_mult2_eq [symmetric])
  moreover have "n div 2 ^ 16 * 256 + c = n div 2 ^ 8"
    using div_mult_mod_eq [of "n div 2 ^ 8" 256] by (simp add: c_def div_mult2_eq [symmetric])
  moreover have "n div 2 ^ 8 * 256 + d = n" using div_mult_mod_eq [of n 256] by (simp add: d_def)
  ultimately have "a mod 256 * 2 ^ 24 + b * 2 ^ 16 + c * 2 ^ 8 + d = n" by simp
  then show ?thesis by (simp only: a_def b_def c_def d_def)
qed

section \<open>The blacklist\<close>

text \<open>The body of \<open>checkBlacklist\<close>, the same in both classes.\<close>

definition forbid :: "bool \<Rightarrow> bool \<Rightarrow> string \<Rightarrow> bool \<times> string \<Rightarrow> bool \<times> string" where
  "forbid perm hit text found = (if \<not> perm \<and> hit then (True, snd found @ text @ [LF]) else found)"

definition blacklist_check :: "'re pcre \<Rightarrow> 're SQLPatterns \<Rightarrow> DBPermObj \<Rightarrow> string \<Rightarrow> string \<Rightarrow> bool \<times> string" where
  "blacklist_check P pats d query reason =
     (let found = (False, reason);
          found = forbid (alter_perm d) (Match P pats SQL_ALTER query) ''Detected attempt to change database/table structure.'' found;
          found = forbid (drop_perm d) (Match P pats SQL_DROP query) ''Detected attempt to drop database/table/index.'' found;
          found = forbid (create_perm d) (Match P pats SQL_CREATE query) ''Detected attempt to create database/table/index.'' found;
          found = forbid (info_perm d) (Match P pats SQL_INFO query) ''Detected attempt to discover db internal information.'' found
      in found)"

section \<open>Answering a blocked query\<close>

definition push_reply :: "string \<Rightarrow> 'z Connection_scheme \<Rightarrow> 'z Connection_scheme" where
  "push_reply r c =
     (if Buffer_size (response_in c) \<noteq> 0
      then c\<lparr>response_in := Buffer_append (response_in c) r (int (length r))\<rparr>
      else c\<lparr>response_out := Buffer_append (response_out c) r (int (length r))\<rparr>)"

text \<open>The code after a query was found: check it and, if it is blocked, forget it and queue the
  reply.  The second component is \<open>hasResponse\<close>.\<close>

definition guard_query :: "('w, 're) ctx \<Rightarrow> 're SQLPatterns \<Rightarrow> string \<Rightarrow> 'z Connection_scheme \<Rightarrow> bool \<Rightarrow> 'w glob
    \<Rightarrow> ('z Connection_scheme \<times> bool \<times> 'w glob) option" where
  "guard_query X pats reply c hasResponse g = do {
     (ok, q, g) \<leftarrow> check_query X pats (blacklist_check (cx_pcre X) pats) c (original_query c) g;
     Some (if ok then (c\<lparr>original_query := q\<rparr>, hasResponse, g)
           else (push_reply reply (c\<lparr>original_query := []\<rparr>), True, g))
   }"

section \<open>The contract of a protocol\<close>

text \<open>\<open>keeps_in c c'\<close>: the step from \<open>c\<close> to \<open>c'\<close> touches neither the bytes from the client nor
  those for the server nor the proxy it belongs to, and only appends to the response queues.\<close>

definition keeps_in :: "'z Connection_scheme \<Rightarrow> 'z Connection_scheme \<Rightarrow> bool" where
  "keeps_in c c' \<longleftrightarrow> request_in c' = request_in c \<and> request_out c' = request_out c \<and> con_proxy_id c' = con_proxy_id c \<and>
     prefix (buff (response_in c)) (buff (response_in c')) \<and> prefix (buff (response_out c)) (buff (response_out c'))"

lemma keeps_in_refl [simp]: "keeps_in c c"
  by (simp add: keeps_in_def)

lemma keeps_in_trans: "keeps_in a b \<Longrightarrow> keeps_in b c \<Longrightarrow> keeps_in a c"
  by (auto simp: keeps_in_def)

lemma keeps_in_push [simp]: "keeps_in c (push_reply r c)"
  by (simp add: keeps_in_def push_reply_def Buffer_append_all)

lemma guard_query_keeps: "guard_query X pats r c h g = Some (c', h', g') \<Longrightarrow> keeps_in c c'"
  by (auto simp: guard_query_def keeps_in_def push_reply_def Buffer_append_all split: bind_splits if_splits)

text \<open>The methods the proxy calls.  A request that was parsed is taken from the front of
  \<open>request_in\<close>; nothing else is sent to the server, and \<open>request_out\<close> is left to the
  proxy.  In the same way the response handed out comes from the queue of the server, though the
  class may rewrite bytes in it.\<close>

locale protocol =
  fixes parse_req :: "'z Connection_scheme \<Rightarrow> 'g \<Rightarrow> (bool \<times> string \<times> bool \<times> 'z Connection_scheme \<times> 'g) option"
    and parse_resp :: "'z Connection_scheme \<Rightarrow> 'g \<Rightarrow> (bool \<times> string \<times> 'z Connection_scheme \<times> 'g) option"
  assumes req_subseq: "parse_req c g = Some (ok, request, hr, c', g') \<Longrightarrow>
      subseq (request @ buff (request_in c')) (buff (request_in c))"
    and req_out: "parse_req c g = Some (ok, request, hr, c', g') \<Longrightarrow>
      request_out c' = request_out c \<and> con_proxy_id c' = con_proxy_id c"
    and resp_request: "parse_resp c g = Some (ok, response, c', g') \<Longrightarrow>
      request_in c' = request_in c \<and> request_out c' = request_out c \<and> con_proxy_id c' = con_proxy_id c"

text \<open>A protocol that never swallows a request byte.\<close>

locale lossless_protocol = protocol +
  assumes req_exact: "parse_req c g = Some (ok, request, hr, c', g') \<Longrightarrow>
      request @ buff (request_in c') = buff (request_in c)"

end
