(* ===== verification/MySQLCon.thy ===== *)
theory MySQLCon
  imports Protocol
begin

text \<open>
  The MySQL side (mysql/mysql_con.hpp, mysql/mysql_con.cpp).  A packet has a three byte length, a
  number and a body; its length is never below four bytes, so the packet loops end.  The names of
  \<open>MySQLConnection\<close> fields carry the prefix \<open>my\<close>.
\<close>

unbundle bit_operations_syntax

section \<open>State\<close>

datatype MySQLType = MYSQL_SLEEP | MYSQL_QUIT | MYSQL_DB | MYSQL_QUERY | MYSQL_FIELD_LIST | MYSQL_CREATE_DB
  | MYSQL_DROP_DB | MYSQL_REFRESH | MYSQL_SHUTDOWN | MYSQL_STATISTICS | MYSQL_PROCESS_INFO | MYSQL_CONNECT
  | MYSQL_KILL | MYSQL_DEBUG | MYSQL_PING | MYSQL_INT_TIME | MYSQL_DELAYED_INSERT | MYSQL_CHANGE_USER
  | MYSQL_REPL_BINLOG_DUMP | MYSQL_REPL_TABLE_DUMP | MYSQL_REPL_CONNECT_OUT | MYSQL_REPL_REGISTER_SLAVE
  | MYSQL_STMT_PREPARE | MYSQL_STMT_EXEC | MYSQL_LONG_DATA | MYSQL_STMT_CLOSE | MYSQL_STMT_RESET
  | MYSQL_SET_OPTION | MYSQL_STMT_FETCH | MYSQL_SRV_OK | MYSQL_SRV_ENDROW | MYSQL_SRV_ERROR

primrec mysql_code :: "MySQLType \<Rightarrow> nat" where
  "mysql_code MYSQL_SLEEP = 0x0" | "mysql_code MYSQL_QUIT = 0x1" | "mysql_code MYSQL_DB = 0x2"
| "mysql_code MYSQL_QUERY = 0x3" | "mysql_code MYSQL_FIELD_LIST = 0x4" | "mysql_code MYSQL_CREATE_DB = 0x5"
| "mysql_code MYSQL_DROP_DB = 0x6" | "mysql_code MYSQL_REFRESH = 0x7" | "mysql_code MYSQL_SHUTDOWN = 0x8"
| "mysql_code MYSQL_STATISTICS = 0x9" | "mysql_code MYSQL_PROCESS_INFO = 0xa" | "mysql_code MYSQL_CONNECT = 0xb"
| "mysql_code MYSQL_KILL = 0xc" | "mysql_code MYSQL_DEBUG = 0xd" | "mysql_code MYSQL_PING = 0xe"
| "mysql_code MYSQL_INT_TIME = 0xf" | "mysql_code MYSQL_DELAYED_INSERT = 0x10" | "mysql_code MYSQL_CHANGE_USER = 0x11"
| "mysql_code MYSQL_REPL_BINLOG_DUMP = 0x12" | "mysql_code MYSQL_REPL_TABLE_DUMP = 0x13"
| "mysql_code MYSQL_REPL_CONNECT_OUT = 0x14" | "mysql_code MYSQL_REPL_REGISTER_SLAVE = 0x15"
| "mysql_code MYSQL_STMT_PREPARE = 0x16" | "mysql_code MYSQL_STMT_EXEC = 0x17" | "mysql_code MYSQL_LONG_DATA = 0x18"
| "mysql_code MYSQL_STMT_CLOSE = 0x19" | "mysql_code MYSQL_STMT_RESET = 0x1a" | "mysql_code MYSQL_SET_OPTION = 0x1b"
| "mysql_code MYSQL_STMT_FETCH = 0x1c" | "mysql_code MYSQL_SRV_OK = 0x00" | "mysql_code MYSQL_SRV_ENDROW = 0xfe"
| "mysql_code MYSQL_SRV_ERROR = 0xff"

text \<open>The capability flags the code acts on.\<close>

definition MYSQL_CON_COMPRESS :: "32 word" where "MYSQL_CON_COMPRESS = 0x20"
definition MYSQL_CON_PROTOCOL_V41 :: "32 word" where "MYSQL_CON_PROTOCOL_V41 = 0x200"
definition MYSQL_CON_SSL :: "32 word" where "MYSQL_CON_SSL = 0x800"

record MySQLConnection = Connection +
  mysql41 :: bool
  my_longResponse :: bool
  my_longResponseData :: bool
  lastCommandId :: nat
  StartResponse :: bool

definition new_MySQLConnection :: "dbmap \<Rightarrow> int \<Rightarrow> MySQLConnection" where
  "new_MySQLConnection m id' =
     Connection.Connection.extend ((new_Connection id')\<lparr>first_request := True, con_db_type := ''mysql'',
         con_db := dbmap_default m id' ''mysql''\<rparr>)
       (MySQLConnection.fields False False False 0 False)"

definition mysql_patterns_init :: "'re pcre \<Rightarrow> (string \<Rightarrow> string option) \<Rightarrow> string \<Rightarrow> 're SQLPatterns
    \<Rightarrow> 're SQLPatterns \<times> bool" where
  "mysql_patterns_init P files path mysql_patterns = patterns_Load P files (path @ ''mysql.conf'') mysql_patterns"

definition my_checkBlacklist :: "('w, 're) ctx \<Rightarrow> 're SQLPatterns \<Rightarrow> DBPermObj \<Rightarrow> string \<Rightarrow> string \<Rightarrow> bool \<times> string" where
  "my_checkBlacklist X mysql_patterns d query reason = blacklist_check (cx_pcre X) mysql_patterns d query reason"

definition my_blockResponse :: "string \<Rightarrow> string" where
  "my_blockResponse response = response @ map char_of [7,0,0,1, 0,0,0, 2,0, 0,0 :: nat]"

section \<open>Reading packets\<close>

text \<open>\<open>s.append((const char *) data + i, n)\<close> for a \<open>size_t\<close> \<open>n\<close>, and \<open>a - b\<close> in \<open>size_t\<close>.\<close>

definition bytes_at :: "string \<Rightarrow> nat \<Rightarrow> nat \<Rightarrow> string option" where
  "bytes_at data i n = (if i + n \<le> length data then Some (substr data i n) else None)"

definition szminus :: "nat \<Rightarrow> nat \<Rightarrow> nat" where
  "szminus a b = sz (int a - int b)"

definition strlen_at :: "string \<Rightarrow> nat \<Rightarrow> nat option" where
  "strlen_at data i = map_option length (cstr_at data i)"

definition my_find_db :: "dbmap \<Rightarrow> 'z Connection_scheme \<Rightarrow> 'z Connection_scheme" where
  "my_find_db m c = c\<lparr>con_db := dbmap_find m (con_proxy_id c) (con_db_name c) ''mysql''\<rparr>"

section \<open>The login packet\<close>

definition client_flags :: "string \<Rightarrow> 32 word" where
  "client_flags data = word_of_nat
     (byte (at data 7) * 2 ^ 24 + byte (at data 6) * 2 ^ 16 + byte (at data 5) * 2 ^ 8 + byte (at data 4))"

text \<open>Login with protocol 4.1: the result is \<open>Inl\<close> for an early return.\<close>

definition my_login41 :: "dbmap \<Rightarrow> string \<Rightarrow> nat \<Rightarrow> MySQLConnection \<Rightarrow> (MySQLConnection \<times> bool + MySQLConnection) option" where
  "my_login41 m data request_size c = do {
     user_len \<leftarrow> strlen_at data 36;
     if user_len + 36 > request_size then do {
       u \<leftarrow> bytes_at data 36 (request_size - 37);
       Some (Inr (c\<lparr>con_db_user := con_db_user c @ u\<rparr>))
     }
     else if user_len + 36 + 1 \<ge> request_size then Some (Inl (c, False))
     else do {
       u \<leftarrow> cstr_at data 36;
       let c = c\<lparr>con_db_user := u\<rparr>;
       p \<leftarrow> rd data (user_len + 36 + 1);
       let pwd_size = byte p;
       if pwd_size = 0 then do {
         n \<leftarrow> strlen_at data (user_len + 36 + 2);
         if n > 0 then do {
           let n = min n (szminus request_size (user_len + 36 + 3));
           d \<leftarrow> bytes_at data (user_len + 36 + 2) n;
           Some (Inr (my_find_db m (c\<lparr>con_db_name := con_db_name c @ d\<rparr>)))
         }
         else Some (Inr c)
       }
       else if user_len + 36 + pwd_size + 2 < request_size then do {
         n \<leftarrow> strlen_at data (user_len + 36 + pwd_size + 2);
         let n = min n (szminus request_size (user_len + 36 + pwd_size + 3));
         d \<leftarrow> bytes_at data (user_len + 36 + pwd_size + 2) n;
         Some (Inr (my_find_db m (c\<lparr>con_db_name := con_db_name c @ d\<rparr>)))
       }
       else Some (Inr c)
     }
   }"

text \<open>Login with the old protocol.\<close>

definition my_login40 :: "dbmap \<Rightarrow> string \<Rightarrow> nat \<Rightarrow> MySQLConnection \<Rightarrow> (MySQLConnection \<times> bool + MySQLConnection) option" where
  "my_login40 m data request_size c = do {
     n \<leftarrow> strlen_at data 9;
     let user_len = min n (request_size - 9);
     u \<leftarrow> bytes_at data 9 user_len;
     let c = (if user_len \<noteq> 0 then c\<lparr>con_db_user := con_db_user c @ u\<rparr> else c);
     let temp = 9 + user_len + 1;
     if temp > request_size then Some (Inl (c\<lparr>first_request := False\<rparr>, False))
     else do {
       let temp = scan_nul data request_size temp;
       if temp = request_size then Some (Inl (c\<lparr>first_request := False\<rparr>, True))
       else do {
         let temp = temp + 1;
         if temp = request_size then Some (Inl (c\<lparr>first_request := False\<rparr>, True))
         else do {
           let e = scan_nul data request_size temp;
           d \<leftarrow> bytes_at data temp (e - temp);
           Some (Inr (my_find_db m (c\<lparr>con_db_name := d\<rparr>)))
         }
       }
     }
   }"

definition my_login :: "string \<Rightarrow> nat \<Rightarrow> MySQLConnection \<Rightarrow> 'w glob \<Rightarrow> (bool \<times> MySQLConnection) option" where
  "my_login data request_size c g =
     (if request_size < 10 then Some (False, c)
      else do {
        let v41 = (client_flags data AND MYSQL_CON_PROTOCOL_V41 \<noteq> 0);
        let c = (if v41 then c\<lparr>mysql41 := True\<rparr> else c);
        let c = c\<lparr>con_db_name := [], con_db_user := []\<rparr>;
        r \<leftarrow> (if v41 \<and> request_size > 36 then my_login41 (dbsmap g) data request_size c
              else if request_size > 10 then my_login40 (dbsmap g) data request_size c
              else Some (Inr c));
        case r of
          Inl (c, ok) \<Rightarrow> Some (ok, c)
        | Inr c \<Rightarrow> do {
            d \<leftarrow> deref_db c g;
            let c = (if db_name d \<noteq> con_db_name c then my_find_db (dbsmap g) c else c);
            Some (True, c\<lparr>first_request := False, SecondPacket := True\<rparr>)
          }
      })"

section \<open>Commands\<close>

text \<open>A query taken from a packet: checked and, if blocked, answered.\<close>

definition my_query :: "('w, 're) ctx \<Rightarrow> 're SQLPatterns \<Rightarrow> string \<Rightarrow> MySQLConnection \<Rightarrow> bool \<Rightarrow> 'w glob
    \<Rightarrow> (bool \<times> MySQLConnection \<times> bool \<times> 'w glob) option" where
  "my_query X pats q c hasResponse g = do {
     let c = c\<lparr>original_query := q, StartResponse := True\<rparr>;
     (c, hasResponse, g) \<leftarrow> guard_query X pats (my_blockResponse []) c hasResponse g;
     Some (True, c, hasResponse, g)
   }"

definition my_change_user :: "string \<Rightarrow> nat \<Rightarrow> MySQLConnection \<Rightarrow> 'w glob \<Rightarrow> MySQLConnection option" where
  "my_change_user data request_size c g = do {
     let max_user_len = (if szminus request_size 5 < 255 then szminus request_size 5 else 255);
     n \<leftarrow> strlen_at data 5;
     let user_len = min n max_user_len;
     u \<leftarrow> bytes_at data 5 max_user_len;
     let c = c\<lparr>con_db_name := [], con_db_user := u\<rparr>;
     pwd_len \<leftarrow> (if mysql41 c then map_option byte (rd data (5 + user_len)) else strlen_at data (5 + user_len));
     if user_len + pwd_len + 5 < request_size then do {
       n \<leftarrow> strlen_at data (5 + user_len + pwd_len);
       let n = (if n + 5 + user_len + pwd_len > request_size then request_size - 5 - user_len - pwd_len else n);
       d \<leftarrow> bytes_at data 0 n;
       let c = c\<lparr>db_new_name := d\<rparr>;
       Some (if con_db_name c \<noteq> db_new_name c then my_find_db (dbsmap g) (c\<lparr>con_db_name := db_new_name c\<rparr>) else c)
     }
     else Some c
   }"

definition my_note_command :: "nat \<Rightarrow> MySQLConnection \<Rightarrow> MySQLConnection" where
  "my_note_command type c =
     (let c = c\<lparr>lastCommandId := type\<rparr> in
      if type \<in> set (map mysql_code [MYSQL_QUERY, MYSQL_FIELD_LIST, MYSQL_PROCESS_INFO, MYSQL_STMT_FETCH])
      then c\<lparr>my_longResponse := True, my_longResponseData := False\<rparr> else c)"

definition my_dispatch :: "('w, 're) ctx \<Rightarrow> 're SQLPatterns \<Rightarrow> nat \<Rightarrow> string \<Rightarrow> nat \<Rightarrow> MySQLConnection \<Rightarrow> bool \<Rightarrow> 'w glob
    \<Rightarrow> (bool \<times> MySQLConnection \<times> bool \<times> 'w glob) option" where
  "my_dispatch X pats type data request_size c hasResponse g =
     (if type = mysql_code MYSQL_DB then do {
        d \<leftarrow> bytes_at data 5 (szminus request_size 5);
        Some (True, c\<lparr>db_new_name := d\<rparr>, hasResponse, g)
      }
      else if type = mysql_code MYSQL_QUERY \<or> type = mysql_code MYSQL_STMT_PREPARE then do {
        b \<leftarrow> rd data 5;
        if b = NUL then Some (True, c, hasResponse, g)
        else do {
          q \<leftarrow> bytes_at data 5 (szminus request_size 5);
          my_query X pats q c hasResponse g
        }
      }
      else if type \<in> set (map mysql_code [MYSQL_CREATE_DB, MYSQL_DROP_DB, MYSQL_FIELD_LIST]) \<and> request_size > 5 then do {
        d \<leftarrow> bytes_at data 5 (request_size - 5);
        let pre = (if type = mysql_code MYSQL_CREATE_DB then ''create database ''
                   else if type = mysql_code MYSQL_DROP_DB then ''drop database '' else ''show fields from '');
        my_query X pats (pre @ [SQ] @ d @ [SQ]) c hasResponse g
      }
      else if type = mysql_code MYSQL_PROCESS_INFO then my_query X pats ''show processlist'' c hasResponse g
      else if type = mysql_code MYSQL_CHANGE_USER then do {
        c \<leftarrow> my_change_user data request_size c g;
        Some (True, c, hasResponse, g)
      }
      else if type \<in> set (map mysql_code [MYSQL_STMT_EXEC, MYSQL_STMT_CLOSE, MYSQL_STMT_RESET, MYSQL_STMT_FETCH]) \<or>
          type = mysql_code MYSQL_KILL \<and> request_size \<ge> 8 then do {
        b \<leftarrow> rd data 8;
        Some (True, c, hasResponse, g)
      }
      else Some (True, c, hasResponse, g))"

definition my_command :: "('w, 're) ctx \<Rightarrow> 're SQLPatterns \<Rightarrow> string \<Rightarrow> nat \<Rightarrow> MySQLConnection \<Rightarrow> bool \<Rightarrow> 'w glob
    \<Rightarrow> (bool \<times> MySQLConnection \<times> bool \<times> 'w glob) option" where
  "my_command X pats data request_size c hasResponse g =
     (let type = byte (at data 4) in
      my_dispatch X pats type data request_size (my_note_command type c) hasResponse g)"

definition ParseRequestPacket :: "('w, 're) ctx \<Rightarrow> 're SQLPatterns \<Rightarrow> string \<Rightarrow> nat \<Rightarrow> MySQLConnection \<Rightarrow> bool \<Rightarrow> 'w glob
    \<Rightarrow> (bool \<times> MySQLConnection \<times> bool \<times> 'w glob) option" where
  "ParseRequestPacket X pats data request_size c hasResponse g =
     (if first_request c then do {
        (ok, c) \<leftarrow> my_login data request_size c g;
        Some (ok, c, hasResponse, g)
      }
      else my_command X pats data request_size c hasResponse g)"

section \<open>Requests\<close>

text \<open>The packet loop: \<open>data\<close> is set to the start of the buffer again in every round, so each round
  handles the first packet.\<close>

function my_request_loop :: "('w, 're) ctx \<Rightarrow> 're SQLPatterns \<Rightarrow> string \<Rightarrow> nat \<Rightarrow> MySQLConnection \<Rightarrow> bool \<Rightarrow> 'w glob
    \<Rightarrow> (nat \<times> MySQLConnection \<times> bool \<times> 'w glob) option" where
  "my_request_loop X pats data start c hasResponse g =
     (let request_size = le24 data 0 + 4; full_size = length data in
      if start + request_size \<le> full_size then do {
        r \<leftarrow> ParseRequestPacket X pats data request_size c hasResponse g;
        let c = fst (snd r);
        let hasResponse = fst (snd (snd r));
        let g = snd (snd (snd r));
        if start + request_size = full_size then Some (start + request_size, c, hasResponse, g)
        else if start + request_size + 7 > full_size then Some (start + request_size, c, hasResponse, g)
        else my_request_loop X pats data (start + request_size) c hasResponse g
      }
      else Some (start, c, hasResponse, g))"
  by pat_completeness auto
termination
  by (relation "measure (\<lambda>(X, pats, data, start, c, h, g). length data + 1 - start)") auto

declare my_request_loop.simps [simp del]

definition my_parseRequest :: "('w, 're) ctx \<Rightarrow> 're SQLPatterns \<Rightarrow> MySQLConnection \<Rightarrow> 'w glob
    \<Rightarrow> (bool \<times> string \<times> bool \<times> MySQLConnection \<times> 'w glob) option" where
  "my_parseRequest X pats c g =
     (let data = raw (request_in c); full_size = length data in
      if full_size < 3 then Some (True, [], False, c, g)
      else if le24 data 0 + 4 > full_size then Some (True, [], False, c, g)
      else do {
        (start, c, hasResponse, g) \<leftarrow> my_request_loop X pats data 0 c False g;
        let (request, b) = pop (request_in c) [] (int start) False;
        Some (True, request, hasResponse, c\<lparr>request_in := b\<rparr>, g)
      })"

section \<open>Responses\<close>

text \<open>The greeting of the server is forwarded with the flags for compression and SSL cleared; the write
  behind the end of the response is undefined.\<close>

definition flags_of :: "char \<Rightarrow> char \<Rightarrow> 32 word" where
  "flags_of lo hi = word_of_nat (256 * byte hi + byte lo)"

definition my_greeting :: "string \<Rightarrow> nat \<Rightarrow> string \<Rightarrow> MySQLConnection \<Rightarrow> (string \<times> MySQLConnection) option" where
  "my_greeting data response_size response c = do {
     n \<leftarrow> strlen_at data 5;
     let srv_len = min n (response_size - 5);
     v \<leftarrow> bytes_at data 5 srv_len;
     let c = c\<lparr>db_srv_version := db_srv_version c @ v\<rparr>;
     if srv_len + 20 > response_size then Some (response, c)
     else do {
       lo \<leftarrow> rd data (srv_len + 19);
       hi \<leftarrow> rd data (srv_len + 20);
       let server_flags = flags_of lo hi;
       let (response, b) = pop (response_in c) response (int response_size) False;
       let server_flags = (if server_flags AND MYSQL_CON_COMPRESS \<noteq> 0
                           then server_flags AND NOT MYSQL_CON_COMPRESS else server_flags);
       let server_flags = (if server_flags AND MYSQL_CON_SSL \<noteq> 0
                           then server_flags AND NOT MYSQL_CON_SSL else server_flags);
       if srv_len + 20 \<ge> length response then None
       else Some (response[srv_len + 19 := char_of (unat (server_flags AND 0xff)),
                           srv_len + 20 := char_of (unat (drop_bit 8 server_flags AND 0xff))],
                  c\<lparr>response_in := b\<rparr>)
     }
   }"

text \<open>\<open>ParseResponsePacket\<close> always returns true, and its \<open>header_size\<close> is zero or the packet size.\<close>

definition ParseResponsePacket :: "dbmap \<Rightarrow> string \<Rightarrow> nat \<Rightarrow> nat \<Rightarrow> string \<Rightarrow> MySQLConnection
    \<Rightarrow> (string \<times> MySQLConnection) option" where
  "ParseResponsePacket m data response_size max_response_size response c = do {
     t \<leftarrow> rd data 4;
     let type = byte t;
     if first_request c \<and> response_size > 23 \<and> response_size \<le> max_response_size
     then my_greeting data response_size response c
     else if type = mysql_code MYSQL_SRV_ERROR \<and> response_size > 7 \<and> response_size < 600 \<and> response_size \<le> max_response_size
     then do {
       n \<leftarrow> strlen_at data 7;
       Some (response, c)
     }
     else if lastCommandId c = mysql_code MYSQL_DB
     then Some (response, my_find_db m (c\<lparr>con_db_name := db_new_name c\<rparr>))
     else Some (response, c)
   }"

text \<open>The packet loop of \<open>parseResponse\<close>.  The pointer into the buffer stays while
  \<open>my_greeting\<close> pops bytes from its front, so later rounds read the shifted contents.\<close>

function my_response_loop :: "dbmap \<Rightarrow> nat \<Rightarrow> nat \<Rightarrow> string \<Rightarrow> MySQLConnection \<Rightarrow> (nat \<times> string \<times> MySQLConnection) option" where
  "my_response_loop m full_size start response c =
     (let data = drop start (raw (response_in c)); response_size = le24 data 0 + 4 in
      if length data < 2 then None
      else if start + response_size \<le> full_size then do {
        r \<leftarrow> ParseResponsePacket m data response_size (full_size - start) response c;
        let response = fst r;
        let c = (snd r)\<lparr>SecondPacket := False\<rparr>;
        if start + response_size + 5 < full_size
        then my_response_loop m full_size (start + response_size) response c
        else Some (start + response_size, response, c)
      }
      else Some (start, response, c))"
  by pat_completeness auto
termination
  by (relation "measure (\<lambda>(m, full, start, r, c). full + 1 - start)") auto

declare my_response_loop.simps [simp del]

text \<open>The loop that skips whole packets.\<close>

function my_skip_loop :: "string \<Rightarrow> nat \<Rightarrow> nat \<Rightarrow> nat" where
  "my_skip_loop data start response_size =
     (if start + response_size \<le> length data \<and> 0 < response_size then
        (let start = start + response_size in
         if start + 5 < length data then my_skip_loop data start (le24 data start + 4) else start)
      else start)"
  by pat_completeness auto
termination
  by (relation "measure (\<lambda>(data, start, n). length data + 1 - start)") auto

declare my_skip_loop.simps [simp del]

definition my_parseResponse :: "MySQLConnection \<Rightarrow> 'w glob \<Rightarrow> (bool \<times> string \<times> MySQLConnection \<times> 'w glob) option" where
  "my_parseResponse c g =
     (let data = raw (response_in c); full_size = length data;
          type = byte (at data 4) in
      if full_size < 5 then Some (False, [], c, g)
      else if \<not> (StartResponse c \<and> type = mysql_code MYSQL_SRV_ERROR \<or> lastCommandId c = mysql_code MYSQL_DB \<or>
                first_request c \<or> SecondPacket c)
      then (let start = my_skip_loop data 0 (le24 data 0 + 4);
                (response, b) = pop (response_in c) [] (int start) False
            in Some (True, response, c\<lparr>response_in := b, StartResponse := False\<rparr>, g))
      else (let c = c\<lparr>StartResponse := False\<rparr> in
        if full_size < 7 then
          (if first_request c \<or> SecondPacket c then
             (let (response, b) = pop (response_in c) [] (int full_size) False
              in Some (True, response, c\<lparr>response_in := b\<rparr>, g))
           else Some (False, [], c, g))
        else do {
          (start, response, c) \<leftarrow> my_response_loop (dbsmap g) full_size 0 [] c;
          Some (if Buffer_size (response_in c) \<noteq> 0
                then (let (response, b) = pop (response_in c) response (int start) False
                      in (True, response, c\<lparr>response_in := b\<rparr>, g))
                else (True, response, c, g))
        }))"

section \<open>Properties\<close>

subsection \<open>What a packet leaves alone\<close>

lemma keeps_in_fields [simp]:
  "keeps_in c (c'\<lparr>con_db_user := x\<rparr>) = keeps_in c c'" "keeps_in c (c'\<lparr>con_db_name := x\<rparr>) = keeps_in c c'"
  "keeps_in c (c'\<lparr>db_new_name := x\<rparr>) = keeps_in c c'" "keeps_in c (c'\<lparr>first_request := b\<rparr>) = keeps_in c c'"
  "keeps_in c (c'\<lparr>SecondPacket := b\<rparr>) = keeps_in c c'" "keeps_in c (c'\<lparr>original_query := x\<rparr>) = keeps_in c c'"
  "keeps_in c (c'\<lparr>con_db := a\<rparr>) = keeps_in c c'"
  by (simp_all add: keeps_in_def)

lemma keeps_in_my_fields [simp]:
  "keeps_in c (c'\<lparr>mysql41 := b\<rparr>) = keeps_in c c'" "keeps_in c (c'\<lparr>my_longResponse := b\<rparr>) = keeps_in c c'"
  "keeps_in c (c'\<lparr>my_longResponseData := b\<rparr>) = keeps_in c c'" "keeps_in c (c'\<lparr>lastCommandId := n\<rparr>) = keeps_in c c'"
  "keeps_in c (c'\<lparr>StartResponse := b\<rparr>) = keeps_in c c'"
  by (simp_all add: keeps_in_def)

lemma my_find_db_keeps [simp]: "keeps_in c (my_find_db m c') = keeps_in c c'"
  by (simp add: my_find_db_def)

lemma my_login41_keeps: "my_login41 m data n c = Some r \<Longrightarrow> keeps_in c (case r of Inl (c', ok) \<Rightarrow> c' | Inr c' \<Rightarrow> c')"
  by (auto simp: my_login41_def Let_def split: if_splits bind_splits)

lemma my_login40_keeps: "my_login40 m data n c = Some r \<Longrightarrow> keeps_in c (case r of Inl (c', ok) \<Rightarrow> c' | Inr c' \<Rightarrow> c')"
  by (auto simp: my_login40_def Let_def split: if_splits bind_splits)

lemma my_login_keeps:
  assumes "my_login data n c g = Some (ok, c')"
  shows "keeps_in c c'"
proof (cases "n < 10")
  case True
  then show ?thesis using assms by (simp add: my_login_def)
next
  case False
  define v41 where "v41 = (client_flags data AND MYSQL_CON_PROTOCOL_V41 \<noteq> 0)"
  define c1 where "c1 = (if v41 then c\<lparr>mysql41 := True\<rparr> else c)\<lparr>con_db_name := [], con_db_user := []\<rparr>"
  define l where "l = (if v41 \<and> n > 36 then my_login41 (dbsmap g) data n c1
    else if n > 10 then my_login40 (dbsmap g) data n c1 else Some (Inr c1))"
  obtain r where r: "l = Some r" and post: "(case r of Inl (c, ok) \<Rightarrow> Some (ok, c)
      | Inr c \<Rightarrow> do {
          d \<leftarrow> deref_db c g;
          let c = (if db_name d \<noteq> con_db_name c then my_find_db (dbsmap g) c else c);
          Some (True, c\<lparr>first_request := False, SecondPacket := True\<rparr>)
        }) = Some (ok, c')"
    using assms False unfolding my_login_def Let_def l_def c1_def v41_def
    by (auto split: bind_splits)
  have "keeps_in c c1" by (simp add: c1_def)
  moreover have "keeps_in c1 (case r of Inl (c', ok) \<Rightarrow> c' | Inr c' \<Rightarrow> c')"
    using r my_login41_keeps my_login40_keeps by (auto simp: l_def split: if_splits)
  ultimately have k: "keeps_in c (case r of Inl (c', ok) \<Rightarrow> c' | Inr c' \<Rightarrow> c')" by (rule keeps_in_trans)
  show ?thesis
    using post k by (cases r) (auto simp: Let_def split: bind_splits if_splits)
qed

lemma my_query_keeps: "my_query X pats q c h g = Some (ok, c', h', g') \<Longrightarrow> keeps_in c c'"
proof -
  assume "my_query X pats q c h g = Some (ok, c', h', g')"
  then have "keeps_in (c\<lparr>original_query := q, StartResponse := True\<rparr>) c'"
    by (auto simp: my_query_def Let_def dest!: guard_query_keeps split: bind_splits)
  then show ?thesis by (simp add: keeps_in_def)
qed

lemma my_change_user_keeps: "my_change_user data n c g = Some c' \<Longrightarrow> keeps_in c c'"
  unfolding my_change_user_def Let_def by (auto split: if_splits bind_splits)

lemma my_dispatch_cases:
  assumes "my_dispatch X pats t data n c h g = Some (ok, c', h', g')"
  obtains (same) "c' = c" | (db) d where "c' = c\<lparr>db_new_name := d\<rparr>"
  | (query) q where "my_query X pats q c h g = Some (ok, c', h', g')"
  | (user) "my_change_user data n c g = Some c'"
  using assms unfolding my_dispatch_def Let_def by (simp only: bind_eq_Some_conv option.inject prod.inject split: if_splits) blast+

lemma my_note_command_keeps [simp]: "keeps_in c (my_note_command t c)"
  by (simp add: my_note_command_def Let_def)

lemma my_command_keeps:
  assumes "my_command X pats data n c h g = Some (ok, c', h', g')"
  shows "keeps_in c c'"
proof (rule keeps_in_trans [OF my_note_command_keeps])
  show "keeps_in (my_note_command (byte (at data 4)) c) c'"
    using assms unfolding my_command_def Let_def
    by (rule my_dispatch_cases) (auto intro: my_query_keeps my_change_user_keeps)
qed

lemma ParseRequestPacket_keeps:
  "ParseRequestPacket X pats data n c h g = Some (ok, c', h', g') \<Longrightarrow> keeps_in c c'"
  by (auto simp: ParseRequestPacket_def dest: my_login_keeps my_command_keeps split: if_splits bind_splits)

lemma my_request_loop_keeps:
  assumes "my_request_loop X pats data start c h g = Some r" "start \<le> length data"
  shows "keeps_in c (fst (snd r)) \<and> fst r \<le> length data"
  using assms
proof (induction X pats data start c h g rule: my_request_loop.induct)
  case (1 X pats data start c h g)
  let ?n = "le24 data 0 + 4"
  show ?case
  proof (cases "start + ?n \<le> length data")
    case False
    then show ?thesis using "1.prems" by (subst (asm) my_request_loop.simps) auto
  next
    case le: True
    then obtain ok c1 h1 g1 where p: "ParseRequestPacket X pats data ?n c h g = Some (ok, c1, h1, g1)"
      using "1.prems"(1) by (subst (asm) my_request_loop.simps) (auto simp: Let_def split: bind_splits)
    have k: "keeps_in c c1" using ParseRequestPacket_keeps [OF p] .
    show ?thesis
    proof (cases "start + ?n + 7 > length data")
      case True
      then show ?thesis
        using "1.prems"(1) le k by (subst (asm) my_request_loop.simps) (auto simp: p Let_def split: if_splits)
    next
      case False
      then have l: "my_request_loop X pats data (start + ?n) c1 h1 g1 = Some r"
        using "1.prems"(1) le by (subst (asm) my_request_loop.simps) (auto simp: p Let_def split: if_splits)
      have "keeps_in c1 (fst (snd r)) \<and> fst r \<le> length data"
        using "1.IH" [OF refl refl le, of "(ok, c1, h1, g1)"] l le False p by simp
      with k show ?thesis using keeps_in_trans by blast
    qed
  qed
qed

lemma my_parseRequest_exact:
  assumes "my_parseRequest X pats c g = Some (ok, request, h, c', g')"
  shows "request @ buff (request_in c') = buff (request_in c) \<and> request_out c' = request_out c \<and> con_proxy_id c' = con_proxy_id c"
  using assms
  by (auto simp: my_parseRequest_def raw_def pop_int Let_def keeps_in_def
      dest!: my_request_loop_keeps split: if_splits bind_splits)

lemma my_greeting_frame:
  "my_greeting data n response c = Some (r, c') \<Longrightarrow> request_in c' = request_in c \<and> request_out c' = request_out c \<and> con_proxy_id c' = con_proxy_id c"
  by (auto simp: my_greeting_def Let_def pop_int split: if_splits bind_splits)

lemma ParseResponsePacket_frame:
  "ParseResponsePacket m data n mx response c = Some (r, c') \<Longrightarrow> request_in c' = request_in c \<and> request_out c' = request_out c \<and> con_proxy_id c' = con_proxy_id c"
  by (auto simp: ParseResponsePacket_def my_find_db_def Let_def dest: my_greeting_frame split: if_splits bind_splits)

lemma my_response_loop_frame:
  "my_response_loop m full start response c = Some (s, r, c') \<Longrightarrow> request_in c' = request_in c \<and> request_out c' = request_out c \<and> con_proxy_id c' = con_proxy_id c"
proof (induction m full start response c rule: my_response_loop.induct)
  case (1 m full start response c)
  let ?d = "drop start (raw (response_in c))"
  let ?n = "le24 ?d 0 + 4"
  show ?case
  proof (cases "start + ?n \<le> full \<and> 2 \<le> length ?d")
    case False
    then show ?thesis using "1.prems" by (subst (asm) my_response_loop.simps) (auto simp: Let_def split: if_splits)
  next
    case le: True
    then obtain r1 c1 where p: "ParseResponsePacket m ?d ?n (full - start) response c = Some (r1, c1)"
      using "1.prems" by (subst (asm) my_response_loop.simps) (auto simp: Let_def split: bind_splits)
    note k = ParseResponsePacket_frame [OF p]
    show ?thesis
    proof (cases "start + ?n + 5 < full")
      case False
      then show ?thesis
        using "1.prems" le k by (subst (asm) my_response_loop.simps) (auto simp: p Let_def split: if_splits)
    next
      case True
      then have l: "my_response_loop m full (start + ?n) r1 (c1\<lparr>SecondPacket := False\<rparr>) = Some (s, r, c')"
        using "1.prems" le by (subst (asm) my_response_loop.simps) (auto simp: p Let_def split: if_splits)
      then show ?thesis
        using "1.IH" [OF refl refl _ _ p, of r1 "c1\<lparr>SecondPacket := False\<rparr>"] le k True by simp
    qed
  qed
qed

lemma my_parseResponse_frame:
  assumes "my_parseResponse c g = Some (ok, response, c', g')"
  shows "request_in c' = request_in c \<and> request_out c' = request_out c \<and> con_proxy_id c' = con_proxy_id c"
  using assms
  by (auto simp: my_parseResponse_def pop_int Let_def dest!: my_response_loop_frame split: if_splits bind_splits)

interpretation mysql: lossless_protocol "my_parseRequest X pats" my_parseResponse
  by unfold_locales (use my_parseRequest_exact my_parseResponse_frame in \<open>metis subseq_order.refl\<close>)+

subsection \<open>A query packet\<close>

definition enc24 :: "nat \<Rightarrow> string" where
  "enc24 n = map char_of [n mod 256, n div 2 ^ 8 mod 256, n div 2 ^ 16 mod 256]"

definition my_packet :: "char \<Rightarrow> string \<Rightarrow> string" where
  "my_packet num body = enc24 (length body) @ num # body"

lemma length_packet [simp]: "length (my_packet num body) = length body + 4"
  by (simp add: my_packet_def enc24_def)

lemma at_behind4: "at (a # b # c # d # s) (4 + i) = at s i"
  by (simp add: at_def numeral_eq_Suc)

lemma at_packet:
  "at (my_packet num body @ r) 0 = char_of (length body mod 256)"
  "at (my_packet num body @ r) 1 = char_of (length body div 2 ^ 8 mod 256)"
  "at (my_packet num body @ r) 2 = char_of (length body div 2 ^ 16 mod 256)"
  "at (my_packet num body @ r) (4 + i) = at (body @ r) i"
proof -
  show "at (my_packet num body @ r) (4 + i) = at (body @ r) i"
    unfolding my_packet_def enc24_def by (simp only: list.map append.simps append_Cons at_behind4)
qed (simp_all add: my_packet_def enc24_def numeral_2_eq_2 del: char_of_mod_256)

lemma le24_packet: "length body < 2 ^ 24 \<Longrightarrow> le24 (my_packet num body @ r) 0 = length body"
proof -
  assume n: "length body < 2 ^ 24"
  have b: "byte (char_of (m mod 256)) = m mod 256" for m by (rule byte_char_of) simp
  show ?thesis using byte_sum [of "length body"] n unfolding le24_def add_0 at_packet b by simp
qed

lemma drop5_packet: "drop 5 (my_packet num (t # sql) @ r) = sql @ r"
  by (simp add: my_packet_def enc24_def)

text \<open>A packet with a query: only its own bytes matter.\<close>

lemma my_query_packet:
  assumes "\<not> first_request c" "sql \<noteq> []" "hd sql \<noteq> NUL" "length sql + 1 < 2 ^ 24"
  shows "ParseRequestPacket X pats (my_packet num (CHR 0x03 # sql) @ r) (length sql + 5) c h g =
    my_query X pats sql (my_note_command 3 c) h g"
proof -
  let ?d = "my_packet num (CHR 0x03 # sql) @ r"
  have t: "byte (at ?d 4) = 3" using at_packet(4) [of num "CHR 0x03 # sql" r 0] by (simp add: at_def byte_def)
  have r: "rd ?d 5 = Some (hd sql)"
    using assms(2) at_packet(4) [of num "CHR 0x03 # sql" r 1] by (cases sql) (simp_all add: at_def rd_def)
  have s: "szminus (length sql + 5) 5 = length sql" using assms(4) by (simp add: szminus_def sz_def)
  have "bytes_at ?d 5 (szminus (length sql + 5) 5) = Some sql"
    by (simp add: s bytes_at_def substr_def drop5_packet del: drop_append)
  then show ?thesis using assms(1,3) by (simp add: ParseRequestPacket_def my_command_def my_dispatch_def t r)
qed

lemma my_query_result:
  assumes "check_query X pats (blacklist_check (cx_pcre X) pats) c sql g = Some (ok, p, g2)"
  shows "my_query X pats sql (my_note_command 3 c) False g =
    Some (True, (let c1 = (my_note_command 3 c)\<lparr>StartResponse := True, original_query := (if ok then p else [])\<rparr> in
      if ok then c1 else push_reply (my_blockResponse []) c1), \<not> ok, g2)"
proof -
  let ?c = "(my_note_command 3 c)\<lparr>original_query := sql, StartResponse := True\<rparr>"
  have "check_query X pats (blacklist_check (cx_pcre X) pats) ?c sql g = Some (ok, p, g2)"
    using assms check_query_cong [of ?c c X pats _ sql g] by (simp add: my_note_command_def)
  then show ?thesis by (simp add: my_query_def guard_query_def Let_def)
qed


definition my_demo :: "string \<Rightarrow> MySQLConnection" where
  "my_demo b = Connection.Connection.extend
     (demo_conn\<lparr>first_request := False, request_in := \<lparr>buff = b\<rparr>\<rparr>) (MySQLConnection.fields True False False 0 False)"

lemma my_demo_simps [simp]:
  "con_db (my_demo b) = Some 0" "con_db_user (my_demo b) = ''green''" "first_request (my_demo b) = False"
  "buff (request_in (my_demo b)) = b" "buff (response_in (my_demo b)) = []" "buff (response_out (my_demo b)) = []"
  by (simp_all add: my_demo_def demo_conn_def new_Connection_def Connection.Connection.defs MySQLConnection.defs)

lemma my_demo_deref: "deref_db (my_demo b) (demo_glob d) = Some d"
  by (simp add: deref_db_def demo_glob_def)


lemma my_request_loop_step:
  "my_request_loop X pats data start c h g =
     (let n = le24 data 0 + 4 in
      if start + n \<le> length data then
        case ParseRequestPacket X pats data n c h g of
          None \<Rightarrow> None
        | Some (ok, c1, h1, g1) \<Rightarrow> if length data < start + n + 7 then Some (start + n, c1, h1, g1)
            else my_request_loop X pats data (start + n) c1 h1 g1
      else Some (start, c, h, g))"
  by (subst my_request_loop.simps) (auto simp: Let_def split: option.splits)

subsection \<open>Queries behind the first\<close>

lemma my_query_first:
  assumes "my_query X pats q (my_note_command t c) h g = Some (ok, c', h', g')"
  shows "first_request c' = first_request c"
  using assms by (auto simp: my_query_def guard_query_def push_reply_def my_note_command_def Let_def split: bind_splits if_splits)



subsection \<open>The greeting\<close>

lemma two_bytes:
  assumes "w < 2 ^ 16"
  shows "flags_of (char_of (unat (w AND 0xff))) (char_of (unat (drop_bit 8 w AND 0xff))) = w"
proof -
  have "(0xff :: 32 word) = mask 8" by (simp add: mask_eq_exp_minus_1)
  then have m: "unat (v AND 0xff) = unat v mod 256" for v :: "32 word"
    by (simp only: take_bit_eq_mask [symmetric] unsigned_take_bit_eq) (simp add: take_bit_eq_mod)
  have "unat w < 2 ^ 16" using assms by (simp add: word_less_nat_alt)
  then have "unat w div 256 mod 256 = unat w div 256" by simp
  moreover have "unat (drop_bit 8 w) = unat w div 256" using \<open>unat w < 2 ^ 16\<close> by (simp only: unsigned_drop_bit_eq) (simp add: drop_bit_eq_div take_bit_nat_eq_self)
  ultimately have "256 * byte (char_of (unat (drop_bit 8 w AND 0xff))) + byte (char_of (unat (w AND 0xff))) = unat w"
    unfolding m by (simp del: char_of_mod_256)
  then show ?thesis by (simp only: flags_of_def of_nat_unat ucast_id)
qed

lemma flags_of_bound: "flags_of a b < 2 ^ 16"
proof -
  have u: "unat (word_of_nat n :: 32 word) < 2 ^ 16" if "n < 2 ^ 16" for n :: nat
    using that by (simp add: unat_of_nat)
  have "256 * byte b + byte a < 2 ^ 16" using byte_less [of a, unfolded less_eq_Suc_le] byte_less [of b, unfolded less_eq_Suc_le] by simp
  from u [OF this] show ?thesis unfolding flags_of_def word_less_nat_alt by simp
qed

lemma and_not_absorb: "(if (w :: 32 word) AND m \<noteq> 0 then w AND NOT m else w) = w AND NOT m"
proof (cases "w AND m = 0")
  case True
  have "w = (w AND m) OR (w AND NOT m)" by (simp flip: bit.conj_disj_distrib)
  then show ?thesis using True by simp
qed simp



subsection \<open>Responses\<close>

lemma ParseResponsePacket_plain:
  "ParseResponsePacket m data n mx response c = Some (r, c') \<Longrightarrow> \<not> first_request c \<Longrightarrow>
    r = response \<and> response_in c' = response_in c \<and> \<not> first_request c'"
  by (auto simp: ParseResponsePacket_def my_find_db_def Let_def split: if_splits bind_splits)

lemma my_response_loop_plain:
  "my_response_loop m full start response c = Some (s, r, c') \<Longrightarrow> \<not> first_request c \<Longrightarrow> start \<le> full \<Longrightarrow>
    r = response \<and> response_in c' = response_in c \<and> s \<le> full"
proof (induction m full start response c rule: my_response_loop.induct)
  case (1 m full start response c)
  let ?d = "drop start (raw (response_in c))"
  let ?n = "le24 ?d 0 + 4"
  show ?case
  proof (cases "start + ?n \<le> full \<and> 2 \<le> length ?d")
    case False
    then show ?thesis using "1.prems" by (subst (asm) my_response_loop.simps) (auto simp: Let_def split: if_splits)
  next
    case le: True
    then obtain r1 c1 where p: "ParseResponsePacket m ?d ?n (full - start) response c = Some (r1, c1)"
      using "1.prems" by (subst (asm) my_response_loop.simps) (auto simp: Let_def split: bind_splits)
    note k = ParseResponsePacket_plain [OF p "1.prems"(2)]
    show ?thesis
    proof (cases "start + ?n + 5 < full")
      case False
      then show ?thesis
        using "1.prems" le k by (subst (asm) my_response_loop.simps) (auto simp: p Let_def split: if_splits)
    next
      case True
      then have l: "my_response_loop m full (start + ?n) r1 (c1\<lparr>SecondPacket := False\<rparr>) = Some (s, r, c')"
        using "1.prems" le by (subst (asm) my_response_loop.simps) (auto simp: p Let_def split: if_splits)
      then show ?thesis
        using "1.IH" [OF refl refl _ _ p, of r1 "c1\<lparr>SecondPacket := False\<rparr>"] le k True by simp
    qed
  qed
qed

text \<open>C26: after the login the responses of the server reach the client byte for byte and in order.\<close>

theorem my_response_lossless:
  assumes "my_parseResponse c g = Some (ok, response, c', g')" "\<not> first_request c"
  shows "response @ buff (response_in c') = buff (response_in c)"
  using assms
  by (auto simp: my_parseResponse_def pop_int Let_def Buffer_size_def dest!: my_response_loop_plain split: if_splits bind_splits)

theorem my_response_lossless_witness:
  "\<exists>response c'. my_parseResponse ((my_demo [])\<lparr>response_in := \<lparr>buff = my_packet NUL ''ok''\<rparr>\<rparr>) (demo_glob new_DBPermObj) =
     Some (True, response, c', demo_glob new_DBPermObj) \<and> response @ buff (response_in c') = my_packet NUL ''ok''"
proof -
  let ?c = "(my_demo [])\<lparr>response_in := \<lparr>buff = my_packet NUL ''ok''\<rparr>\<rparr>"
  obtain response c' where r: "my_parseResponse ?c (demo_glob new_DBPermObj) = Some (True, response, c', demo_glob new_DBPermObj)"
    by (simp add: my_parseResponse_def pop_def Let_def raw_def my_demo_def demo_conn_def new_Connection_def
        MySQLConnection.defs Connection.Connection.defs mysql_code_def)
  with my_response_lossless [OF r] show ?thesis by simp
qed

end
