(* ===== verification/PgSQLCon.thy ===== *)
theory PgSQLCon
  imports Protocol
begin

text \<open>
  The PostgreSQL side (pgsql/pgsql_con.hpp, pgsql/pgsql_con.cpp): a \<open>PgSQLConnection\<close> cuts the
  bytes of the client into messages, reads the startup parameters, and passes every simple and
  prepared query to \<open>check_query\<close>.

  The message loops advance by a length the peer chooses.  They are partial functions, with
  \<open>None\<close> for a run that does not end or that is undefined.  \<open>copy_sql(query)\<close> names a variable
  that does not exist; its argument is not used by \<open>backup_sql\<close>, the model passes the query text.
\<close>

section \<open>State\<close>

datatype PgSQLType = PGSQL_NOTICE_RESPONSE | PGSQL_NO_DATA | PGSQL_BIND | PGSQL_PARSE_COMPLETE
  | PGSQL_BIND_COMPLETE | PGSQL_CLOSE_COMPLETE | PGSQL_NOTIF_RESPONSE | PGSQL_CLOSE | PGSQL_DESCRIBE
  | PGSQL_EXECUTE | PGSQL_FUNC_CALL | PGSQL_COPY_IN_RESPONSE | PGSQL_FLUSH | PGSQL_EMPTY_QUERY_RESPONSE
  | PGSQL_PARSE | PGSQL_QUERY | PGSQL_SYNC | PGSQL_FUN_CALL_RESPONSE | PGSQL_QUIT | PGSQL_COPY_DONE
  | PGSQL_COPY_DATA | PGSQL_COPY_FAIL | PGSQL_PORTAL_SUSPENDED | PGSQL_SRV_PASSWORD_MESSAGE
  | PGSQL_AUTH_MD5 | PGSQL_AUTH_OK | PGSQL_SRV_GETROW | PGSQL_SRV_ENDROW | PGSQL_SRV_ERROR
  | PGSQL_ROW_DATA | PGSQL_PARAM_STATUS | PGSQL_BECKEND_KEY_DATA | PGSQL_READY_FOR_QUERY
  | PGSQL_COMMAND_COMPLETE | PGSQL_ERROR_RESPONSE | PGSQL_PASSWORD

primrec pgsql_code :: "PgSQLType \<Rightarrow> nat" where
  "pgsql_code PGSQL_NOTICE_RESPONSE = 0x4E" | "pgsql_code PGSQL_NO_DATA = 0x6E"
| "pgsql_code PGSQL_BIND = 0x42" | "pgsql_code PGSQL_PARSE_COMPLETE = 0x1"
| "pgsql_code PGSQL_BIND_COMPLETE = 0x2" | "pgsql_code PGSQL_CLOSE_COMPLETE = 0x3"
| "pgsql_code PGSQL_NOTIF_RESPONSE = 0x41" | "pgsql_code PGSQL_CLOSE = 0x43"
| "pgsql_code PGSQL_DESCRIBE = 0x44" | "pgsql_code PGSQL_EXECUTE = 0x45"
| "pgsql_code PGSQL_FUNC_CALL = 0x46" | "pgsql_code PGSQL_COPY_IN_RESPONSE = 0x47"
| "pgsql_code PGSQL_FLUSH = 0x48" | "pgsql_code PGSQL_EMPTY_QUERY_RESPONSE = 0x49"
| "pgsql_code PGSQL_PARSE = 0x50" | "pgsql_code PGSQL_QUERY = 0x51"
| "pgsql_code PGSQL_SYNC = 0x53" | "pgsql_code PGSQL_FUN_CALL_RESPONSE = 0x56"
| "pgsql_code PGSQL_QUIT = 0x58" | "pgsql_code PGSQL_COPY_DONE = 0x63"
| "pgsql_code PGSQL_COPY_DATA = 0x64" | "pgsql_code PGSQL_COPY_FAIL = 0x66"
| "pgsql_code PGSQL_PORTAL_SUSPENDED = 0x73" | "pgsql_code PGSQL_SRV_PASSWORD_MESSAGE = 0x52"
| "pgsql_code PGSQL_AUTH_MD5 = 0xC" | "pgsql_code PGSQL_AUTH_OK = 0x52"
| "pgsql_code PGSQL_SRV_GETROW = 0x54" | "pgsql_code PGSQL_SRV_ENDROW = 0xfe"
| "pgsql_code PGSQL_SRV_ERROR = 0xff" | "pgsql_code PGSQL_ROW_DATA = 0x44"
| "pgsql_code PGSQL_PARAM_STATUS = 0x53" | "pgsql_code PGSQL_BECKEND_KEY_DATA = 0x4B"
| "pgsql_code PGSQL_READY_FOR_QUERY = 0x5A" | "pgsql_code PGSQL_COMMAND_COMPLETE = 0x43"
| "pgsql_code PGSQL_ERROR_RESPONSE = 0x45" | "pgsql_code PGSQL_PASSWORD = 0x70"

text \<open>The members the code never reads (server version, capabilities, parse errors) are left
  out.\<close>

record PgSQLConnection = Connection +
  pg_longResponse :: bool
  pg_longResponseData :: bool
  proto_version :: string
  db_options :: string

definition new_PgSQLConnection :: "dbmap \<Rightarrow> int \<Rightarrow> PgSQLConnection" where
  "new_PgSQLConnection m id' =
     Connection.Connection.extend ((new_Connection id')\<lparr>first_request := True, con_db_type := ''pgsql'',
         con_db := dbmap_default m id' ''pgsql''\<rparr>)
       (PgSQLConnection.fields False False [] [])"

definition pgsql_patterns_init :: "'re pcre \<Rightarrow> (string \<Rightarrow> string option) \<Rightarrow> string \<Rightarrow> 're SQLPatterns
    \<Rightarrow> 're SQLPatterns \<times> bool" where
  "pgsql_patterns_init P files path pgsql_patterns = patterns_Load P files (path @ ''pgsql.conf'') pgsql_patterns"

definition pg_checkBlacklist :: "('w, 're) ctx \<Rightarrow> 're SQLPatterns \<Rightarrow> DBPermObj \<Rightarrow> string \<Rightarrow> string \<Rightarrow> bool \<times> string" where
  "pg_checkBlacklist X pgsql_patterns d query reason = blacklist_check (cx_pcre X) pgsql_patterns d query reason"

section \<open>Replies\<close>

definition pg_blockResponse :: "string \<Rightarrow> string" where
  "pg_blockResponse response = response @ ''T'' @ map char_of [0,0,0,6,0,0::nat] @ ''C'' @ map char_of [0,0,0,11::nat] @
     ''SELECT'' @ [NUL] @ ''Z'' @ map char_of [0,0,0,5,73::nat]"

definition pg_blockParseResponse :: "string \<Rightarrow> string" where
  "pg_blockParseResponse response = response @ ''E'' @ map char_of [0,0,0,42::nat] @ ''SERROR'' @ [NUL] @ ''C'' @
     map char_of [4,2,5,0,1,0::nat] @ ''M'' @ ''Access Rule Violation'' @ [NUL, NUL] @ ''Z'' @ map char_of [0,0,0,5,73::nat]"

section \<open>The startup message\<close>

text \<open>\<open>memcmp\<close> looks at the start of the message, not at the position reached.\<close>

definition pg_parse_protocol_params :: "string \<Rightarrow> nat \<Rightarrow> nat \<Rightarrow> string \<Rightarrow> nat \<Rightarrow> string \<Rightarrow> bool \<times> nat \<times> string" where
  "pg_parse_protocol_params data request_size ind option option_len result =
     (if ind + option_len > request_size then (False, request_size, result)
      else if take option_len data = option then (False, scan_nul data request_size (ind + option_len + 1), result)
      else (let ind = ind + option_len + 1; e = scan_nul data request_size ind; i = e - ind
            in (True, e + 1, if i > 0 then substr data (e - i) i else result)))"

text \<open>One iteration of the parameter loop: the new position and connection.\<close>

definition pg_startup_param :: "dbmap \<Rightarrow> string \<Rightarrow> nat \<Rightarrow> nat \<Rightarrow> PgSQLConnection \<Rightarrow> nat \<times> PgSQLConnection" where
  "pg_startup_param m data request_size ind c =
     (if at data ind = CHR ''u'' then
        (let (ok, ind, r) = pg_parse_protocol_params data request_size ind ''user'' 4 (con_db_user c)
         in (ind, c\<lparr>con_db_user := r\<rparr>))
      else if at data ind = CHR ''d'' then
        (let (ok, ind, r) = pg_parse_protocol_params data request_size ind ''database'' 8 (con_db_name c);
             c = c\<lparr>con_db_name := r\<rparr>
         in (ind, if ok then c\<lparr>con_db := dbmap_find m (con_proxy_id c) (con_db_name c) ''pgsql''\<rparr> else c))
      else if at data ind = CHR ''o'' then
        (let (ok, ind, r) = pg_parse_protocol_params data request_size ind ''options'' 7 (db_options c)
         in (ind, c\<lparr>db_options := r\<rparr>))
      else
        (let ind = scan_nul data request_size ind
         in (if at data ind = NUL then ind + 1 else ind, c)))"

lemma params_advance:
  "ind < n \<Longrightarrow> 0 < k \<Longrightarrow> ind < fst (snd (pg_parse_protocol_params data n ind opt k r))"
  using scan_nul_ge [of "ind + k + 1" data n] by (simp add: pg_parse_protocol_params_def Let_def)

lemma scan_nul_stop: "scan_nul data n i < n \<Longrightarrow> at data (scan_nul data n i) = NUL"
proof (induction data n i rule: scan_nul.induct)
  case (1 data n i)
  then show ?case by (cases "i < n \<and> at data i \<noteq> NUL") (simp_all add: scan_nul.simps [of data n i])
qed

lemma skip_advance:
  "ind < n \<Longrightarrow> ind < (let e = scan_nul data n ind in if at data e = NUL then e + 1 else e)"
  using scan_nul_ge [of ind data n] scan_nul_stop [of data n ind]
  by (cases "scan_nul data n ind < n") (simp_all add: Let_def)

lemma startup_advance:
  assumes "ind < n"
  shows "ind < fst (pg_startup_param m data n ind c)"
proof -
  have p: "ind < fst (snd (pg_parse_protocol_params data n ind opt k r))" if "0 < k" for opt k r
    using params_advance [OF assms that] .
  show ?thesis
    using p [of 4 "''user''" "con_db_user c"] p [of 8 "''database''" "con_db_name c"]
      p [of 7 "''options''" "db_options c"] skip_advance [OF assms, of data]
    by (simp add: pg_startup_param_def split_beta Let_def)
qed

function pg_startup_loop :: "dbmap \<Rightarrow> string \<Rightarrow> nat \<Rightarrow> nat \<Rightarrow> PgSQLConnection \<Rightarrow> PgSQLConnection" where
  "pg_startup_loop m data request_size ind c =
     (if ind < request_size
      then pg_startup_loop m data request_size (fst (pg_startup_param m data request_size ind c))
             (snd (pg_startup_param m data request_size ind c))
      else c)"
  by pat_completeness auto
termination
  by (relation "measure (\<lambda>(m, data, n, ind, c). n - ind)")
     (auto intro!: diff_less_mono2 startup_advance simp: split_beta)

declare pg_startup_loop.simps [simp del]

definition pg_startup :: "string \<Rightarrow> nat \<Rightarrow> PgSQLConnection \<Rightarrow> 'w glob \<Rightarrow> (bool \<times> PgSQLConnection) option" where
  "pg_startup data request_size c g =
     (if request_size < 13 then Some (False, c)
      else do {
        let c = c\<lparr>con_db_name := [], con_db_user := []\<rparr>;
        let c = c\<lparr>proto_version := proto_version c @ substr data 4 2 @ replicate 46 (CHR 0x01) @ substr data 6 2\<rparr>;
        let c = pg_startup_loop (dbsmap g) data request_size 8 c;
        d \<leftarrow> deref_db c g;
        let c = (if db_name d \<noteq> con_db_name c
                 then c\<lparr>con_db := dbmap_find (dbsmap g) (con_proxy_id c) (con_db_name c) ''pgsql''\<rparr> else c);
        Some (True, c\<lparr>first_request := False\<rparr>)
      })"

section \<open>Messages of the client\<close>

definition PGSQL_CANCEL :: string where
  "PGSQL_CANCEL = map char_of [0x00, 0x00, 0x00, 0x0F, 0x04, 0xD2, 0x16, 0xDF :: nat]"

text \<open>Reading \<open>n\<close> bytes from position \<open>i\<close> on, one after the other.\<close>

definition reads :: "string \<Rightarrow> nat \<Rightarrow> nat \<Rightarrow> unit option" where
  "reads data i n = (if n = 0 \<or> i + n \<le> length data + 1 then Some () else None)"

definition be16 :: "string \<Rightarrow> nat \<Rightarrow> nat option" where
  "be16 data i = do { a \<leftarrow> rd data i; b \<leftarrow> rd data (i + 1); Some (256 * byte a + byte b) }"

text \<open>The parameter values of a bind message.\<close>

fun pg_bind_values :: "string \<Rightarrow> nat \<Rightarrow> nat \<Rightarrow> nat option" where
  "pg_bind_values data 0 ind = Some ind"
| "pg_bind_values data (Suc n) ind = do {
     v \<leftarrow> be32 data ind;
     let num = nat (v mod 2 ^ 32);
     pg_bind_values data n (if num = 0xFFFFFFFF then ind + 4 else ind + 4 + num)
   }"

text \<open>The walk over a bind message, which only reads.\<close>

definition pg_bind :: "string \<Rightarrow> nat \<Rightarrow> unit option" where
  "pg_bind data ind = do {
     n \<leftarrow> be16 data ind;
     reads data (ind + 2) n;
     let ind = ind + 2 + n;
     let ind = (if n = 0 then ind + 1 else ind);
     n \<leftarrow> be16 data ind;
     ind \<leftarrow> pg_bind_values data n (ind + 2);
     n \<leftarrow> be16 data ind;
     reads data (ind + 2) n;
     x \<leftarrow> rd data (ind + 2 + n + 1);
     Some ()
   }"

definition simple_messages :: "PgSQLType list" where
  "simple_messages = [PGSQL_QUIT, PGSQL_CLOSE, PGSQL_COPY_DATA, PGSQL_EXECUTE, PGSQL_FLUSH, PGSQL_FUNC_CALL,
     PGSQL_SYNC, PGSQL_COPY_DONE, PGSQL_COPY_FAIL, PGSQL_DESCRIBE]"

text \<open>A query found in a message: backed up, checked and, if blocked, answered.\<close>

definition pg_query :: "('w, 're) ctx \<Rightarrow> 're SQLPatterns \<Rightarrow> string \<Rightarrow> PgSQLConnection \<Rightarrow> bool \<Rightarrow> 'w glob
    \<Rightarrow> (PgSQLConnection \<times> bool \<times> 'w glob) option" where
  "pg_query X pats q c hasResponse g = do {
     let c = c\<lparr>original_query := q\<rparr>;
     g \<leftarrow> copy_sql X c q g;
     guard_query X pats (pg_blockResponse []) c hasResponse g
   }"

definition pg_parse_request :: "('w, 're) ctx \<Rightarrow> 're SQLPatterns \<Rightarrow> string \<Rightarrow> nat \<Rightarrow> PgSQLConnection \<Rightarrow> bool \<Rightarrow> 'w glob
    \<Rightarrow> (bool \<times> PgSQLConnection \<times> bool \<times> 'w glob) option" where
  "pg_parse_request X pats data request_size c hasResponse g =
     (let request_type = byte (at data 0) in
      if first_request c then do {
        (ok, c) \<leftarrow> pg_startup data request_size c g;
        Some (ok, c, hasResponse, g)
      }
      else if request_size = 16 \<and> take 8 data \<noteq> PGSQL_CANCEL then Some (True, c, hasResponse, g)
      else if request_type = pgsql_code PGSQL_PASSWORD then Some (True, c\<lparr>SecondPacket := True\<rparr>, hasResponse, g)
      else if request_type \<in> set (map pgsql_code simple_messages) then Some (True, c, hasResponse, g)
      else if request_type = pgsql_code PGSQL_QUERY then do {
        q \<leftarrow> cstr_at data 5;
        (c, hasResponse, g) \<leftarrow> pg_query X pats q (c\<lparr>pg_longResponse := True, pg_longResponseData := False\<rparr>) hasResponse g;
        Some (True, c, hasResponse, g)
      }
      else if request_type = pgsql_code PGSQL_BIND then do {
        prepareName \<leftarrow> cstr_at data 5;
        q \<leftarrow> cstr_at data (length prepareName + 6);
        pg_bind data (length q + 6);
        Some (True, c\<lparr>original_query := q\<rparr>, hasResponse, g)
      }
      else if request_type = pgsql_code PGSQL_PARSE then do {
        b \<leftarrow> rd data 1;
        if byte b \<noteq> 0 then Some (True, c, hasResponse, g)
        else do {
          prepareName \<leftarrow> cstr_at data 5;
          q \<leftarrow> cstr_at data (length prepareName + 6);
          (c, hasResponse, g) \<leftarrow> pg_query X pats q c hasResponse g;
          Some (True, c, hasResponse, g)
        }
      }
      else Some (True, c, hasResponse, g))"

section \<open>Requests\<close>

text \<open>The message loop of \<open>parseRequest\<close>: the position after the messages handled.  The length of
  the next message is an \<open>int\<close> that is incremented and converted.\<close>

partial_function (option) pg_request_loop :: "('w, 're) ctx \<Rightarrow> 're SQLPatterns \<Rightarrow> string \<Rightarrow> nat \<Rightarrow> nat \<Rightarrow> nat
    \<Rightarrow> PgSQLConnection \<Rightarrow> bool \<Rightarrow> 'w glob \<Rightarrow> (nat \<times> PgSQLConnection \<times> bool \<times> 'w glob) option" where
  "pg_request_loop X pats data full_size start request_size c hasResponse g =
     (if szadd start request_size \<le> full_size then do {
        r \<leftarrow> pg_parse_request X pats (drop start data) request_size c hasResponse g;
        let c = fst (snd r);
        let hasResponse = fst (snd (snd r));
        let g = snd (snd (snd r));
        let start = szadd start request_size;
        if start = full_size then Some (start, c, hasResponse, g)
        else if start + 5 > full_size then Some (start, c, hasResponse, g)
        else do {
          v \<leftarrow> be32 data (start + 1);
          v \<leftarrow> int_succ v;
          pg_request_loop X pats data full_size start (sz v) c hasResponse g
        }
      }
      else Some (start, c, hasResponse, g))"

text \<open>\<open>parseRequest\<close>: the result, the bytes for the server, \<open>hasResponse\<close> and the new
  state.\<close>

definition pg_parseRequest :: "('w, 're) ctx \<Rightarrow> 're SQLPatterns \<Rightarrow> PgSQLConnection \<Rightarrow> 'w glob
    \<Rightarrow> (bool \<times> string \<times> bool \<times> PgSQLConnection \<times> 'w glob) option" where
  "pg_parseRequest X pats c g =
     (let full_size = nat (Buffer_size (request_in c)); data = raw (request_in c) in
      if full_size < 5 then Some (True, [], False, c, g)
      else if full_size = 8 then
        (let c = (if Buffer_size (response_in c) \<noteq> 0
                  then c\<lparr>response_in := Buffer_append (response_in c) ''N'' 1\<rparr>
                  else c\<lparr>response_out := Buffer_append (response_out c) ''N'' 1\<rparr>);
             (request, b) = pop (request_in c) [] (int full_size) False
         in Some (True, [], True, c\<lparr>request_in := b\<rparr>, g))
      else if first_request c then do {
        v \<leftarrow> be32 data 0;
        let request_size = sz v;
        if request_size > full_size then Some (True, [], False, c, g)
        else do {
          (ok, c, hasResponse, g) \<leftarrow> pg_parse_request X pats data request_size c False g;
          if \<not> ok then Some (False, [], hasResponse, c, g)
          else (let (request, b) = pop (request_in c) [] (int full_size) False
                in Some (True, request, hasResponse, c\<lparr>request_in := b\<rparr>, g))
        }
      }
      else do {
        v \<leftarrow> be32 data 1;
        v \<leftarrow> int_succ v;
        (start, c, hasResponse, g) \<leftarrow> pg_request_loop X pats data full_size 0 (sz v) c False g;
        let (request, b) = pop (request_in c) [] (int start) False;
        Some (True, request, hasResponse, c\<lparr>request_in := b\<rparr>, g)
      })"

section \<open>Responses\<close>

definition ErrorResponseHandling :: "string \<Rightarrow> nat \<Rightarrow> unit option" where
  "ErrorResponseHandling data start = do {
     tmp \<leftarrow> cstr_at data start;
     let len = length tmp + start + 2;
     tmp \<leftarrow> cstr_at data len;
     let len = len + length tmp + 2;
     tmp \<leftarrow> cstr_at data len;
     Some ()
   }"

text \<open>The switch over one server message: all it does is read and report.\<close>

definition pg_response_packet :: "string \<Rightarrow> nat \<Rightarrow> unit option" where
  "pg_response_packet data start =
     (let type = byte (at data start) in
      if type = pgsql_code PGSQL_SRV_PASSWORD_MESSAGE then do {
        auth \<leftarrow> rd data (start + 4);
        type \<leftarrow> rd data (start + 8);
        if byte auth = pgsql_code PGSQL_AUTH_MD5 \<and> byte type = 5 then Some ()
        else if byte type = 0 then do {
          type \<leftarrow> rd data (start + 9);
          b \<leftarrow> rd data 9;
          if byte b = pgsql_code PGSQL_EXECUTE then ErrorResponseHandling data (start + 15) else Some ()
        }
        else Some ()
      }
      else if type = pgsql_code PGSQL_BECKEND_KEY_DATA then reads data (start + 5) 4
      else if type = pgsql_code PGSQL_ERROR_RESPONSE then ErrorResponseHandling data (start + 6)
      else Some ())"

partial_function (option) pg_response_loop :: "string \<Rightarrow> nat \<Rightarrow> nat \<Rightarrow> (bool \<times> nat) option" where
  "pg_response_loop data max_response_size start =
     (if start + 4 < max_response_size then do {
        v \<leftarrow> be32 data (start + 1);
        let response_size = sz v;
        if szadd (szadd start response_size) 1 > max_response_size \<or> response_size = 0 then Some (False, start)
        else do {
          u \<leftarrow> pg_response_packet data start;
          pg_response_loop data max_response_size (szadd start (szadd response_size 1))
        }
      }
      else Some (True, start))"

text \<open>\<open>parse_response\<close>: whether the packets are complete, and \<open>used_size\<close>.\<close>

definition pg_parse_response :: "string \<Rightarrow> nat \<Rightarrow> PgSQLConnection \<Rightarrow> (bool \<times> nat \<times> PgSQLConnection) option" where
  "pg_parse_response data max_response_size c =
     (if max_response_size < 3 then Some (False, 0, c)
      else do {
        (ok, start) \<leftarrow> pg_response_loop data max_response_size 0;
        Some (if ok then (True, start, c\<lparr>SecondPacket := False\<rparr>) else (False, 0, c))
      })"

text \<open>The loop that skips whole messages once the session is set up.\<close>

partial_function (option) pg_skip_loop :: "string \<Rightarrow> nat \<Rightarrow> nat \<Rightarrow> nat \<Rightarrow> nat option" where
  "pg_skip_loop data full_size start response_size =
     (if szadd start response_size \<le> full_size then
        (let start = szadd start response_size in
         if start + 4 < full_size then do {
           v \<leftarrow> be32 data (start + 1);
           v \<leftarrow> int_succ v;
           pg_skip_loop data full_size start (sz v)
         }
         else Some start)
      else Some start)"

definition pg_parseResponse :: "PgSQLConnection \<Rightarrow> 'g \<Rightarrow> (bool \<times> string \<times> PgSQLConnection \<times> 'g) option" where
  "pg_parseResponse c g =
     (let full_size = nat (Buffer_size (response_in c)); data = raw (response_in c);
          c = c\<lparr>first_response := False\<rparr>;
          type = byte (at data 0) in
      if \<not> (first_request c \<or> type = pgsql_code PGSQL_SRV_PASSWORD_MESSAGE \<or>
            type = pgsql_code PGSQL_ERROR_RESPONSE \<or> SecondPacket c)
      then if full_size < 5 then Some (True, [], c, g)
           else do {
             v \<leftarrow> be32 data 1;
             v \<leftarrow> int_succ v;
             start \<leftarrow> pg_skip_loop data full_size 0 (sz v);
             let (response, b) = pop (response_in c) [] (int start) False;
             Some (True, response, c\<lparr>response_in := b\<rparr>, g)
           }
      else do {
        (ok, used, c) \<leftarrow> pg_parse_response data full_size c;
        if \<not> ok then Some (True, [], c, g)
        else (let (response, b) = pop (response_in c) [] (int used) False
              in Some (True, response, c\<lparr>response_in := b\<rparr>, g))
      })"

section \<open>Properties\<close>

subsection \<open>What a message leaves alone\<close>

lemma pg_startup_param_keeps: "keeps_in c (snd (pg_startup_param m data n ind c))"
  by (simp add: pg_startup_param_def keeps_in_def split_beta Let_def)

lemma pg_startup_loop_keeps: "keeps_in c (pg_startup_loop m data n ind c)"
proof (induction m data n ind c rule: pg_startup_loop.induct)
  case (1 m data n ind c)
  show ?case
  proof (cases "ind < n")
    case True
    with 1 pg_startup_param_keeps [of c m data n ind] show ?thesis
      by (simp add: pg_startup_loop.simps [of m data n ind c]) (rule keeps_in_trans)
  qed (simp add: pg_startup_loop.simps)
qed

lemma pg_startup_keeps: "pg_startup data n c g = Some (ok, c') \<Longrightarrow> keeps_in c c'"
proof -
  let ?c = "c\<lparr>con_db_name := [], con_db_user := [], proto_version := proto_version c @ substr data 4 2 @ replicate 46 (CHR 0x01) @ substr data 6 2\<rparr>"
  assume "pg_startup data n c g = Some (ok, c')"
  then have "c' = c \<or> keeps_in (pg_startup_loop (dbsmap g) data n 8 ?c) c'"
    by (auto simp: pg_startup_def keeps_in_def Let_def split: if_splits bind_splits)
  moreover have "keeps_in c (pg_startup_loop (dbsmap g) data n 8 ?c)"
    using pg_startup_loop_keeps [of ?c "dbsmap g" data n 8] by (simp add: keeps_in_def)
  ultimately show ?thesis by (elim disjE) (simp, rule keeps_in_trans)
qed

lemma pg_query_keeps: "pg_query X pats q c h g = Some (c', h', g') \<Longrightarrow> keeps_in c c'"
  by (auto simp: pg_query_def keeps_in_def Let_def dest!: guard_query_keeps split: bind_splits)

lemma pg_parse_request_keeps:
  assumes "pg_parse_request X pats data n c h g = Some (ok, c', h', g')"
  shows "keeps_in c c'"
  using assms unfolding pg_parse_request_def Let_def
  by (auto simp: keeps_in_def dest!: pg_query_keeps pg_startup_keeps split: if_splits bind_splits)

subsection \<open>The message loop\<close>

lemma pg_request_loop_keeps:
  assumes "pg_request_loop X pats data full start n c h g = Some r" "start \<le> full"
  shows "keeps_in c (fst (snd r)) \<and> fst r \<le> full"
proof -
  let ?P = "\<lambda>X pats data full start n c h g r. start \<le> full \<longrightarrow> keeps_in c (fst (snd r)) \<and> fst r \<le> full"
  have "?P X pats data full start n c h g r"
  proof (rule pg_request_loop.raw_induct [where P = ?P, OF _ assms(1)])
    fix loop X pats data full start n c h g r
    assume IH: "\<And>X pats data full start n c h g r. loop X pats data full start n c h g = Some r \<Longrightarrow> ?P X pats data full start n c h g r"
      and r: "(if szadd start n \<le> full then do {
          r \<leftarrow> pg_parse_request X pats (drop start data) n c h g;
          let c = fst (snd r);
          let hasResponse = fst (snd (snd r));
          let g = snd (snd (snd r));
          let start = szadd start n;
          if start = full then Some (start, c, hasResponse, g)
          else if start + 5 > full then Some (start, c, hasResponse, g)
          else do { v \<leftarrow> be32 data (start + 1); v \<leftarrow> int_succ v; loop X pats data full start (sz v) c hasResponse g }
        }
        else Some (start, c, h, g)) = Some r"
    show "?P X pats data full start n c h g r"
    proof (cases "szadd start n \<le> full")
      case False
      then show ?thesis using r by auto
    next
      case le: True
      then obtain ok c1 h1 g1 where p: "pg_parse_request X pats (drop start data) n c h g = Some (ok, c1, h1, g1)"
        using r by (auto split: bind_splits)
      have k: "keeps_in c c1" using pg_parse_request_keeps [OF p] .
      show ?thesis
      proof (cases "szadd start n = full \<or> szadd start n + 5 > full")
        case True
        then show ?thesis using r le k by (auto simp: p Let_def split: if_splits)
      next
        case False
        then obtain v w where v: "be32 data (szadd start n + 1) = Some v" "int_succ v = Some w"
          and l: "loop X pats data full (szadd start n) (sz w) c1 h1 g1 = Some r"
          using r le by (auto simp: p Let_def split: bind_splits)
        show ?thesis using IH [OF l] le k keeps_in_trans by blast
      qed
    qed
  qed
  with assms(2) show ?thesis by simp
qed

lemma pg_parseRequest_exact:
  assumes "pg_parseRequest X pats c g = Some (ok, request, h, c', g')" "length (buff (request_in c)) \<noteq> 8"
  shows "request @ buff (request_in c') = buff (request_in c) \<and> request_out c' = request_out c \<and> con_proxy_id c' = con_proxy_id c"
proof -
  let ?data = "buff (request_in c)"
  let ?full = "length ?data"
  show ?thesis
  proof (cases "?full < 5")
    case True
    then show ?thesis using assms(1) by (simp add: pg_parseRequest_def Buffer_size_def)
  next
    case big: False
    show ?thesis
    proof (cases "first_request c")
      case True
      show ?thesis
        using assms big True
        by (auto simp: pg_parseRequest_def Buffer_size_def raw_def pop_int Let_def keeps_in_def
            dest!: pg_parse_request_keeps split: if_splits bind_splits)
    next
      case False
      obtain v w start c1 h1 g1 where "be32 ?data 1 = Some v" "int_succ v = Some w"
        and loop: "pg_request_loop X pats ?data ?full 0 (sz w) c False g = Some (start, c1, h1, g1)"
        and r: "request = take start (buff (request_in c1))" "c' = c1\<lparr>request_in := (request_in c1)\<lparr>buff := drop start (buff (request_in c1))\<rparr>\<rparr>"
        using assms big False
        by (auto simp: pg_parseRequest_def Buffer_size_def raw_def pop_int Let_def split: bind_splits)
      have "keeps_in c c1" using pg_request_loop_keeps [OF loop] by simp
      then show ?thesis using r by (simp add: keeps_in_def)
    qed
  qed
qed

lemma pg_parseRequest_ssl:
  assumes "pg_parseRequest X pats c g = Some (ok, request, h, c', g')" "length (buff (request_in c)) = 8"
  shows "request = [] \<and> buff (request_in c') = [] \<and> request_out c' = request_out c \<and> con_proxy_id c' = con_proxy_id c"
  using assms pop_int [of _ "[]" 8]
  by (auto simp: pg_parseRequest_def Buffer_size_def Let_def split_beta split: if_splits)

lemma pg_parseResponse_frame:
  assumes "pg_parseResponse c g = Some (ok, response, c', g')"
  shows "request_in c' = request_in c \<and> request_out c' = request_out c \<and> con_proxy_id c' = con_proxy_id c \<and>
    response @ buff (response_in c') = buff (response_in c)"
  using assms
  by (auto simp: pg_parseResponse_def pg_parse_response_def Buffer_size_def pop_int Let_def
      split: if_splits bind_splits)

interpretation pgsql: protocol "pg_parseRequest X pats" pg_parseResponse
  by unfold_locales
     (use pg_parseRequest_exact pg_parseRequest_ssl pg_parseResponse_frame in \<open>metis append_Nil subseq_order.refl list_emb_Nil\<close>)+

text \<open>The verdict on a query does not stop it: whatever \<open>check_query\<close> decides, the
  messages handled are handed to the server unchanged and in order, so a blocked query is answered
  by the proxy and still executed.  The only bytes ever dropped are a buffer of exactly eight.\<close>

lemma pg_blocked_still_forwarded:
  assumes "pg_parseRequest X pats c g = Some (ok, request, h, c', g')" "length (buff (request_in c)) \<noteq> 8"
  shows "request @ buff (request_in c') = buff (request_in c)"
  using pg_parseRequest_exact [OF assms] by simp

subsection \<open>A query message\<close>

text \<open>The bytes of an \<open>int\<close> in network order, and a message of the protocol.\<close>

definition enc32 :: "nat \<Rightarrow> string" where
  "enc32 n = map char_of [n div 2 ^ 24 mod 256, n div 2 ^ 16 mod 256, n div 2 ^ 8 mod 256, n mod 256]"

definition pg_message :: "char \<Rightarrow> string \<Rightarrow> string" where
  "pg_message t body = t # enc32 (length body + 4) @ body"

lemma be32_message: "length body + 4 < 2 ^ 31 \<Longrightarrow> be32 (pg_message t body) 1 = Some (int (length body + 4))"
proof -
  assume n: "length body + 4 < 2 ^ 31"
  define k where "k = length body + 4"
  have b: "byte (char_of (m mod 256)) = m mod 256" for m by (rule byte_char_of) simp
  have s: "int (k div 2 ^ 24 mod 256) * 2 ^ 24 + int (k div 2 ^ 16 mod 256) * 2 ^ 16 +
      int (k div 2 ^ 8 mod 256) * 2 ^ 8 + int (k mod 256) = int k"
    using arg_cong [OF byte_sum [of k], of int] n unfolding k_def
    by (simp only: of_nat_add of_nat_mult of_nat_power of_nat_numeral)
  have a: "at (pg_message t body) 1 = char_of (k div 2 ^ 24 mod 256)" "at (pg_message t body) (1 + 1) = char_of (k div 2 ^ 16 mod 256)"
     "at (pg_message t body) (1 + 2) = char_of (k div 2 ^ 8 mod 256)" "at (pg_message t body) (1 + 3) = char_of (k mod 256)"
    by (simp_all add: pg_message_def enc32_def k_def numeral_2_eq_2 numeral_3_eq_3 del: char_of_mod_256)
  have l: "1 + 3 \<le> length (pg_message t body)" by (simp add: pg_message_def enc32_def)
  have "int k < 2 ^ 31" using n unfolding k_def by simp
  then show ?thesis unfolding be32_def a b Let_def s using l by (simp add: k_def)
qed

lemma length_message [simp]: "length (pg_message t body) = length body + 5"
  by (simp add: pg_message_def enc32_def)

lemma drop5_message: "drop 5 (pg_message t body) = body"
  by (simp add: pg_message_def enc32_def)


text \<open>A session of the default database with one query waiting.\<close>

definition pg_demo :: "string \<Rightarrow> PgSQLConnection" where
  "pg_demo b = Connection.Connection.extend
     (demo_conn\<lparr>first_request := False, request_in := \<lparr>buff = b\<rparr>\<rparr>) (PgSQLConnection.fields False False [] [])"

lemma pg_demo_simps [simp]:
  "con_db (pg_demo b) = Some 0" "con_db_user (pg_demo b) = ''green''" "first_request (pg_demo b) = False"
  "buff (request_in (pg_demo b)) = b" "buff (response_in (pg_demo b)) = []" "buff (response_out (pg_demo b)) = []"
  by (simp_all add: pg_demo_def demo_conn_def new_Connection_def Connection.Connection.defs PgSQLConnection.defs)

lemma pg_demo_deref: "deref_db (pg_demo b) (demo_glob d) = Some d"
  by (simp add: deref_db_def demo_glob_def)


subsection \<open>Messages the checks miss\<close>

text \<open>C21: a message of 16 bytes is taken for a cancel request when it is not one: any query of ten
  characters goes to the server without a check, an alert or a log entry.\<close>

theorem pg_sixteen_unchecked:
  assumes "\<not> first_request c" "buff (request_in c) = pg_message (CHR ''Q'') (sql @ [NUL])" "length sql = 10"
  shows "pg_parseRequest X pats c g =
    Some (True, pg_message (CHR ''Q'') (sql @ [NUL]), False, c\<lparr>request_in := (request_in c)\<lparr>buff := []\<rparr>\<rparr>, g)"
proof -
  let ?m = "pg_message (CHR ''Q'') (sql @ [NUL])"
  have n: "nat (Buffer_size (request_in c)) = 16" "raw (request_in c) = ?m"
    using assms by (simp_all add: Buffer_size_def raw_def)
  have len: "be32 ?m 1 = Some 15" using be32_message [of "sql @ [NUL]"] assms(3) by simp
  have "take 8 ?m \<noteq> PGSQL_CANCEL" by (simp add: pg_message_def PGSQL_CANCEL_def char_of_def)
  then have "pg_parse_request X pats ?m 16 c False g = Some (True, c, False, g)"
    using assms(1) by (simp add: pg_parse_request_def Let_def)
  then have "pg_request_loop X pats ?m 16 0 16 c False g = Some (16, c, False, g)"
    by (subst pg_request_loop.simps) (simp add: szadd_def)
  then show ?thesis
    using assms len by (simp add: pg_parseRequest_def n pop_int Let_def int_succ_def sz_def)
qed

theorem pg_sixteen_unchecked_witness:
  "\<exists>c'. pg_parseRequest (demo_ctx Bad_response) patterns_clear (pg_demo (pg_message (CHR ''Q'') (''drop db a;'' @ [NUL])))
      (demo_glob new_DBPermObj) =
    Some (True, pg_message (CHR ''Q'') (''drop db a;'' @ [NUL]), False, c', demo_glob new_DBPermObj)"
  using pg_sixteen_unchecked [of "pg_demo (pg_message (CHR ''Q'') (''drop db a;'' @ [NUL]))" "''drop db a;''"
      "demo_ctx Bad_response" patterns_clear "demo_glob new_DBPermObj"] by simp

lemma pg_request_loop_stuck:
  fixes X :: "('w, 're) ctx" and pats :: "'re SQLPatterns" and g :: "'w glob"
  assumes "be32 data 1 = Some (- 1)" "5 \<le> full"
  shows "pg_request_loop X pats data full 0 0 c h g = None"
proof (rule ccontr)
  let ?P = "\<lambda>(X :: ('w, 're) ctx) (pats :: 're SQLPatterns) data full (start :: nat) (n :: nat) (c :: PgSQLConnection) (h :: bool) (g :: 'w glob)
      (r :: nat \<times> PgSQLConnection \<times> bool \<times> 'w glob). be32 data 1 = Some (- 1) \<and> 5 \<le> full \<and> start = 0 \<and> n = 0 \<longrightarrow> False"
  assume "pg_request_loop X pats data full 0 0 c h g \<noteq> None"
  then obtain r where r: "pg_request_loop X pats data full 0 0 c h g = Some r" by blast
  have "?P X pats data full 0 0 c h g r"
  proof (rule pg_request_loop.raw_induct [where P = ?P, OF _ r])
    fix loop X pats data full start n c h g r
    assume IH: "\<And>X pats data full start n c h g r. loop X pats data full start n c h g = Some r \<Longrightarrow> ?P X pats data full start n c h g r"
      and r: "(if szadd start n \<le> full then do {
          r \<leftarrow> pg_parse_request X pats (drop start data) n c h g;
          let c = fst (snd r);
          let hasResponse = fst (snd (snd r));
          let g = snd (snd (snd r));
          let start = szadd start n;
          if start = full then Some (start, c, hasResponse, g)
          else if start + 5 > full then Some (start, c, hasResponse, g)
          else do { v \<leftarrow> be32 data (start + 1); v \<leftarrow> int_succ v; loop X pats data full start (sz v) c hasResponse g }
        }
        else Some (start, c, h, g)) = Some r"
    show "?P X pats data full start n c h g r"
    proof
      assume a: "be32 data 1 = Some (- 1) \<and> 5 \<le> full \<and> start = 0 \<and> n = 0"
      then have "szadd start n = 0" "sz 0 = 0" "int_succ (- 1) = Some 0" by (simp_all add: szadd_def sz_def int_succ_def)
      then obtain c1 h1 g1 where "loop X pats data full 0 0 c1 h1 g1 = Some r"
        using r a by (auto simp: Let_def split: bind_splits)
      then show False using IH a by blast
    qed
  qed
  then show False using assms by simp
qed



end
