(* ===== verification/Proxy.thy ===== *)
theory Proxy
  imports Socket MySQLCon PgSQLCon
begin

text \<open>
  The proxy (proxy.hpp, proxy.cpp) and \<open>Connection::close\<close>.  A \<open>session\<close> is a connection
  object with its four libevent events; the events are members of \<open>Connection\<close> in the code.
  The virtual methods \<open>parseRequest\<close> and \<open>parseResponse\<close> are reached through a
  \<open>vtable\<close>.  A callback gives the session back, or \<open>None\<close> in its place when it deleted it;
  the outer \<open>None\<close> is undefined behaviour of a virtual method.

  The fields \<open>from_client\<close>, \<open>to_backend\<close>, \<open>from_backend\<close> and \<open>to_client\<close> are the history of
  the session, the bytes the kernel delivered and accepted on its two sockets; no code reads them.
\<close>

section \<open>Sessions\<close>

record event =
  ev_fd :: int
  ev_added :: bool

record 'c session =
  conn :: 'c
  proxy_event :: event
  proxy_event_writer :: event
  backend_event :: event
  backend_event_writer :: event
  connections :: int
  from_client :: string
  to_backend :: string
  from_backend :: string
  to_client :: string

record ('z, 'g) vtable =
  parseRequest :: "'z Connection_scheme \<Rightarrow> 'g \<Rightarrow> (bool \<times> string \<times> bool \<times> 'z Connection_scheme \<times> 'g) option"
  parseResponse :: "'z Connection_scheme \<Rightarrow> 'g \<Rightarrow> (bool \<times> string \<times> 'z Connection_scheme \<times> 'g) option"

definition vtable_of :: "('z Connection_scheme \<Rightarrow> 'g \<Rightarrow> (bool \<times> string \<times> bool \<times> 'z Connection_scheme \<times> 'g) option)
    \<Rightarrow> ('z Connection_scheme \<Rightarrow> 'g \<Rightarrow> (bool \<times> string \<times> 'z Connection_scheme \<times> 'g) option) \<Rightarrow> ('z, 'g) vtable" where
  "vtable_of req resp = \<lparr>parseRequest = req, parseResponse = resp\<rparr>"

lemma vtable_of_sel [simp]: "parseRequest (vtable_of req resp) = req" "parseResponse (vtable_of req resp) = resp"
  by (simp_all add: vtable_of_def)

text \<open>The flags of an event that fired.\<close>

record which =
  EV_READ :: bool
  EV_WRITE :: bool

definition event_set :: "int \<Rightarrow> event" where
  "event_set fd = \<lparr>ev_fd = fd, ev_added = False\<rparr>"

definition event_add :: "event \<Rightarrow> event" where
  "event_add e = e\<lparr>ev_added := True\<rparr>"

definition event_del :: "event \<Rightarrow> event" where
  "event_del e = e\<lparr>ev_added := False\<rparr>"

text \<open>\<open>fd != 0 && fd != -1\<close>.\<close>

definition fd_set :: "event \<Rightarrow> bool" where
  "fd_set e \<longleftrightarrow> ev_fd e \<noteq> 0 \<and> ev_fd e \<noteq> -1"

section \<open>Events of a session\<close>

definition enable_event_writer :: "'c session \<Rightarrow> bool \<Rightarrow> 'c session" where
  "enable_event_writer s proxy =
     (if proxy then (if fd_set (proxy_event_writer s) then s\<lparr>proxy_event_writer := event_add (proxy_event_writer s)\<rparr> else s)
      else (if fd_set (backend_event_writer s) then s\<lparr>backend_event_writer := event_add (backend_event_writer s)\<rparr> else s))"

definition disable_event_writer :: "'c session \<Rightarrow> bool \<Rightarrow> 'c session" where
  "disable_event_writer s proxy =
     (if proxy then (if fd_set (proxy_event_writer s) then s\<lparr>proxy_event_writer := event_del (proxy_event_writer s)\<rparr> else s)
      else (if fd_set (backend_event_writer s) then s\<lparr>backend_event_writer := event_del (backend_event_writer s)\<rparr> else s))"

text \<open>\<open>event_del\<close>, \<open>event_set\<close> and \<open>event_add\<close> on the reading event.  Every call of it is
  commented out.\<close>

definition clear_init_event :: "'c session \<Rightarrow> int \<Rightarrow> bool \<Rightarrow> 'c session" where
  "clear_init_event s fd proxy =
     (if proxy then s\<lparr>proxy_event := event_add (event_set fd)\<rparr> else s\<lparr>backend_event := event_add (event_set fd)\<rparr>)"

definition del_if_set :: "event \<Rightarrow> event" where
  "del_if_set e = (if fd_set e then event_del e else e)"

text \<open>\<open>Connection::close\<close>, without \<open>connections->erase(location)\<close>, which changes the list of the
  proxy.\<close>

definition Connection_close :: "'k sys \<Rightarrow> 'c session \<Rightarrow> 'k net \<Rightarrow> 'c session \<times> 'k net" where
  "Connection_close S s n =
     (let n = socket_close S (ev_fd (proxy_event s)) n;
          n = socket_close S (ev_fd (backend_event s)) n
      in (s\<lparr>proxy_event := del_if_set (proxy_event s), proxy_event_writer := del_if_set (proxy_event_writer s),
            backend_event := del_if_set (backend_event s), backend_event_writer := del_if_set (backend_event_writer s)\<rparr>, n))"

text \<open>\<open>CloseConnection\<close> deletes the object after closing it.\<close>

definition CloseConnection :: "'k sys \<Rightarrow> 'c session \<Rightarrow> 'k net \<Rightarrow> 'k net" where
  "CloseConnection S s n = snd (Connection_close S s n)"

section \<open>Writing\<close>

definition min_buf_size :: nat where
  "min_buf_size = 10240"

definition Proxy_write_cb :: "'k sys \<Rightarrow> int \<Rightarrow> ('z Connection_scheme) session \<Rightarrow> 'k net
    \<Rightarrow> bool \<times> ('z Connection_scheme) session \<times> 'k net" where
  "Proxy_write_cb S fd s n =
     (let c = conn s; len = Buffer_size (response_out c) in
      if len = 0 then (True, disable_event_writer s True, n)
      else let data = raw (response_out c); (ok, len, n) = socket_write S fd data n in
        if ok then
          (let c = c\<lparr>response_out := chop_back (response_out c) len\<rparr>;
               s = s\<lparr>conn := c, to_client := to_client s @ take (nat len) data\<rparr>;
               s = (if Buffer_size (response_out c) = 0 then disable_event_writer s True else enable_event_writer s True)
           in (True, s, n))
        else (False, s, n))"

definition Backend_write_cb :: "'k sys \<Rightarrow> int \<Rightarrow> ('z Connection_scheme) session \<Rightarrow> 'k net
    \<Rightarrow> bool \<times> ('z Connection_scheme) session \<times> 'k net" where
  "Backend_write_cb S fd s n =
     (let c = conn s; len = Buffer_size (request_out c) in
      if len = 0 then (True, disable_event_writer s False, n)
      else let data = raw (request_out c); (ok, len, n) = socket_write S fd data n in
        if ok then
          (let c = c\<lparr>request_out := chop_back (request_out c) len\<rparr>;
               s = s\<lparr>conn := c, to_backend := to_backend s @ take (nat len) data\<rparr>;
               s = (if Buffer_size (request_out c) = 0 then disable_event_writer s False else enable_event_writer s False)
           in (True, s, n))
        else if first_response c then (True, enable_event_writer s False, n)
        else (False, s, n))"

section \<open>Validation\<close>

definition ProxyValidateServerResponse :: "('z, 'g) vtable \<Rightarrow> 'k sys \<Rightarrow> ('z Connection_scheme) session \<Rightarrow> 'k net \<Rightarrow> 'g
    \<Rightarrow> (bool \<times> ('z Connection_scheme) session \<times> 'k net \<times> 'g) option" where
  "ProxyValidateServerResponse V S s n g = do {
     (ok, response, c, g) \<leftarrow> parseResponse V (conn s) g;
     let s = s\<lparr>conn := c\<rparr>;
     if length response = 0 then Some (True, s, n, g)
     else do {
       let s = s\<lparr>conn := c\<lparr>response_out := Buffer_append (response_out c) response (int (length response))\<rparr>\<rparr>;
       let (ok, s, n) = Proxy_write_cb S (ev_fd (proxy_event s)) s n;
       Some (ok, s, n, g)
     }
   }"

text \<open>The reply of a blocked query: the failure of the second write is not looked at.\<close>

definition push_response :: "('z, 'g) vtable \<Rightarrow> 'k sys \<Rightarrow> ('z Connection_scheme) session \<Rightarrow> 'k net \<Rightarrow> 'g
    \<Rightarrow> (bool \<times> ('z Connection_scheme) session \<times> 'k net \<times> 'g) option" where
  "push_response V S s n g =
     (if Buffer_size (response_in (conn s)) \<noteq> 0 then ProxyValidateServerResponse V S s n g
      else if Buffer_size (response_out (conn s)) \<noteq> 0
      then (let (ok, s, n) = Proxy_write_cb S (ev_fd (proxy_event s)) s n in Some (True, s, n, g))
      else Some (True, s, n, g))"

definition ProxyValidateClientRequest :: "('z, 'g) vtable \<Rightarrow> 'k sys \<Rightarrow> ('z Connection_scheme) session \<Rightarrow> 'k net \<Rightarrow> 'g
    \<Rightarrow> (bool \<times> ('z Connection_scheme) session \<times> 'k net \<times> 'g) option" where
  "ProxyValidateClientRequest V S s n g = do {
     (ok, request, hasResponse, c, g) \<leftarrow> parseRequest V (conn s) g;
     let s = s\<lparr>conn := c\<rparr>;
     if \<not> ok then Some (False, s, n, g)
     else do {
       (ok, s, n, g) \<leftarrow> (if hasResponse then push_response V S s n g else Some (True, s, n, g));
       if \<not> ok then Some (False, s, n, g)
       else if length request = 0 then Some (True, s, n, g)
       else do {
         let s = s\<lparr>conn := (conn s)\<lparr>request_out := Buffer_append (request_out (conn s)) request (int (length request))\<rparr>\<rparr>;
         let (ok, s, n) = Backend_write_cb S (ev_fd (backend_event s)) s n;
         Some (ok, s, n, g)
       }
     }
   }"

section \<open>Callbacks\<close>

definition Proxy_cb :: "('z, 'g) vtable \<Rightarrow> 'k sys \<Rightarrow> int \<Rightarrow> which \<Rightarrow> ('z Connection_scheme) session \<Rightarrow> 'k net \<Rightarrow> 'g
    \<Rightarrow> (('z Connection_scheme) session option \<times> 'k net \<times> 'g) option" where
  "Proxy_cb V S fd which s n g =
     (let (ok, s, n) = (if EV_WRITE which then Proxy_write_cb S fd s n else (True, s, n)) in
      if \<not> ok then Some (None, CloseConnection S s n, g)
      else if \<not> EV_READ which then Some (Some s, n, g)
      else let (ok, data, len, n) = socket_read S fd (min_buf_size - 1) n in
        if \<not> ok then Some (None, CloseConnection S s n, g)
        else if len > 0 then do {
          let s = s\<lparr>conn := (conn s)\<lparr>request_in := Buffer_append (request_in (conn s)) data len\<rparr>,
                    from_client := from_client s @ take (nat len) data\<rparr>;
          (ok, s, n, g) \<leftarrow> ProxyValidateClientRequest V S s n g;
          Some (if ok then (Some s, n, g) else (None, CloseConnection S s n, g))
        }
        else Some (Some s, n, g))"

definition Backend_cb :: "('z, 'g) vtable \<Rightarrow> 'k sys \<Rightarrow> int \<Rightarrow> which \<Rightarrow> ('z Connection_scheme) session \<Rightarrow> 'k net \<Rightarrow> 'g
    \<Rightarrow> (('z Connection_scheme) session option \<times> 'k net \<times> 'g) option" where
  "Backend_cb V S fd which s n g =
     (let (ok, s, n) = (if EV_WRITE which then Backend_write_cb S fd s n else (True, s, n)) in
      if \<not> ok then Some (None, CloseConnection S s n, g)
      else if \<not> EV_READ which then Some (Some s, n, g)
      else let (ok, data, len, n) = socket_read S fd (min_buf_size - 1) n in
        if \<not> ok then Some (None, CloseConnection S s n, g)
        else if len > 0 then do {
          let s = s\<lparr>conn := (conn s)\<lparr>response_in := Buffer_append (response_in (conn s)) data len\<rparr>,
                    from_backend := from_backend s @ take (nat len) data\<rparr>;
          (ok, s, n, g) \<leftarrow> ProxyValidateServerResponse V S s n g;
          Some (if ok then (Some s, n, g) else (None, CloseConnection S s n, g))
        }
        else Some (Some s, n, g))"

section \<open>The listening socket\<close>

record Proxy =
  v_conn :: "addr list"
  serverEvent :: event
  iProxyId :: int
  sBackendName :: string
  sBackendIP :: string
  iBackendPort :: int
  sProxyIP :: string
  iProxyPort :: int
  sDBType :: string
  DBType :: DBProxyType

definition new_Proxy :: Proxy where
  "new_Proxy = \<lparr>v_conn = [], serverEvent = \<lparr>ev_fd = 0, ev_added = False\<rparr>, iProxyId = 0, sBackendName = [],
     sBackendIP = [], iBackendPort = 0, sProxyIP = [], iProxyPort = 0, sDBType = [], DBType = DBTypeMySQL\<rparr>"

definition PrepareNewConn :: "'k sys \<Rightarrow> Proxy \<Rightarrow> int \<Rightarrow> 'k net \<Rightarrow> bool \<times> int \<times> int \<times> 'k net" where
  "PrepareNewConn S p fd n =
     (let (sfd, n) = socket_accept S fd n in
      if sfd = -1 then (False, sfd, -1, n)
      else let (cfd, n) = client_socket S (if sBackendIP p = [] then sBackendName p else sBackendIP p) (iBackendPort p) n in
        if cfd = -1 then (False, sfd, cfd, socket_close S sfd n)
        else (True, sfd, cfd, n))"

definition Server_cb :: "'k sys \<Rightarrow> addr \<Rightarrow> 'z Connection_scheme \<Rightarrow> int \<Rightarrow> int \<Rightarrow> Proxy \<Rightarrow> 'k net
    \<Rightarrow> ('z Connection_scheme) session \<times> Proxy" where
  "Server_cb S a c sfd cfd p n =
     (let c = (case sys_peer S sfd (kern n) of None \<Rightarrow> c | Some ip \<Rightarrow> c\<lparr>db_user_ip := ip\<rparr>)
      in (\<lparr>conn = c, proxy_event = event_add (event_set sfd), proxy_event_writer = event_set sfd,
           backend_event = event_add (event_set cfd), backend_event_writer = event_set cfd, connections = iProxyId p,
           from_client = [], to_backend = [], from_backend = [], to_client = []\<rparr>,
          p\<lparr>v_conn := a # v_conn p\<rparr>))"

definition ProxyInit :: "'k sys \<Rightarrow> int \<Rightarrow> string \<Rightarrow> int \<Rightarrow> string \<Rightarrow> string \<Rightarrow> int \<Rightarrow> string \<Rightarrow> Proxy \<Rightarrow> 'k net
    \<Rightarrow> bool \<times> Proxy \<times> 'k net" where
  "ProxyInit S proxyId proxyIp proxyPort backendName backendIp backendPort dbType p n =
     (let p = p\<lparr>iProxyId := proxyId, sProxyIP := proxyIp, iProxyPort := proxyPort, sBackendName := backendName,
                sBackendIP := backendIp, iBackendPort := backendPort, sDBType := dbType,
                DBType := (if strcaseeq dbType ''mysql'' then DBTypeMySQL
                           else if strcaseeq dbType ''pgsql'' then DBTypePGSQL else DBTypeMySQL)\<rparr>;
          (sfd, n) = server_socket S proxyIp proxyPort n
      in if sfd = -1 then (False, p, n)
         else (True, p\<lparr>serverEvent := event_add (event_set sfd)\<rparr>, n))"

definition ServerInitialized :: "Proxy \<Rightarrow> bool" where
  "ServerInitialized p = fd_set (serverEvent p)"

definition HasActiveConnections :: "Proxy \<Rightarrow> bool" where
  "HasActiveConnections p \<longleftrightarrow> v_conn p \<noteq> []"

text \<open>\<open>CloseServer\<close>, also the first half of \<open>ProxyReInit\<close>.\<close>

definition CloseServer :: "'k sys \<Rightarrow> Proxy \<Rightarrow> 'k net \<Rightarrow> Proxy \<times> 'k net" where
  "CloseServer S p n =
     (if ServerInitialized p
      then (p\<lparr>serverEvent := (event_del (serverEvent p))\<lparr>ev_fd := 0\<rparr>\<rparr>, socket_close S (ev_fd (serverEvent p)) n)
      else (p, n))"

definition ProxyReInit :: "'k sys \<Rightarrow> int \<Rightarrow> string \<Rightarrow> int \<Rightarrow> string \<Rightarrow> string \<Rightarrow> int \<Rightarrow> string \<Rightarrow> Proxy \<Rightarrow> 'k net
    \<Rightarrow> bool \<times> Proxy \<times> 'k net" where
  "ProxyReInit S proxyId proxyIp proxyPort backendName backendIp backendPort dbType p n =
     (let (p, n) = CloseServer S p n
      in ProxyInit S proxyId proxyIp proxyPort backendName backendIp backendPort dbType p n)"

section \<open>What reaches the server\<close>

text \<open>The request bytes of a session, in the order of the stream: those the server has, those
  waiting for it, and those not yet parsed.\<close>

definition request_stream :: "('z Connection_scheme) session \<Rightarrow> string" where
  "request_stream s = to_backend s @ buff (request_out (conn s)) @ buff (request_in (conn s))"

text \<open>What the response direction leaves alone.\<close>

definition same_request :: "('z Connection_scheme) session \<Rightarrow> ('z Connection_scheme) session \<Rightarrow> bool" where
  "same_request s s' \<longleftrightarrow> request_in (conn s') = request_in (conn s) \<and> request_out (conn s') = request_out (conn s) \<and>
     to_backend s' = to_backend s \<and> from_client s' = from_client s \<and>
     proxy_event s' = proxy_event s \<and> backend_event s' = backend_event s \<and> backend_event_writer s' = backend_event_writer s \<and>
     con_proxy_id (conn s') = con_proxy_id (conn s)"

lemma same_request_refl [simp]: "same_request s s"
  by (simp add: same_request_def)

lemma same_request_trans: "same_request a b \<Longrightarrow> same_request b c \<Longrightarrow> same_request a c"
  by (simp add: same_request_def)

lemma same_request_stream: "same_request s s' \<Longrightarrow> request_stream s' = request_stream s \<and> from_client s' = from_client s"
  by (simp add: same_request_def request_stream_def)

lemma writer_same [simp]:
  "same_request s (enable_event_writer s True)" "same_request s (disable_event_writer s True)"
  by (simp_all add: same_request_def enable_event_writer_def disable_event_writer_def)

lemma writer_fields [simp]:
  "conn (enable_event_writer s b) = conn s" "conn (disable_event_writer s b) = conn s"
  "to_backend (enable_event_writer s b) = to_backend s" "to_backend (disable_event_writer s b) = to_backend s"
  "from_client (enable_event_writer s b) = from_client s" "from_client (disable_event_writer s b) = from_client s"
  "proxy_event (enable_event_writer s b) = proxy_event s" "proxy_event (disable_event_writer s b) = proxy_event s"
  "backend_event (enable_event_writer s b) = backend_event s" "backend_event (disable_event_writer s b) = backend_event s"
  "ev_fd (backend_event_writer (enable_event_writer s b)) = ev_fd (backend_event_writer s)"
  "ev_fd (backend_event_writer (disable_event_writer s b)) = ev_fd (backend_event_writer s)"
  by (simp_all add: enable_event_writer_def disable_event_writer_def event_add_def event_del_def)

lemma Proxy_write_cb_same: "Proxy_write_cb S fd s n = (ok, s', n') \<Longrightarrow> same_request s s'"
  by (auto simp: Proxy_write_cb_def Let_def same_request_def enable_event_writer_def disable_event_writer_def
      split: prod.splits if_splits)

lemma chop_take: "take (nat k) (buff b) @ buff (chop_back b k) @ r = buff b @ r"
  by (simp add: buff_chop_back flip: append_assoc)

lemma Backend_write_cb_stream:
  "Backend_write_cb S fd s n = (ok, s', n') \<Longrightarrow>
    request_stream s' = request_stream s \<and> from_client s' = from_client s \<and>
    proxy_event s' = proxy_event s \<and> backend_event s' = backend_event s \<and> con_proxy_id (conn s') = con_proxy_id (conn s)"
  by (auto simp: Backend_write_cb_def Let_def request_stream_def raw_def chop_take
      split: prod.splits if_splits)

text \<open>Bytes that wait for the server are waited for: the writing event of its socket is registered.\<close>

definition request_armed :: "('z Connection_scheme) session \<Rightarrow> bool" where
  "request_armed s \<longleftrightarrow> fd_set (backend_event_writer s) \<and>
     (buff (request_out (conn s)) \<noteq> [] \<longrightarrow> ev_added (backend_event_writer s))"

lemma same_request_armed: "same_request s s' \<Longrightarrow> request_armed s' = request_armed s"
  by (simp add: same_request_def request_armed_def)

lemma Backend_write_cb_armed:
  "Backend_write_cb S fd s n = (True, s', n') \<Longrightarrow> fd_set (backend_event_writer s) \<Longrightarrow> request_armed s'"
  by (auto simp: Backend_write_cb_def Let_def request_armed_def enable_event_writer_def disable_event_writer_def
      event_add_def event_del_def fd_set_def Buffer_size_def split: prod.splits if_splits)

section \<open>Descriptors of a session\<close>

text \<open>A step that opens or closes nothing and leaves the sockets of the session alone.\<close>

definition same_env :: "('k \<Rightarrow> int set) \<Rightarrow> 'c session \<times> 'k net \<Rightarrow> 'c session \<times> 'k net \<Rightarrow> bool" where
  "same_env held x y \<longleftrightarrow> same_fds held (snd x) (snd y) \<and> proxy_event (fst y) = proxy_event (fst x) \<and>
     backend_event (fst y) = backend_event (fst x) \<and> connections (fst y) = connections (fst x)"

definition session_fds :: "'c session \<Rightarrow> int set" where
  "session_fds s = {ev_fd (proxy_event s), ev_fd (backend_event s)}"

lemma same_env_refl [simp]: "same_env held x x"
  by (simp add: same_env_def)

lemma same_env_trans: "same_env held x y \<Longrightarrow> same_env held y z \<Longrightarrow> same_env held x z"
  by (auto simp: same_env_def intro: same_fds_trans)

lemma same_env_update [simp]:
  "same_env held x (s\<lparr>conn := c\<rparr>, n) = same_env held x (s, n)" "same_env held x (s\<lparr>to_client := b\<rparr>, n) = same_env held x (s, n)"
  "same_env held x (s\<lparr>to_backend := b\<rparr>, n) = same_env held x (s, n)" "same_env held x (s\<lparr>from_client := b\<rparr>, n) = same_env held x (s, n)"
  "same_env held x (s\<lparr>from_backend := b\<rparr>, n) = same_env held x (s, n)"
  "same_env held x (enable_event_writer s p, n) = same_env held x (s, n)"
  "same_env held x (disable_event_writer s p, n) = same_env held x (s, n)"
  by (simp_all add: same_env_def enable_event_writer_def disable_event_writer_def)

lemma same_env_conn [simp]: "same_env held (s\<lparr>conn := c\<rparr>, n) y = same_env held (s, n) y"
  by (simp add: same_env_def)

lemma same_env_net: "same_fds held n n' \<Longrightarrow> same_env held (s, n) (s, n')"
  by (simp add: same_env_def)

lemma Proxy_write_cb_env:
  "kernel_ok S held \<Longrightarrow> Proxy_write_cb S fd s n = (ok, s', n') \<Longrightarrow> same_env held (s, n) (s', n')"
  by (auto simp: Proxy_write_cb_def Let_def dest!: socket_write_same intro: same_env_net split: prod.splits if_splits)

lemma Backend_write_cb_env:
  "kernel_ok S held \<Longrightarrow> Backend_write_cb S fd s n = (ok, s', n') \<Longrightarrow> same_env held (s, n) (s', n')"
  by (auto simp: Backend_write_cb_def Let_def dest!: socket_write_same intro: same_env_net split: prod.splits if_splits)

lemma ServerResponse_env:
  "kernel_ok S held \<Longrightarrow> ProxyValidateServerResponse V S s n g = Some (ok, s', n', g') \<Longrightarrow> same_env held (s, n) (s', n')"
  by (auto simp: ProxyValidateServerResponse_def Let_def dest!: Proxy_write_cb_env split: bind_splits if_splits prod.splits)

lemma push_response_env:
  "kernel_ok S held \<Longrightarrow> push_response V S s n g = Some (ok, s', n', g') \<Longrightarrow> same_env held (s, n) (s', n')"
  by (auto simp: push_response_def dest: ServerResponse_env Proxy_write_cb_env split: if_splits prod.splits)

lemma ClientRequest_env:
  assumes k: "kernel_ok S held" and v: "ProxyValidateClientRequest V S s n g = Some (ok, s', n', g')"
  shows "same_env held (s, n) (s', n')"
proof -
  obtain ok1 request h c g1 where p: "parseRequest V (conn s) g = Some (ok1, request, h, c, g1)"
    using v by (auto simp: ProxyValidateClientRequest_def split: bind_splits)
  show ?thesis
  proof (cases ok1)
    case False
    then show ?thesis using v by (auto simp: ProxyValidateClientRequest_def p Let_def)
  next
    case True
    define r where "r = (if h then push_response V S (s\<lparr>conn := c\<rparr>) n g1 else Some (True, s\<lparr>conn := c\<rparr>, n, g1))"
    obtain ok2 s1 n1 g2 where r: "r = Some (ok2, s1, n1, g2)"
      using v True by (auto simp: ProxyValidateClientRequest_def p Let_def r_def [symmetric] split: bind_splits)
    have 1: "same_env held (s, n) (s1, n1)" using r push_response_env [OF k] by (fastforce simp: r_def split: if_splits)
    show ?thesis
      using v True 1 same_env_trans [OF 1]
      by (auto simp: ProxyValidateClientRequest_def p Let_def r_def [symmetric] r dest!: Backend_write_cb_env [OF k]
          split: if_splits prod.splits)
  qed
qed

text \<open>After a callback the session is open with its two sockets, or both are closed.\<close>

definition fds_after :: "('k \<Rightarrow> int set) \<Rightarrow> 'c session \<Rightarrow> 'k net \<Rightarrow> 'c session option \<times> 'k net \<Rightarrow> bool" where
  "fds_after held s n r \<longleftrightarrow> (case fst r of
       Some s' \<Rightarrow> same_env held (s, n) (s', snd r)
     | None \<Rightarrow> net_ok held (snd r) \<and> open_fds (snd r) = open_fds n - session_fds s)"

lemma CloseConnection_fds:
  assumes k: "kernel_ok S held" and n: "net_ok held n" and e: "same_env held (s, n) (s', n')"
  shows "fds_after held s n (None, CloseConnection S s' n')"
proof -
  have "net_ok held n'" "open_fds n' = open_fds n" "session_fds s' = session_fds s"
    using e same_fds_ok [OF _ n, of n'] by (auto simp: same_env_def same_fds_def session_fds_def)
  then show ?thesis using k
    by (auto simp: fds_after_def CloseConnection_def Connection_close_def socket_close_def net_ok_def session_fds_def kernel_ok_def Let_def)
qed

lemma Proxy_cb_fds:
  assumes k: "kernel_ok S held" and n: "net_ok held n" and c: "Proxy_cb V S fd w s n g = Some (r, n', g')"
  shows "fds_after held s n (r, n')"
proof -
  obtain ok1 s1 n1 where w: "(if EV_WRITE w then Proxy_write_cb S fd s n else (True, s, n)) = (ok1, s1, n1)" by (metis prod_cases3)
  have 1: "same_env held (s, n) (s1, n1)" using w Proxy_write_cb_env [OF k, of fd s n ok1 s1 n1] by (auto split: if_splits)
  obtain ok2 d len n2 where r: "socket_read S fd (min_buf_size - 1) n1 = (ok2, d, len, n2)" by (metis prod_cases4)
  have 2: "same_env held (s, n) (s1, n2)" using same_env_trans [OF 1 same_env_net [OF socket_read_same [OF k r]]] .
  note close = CloseConnection_fds [OF k n]
  show ?thesis
  proof (cases "ok1 \<and> EV_READ w \<and> ok2 \<and> len > 0")
    case False
    then show ?thesis using c close [OF 1] close [OF 2] 1 2
      by (simp add: Proxy_cb_def w r del: One_nat_def split: if_splits) (auto simp: fds_after_def)
  next
    case True
    define s2 where "s2 = s1\<lparr>conn := (conn s1)\<lparr>request_in := Buffer_append (request_in (conn s1)) d len\<rparr>,
                    from_client := from_client s1 @ take (nat len) d\<rparr>"
    obtain ok3 s3 n3 g3 where v: "ProxyValidateClientRequest V S s2 n2 g = Some (ok3, s3, n3, g3)"
      and res: "(r, n') = (if ok3 then (Some s3, n3) else (None, CloseConnection S s3 n3))"
      using c True by (auto simp: Proxy_cb_def w r Let_def s2_def [symmetric] simp del: One_nat_def split: bind_splits if_splits)
    have "same_env held (s1, n2) (s2, n2)" by (simp add: s2_def)
    then have "same_env held (s, n) (s3, n3)"
      using same_env_trans [OF same_env_trans [OF 2]] ClientRequest_env [OF k v] by blast
    then show ?thesis using res close by (auto simp: fds_after_def split: if_splits)
  qed
qed

lemma Backend_cb_fds:
  assumes k: "kernel_ok S held" and n: "net_ok held n" and c: "Backend_cb V S fd w s n g = Some (r, n', g')"
  shows "fds_after held s n (r, n')"
proof -
  obtain ok1 s1 n1 where w: "(if EV_WRITE w then Backend_write_cb S fd s n else (True, s, n)) = (ok1, s1, n1)" by (metis prod_cases3)
  have 1: "same_env held (s, n) (s1, n1)" using w Backend_write_cb_env [OF k, of fd s n ok1 s1 n1] by (auto split: if_splits)
  obtain ok2 d len n2 where r: "socket_read S fd (min_buf_size - 1) n1 = (ok2, d, len, n2)" by (metis prod_cases4)
  have 2: "same_env held (s, n) (s1, n2)" using same_env_trans [OF 1 same_env_net [OF socket_read_same [OF k r]]] .
  note close = CloseConnection_fds [OF k n]
  show ?thesis
  proof (cases "ok1 \<and> EV_READ w \<and> ok2 \<and> len > 0")
    case False
    then show ?thesis using c close [OF 1] close [OF 2] 1 2
      by (simp add: Backend_cb_def w r del: One_nat_def split: if_splits) (auto simp: fds_after_def)
  next
    case True
    define s2 where "s2 = s1\<lparr>conn := (conn s1)\<lparr>response_in := Buffer_append (response_in (conn s1)) d len\<rparr>,
                    from_backend := from_backend s1 @ take (nat len) d\<rparr>"
    obtain ok3 s3 n3 g3 where v: "ProxyValidateServerResponse V S s2 n2 g = Some (ok3, s3, n3, g3)"
      and res: "(r, n') = (if ok3 then (Some s3, n3) else (None, CloseConnection S s3 n3))"
      using c True by (auto simp: Backend_cb_def w r Let_def s2_def [symmetric] simp del: One_nat_def split: bind_splits if_splits)
    have "same_env held (s1, n2) (s2, n2)" by (simp add: s2_def)
    then have "same_env held (s, n) (s3, n3)"
      using same_env_trans [OF same_env_trans [OF 2]] ServerResponse_env [OF k v] by blast
    then show ?thesis using res close by (auto simp: fds_after_def split: if_splits)
  qed
qed

section \<open>The contract of a protocol\<close>

context protocol
begin

abbreviation vt :: "('z, 'g) vtable" where
  "vt \<equiv> vtable_of parse_req parse_resp"

lemma ServerResponse_same: "ProxyValidateServerResponse vt S s n g = Some (ok, s', n', g') \<Longrightarrow> same_request s s'"
  by (auto simp: ProxyValidateServerResponse_def Let_def same_request_def dest!: resp_request Proxy_write_cb_same
      split: bind_splits if_splits prod.splits)

lemma push_response_same: "push_response vt S s n g = Some (ok, s', n', g') \<Longrightarrow> same_request s s'"
  by (auto simp: push_response_def dest: ServerResponse_same Proxy_write_cb_same split: if_splits prod.splits)

text \<open>What a request of the client turns into.\<close>

lemma ClientRequest_cases:
  assumes "ProxyValidateClientRequest vt S s n g = Some (ok, s', n', g')"
  obtains ok1 request h c g1 s1 s2 where "parse_req (conn s) g = Some (ok1, request, h, c, g1)"
    "same_request (s\<lparr>conn := c\<rparr>) s1"
    "s2 = s1\<lparr>conn := (conn s1)\<lparr>request_out := Buffer_append (request_out (conn s1)) request (int (length request))\<rparr>\<rparr>"
    "s' = s1 \<and> \<not> (ok \<and> request \<noteq> []) \<or>
     (\<exists>n1 n2. Backend_write_cb S (ev_fd (backend_event s2)) s2 n1 = (ok, s', n2))"
proof -
  obtain ok1 request h c g1 where p: "parse_req (conn s) g = Some (ok1, request, h, c, g1)"
    using assms by (auto simp: ProxyValidateClientRequest_def split: bind_splits)
  show ?thesis
  proof (cases ok1)
    case False
    then show ?thesis using assms that [OF p same_request_refl refl] 
      by (auto simp: ProxyValidateClientRequest_def p Let_def)
  next
    case True
    define r where "r = (if h then push_response vt S (s\<lparr>conn := c\<rparr>) n g1 else Some (True, s\<lparr>conn := c\<rparr>, n, g1))"
    obtain ok2 s1 n1 g2 where r: "r = Some (ok2, s1, n1, g2)"
      using assms True by (auto simp: ProxyValidateClientRequest_def p Let_def r_def [symmetric] split: bind_splits)
    have same: "same_request (s\<lparr>conn := c\<rparr>) s1" using r push_response_same by (auto simp: r_def split: if_splits)
    define s2 where "s2 = s1\<lparr>conn := (conn s1)\<lparr>request_out := Buffer_append (request_out (conn s1)) request (int (length request))\<rparr>\<rparr>"
    show ?thesis
      using assms True that [OF p same s2_def]
      by (auto simp: ProxyValidateClientRequest_def p Let_def r_def [symmetric] r s2_def [symmetric] split: if_splits prod.splits)
  qed
qed

lemma ClientRequest_stream:
  assumes "ProxyValidateClientRequest vt S s n g = Some (True, s', n', g')"
  shows "\<exists>ok request h c g1. parse_req (conn s) g = Some (ok, request, h, c, g1) \<and>
    request_stream s' = to_backend s @ buff (request_out (conn s)) @ request @ buff (request_in c) \<and>
    from_client s' = from_client s \<and> con_proxy_id (conn s') = con_proxy_id (conn s)"
proof (rule ClientRequest_cases [OF assms])
  fix ok1 request h c g1 s1 s2
  assume p: "parse_req (conn s) g = Some (ok1, request, h, c, g1)" and same: "same_request (s\<lparr>conn := c\<rparr>) s1"
    and s2: "s2 = s1\<lparr>conn := (conn s1)\<lparr>request_out := Buffer_append (request_out (conn s1)) request (int (length request))\<rparr>\<rparr>"
    and out: "s' = s1 \<and> \<not> (True \<and> request \<noteq> []) \<or>
     (\<exists>n1 n2. Backend_write_cb S (ev_fd (backend_event s2)) s2 n1 = (True, s', n2))"
  have o: "request_out c = request_out (conn s)" using req_out [OF p] by simp
  have i: "con_proxy_id (conn s1) = con_proxy_id (conn s)" "con_proxy_id (conn s2) = con_proxy_id (conn s)"
    using same req_out [OF p] by (simp_all add: same_request_def s2)
  have 1: "request_stream s1 = to_backend s @ buff (request_out (conn s)) @ buff (request_in c)" "from_client s1 = from_client s"
    using same_request_stream [OF same] o by (simp_all add: request_stream_def)
  have 2: "request_stream s2 = to_backend s @ buff (request_out (conn s)) @ request @ buff (request_in c)" "from_client s2 = from_client s"
    using same o by (simp_all add: s2 request_stream_def same_request_def Buffer_append_all)
  show ?thesis using p out 1 2 i Backend_write_cb_stream by fastforce
qed

lemma Proxy_cb_cases:
  assumes "Proxy_cb vt S fd w s n g = Some (Some s', n', g')"
  obtains (quiet) "request_stream s' = request_stream s" "from_client s' = from_client s" "request_armed s' = request_armed s"
      "con_proxy_id (conn s') = con_proxy_id (conn s)"
  | (data) d s1 n1 where "request_in (conn s1) = Buffer_append_str (request_in (conn s)) d" "request_out (conn s1) = request_out (conn s)"
      "to_backend s1 = to_backend s" "from_client s1 = from_client s @ d" "backend_event_writer s1 = backend_event_writer s"
      "con_proxy_id (conn s1) = con_proxy_id (conn s)"
      "ProxyValidateClientRequest vt S s1 n1 g = Some (True, s', n', g')"
proof -
  obtain ok1 s1 n1 where w: "(if EV_WRITE w then Proxy_write_cb S fd s n else (True, s, n)) = (ok1, s1, n1)" by (metis prod_cases3)
  have same: "same_request s s1" using w Proxy_write_cb_same [of S fd s n ok1 s1 n1] by (auto split: if_splits)
  obtain ok2 d len n2 where r: "socket_read S fd (min_buf_size - 1) n1 = (ok2, d, len, n2)" by (metis prod_cases4)
  show ?thesis
  proof (cases "ok1 \<and> EV_READ w \<and> ok2 \<and> len > 0")
    case False
    then show ?thesis using assms same same_request_stream [OF same] same_request_armed [OF same] quiet by (auto simp: same_request_def Proxy_cb_def w r simp del: One_nat_def split: if_splits)
  next
    case True
    define s2 where "s2 = s1\<lparr>conn := (conn s1)\<lparr>request_in := Buffer_append (request_in (conn s1)) d len\<rparr>,
                    from_client := from_client s1 @ take (nat len) d\<rparr>"
    have v: "ProxyValidateClientRequest vt S s2 n2 g = Some (True, s', n', g')"
      using assms True by (auto simp: Proxy_cb_def w r Let_def s2_def [symmetric] simp del: One_nat_def split: bind_splits if_splits)
    show ?thesis
      using data [OF _ _ _ _ _ _ v, of "take (nat len) d"] True same
      by (simp add: s2_def same_request_def Buffer_append_def Buffer_append_str_def)
  qed
qed

lemma Backend_cb_stream:
  assumes "Backend_cb vt S fd w s n g = Some (Some s', n', g')"
  shows "request_stream s' = request_stream s \<and> from_client s' = from_client s \<and> con_proxy_id (conn s') = con_proxy_id (conn s)"
proof -
  obtain ok1 s1 n1 where w: "(if EV_WRITE w then Backend_write_cb S fd s n else (True, s, n)) = (ok1, s1, n1)" by (metis prod_cases3)
  have 1: "request_stream s1 = request_stream s" "from_client s1 = from_client s" "con_proxy_id (conn s1) = con_proxy_id (conn s)"
    using w Backend_write_cb_stream [of S fd s n ok1 s1 n1] by (auto split: if_splits)
  obtain ok2 d len n2 where r: "socket_read S fd (min_buf_size - 1) n1 = (ok2, d, len, n2)" by (metis prod_cases4)
  show ?thesis
    using assms 1
    by (auto simp: Backend_cb_def w r Let_def request_stream_def same_request_def dest!: ServerResponse_same
        simp del: One_nat_def split: bind_splits if_splits)
qed

lemma client_step_armed:
  assumes "Proxy_cb vt S fd w s n g = Some (Some s', n', g')" "request_armed s"
  shows "request_armed s'"
  using assms(1)
proof (cases rule: Proxy_cb_cases)
  case (data d s1 n1)
  have a1: "fd_set (backend_event_writer s1)" "request_armed s1" using data(2,5) assms(2) by (simp_all add: request_armed_def)
  from data(7) show ?thesis
  proof (rule ClientRequest_cases)
    fix ok1 request h c g1 s2 s3
    assume p: "parse_req (conn s1) g = Some (ok1, request, h, c, g1)" and same: "same_request (s1\<lparr>conn := c\<rparr>) s2"
      and s3: "s3 = s2\<lparr>conn := (conn s2)\<lparr>request_out := Buffer_append (request_out (conn s2)) request (int (length request))\<rparr>\<rparr>"
      and out: "s' = s2 \<and> \<not> (True \<and> request \<noteq> []) \<or>
        (\<exists>n1 n2. Backend_write_cb S (ev_fd (backend_event s3)) s3 n1 = (True, s', n2))"
    have "request_armed (s1\<lparr>conn := c\<rparr>)" using a1 req_out [OF p] by (simp add: request_armed_def)
    then have "request_armed s2" using same_request_armed [OF same] by simp
    moreover from this have "fd_set (backend_event_writer s3)" by (simp add: s3 request_armed_def)
    ultimately show ?thesis using out Backend_write_cb_armed by blast
  qed
qed (use assms(2) in simp)

lemma server_step_armed:
  assumes "Backend_cb vt S fd w s n g = Some (Some s', n', g')" "request_armed s"
  shows "request_armed s'"
proof -
  obtain ok1 s1 n1 where w: "(if EV_WRITE w then Backend_write_cb S fd s n else (True, s, n)) = (ok1, s1, n1)" by (metis prod_cases3)
  have 1: "ok1 \<Longrightarrow> request_armed s1"
    using w assms(2) Backend_write_cb_armed [of S fd s n s1 n1] by (auto simp: request_armed_def split: if_splits)
  obtain ok2 d len n2 where r: "socket_read S fd (min_buf_size - 1) n1 = (ok2, d, len, n2)" by (metis prod_cases4)
  show ?thesis
    using assms(1) 1
    by (auto simp: Backend_cb_def w r Let_def request_armed_def dest!: ServerResponse_same same_request_armed
        simp del: One_nat_def split: bind_splits if_splits)
qed

lemma client_step_id:
  assumes "Proxy_cb vt S fd w s n g = Some (Some s', n', g')"
  shows "con_proxy_id (conn s') = con_proxy_id (conn s)"
  using assms
proof (cases rule: Proxy_cb_cases)
  case (data d s1 n1)
  then show ?thesis using ClientRequest_stream [OF data(7)] by auto
qed simp

text \<open>The bytes of the client reach the server in order: nothing is invented or duplicated.\<close>

lemma client_step:
  assumes "Proxy_cb vt S fd w s n g = Some (Some s', n', g')" "subseq (request_stream s) (from_client s)"
  shows "subseq (request_stream s') (from_client s')"
  using assms(1)
proof (cases rule: Proxy_cb_cases)
  case (data d s1 n1)
  obtain ok request h c g1 where p: "parse_req (conn s1) g = Some (ok, request, h, c, g1)"
    and st: "request_stream s' = to_backend s1 @ buff (request_out (conn s1)) @ request @ buff (request_in c)"
    and f: "from_client s' = from_client s1"
    using ClientRequest_stream [OF data(7)] by blast
  have "subseq (request @ buff (request_in c)) (buff (request_in (conn s)) @ d)"
    using req_subseq [OF p] data(1) by simp
  then have "subseq (request_stream s') (request_stream s @ d)"
    unfolding st by (simp add: data(2,3) request_stream_def list_emb_append_mono)
  moreover have "subseq (request_stream s @ d) (from_client s')"
    unfolding f data by (rule list_emb_append_mono [OF assms(2)]) simp
  ultimately show ?thesis by (rule subseq_order.trans)
qed (use assms(2) in simp)

end

context lossless_protocol
begin

lemma client_step_exact:
  assumes "Proxy_cb vt S fd w s n g = Some (Some s', n', g')" "request_stream s = from_client s"
  shows "request_stream s' = from_client s'"
  using assms(1)
proof (cases rule: Proxy_cb_cases)
  case (data d s1 n1)
  obtain ok request h c g1 where p: "parse_req (conn s1) g = Some (ok, request, h, c, g1)"
    and st: "request_stream s' = to_backend s1 @ buff (request_out (conn s1)) @ request @ buff (request_in c)"
    and f: "from_client s' = from_client s1"
    using ClientRequest_stream [OF data(7)] by blast
  have "request @ buff (request_in c) = buff (request_in (conn s)) @ d" using req_exact [OF p] data(1) by simp
  then show ?thesis using assms(2) unfolding st f data(2,3,4) by (simp add: request_stream_def flip: append_assoc)
qed (use assms(2) in simp)

end

section \<open>Descriptors of a proxy\<close>

text \<open>A new connection takes two descriptors; a failed one, at any point, takes none.\<close>

lemma PrepareNewConn_fds:
  assumes k: "kernel_ok S held" and n: "net_ok held n" and p: "PrepareNewConn S p fd n = (ok, sfd, cfd, n')"
  shows "net_ok held n' \<and>
    (if ok then 0 < sfd \<and> 0 < cfd \<and> sfd \<noteq> cfd \<and> sfd \<notin> open_fds n \<and> cfd \<notin> open_fds n \<and>
        open_fds n' = {sfd, cfd} \<union> open_fds n
     else open_fds n' = open_fds n)"
proof -
  obtain f n1 where a: "socket_accept S fd n = (f, n1)" by force
  have 1: "opens held n (f, n1)" using socket_accept_opens [OF k n, of fd] by (simp add: a)
  then have n1: "net_ok held n1" by (simp add: opens_def)
  obtain f2 n2 where c: "client_socket S (if sBackendIP p = [] then sBackendName p else sBackendIP p) (iBackendPort p) n1 = (f2, n2)"
    by force
  have 2: "opens held n1 (f2, n2)" using client_socket_opens [OF k n1] by (metis c)
  show ?thesis
  proof (cases "f = -1 \<or> f2 = -1")
    case True
    have "opens held n (-1, socket_close S f n2)" if "f \<noteq> -1" "f2 = -1"
      using opens_close [OF k n, of f n2] 1 2 that by (simp add: opens_def)
    then show ?thesis using p True 1 by (auto simp: PrepareNewConn_def a c opens_def split: if_splits)
  next
    case False
    then show ?thesis using p 1 2 by (auto simp: PrepareNewConn_def a c opens_def)
  qed
qed

lemma CloseServer_fds:
  assumes k: "kernel_ok S held" and n: "net_ok held n" and c: "CloseServer S p n = (p', n')"
  shows "net_ok held n' \<and> \<not> fd_set (serverEvent p') \<and> v_conn p' = v_conn p \<and> iProxyId p' = iProxyId p \<and>
    open_fds n' = open_fds n - (if fd_set (serverEvent p) then {ev_fd (serverEvent p)} else {})"
proof (cases "fd_set (serverEvent p)")
  case True
  then have e: "p' = p\<lparr>serverEvent := (event_del (serverEvent p))\<lparr>ev_fd := 0\<rparr>\<rparr>" "n' = socket_close S (ev_fd (serverEvent p)) n"
    using c unfolding CloseServer_def ServerInitialized_def by (simp_all only: if_True prod.inject)
  then show ?thesis using True socket_close_ok [OF k n] by (simp add: fd_set_def socket_close_fds)
next
  case False
  then show ?thesis using c n by (simp add: CloseServer_def ServerInitialized_def)
qed

lemma ProxyInit_fds:
  assumes k: "kernel_ok S held" and n: "net_ok held n" and p: "ProxyInit S i ip port bn bip bport t p n = (ok, p', n')"
  shows "net_ok held n' \<and> v_conn p' = v_conn p \<and> iProxyId p' = i \<and>
    (if ok then 0 < ev_fd (serverEvent p') \<and> ev_fd (serverEvent p') \<notin> open_fds n \<and>
       open_fds n' = insert (ev_fd (serverEvent p')) (open_fds n)
     else serverEvent p' = serverEvent p \<and> open_fds n' = open_fds n)"
proof -
  obtain sfd n1 where a: "server_socket S ip port n = (sfd, n1)" by force
  have o: "opens held n (sfd, n1)" using server_socket_opens [OF k n, of ip port] by (simp add: a)
  define q where "q = p\<lparr>iProxyId := i, sProxyIP := ip, iProxyPort := port, sBackendName := bn,
                sBackendIP := bip, iBackendPort := bport, sDBType := t,
                DBType := (if strcaseeq t ''mysql'' then DBTypeMySQL
                           else if strcaseeq t ''pgsql'' then DBTypePGSQL else DBTypeMySQL)\<rparr>"
  have q: "v_conn q = v_conn p" "iProxyId q = i" "serverEvent q = serverEvent p" by (simp_all add: q_def)
  have r: "(ok, p', n') = (if sfd = -1 then (False, q, n1) else (True, q\<lparr>serverEvent := event_add (event_set sfd)\<rparr>, n1))"
    using p unfolding ProxyInit_def Let_def q_def [symmetric] a by simp
  show ?thesis using r o q by (cases "sfd = -1") (simp_all add: opens_def event_add_def event_set_def)
qed

end
