(* ===== verification/ProxyMap.thy ===== *)
theory ProxyMap
  imports Proxy MySQLCon PgSQLCon
begin

text \<open>
  The proxies of the process (proxymap.cpp): the map from proxy ids to \<open>Proxy\<close> objects, the libevent
  callbacks and the reload of the proxy table.  \<open>app\<close> is the state of the running process: the globals
  of the query check, the kernel, the map, and the connection objects by address.  \<open>host\<close> holds what is
  fixed after the start.

  An entry of \<open>proxies\<close> is \<open>None\<close> when \<open>operator[]\<close> inserted a null pointer; \<open>std::map\<close> is
  ordered by key.  The result \<open>None\<close> of an operation is undefined behaviour, here a null or deleted
  object or the use of an erased iterator.
\<close>

section \<open>State\<close>

datatype any_session = MySQL_session "MySQLConnection session" | PgSQL_session "PgSQLConnection session"

record ('w, 're, 'k) host =
  h_ctx :: "('w, 're) ctx"
  h_mysql_patterns :: "'re SQLPatterns"
  h_pgsql_patterns :: "'re SQLPatterns"
  h_sys :: "'k sys"

type_synonym proxymap = "(int \<times> Proxy option) list"

record ('w, 'k) app =
  app_glob :: "'w glob"
  app_net :: "'k net"
  proxies :: proxymap
  sessions :: "addr \<Rightarrow> any_session option"
  next_session :: addr
  app_running :: bool
  counter :: int
  timer_added :: bool

definition h_env :: "('w, 're, 'k) host \<Rightarrow> 'w env" where
  "h_env H = cx_env (h_ctx H)"

definition mysql_vtable :: "('w, 're, 'k) host \<Rightarrow> (_, 'w glob) vtable" where
  "mysql_vtable H = vtable_of (my_parseRequest (h_ctx H) (h_mysql_patterns H)) my_parseResponse"

definition pgsql_vtable :: "('w, 're, 'k) host \<Rightarrow> (_, 'w glob) vtable" where
  "pgsql_vtable H = vtable_of (pg_parseRequest (h_ctx H) (h_pgsql_patterns H)) pg_parseResponse"

text \<open>\<open>std::map\<close>: an assignment keeps the order of the keys, \<open>operator[]\<close> inserts a null pointer.\<close>

fun map_put :: "int \<Rightarrow> Proxy option \<Rightarrow> proxymap \<Rightarrow> proxymap" where
  "map_put k v [] = [(k, v)]"
| "map_put k v ((k', v') # ps) =
     (if k < k' then (k, v) # (k', v') # ps else if k = k' then (k, v) # ps else (k', v') # map_put k v ps)"

definition map_at :: "int \<Rightarrow> proxymap \<Rightarrow> Proxy option \<times> proxymap" where
  "map_at k ps = (case map_of ps k of Some c \<Rightarrow> (c, ps) | None \<Rightarrow> (None, map_put k None ps))"

section \<open>Closing\<close>

definition proxymap_set_db_status :: "'w env \<Rightarrow> int \<Rightarrow> int \<Rightarrow> 'w glob \<Rightarrow> bool \<times> 'w glob" where
  "proxymap_set_db_status E proxy_id code g =
     (let query = snprintf 1024 (''UPDATE proxy set status='' @ dec code @ '' where proxyid='' @ dec proxy_id);
          (r, g) = on_lib (db_exec E query) g
      in (r \<noteq> 0, g))"

definition session_close :: "'k sys \<Rightarrow> any_session \<Rightarrow> 'k net \<Rightarrow> 'k net" where
  "session_close S s n = (case s of MySQL_session s \<Rightarrow> CloseConnection S s n | PgSQL_session s \<Rightarrow> CloseConnection S s n)"

text \<open>The loop of \<open>Proxy::Close\<close>: \<open>close\<close> takes the connection from the front of \<open>v_conn\<close>.\<close>

fun close_sessions :: "'k sys \<Rightarrow> addr list \<Rightarrow> ('w, 'k) app \<Rightarrow> ('w, 'k) app option" where
  "close_sessions S [] st = Some st"
| "close_sessions S (a # as) st =
     (case sessions st a of
        None \<Rightarrow> None
      | Some s \<Rightarrow> close_sessions S as (st\<lparr>app_net := session_close S s (app_net st), sessions := (sessions st)(a := None)\<rparr>))"

text \<open>\<open>Proxy::Close\<close>, with the proxy it leaves.\<close>

definition Proxy_Close :: "('w, 're, 'k) host \<Rightarrow> Proxy \<Rightarrow> ('w, 'k) app \<Rightarrow> (Proxy \<times> ('w, 'k) app) option" where
  "Proxy_Close H p st = do {
     let (ok, g) = proxymap_set_db_status (h_env H) (iProxyId p) 0 (app_glob st);
     st \<leftarrow> close_sessions (h_sys H) (v_conn p) (st\<lparr>app_glob := g\<rparr>);
     let (p, n) = CloseServer (h_sys H) (p\<lparr>v_conn := []\<rparr>) (app_net st);
     Some (p, st\<lparr>app_net := n\<rparr>)
   }"

text \<open>\<open>cls = proxies[id]; if (cls) cls->Close();\<close>\<close>

definition close_proxy_at :: "('w, 're, 'k) host \<Rightarrow> int \<Rightarrow> ('w, 'k) app \<Rightarrow> ('w, 'k) app option" where
  "close_proxy_at H k st =
     (let (cls, ps) = map_at k (proxies st); st = st\<lparr>proxies := ps\<rparr> in
      case cls of
        None \<Rightarrow> Some st
      | Some p \<Rightarrow> do { (p, st) \<leftarrow> Proxy_Close H p st; Some (st\<lparr>proxies := map_put k (Some p) (proxies st)\<rparr>) })"

function proxymap_close :: "('w, 're, 'k) host \<Rightarrow> ('w, 'k) app \<Rightarrow> ('w, 'k) app option" where
  "proxymap_close H st =
     (case proxies st of
        [] \<Rightarrow> Some st
      | (k, None) # ps \<Rightarrow> None
      | (k, Some p) # ps \<Rightarrow>
          (case Proxy_Close H p st of
             None \<Rightarrow> None
           | Some (p, st') \<Rightarrow> proxymap_close H (st'\<lparr>proxies := ps\<rparr>)))"
  by pat_completeness auto
termination
  by (relation "measure (\<lambda>(H, st). length (proxies st))") auto

declare proxymap_close.simps [simp del]

section \<open>Callbacks\<close>

definition wrap_Server :: "('w, 're, 'k) host \<Rightarrow> int \<Rightarrow> int \<Rightarrow> ('w, 'k) app \<Rightarrow> ('w, 'k) app option" where
  "wrap_Server H fd proxy_id st =
     (let (cls, ps) = map_at proxy_id (proxies st); st = st\<lparr>proxies := ps\<rparr> in
      case cls of
        None \<Rightarrow> Some st
      | Some p \<Rightarrow>
          if \<not> app_running st then close_proxy_at H proxy_id st
          else let (ok, sfd, cfd, n) = PrepareNewConn (h_sys H) p fd (app_net st); st = st\<lparr>app_net := n\<rparr> in
            if \<not> ok then Some st
            else let a = next_session st; m = dbsmap (app_glob st);
                     (s, p) = (case DBType p of
                         DBTypeMySQL \<Rightarrow> (let (s, p) = Server_cb (h_sys H) a (new_MySQLConnection m proxy_id) sfd cfd p n
                                        in (MySQL_session s, p))
                       | DBTypePGSQL \<Rightarrow> (let (s, p) = Server_cb (h_sys H) a (new_PgSQLConnection m proxy_id) sfd cfd p n
                                        in (PgSQL_session s, p)))
                 in Some (st\<lparr>proxies := map_put proxy_id (Some p) (proxies st), sessions := (sessions st)(a \<mapsto> s),
                             next_session := Suc a\<rparr>))"

text \<open>Put back what a callback left of a connection; a deleted one also left its list.\<close>

definition put_session :: "addr \<Rightarrow> int \<Rightarrow> any_session option \<Rightarrow> 'k net \<Rightarrow> 'w glob \<Rightarrow> ('w, 'k) app \<Rightarrow> ('w, 'k) app option" where
  "put_session a k s n g st =
     (let st = st\<lparr>app_net := n, app_glob := g, sessions := (sessions st)(a := s)\<rparr> in
      case s of
        Some _ \<Rightarrow> Some st
      | None \<Rightarrow> (case map_of (proxies st) k of
            Some (Some p) \<Rightarrow> Some (st\<lparr>proxies := map_put k (Some (p\<lparr>v_conn := remove1 a (v_conn p)\<rparr>)) (proxies st)\<rparr>)
          | _ \<Rightarrow> None))"

definition wrap_Proxy :: "('w, 're, 'k) host \<Rightarrow> int \<Rightarrow> which \<Rightarrow> addr \<Rightarrow> ('w, 'k) app \<Rightarrow> ('w, 'k) app option" where
  "wrap_Proxy H fd w a st =
     (case sessions st a of
        None \<Rightarrow> None
      | Some (MySQL_session s) \<Rightarrow>
          (if \<not> app_running st then close_proxy_at H (con_proxy_id (conn s)) st
           else do {
             (r, n, g) \<leftarrow> Proxy_cb (mysql_vtable H) (h_sys H) fd w s (app_net st) (app_glob st);
             put_session a (connections s) (map_option MySQL_session r) n g st
           })
      | Some (PgSQL_session s) \<Rightarrow>
          (if \<not> app_running st then close_proxy_at H (con_proxy_id (conn s)) st
           else do {
             (r, n, g) \<leftarrow> Proxy_cb (pgsql_vtable H) (h_sys H) fd w s (app_net st) (app_glob st);
             put_session a (connections s) (map_option PgSQL_session r) n g st
           }))"

definition wrap_Backend :: "('w, 're, 'k) host \<Rightarrow> int \<Rightarrow> which \<Rightarrow> addr \<Rightarrow> ('w, 'k) app \<Rightarrow> ('w, 'k) app option" where
  "wrap_Backend H fd w a st =
     (case sessions st a of
        None \<Rightarrow> None
      | Some (MySQL_session s) \<Rightarrow>
          (if \<not> app_running st then close_proxy_at H (con_proxy_id (conn s)) st
           else do {
             (r, n, g) \<leftarrow> Backend_cb (mysql_vtable H) (h_sys H) fd w s (app_net st) (app_glob st);
             put_session a (connections s) (map_option MySQL_session r) n g st
           })
      | Some (PgSQL_session s) \<Rightarrow>
          (if \<not> app_running st then close_proxy_at H (con_proxy_id (conn s)) st
           else do {
             (r, n, g) \<leftarrow> Backend_cb (pgsql_vtable H) (h_sys H) fd w s (app_net st) (app_glob st);
             put_session a (connections s) (map_option PgSQL_session r) n g st
           }))"

section \<open>Reload\<close>

definition q_proxy :: string where
  "q_proxy = ''SELECT proxyid, frontend_ip, frontend_port, backend_server, '' @
     ''backend_ip, backend_port, dbtype FROM proxy WHERE status != 3''"

definition set_status :: "('w, 're, 'k) host \<Rightarrow> int \<Rightarrow> int \<Rightarrow> ('w, 'k) app \<Rightarrow> ('w, 'k) app" where
  "set_status H k code st = st\<lparr>app_glob := snd (proxymap_set_db_status (h_env H) k code (app_glob st))\<rparr>"

text \<open>A row of the table: the address to listen on is always the default.\<close>

definition reload_row :: "('w, 're, 'k) host \<Rightarrow> row \<Rightarrow> ('w, 'k) app \<times> proxymap \<Rightarrow> (('w, 'k) app \<times> proxymap) option" where
  "reload_row H r sn =
     (let (st, new_proxies) = sn; E = h_env H; S = h_sys H;
          proxy_id = db_col_int E r 0; proxyIP = ''0.0.0.0''; proxyPort = db_col_int E r 2;
          backendName = cstr (db_col_text E r 3); backendIP = cstr (db_col_text E r 4);
          backendPort = db_col_int E r 5; dbType = cstr (db_col_text E r 6) in
      case map_of (proxies st) proxy_id of
        None \<Rightarrow>
          (let (ret, cls, n) = ProxyInit S proxy_id proxyIP proxyPort backendName backendIP backendPort dbType new_Proxy (app_net st);
               st = st\<lparr>app_net := n\<rparr> in
           if \<not> ret then do {
             (cls, st) \<leftarrow> Proxy_Close H cls (set_status H proxy_id 2 st);
             Some (st, new_proxies)
           }
           else Some ((set_status H proxy_id 1 st)\<lparr>proxies := map_put proxy_id (Some cls) (proxies st)\<rparr>,
                      map_put proxy_id (Some cls) new_proxies))
      | Some None \<Rightarrow> None
      | Some (Some cls) \<Rightarrow>
          (let new_proxies = map_put proxy_id (Some cls) new_proxies in
           if sProxyIP cls \<noteq> proxyIP \<or> iProxyPort cls \<noteq> proxyPort \<or> sDBType cls \<noteq> dbType then
             (let (ret, cls, n) = ProxyReInit S proxy_id proxyIP proxyPort backendName backendIP backendPort dbType cls (app_net st)
              in Some (set_status H proxy_id (if ret then 1 else 2)
                         (st\<lparr>app_net := n, proxies := map_put proxy_id (Some cls) (proxies st)\<rparr>), new_proxies))
           else
             (let cls = cls\<lparr>sBackendName := backendName, sBackendIP := backendIP, iBackendPort := backendPort\<rparr>
              in Some (set_status H proxy_id 1 (st\<lparr>proxies := map_put proxy_id (Some cls) (proxies st)\<rparr>), new_proxies))))"

fun reload_rows :: "('w, 're, 'k) host \<Rightarrow> row list \<Rightarrow> ('w, 'k) app \<times> proxymap \<Rightarrow> (('w, 'k) app \<times> proxymap) option" where
  "reload_rows H [] sn = Some sn"
| "reload_rows H (r # rs) sn = do { sn \<leftarrow> reload_row H r sn; reload_rows H rs sn }"

text \<open>The loop that removes proxies.  \<open>new_proxies[itr->first]\<close> inserts a null pointer, and after
  \<open>proxies.erase(itr)\<close> the loop increments the erased iterator.\<close>

fun remove_loop :: "('w, 're, 'k) host \<Rightarrow> proxymap \<Rightarrow> proxymap \<Rightarrow> ('w, 'k) app \<Rightarrow> ('w, 'k) app option" where
  "remove_loop H [] new_proxies st = Some st"
| "remove_loop H ((k, c) # itr) new_proxies st =
     (if length new_proxies = length (proxies st) then Some st
      else let (v, new_proxies) = map_at k new_proxies in
        if v \<noteq> None then remove_loop H itr new_proxies st
        else case c of
          None \<Rightarrow> None
        | Some cls \<Rightarrow>
            if HasActiveConnections cls then
              (let (cls, n) = CloseServer (h_sys H) cls (app_net st)
               in remove_loop H itr new_proxies (st\<lparr>app_net := n, proxies := map_put k (Some cls) (proxies st)\<rparr>))
            else None)"

definition proxymap_reload :: "('w, 're, 'k) host \<Rightarrow> ('w, 'k) app \<Rightarrow> (bool \<times> ('w, 'k) app) option" where
  "proxymap_reload H st =
     (let E = h_env H; (res, g) = on_lib (db_query E q_proxy 256) (app_glob st); st = st\<lparr>app_glob := g\<rparr> in
      case res of
        None \<Rightarrow> Some (False, st\<lparr>app_glob := snd (on_lib (\<lambda>l. ((), db_cleanup E l)) g)\<rparr>)
      | Some rows \<Rightarrow> do {
          (st, new_proxies) \<leftarrow> reload_rows H (fetch_rows E rows) (st, []);
          let st = st\<lparr>app_glob := snd (on_lib (\<lambda>l. ((), db_cleanup E l)) (app_glob st))\<rparr>;
          if length new_proxies = length (proxies st) then Some (True, st)
          else do { st \<leftarrow> remove_loop H (proxies st) new_proxies st; Some (True, st) }
        })"

definition proxymap_init :: "('w, 're, 'k) host \<Rightarrow> ('w, 'k) app \<Rightarrow> (bool \<times> ('w, 'k) app) option" where
  "proxymap_init H st = do { (ok, st) \<leftarrow> proxymap_reload H st; Some (proxies st \<noteq> [], st) }"

end
