(* ===== verification/Fabric.thy ===== *)
theory Fabric
  imports ProxyMap
begin

text \<open>
  The invariant of the running process: every descriptor has one user, every connection object is on
  the list of exactly one proxy, and every session keeps what the contract of its protocol promises.
  \<open>fabric\<close> states it over the kernel, the map of the proxies and the sessions; each operation of
  \<open>ProxyMap\<close> is shown to keep it.
\<close>

section \<open>What holds at every event\<close>

lemma map_of_map_put [simp]: "map_of (map_put k v ps) = (map_of ps)(k \<mapsto> v)"
  by (induction k v ps rule: map_put.induct) auto

lemma keys_map_put [simp]: "set (map fst (map_put k v ps)) = insert k (set (map fst ps))"
  by (induction k v ps rule: map_put.induct) auto

lemma sorted_map_put: "sorted_wrt (<) (map fst ps) \<Longrightarrow> sorted_wrt (<) (map fst (map_put k v ps))"
proof (induction k v ps rule: map_put.induct)
  case (2 k v k' v' ps)
  then show ?case using keys_map_put [of k v ps] by (auto simp del: keys_map_put)
qed simp

subsection \<open>Sessions and descriptors\<close>

text \<open>The view of a session that does not depend on its protocol.\<close>

definition front_fd :: "any_session \<Rightarrow> int" where
  "front_fd x = (case x of MySQL_session s \<Rightarrow> ev_fd (proxy_event s) | PgSQL_session s \<Rightarrow> ev_fd (proxy_event s))"

definition back_fd :: "any_session \<Rightarrow> int" where
  "back_fd x = (case x of MySQL_session s \<Rightarrow> ev_fd (backend_event s) | PgSQL_session s \<Rightarrow> ev_fd (backend_event s))"

definition owner :: "any_session \<Rightarrow> int" where
  "owner x = (case x of MySQL_session s \<Rightarrow> connections s | PgSQL_session s \<Rightarrow> connections s)"

text \<open>What the user of the firewall relies on: a MySQL session has forwarded or holds exactly what its client
  sent, a PostgreSQL session no more than that, and requests that wait are waited for.\<close>

definition session_good :: "any_session \<Rightarrow> bool" where
  "session_good x \<longleftrightarrow> (case x of
       MySQL_session s \<Rightarrow> request_stream s = from_client s \<and> request_armed s \<and> con_proxy_id (conn s) = connections s
     | PgSQL_session s \<Rightarrow> subseq (request_stream s) (from_client s) \<and> request_armed s \<and> con_proxy_id (conn s) = connections s)"

lemmas any_session_views = front_fd_def back_fd_def owner_def session_good_def

text \<open>Who uses a descriptor: a listening proxy, or a session towards its client or its server.\<close>

datatype user = Listen int | Front addr | Back addr

fun fd_of :: "(int \<Rightarrow> Proxy option option) \<Rightarrow> (addr \<Rightarrow> any_session option) \<Rightarrow> user \<Rightarrow> int option" where
  "fd_of m ss (Listen k) = (case m k of
       Some (Some p) \<Rightarrow> (if fd_set (serverEvent p) then Some (ev_fd (serverEvent p)) else None) | _ \<Rightarrow> None)"
| "fd_of m ss (Front a) = map_option front_fd (ss a)"
| "fd_of m ss (Back a) = map_option back_fd (ss a)"

text \<open>Every descriptor of the process has exactly one user.\<close>

definition exact :: "(user \<Rightarrow> int option) \<Rightarrow> int set \<Rightarrow> bool" where
  "exact f F \<longleftrightarrow> inj_on f (dom f) \<and> ran f = F"

lemma exact_add: "exact f F \<Longrightarrow> f u = None \<Longrightarrow> fd \<notin> F \<Longrightarrow> exact (f(u \<mapsto> fd)) (insert fd F)"
  unfolding exact_def inj_on_def by (auto simp: ran_map_upd) (auto simp: ran_def)

lemma exact_remove: "exact f F \<Longrightarrow> exact (f(u := None)) (F - set_option (f u))"
proof (cases "f u")
  case (Some fd)
  assume e: "exact f F"
  then have i: "v = w" if "f v = Some x" "f w = Some x" for v w x
    using that unfolding exact_def inj_on_def by (metis domI)
  have "ran (f(u := None)) = F - {fd}"
  proof (intro set_eqI iffI)
    fix x assume "x \<in> ran (f(u := None))"
    then obtain v where "v \<noteq> u" "f v = Some x" by (auto simp: ran_def split: if_splits)
    then show "x \<in> F - {fd}" using i [of v fd u] Some e by (auto simp: exact_def ran_def)
  next
    fix x assume "x \<in> F - {fd}"
    then obtain v where "f v = Some x" "x \<noteq> fd" using e by (auto simp: exact_def ran_def)
    then show "x \<in> ran (f(u := None))" using Some by (auto simp: ran_def intro!: exI [of _ v])
  qed
  then show ?thesis using e Some by (auto simp: exact_def inj_on_def)
qed (simp add: fun_upd_idem)

lemma exact_memb: "exact f F \<Longrightarrow> f u = Some fd \<Longrightarrow> fd \<in> F"
  by (auto simp: exact_def ran_def)

subsection \<open>The invariant\<close>

definition fabric :: "('k \<Rightarrow> int set) \<Rightarrow> 'k net \<Rightarrow> (int \<Rightarrow> Proxy option option) \<Rightarrow> (addr \<Rightarrow> any_session option) \<Rightarrow> addr \<Rightarrow> bool" where
  "fabric held n m ss nx \<longleftrightarrow> net_ok held n \<and> exact (fd_of m ss) (open_fds n) \<and>
     (\<forall>k c. m k = Some c \<longrightarrow> (\<exists>p. c = Some p \<and> iProxyId p = k \<and> distinct (v_conn p) \<and>
        set (v_conn p) = {a. \<exists>s. ss a = Some s \<and> owner s = k})) \<and>
     (\<forall>a s. ss a = Some s \<longrightarrow> a < nx \<and> owner s \<in> dom m \<and> session_good s)"

lemma fabric_proxy:
  "fabric held n m ss nx \<Longrightarrow> m k = Some c \<Longrightarrow> \<exists>p. c = Some p \<and> iProxyId p = k \<and> distinct (v_conn p) \<and>
      set (v_conn p) = {a. \<exists>s. ss a = Some s \<and> owner s = k}"
  by (auto simp: fabric_def)

lemma fabric_session: "fabric held n m ss nx \<Longrightarrow> ss a = Some s \<Longrightarrow> a < nx \<and> owner s \<in> dom m \<and> session_good s"
  by (simp add: fabric_def)

lemma fabric_session_proxy:
  assumes "fabric held n m ss nx" "ss a = Some s"
  obtains p where "m (owner s) = Some (Some p)" "a \<in> set (v_conn p)"
  using fabric_session [OF assms] fabric_proxy [OF assms(1)] assms(2) that by blast

text \<open>A callback that leaves the session open.\<close>

lemma fabric_update:
  assumes f: "fabric held n m ss nx" and s: "ss a = Some s" and n': "same_fds held n n'"
    and s': "front_fd s' = front_fd s" "back_fd s' = back_fd s" "owner s' = owner s" "session_good s'"
  shows "fabric held n' m (ss(a \<mapsto> s')) nx"
proof -
  have fd: "fd_of m (ss(a \<mapsto> s')) = fd_of m ss"
  proof
    show "fd_of m (ss(a \<mapsto> s')) u = fd_of m ss u" for u using s s' by (cases u) auto
  qed
  have own: "{b. \<exists>t. (ss(a \<mapsto> s')) b = Some t \<and> owner t = k} = {b. \<exists>t. ss b = Some t \<and> owner t = k}" for k
    using s s'(3) by auto
  have "open_fds n' = open_fds n" using n' by (simp add: same_fds_def)
  then show ?thesis
    using f same_fds_ok [OF n'] s'(3,4) fabric_session [OF f s] unfolding fabric_def fd own by auto
qed

text \<open>A callback that deleted its session.\<close>

lemma fd_of_remove: "fd_of m (ss(a := None)) = (fd_of m ss)(Front a := None, Back a := None)"
proof
  show "fd_of m (ss(a := None)) u = ((fd_of m ss)(Front a := None, Back a := None)) u" for u by (cases u) auto
qed

lemma fd_of_same_listen: "m k = Some (Some p) \<Longrightarrow> serverEvent p' = serverEvent p \<Longrightarrow> fd_of (m(k \<mapsto> Some p')) ss = fd_of m ss"
proof
  assume "m k = Some (Some p)" "serverEvent p' = serverEvent p"
  then show "fd_of (m(k \<mapsto> Some p')) ss u = fd_of m ss u" for u by (cases u) auto
qed

lemma fabric_remove:
  assumes f: "fabric held n m ss nx" and s: "ss a = Some s" and p: "m (owner s) = Some (Some p)"
    and n': "net_ok held n'" "open_fds n' = open_fds n - {front_fd s, back_fd s}"
  shows "fabric held n' (m(owner s \<mapsto> Some (p\<lparr>v_conn := remove1 a (v_conn p)\<rparr>))) (ss(a := None)) nx"
proof -
  let ?m = "m(owner s \<mapsto> Some (p\<lparr>v_conn := remove1 a (v_conn p)\<rparr>))"
  have e: "exact (fd_of m ss) (open_fds n)" using f by (simp add: fabric_def)
  have "fd_of ?m (ss(a := None)) = fd_of m (ss(a := None))" using fd_of_same_listen [where m = m and k = "owner s", OF p] by simp
  moreover have "exact (fd_of m (ss(a := None))) (open_fds n - {front_fd s} - {back_fd s})"
    unfolding fd_of_remove using exact_remove [OF exact_remove [OF e, of "Front a"], of "Back a"] s by simp
  ultimately have "exact (fd_of ?m (ss(a := None))) (open_fds n')" unfolding n'(2) by (simp add: Diff_insert2 [symmetric] insert_commute)
  moreover obtain "iProxyId p = owner s" "distinct (v_conn p)" "set (v_conn p) = {b. \<exists>t. ss b = Some t \<and> owner t = owner s}"
    using fabric_proxy [OF f p] by auto
  moreover have own: "{b. \<exists>t. (ss(a := None)) b = Some t \<and> owner t = j} =
      (if j = owner s then {b. \<exists>t. ss b = Some t \<and> owner t = j} - {a} else {b. \<exists>t. ss b = Some t \<and> owner t = j})" for j
    using s by auto
  ultimately show ?thesis
    using f n'(1) unfolding fabric_def own by (auto simp: set_remove1_eq)
qed

text \<open>A new session.\<close>

lemma fabric_add:
  assumes f: "fabric held n m ss nx" and p: "m k = Some (Some p)" and s: "owner s = k" "session_good s"
    and n': "net_ok held n'" "open_fds n' = {front_fd s, back_fd s} \<union> open_fds n"
    and new: "front_fd s \<notin> open_fds n" "back_fd s \<notin> open_fds n" "front_fd s \<noteq> back_fd s"
  shows "fabric held n' (m(k \<mapsto> Some (p\<lparr>v_conn := nx # v_conn p\<rparr>))) (ss(nx \<mapsto> s)) (Suc nx)"
proof -
  let ?m = "m(k \<mapsto> Some (p\<lparr>v_conn := nx # v_conn p\<rparr>))"
  have e: "exact (fd_of m ss) (open_fds n)" using f by (simp add: fabric_def)
  have nx: "ss nx = None" using fabric_session [OF f, of nx] by (cases "ss nx") auto
  have "fd_of ?m (ss(nx \<mapsto> s)) = (fd_of m ss)(Front nx \<mapsto> front_fd s, Back nx \<mapsto> back_fd s)"
  proof
    show "fd_of ?m (ss(nx \<mapsto> s)) u = ((fd_of m ss)(Front nx \<mapsto> front_fd s, Back nx \<mapsto> back_fd s)) u" for u
      using p by (cases u) auto
  qed
  moreover have "exact ((fd_of m ss)(Front nx \<mapsto> front_fd s, Back nx \<mapsto> back_fd s)) (insert (back_fd s) (insert (front_fd s) (open_fds n)))"
    using nx new by (intro exact_add e) auto
  ultimately have x: "exact (fd_of ?m (ss(nx \<mapsto> s))) (open_fds n')" unfolding n'(2) by (simp add: insert_commute)
  obtain q: "iProxyId p = k" "distinct (v_conn p)" "set (v_conn p) = {b. \<exists>t. ss b = Some t \<and> owner t = k}"
    using fabric_proxy [OF f p] by auto
  have own: "{b. \<exists>t. (ss(nx \<mapsto> s)) b = Some t \<and> owner t = j} = (if j = k then insert nx {b. \<exists>t. ss b = Some t \<and> owner t = j} else {b. \<exists>t. ss b = Some t \<and> owner t = j})" for j
    using nx s(1) by auto
  have "nx \<notin> set (v_conn p)" using q(3) nx by auto
  then show ?thesis
    using f n'(1) x q s(2) s(1) unfolding fabric_def own by (auto simp: less_Suc_eq)
qed

text \<open>The listening socket of a proxy, or the proxy itself, comes or goes.\<close>

lemma fabric_listen:
  assumes f: "fabric held n m ss nx" and n': "net_ok held n'" "exact (fd_of (m(k \<mapsto> Some p')) ss) (open_fds n')"
    and p': "iProxyId p' = k" "v_conn p' = (case m k of Some (Some p) \<Rightarrow> v_conn p | _ \<Rightarrow> [])"
  shows "fabric held n' (m(k \<mapsto> Some p')) ss nx"
proof (cases "m k")
  case None
  then have "\<forall>a s. ss a = Some s \<longrightarrow> owner s \<noteq> k" using fabric_session [OF f] by blast
  then show ?thesis using f n' p' None unfolding fabric_def by auto
next
  case (Some c)
  then obtain p where p: "c = Some p" "distinct (v_conn p)" "set (v_conn p) = {a. \<exists>s. ss a = Some s \<and> owner s = k}"
    using fabric_proxy [OF f] by blast
  then show ?thesis using f n' p' Some unfolding fabric_def by auto
qed

lemma fd_of_listen: "fd_of (m(k \<mapsto> Some p)) ss = (fd_of m ss)(Listen k := if fd_set (serverEvent p) then Some (ev_fd (serverEvent p)) else None)"
proof
  show "fd_of (m(k \<mapsto> Some p)) ss u = ((fd_of m ss)(Listen k := if fd_set (serverEvent p) then Some (ev_fd (serverEvent p)) else None)) u"
    for u by (cases u) auto
qed

lemma fabric_close_listen:
  assumes f: "fabric held n m ss nx" and p: "m k = Some (Some p)"
    and n': "net_ok held n'" "open_fds n' = open_fds n - (if fd_set (serverEvent p) then {ev_fd (serverEvent p)} else {})"
    and p': "\<not> fd_set (serverEvent p')" "iProxyId p' = k" "v_conn p' = v_conn p"
  shows "fabric held n' (m(k \<mapsto> Some p')) ss nx"
proof (rule fabric_listen [OF f n'(1)])
  have e: "exact (fd_of m ss) (open_fds n)" using f by (simp add: fabric_def)
  have "set_option (fd_of m ss (Listen k)) = (if fd_set (serverEvent p) then {ev_fd (serverEvent p)} else {})" using p by simp
  then show "exact (fd_of (m(k \<mapsto> Some p')) ss) (open_fds n')"
    using exact_remove [OF e, of "Listen k"] p'(1) unfolding fd_of_listen n'(2) by simp
qed (simp_all add: p p')

lemma fabric_open_listen:
  assumes f: "fabric held n m ss nx" and p: "fd_of m ss (Listen k) = None"
    and n': "net_ok held n'" "open_fds n' = insert (ev_fd (serverEvent p')) (open_fds n)" "ev_fd (serverEvent p') \<notin> open_fds n"
    and p': "0 < ev_fd (serverEvent p')" "iProxyId p' = k" "v_conn p' = (case m k of Some (Some p) \<Rightarrow> v_conn p | _ \<Rightarrow> [])"
  shows "fabric held n' (m(k \<mapsto> Some p')) ss nx"
proof (rule fabric_listen [OF f n'(1)])
  have e: "exact (fd_of m ss) (open_fds n)" using f by (simp add: fabric_def)
  show "exact (fd_of (m(k \<mapsto> Some p')) ss) (open_fds n')"
    using exact_add [OF e p n'(3)] p'(1) unfolding fd_of_listen n'(2) by (simp add: fd_set_def)
qed (simp_all add: p')

lemma fabric_drop:
  assumes f: "fabric held n m ss nx" and p: "m k = Some (Some p)" "v_conn p = []" "\<not> fd_set (serverEvent p)"
  shows "fabric held n (m(k := None)) ss nx"
proof -
  have "fd_of (m(k := None)) ss = fd_of m ss"
  proof
    show "fd_of (m(k := None)) ss u = fd_of m ss u" for u using p by (cases u) auto
  qed
  moreover have "\<forall>a s. ss a = Some s \<longrightarrow> owner s \<noteq> k" using fabric_proxy [OF f p(1)] p(2) by auto
  ultimately show ?thesis using f unfolding fabric_def by auto
qed

lemma fabric_same_net: "fabric held n m ss nx \<Longrightarrow> same_fds held n n' \<Longrightarrow> fabric held n' m ss nx"
  unfolding fabric_def using same_fds_ok [of held n n'] by (simp add: same_fds_def)

subsection \<open>Closing\<close>

lemma session_close_fds:
  assumes k: "kernel_ok S held" and n: "net_ok held n"
  shows "net_ok held (session_close S s n) \<and> open_fds (session_close S s n) = open_fds n - {front_fd s, back_fd s}"
  using socket_close_ok [OF k socket_close_ok [OF k n]]
  by (cases s) (auto simp: session_close_def CloseConnection_def Connection_close_def Let_def any_session_views socket_close_fds)

text \<open>Closing the sessions of a proxy meets only live connection objects.\<close>

lemma close_sessions_fabric:
  assumes k: "kernel_ok S held"
  shows "fabric held (app_net st) (m(i \<mapsto> Some p)) (sessions st) (next_session st) \<Longrightarrow>
    \<exists>n ss. close_sessions S (v_conn p) st = Some (st\<lparr>app_net := n, sessions := ss\<rparr>) \<and>
      fabric held n (m(i \<mapsto> Some (p\<lparr>v_conn := []\<rparr>))) ss (next_session st)"
proof (induction "v_conn p" arbitrary: p st)
  case Nil
  have "p\<lparr>v_conn := []\<rparr> = p" using Nil.hyps by simp
  then show ?case using Nil.prems unfolding Nil.hyps [symmetric]
    by (intro exI [of _ "app_net st"] exI [of _ "sessions st"]) simp
next
  case (Cons a as)
  have "a \<in> set (v_conn p)" unfolding Cons.hyps(2) [symmetric] by simp
  moreover have "set (v_conn p) = {a. \<exists>s. sessions st a = Some s \<and> owner s = i}"
    using fabric_proxy [OF Cons.prems, of i "Some p"] by simp
  ultimately have "a \<in> {a. \<exists>s. sessions st a = Some s \<and> owner s = i}" by simp
  then obtain s where s: "sessions st a = Some s" "owner s = i" by blast
  let ?p = "p\<lparr>v_conn := as\<rparr>"
  define st1 where "st1 = st\<lparr>app_net := session_close S s (app_net st), sessions := (sessions st)(a := None)\<rparr>"
  have n: "net_ok held (app_net st)" using Cons.prems by (simp add: fabric_def)
  have "fabric held (app_net st1) (m(i \<mapsto> Some ?p)) (sessions st1) (next_session st1)"
    using fabric_remove [OF Cons.prems s(1), of p] session_close_fds [OF k n, of s] s(2) Cons.hyps(2) [symmetric]
    by (simp add: st1_def)
  from Cons.hyps(1) [of ?p st1, OF _ this] obtain n' ss where
    c: "close_sessions S as st1 = Some (st1\<lparr>app_net := n', sessions := ss\<rparr>)"
    and f: "fabric held n' (m(i \<mapsto> Some (?p\<lparr>v_conn := []\<rparr>))) ss (next_session st1)" by auto
  show ?case
    using c f s(1) by (intro exI [of _ n'] exI [of _ ss]) (simp add: Cons.hyps(2) [symmetric] st1_def)
qed

lemma Proxy_Close_fabric:
  fixes st :: "('w, 'k) app"
  assumes k: "kernel_ok (h_sys H) held" and f: "fabric held (app_net st) (m(i \<mapsto> Some p)) (sessions st) (next_session st)"
  shows "\<exists>p' n ss g. Proxy_Close H p st = Some (p', st\<lparr>app_net := n, sessions := ss, app_glob := g\<rparr>) \<and>
    fabric held n (m(i \<mapsto> Some p')) ss (next_session st) \<and> v_conn p' = [] \<and> \<not> fd_set (serverEvent p')"
proof -
  obtain ok g where g: "proxymap_set_db_status (h_env H) (iProxyId p) 0 (app_glob st) = (ok, g)" by force
  let ?st = "st\<lparr>app_glob := g\<rparr>"
  obtain n ss where c: "close_sessions (h_sys H) (v_conn p) ?st = Some (?st\<lparr>app_net := n, sessions := ss\<rparr>)"
    and f1: "fabric held n (m(i \<mapsto> Some (p\<lparr>v_conn := []\<rparr>))) ss (next_session st)"
    using close_sessions_fabric [OF k, of ?st m i p] f by auto
  obtain p' n' where s: "CloseServer (h_sys H) (p\<lparr>v_conn := []\<rparr>) n = (p', n')" by force
  have n: "net_ok held n" using f1 by (simp add: fabric_def)
  have i: "iProxyId p = i" using fabric_proxy [OF f, of i] by auto
  have f2: "fabric held n' (m(i \<mapsto> Some p')) ss (next_session st)"
    using fabric_close_listen [OF f1, of i "p\<lparr>v_conn := []\<rparr>" n' p'] CloseServer_fds [OF k n s] i by simp
  show ?thesis
    using c s f2 CloseServer_fds [OF k n s]
    by (intro exI [of _ p'] exI [of _ n'] exI [of _ ss] exI [of _ g]) (simp add: Proxy_Close_def g)
qed

subsection \<open>The state of the process\<close>

definition app_ok :: "('k \<Rightarrow> int set) \<Rightarrow> ('w, 'k) app \<Rightarrow> bool" where
  "app_ok held st \<longleftrightarrow> fabric held (app_net st) (map_of (proxies st)) (sessions st) (next_session st) \<and>
     sorted_wrt (<) (map fst (proxies st))"

lemma close_proxy_at_ok:
  assumes k: "kernel_ok (h_sys H) held" and st: "app_ok held st" and i: "i \<in> dom (map_of (proxies st))"
  shows "\<exists>st'. close_proxy_at H i st = Some st' \<and> app_ok held st'"
proof -
  obtain p where p: "map_of (proxies st) i = Some (Some p)"
    using st i fabric_proxy unfolding app_ok_def by (metis domD)
  then have m: "(map_of (proxies st))(i \<mapsto> Some p) = map_of (proxies st)" by auto
  obtain p' n ss g where "Proxy_Close H p st = Some (p', st\<lparr>app_net := n, sessions := ss, app_glob := g\<rparr>)"
    "fabric held n ((map_of (proxies st))(i \<mapsto> Some p')) ss (next_session st)"
    using Proxy_Close_fabric [OF k, of st "map_of (proxies st)" i p] st m by (auto simp: app_ok_def)
  then show ?thesis
    using st p sorted_map_put by (simp add: close_proxy_at_def map_at_def app_ok_def)
qed

text \<open>The shutdown closes everything: no object is closed twice, nothing stays open.\<close>

lemma proxymap_close_ok:
  assumes k: "kernel_ok (h_sys H) held"
  shows "app_ok held st \<Longrightarrow> \<exists>st'. proxymap_close H st = Some st' \<and> proxies st' = [] \<and> app_ok held st'"
proof (induction "length (proxies st)" arbitrary: st)
  case 0
  then show ?case by (simp add: proxymap_close.simps [of H st])
next
  case (Suc l)
  then obtain i c ps where ps: "proxies st = (i, c) # ps" by (cases "proxies st") auto
  have f: "fabric held (app_net st) ((map_of ps)(i \<mapsto> c)) (sessions st) (next_session st)"
    using Suc.prems by (simp add: app_ok_def ps)
  then obtain p where c: "c = Some p" using fabric_proxy [OF f, of i c] by auto
  obtain p' n ss g where close: "Proxy_Close H p st = Some (p', st\<lparr>app_net := n, sessions := ss, app_glob := g\<rparr>)"
    and f1: "fabric held n ((map_of ps)(i \<mapsto> Some p')) ss (next_session st)" and p': "v_conn p' = []" "\<not> fd_set (serverEvent p')"
    using Proxy_Close_fabric [OF k f [unfolded c]] by auto
  have "i \<notin> set (map fst ps)" using Suc.prems by (auto simp: app_ok_def ps)
  then have "map_of ps i = None" by (simp add: map_of_eq_None_iff)
  then have m: "((map_of ps)(i \<mapsto> Some p'))(i := None) = map_of ps" by auto
  let ?st = "st\<lparr>app_net := n, sessions := ss, app_glob := g, proxies := ps\<rparr>"
  have "app_ok held ?st"
    using fabric_drop [OF f1, of i p'] p' Suc.prems unfolding m by (simp add: app_ok_def ps)
  from Suc.hyps(1) [OF _ this] Suc.hyps(2) show ?case
    by (simp add: proxymap_close.simps [of H st] ps c close)
qed

lemma no_proxies_no_sessions: "app_ok held st \<Longrightarrow> proxies st = [] \<Longrightarrow> sessions st a = None \<and> open_fds (app_net st) = {}"
proof -
  assume ok: "app_ok held st" and p: "proxies st = []"
  have none: "sessions st b = None" for b
    using ok p fabric_session [of held "app_net st" Map.empty "sessions st" "next_session st" b]
    by (cases "sessions st b") (auto simp: app_ok_def)
  have "fd_of Map.empty (sessions st) u = None" for u by (cases u) (simp_all add: none)
  then have "open_fds (app_net st) = {}" using ok p by (auto simp: app_ok_def fabric_def exact_def ran_def)
  with none show ?thesis by simp
qed

subsection \<open>Callbacks\<close>

definition session_after :: "('k \<Rightarrow> int set) \<Rightarrow> any_session \<Rightarrow> 'k net \<Rightarrow> any_session option \<Rightarrow> 'k net \<Rightarrow> bool" where
  "session_after held x n r n' \<longleftrightarrow> (case r of
       Some x' \<Rightarrow> same_fds held n n' \<and> front_fd x' = front_fd x \<and> back_fd x' = back_fd x \<and> owner x' = owner x \<and> session_good x'
     | None \<Rightarrow> net_ok held n' \<and> open_fds n' = open_fds n - {front_fd x, back_fd x})"

lemma put_session_ok:
  assumes st: "app_ok held st" and x: "sessions st a = Some x" and r: "session_after held x (app_net st) r n"
  shows "\<exists>st'. put_session a (owner x) r n g st = Some st' \<and> app_ok held st'"
proof -
  have f: "fabric held (app_net st) (map_of (proxies st)) (sessions st) (next_session st)" using st by (simp add: app_ok_def)
  show ?thesis
  proof (cases r)
    case (Some x')
    then show ?thesis
      using fabric_update [OF f x, of n x'] r st by (simp add: session_after_def put_session_def app_ok_def)
  next
    case None
    obtain p where p: "map_of (proxies st) (owner x) = Some (Some p)" using fabric_session_proxy [OF f x] by blast
    show ?thesis
      using fabric_remove [OF f x p, of n] r st None p sorted_map_put
      by (simp add: session_after_def put_session_def app_ok_def)
  qed
qed

lemma session_after_fds:
  assumes "session_good (MySQL_session s)" "fds_after held s n (r, n')"
    and "\<And>s'. r = Some s' \<Longrightarrow> request_stream s' = from_client s' \<and> request_armed s' \<and> con_proxy_id (conn s') = con_proxy_id (conn s)"
  shows "session_after held (MySQL_session s) n (map_option MySQL_session r) n'"
  using assms by (cases r) (auto simp: session_after_def fds_after_def same_env_def session_fds_def any_session_views)

lemma pgsql_session_after_fds:
  assumes "session_good (PgSQL_session s)" "fds_after held s n (r, n')"
    and "\<And>s'. r = Some s' \<Longrightarrow> subseq (request_stream s') (from_client s') \<and> request_armed s' \<and> con_proxy_id (conn s') = con_proxy_id (conn s)"
  shows "session_after held (PgSQL_session s) n (map_option PgSQL_session r) n'"
  using assms by (cases r) (auto simp: session_after_def fds_after_def same_env_def session_fds_def any_session_views)

text \<open>The four callbacks keep what a session promises.\<close>

lemma mysql_callback_after:
  assumes k: "kernel_ok S held" and n: "net_ok held n" and s: "session_good (MySQL_session s)"
    and c: "Proxy_cb (mysql_vtable H) S fd w s n g = Some (r, n', g') \<or> Backend_cb (mysql_vtable H) S fd w s n g = Some (r, n', g')"
  shows "session_after held (MySQL_session s) n (map_option MySQL_session r) n'"
proof (rule session_after_fds [OF s])
  show "fds_after held s n (r, n')" using c by (auto dest: Proxy_cb_fds [OF k n] Backend_cb_fds [OF k n])
next
  fix s' assume r: "r = Some s'"
  have g: "request_stream s = from_client s" "request_armed s" using s by (simp_all add: any_session_views)
  show "request_stream s' = from_client s' \<and> request_armed s' \<and> con_proxy_id (conn s') = con_proxy_id (conn s)"
    using c unfolding mysql_vtable_def r
  proof
    assume c: "Proxy_cb (vtable_of (my_parseRequest (h_ctx H) (h_mysql_patterns H)) my_parseResponse) S fd w s n g = Some (Some s', n', g')"
    show ?thesis using mysql.client_step_exact [OF c g(1)] mysql.client_step_armed [OF c g(2)] mysql.client_step_id [OF c] by simp
  next
    assume c: "Backend_cb (vtable_of (my_parseRequest (h_ctx H) (h_mysql_patterns H)) my_parseResponse) S fd w s n g = Some (Some s', n', g')"
    show ?thesis using mysql.Backend_cb_stream [OF c] mysql.server_step_armed [OF c g(2)] g(1) by simp
  qed
qed

lemma pgsql_callback_after:
  assumes k: "kernel_ok S held" and n: "net_ok held n" and s: "session_good (PgSQL_session s)"
    and c: "Proxy_cb (pgsql_vtable H) S fd w s n g = Some (r, n', g') \<or> Backend_cb (pgsql_vtable H) S fd w s n g = Some (r, n', g')"
  shows "session_after held (PgSQL_session s) n (map_option PgSQL_session r) n'"
proof (rule pgsql_session_after_fds [OF s])
  show "fds_after held s n (r, n')" using c by (auto dest: Proxy_cb_fds [OF k n] Backend_cb_fds [OF k n])
next
  fix s' assume r: "r = Some s'"
  have g: "subseq (request_stream s) (from_client s)" "request_armed s" using s by (simp_all add: any_session_views)
  show "subseq (request_stream s') (from_client s') \<and> request_armed s' \<and> con_proxy_id (conn s') = con_proxy_id (conn s)"
    using c unfolding pgsql_vtable_def r
  proof
    assume c: "Proxy_cb (vtable_of (pg_parseRequest (h_ctx H) (h_pgsql_patterns H)) pg_parseResponse) S fd w s n g = Some (Some s', n', g')"
    show ?thesis using pgsql.client_step [OF c g(1)] pgsql.client_step_armed [OF c g(2)] pgsql.client_step_id [OF c] by simp
  next
    assume c: "Backend_cb (vtable_of (pg_parseRequest (h_ctx H) (h_pgsql_patterns H)) pg_parseResponse) S fd w s n g = Some (Some s', n', g')"
    show ?thesis using pgsql.Backend_cb_stream [OF c] pgsql.server_step_armed [OF c g(2)] g(1) by simp
  qed
qed

lemma app_ok_session:
  assumes "app_ok held st" "sessions st a = Some x"
  shows "session_good x" "net_ok held (app_net st)" "owner x \<in> dom (map_of (proxies st))"
  using assms fabric_session by (auto simp: app_ok_def fabric_def)

text \<open>A callback of the process: the session is handled and put back, or its proxy is closed.\<close>

lemma wrap_cases:
  assumes "wrap_Proxy H fd w a st = Some st' \<or> wrap_Backend H fd w a st = Some st'" "app_ok held st" "kernel_ok (h_sys H) held"
  obtains (close) i where "close_proxy_at H i st = Some st'" "i \<in> dom (map_of (proxies st))"
  | (put) x r n g where "sessions st a = Some x" "session_after held x (app_net st) r n" "put_session a (owner x) r n g st = Some st'"
proof (cases "sessions st a")
  case None
  then show ?thesis using assms(1) by (auto simp: wrap_Proxy_def wrap_Backend_def)
next
  case (Some x)
  note x = app_ok_session [OF assms(2) Some]
  show ?thesis
  proof (cases x)
    case (MySQL_session s)
    show ?thesis
    proof (cases "app_running st")
      case False
      then show ?thesis using assms(1) close [of "owner x"] x(1,3) by (auto simp: wrap_Proxy_def wrap_Backend_def Some MySQL_session any_session_views)
    next
      case True
      obtain r n g where c: "Proxy_cb (mysql_vtable H) (h_sys H) fd w s (app_net st) (app_glob st) = Some (r, n, g) \<or>
          Backend_cb (mysql_vtable H) (h_sys H) fd w s (app_net st) (app_glob st) = Some (r, n, g)"
        and p: "put_session a (owner x) (map_option MySQL_session r) n g st = Some st'"
        using assms(1) True by (auto simp: wrap_Proxy_def wrap_Backend_def Some MySQL_session owner_def split: bind_splits)
      from put [OF Some mysql_callback_after [OF assms(3) x(2) x(1) [unfolded MySQL_session] c, folded MySQL_session] p] show ?thesis .
    qed
  next
    case (PgSQL_session s)
    show ?thesis
    proof (cases "app_running st")
      case False
      then show ?thesis using assms(1) close [of "owner x"] x(1,3) by (auto simp: wrap_Proxy_def wrap_Backend_def Some PgSQL_session any_session_views)
    next
      case True
      obtain r n g where c: "Proxy_cb (pgsql_vtable H) (h_sys H) fd w s (app_net st) (app_glob st) = Some (r, n, g) \<or>
          Backend_cb (pgsql_vtable H) (h_sys H) fd w s (app_net st) (app_glob st) = Some (r, n, g)"
        and p: "put_session a (owner x) (map_option PgSQL_session r) n g st = Some st'"
        using assms(1) True by (auto simp: wrap_Proxy_def wrap_Backend_def Some PgSQL_session owner_def split: bind_splits)
      from put [OF Some pgsql_callback_after [OF assms(3) x(2) x(1) [unfolded PgSQL_session] c, folded PgSQL_session] p] show ?thesis .
    qed
  qed
qed

lemma wrap_ok:
  assumes k: "kernel_ok (h_sys H) held" and st: "app_ok held st"
    and w: "wrap_Proxy H fd w a st = Some st' \<or> wrap_Backend H fd w a st = Some st'"
  shows "app_ok held st'"
  using w st k
proof (cases rule: wrap_cases)
  case (close i)
  then show ?thesis using close_proxy_at_ok [OF k st close(2)] by simp
next
  case (put x r n g)
  then show ?thesis using put_session_ok [OF st put(1,2), of g] by simp
qed

subsection \<open>New connections\<close>

lemma Server_cb_good:
  assumes c: "buff (request_in c) = []" "buff (request_out c) = []" "con_proxy_id c = iProxyId p" and cfd: "0 < cfd"
    and s: "Server_cb S a c sfd cfd p n = (s, p')"
  shows "request_stream s = []" "from_client s = []" "request_armed s" "con_proxy_id (conn s) = connections s"
    "connections s = iProxyId p" "ev_fd (proxy_event s) = sfd" "ev_fd (backend_event s) = cfd" "p' = p\<lparr>v_conn := a # v_conn p\<rparr>"
  using assms
  by (auto simp: Server_cb_def Let_def request_stream_def request_armed_def event_set_def event_add_def fd_set_def split: option.splits)

lemma new_connections:
  "buff (request_in (new_MySQLConnection m k)) = []" "buff (request_out (new_MySQLConnection m k)) = []"
  "con_proxy_id (new_MySQLConnection m k) = k"
  "buff (request_in (new_PgSQLConnection m k)) = []" "buff (request_out (new_PgSQLConnection m k)) = []"
  "con_proxy_id (new_PgSQLConnection m k) = k"
  by (simp_all add: new_MySQLConnection_def new_PgSQLConnection_def new_Connection_def Connection.Connection.defs)

lemma wrap_Server_ok:
  assumes k: "kernel_ok (h_sys H) held" and st: "app_ok held st" and i: "i \<in> dom (map_of (proxies st))"
  shows "\<exists>st'. wrap_Server H fd i st = Some st' \<and> app_ok held st'"
proof -
  have f: "fabric held (app_net st) (map_of (proxies st)) (sessions st) (next_session st)" using st by (simp add: app_ok_def)
  obtain p where p: "map_of (proxies st) i = Some (Some p)" "iProxyId p = i" using fabric_proxy [OF f] i by blast
  have at: "map_at i (proxies st) = (Some p, proxies st)" by (simp add: map_at_def p)
  show ?thesis
  proof (cases "app_running st")
    case False
    then show ?thesis using close_proxy_at_ok [OF k st i] by (simp add: wrap_Server_def at)
  next
    case True
    have n: "net_ok held (app_net st)" using f by (simp add: fabric_def)
    obtain ok sfd cfd n' where c: "PrepareNewConn (h_sys H) p fd (app_net st) = (ok, sfd, cfd, n')" by (metis prod_cases4)
    note fds = PrepareNewConn_fds [OF k n c]
    show ?thesis
    proof (cases ok)
      case False
      have e: "open_fds n' = open_fds (app_net st)" "net_ok held n'" using fds False by simp_all
      then have "fabric held n' (map_of (proxies st)) (sessions st) (next_session st)" using f by (simp add: fabric_def)
      then show ?thesis using st True False by (simp add: wrap_Server_def at c app_ok_def)
    next
      case ok: True
      define m where "m = dbsmap (app_glob st)"
      obtain x p' where x: "(case DBType p of
            DBTypeMySQL \<Rightarrow> (let (s, p) = Server_cb (h_sys H) (next_session st) (new_MySQLConnection m i) sfd cfd p n' in (MySQL_session s, p))
          | DBTypePGSQL \<Rightarrow> (let (s, p) = Server_cb (h_sys H) (next_session st) (new_PgSQLConnection m i) sfd cfd p n' in (PgSQL_session s, p)))
          = (x, p')" by force
      have cfd: "0 < cfd" using fds ok by simp
      have s: "session_good x" "owner x = i" "front_fd x = sfd" "back_fd x = cfd" "p' = p\<lparr>v_conn := next_session st # v_conn p\<rparr>"
      proof -
        have "session_good x \<and> owner x = i \<and> front_fd x = sfd \<and> back_fd x = cfd \<and> p' = p\<lparr>v_conn := next_session st # v_conn p\<rparr>"
        proof (cases "DBType p")
          case DBTypeMySQL
          then obtain s where s: "Server_cb (h_sys H) (next_session st) (new_MySQLConnection m i) sfd cfd p n' = (s, p')" "x = MySQL_session s"
            using x by (auto split: prod.splits)
          from Server_cb_good [OF _ _ _ cfd s(1)] new_connections p(2) show ?thesis by (simp add: s(2) any_session_views)
        next
          case DBTypePGSQL
          then obtain s where s: "Server_cb (h_sys H) (next_session st) (new_PgSQLConnection m i) sfd cfd p n' = (s, p')" "x = PgSQL_session s"
            using x by (auto split: prod.splits)
          from Server_cb_good [OF _ _ _ cfd s(1)] new_connections p(2) show ?thesis by (simp add: s(2) any_session_views)
        qed
        then show "session_good x" "owner x = i" "front_fd x = sfd" "back_fd x = cfd" "p' = p\<lparr>v_conn := next_session st # v_conn p\<rparr>" by simp_all
      qed
      have "fabric held n' ((map_of (proxies st))(i \<mapsto> Some p')) ((sessions st)(next_session st \<mapsto> x)) (Suc (next_session st))"
        unfolding s(5) using fabric_add [OF f p(1) s(2,1)] fds ok s by simp
      then show ?thesis
        using True ok st sorted_map_put unfolding wrap_Server_def
        by (simp add: at c Let_def m_def [symmetric] x app_ok_def)
    qed
  qed
qed

subsection \<open>Reload\<close>

lemma fabric_config:
  assumes f: "fabric held n m ss nx" and p: "m k = Some (Some p)"
    and p': "serverEvent p' = serverEvent p" "iProxyId p' = k" "v_conn p' = v_conn p"
  shows "fabric held n (m(k \<mapsto> Some p')) ss nx"
proof (rule fabric_listen [OF f])
  show "exact (fd_of (m(k \<mapsto> Some p')) ss) (open_fds n)"
    using f fd_of_same_listen [where m = m and k = k, OF p p'(1)] by (simp add: fabric_def)
qed (use f p p' in \<open>simp_all add: fabric_def\<close>)

lemma ProxyReInit_fabric:
  assumes k: "kernel_ok S held" and f: "fabric held n m ss nx" and p: "m i = Some (Some p)"
    and r: "ProxyReInit S i ip port bn bip bport t p n = (ok, p', n')"
  shows "fabric held n' (m(i \<mapsto> Some p')) ss nx"
proof -
  obtain p1 n1 where c: "CloseServer S p n = (p1, n1)" by force
  have n: "net_ok held n" using f by (simp add: fabric_def)
  have i: "iProxyId p = i" using fabric_proxy [OF f p] by simp
  note c1 = CloseServer_fds [OF k n c]
  have f1: "fabric held n1 (m(i \<mapsto> Some p1)) ss nx" using fabric_close_listen [OF f p, of n1 p1] c1 i by simp
  have r1: "ProxyInit S i ip port bn bip bport t p1 n1 = (ok, p', n')" using r by (simp add: ProxyReInit_def c)
  note i1 = ProxyInit_fds [OF k _ r1]
  show ?thesis
  proof (cases ok)
    case True
    have "fd_of (m(i \<mapsto> Some p1)) ss (Listen i) = None" using c1 by simp
    then show ?thesis using fabric_open_listen [OF f1, of i n' p'] i1 c1 True by simp
  next
    case False
    have "fabric held n1 ((m(i \<mapsto> Some p1))(i \<mapsto> Some p')) ss nx"
      by (rule fabric_config [OF f1, of i p1 p']) (use i1 c1 False in simp_all)
    moreover have "open_fds n' = open_fds n1" "net_ok held n'" using i1 c1 False by simp_all
    ultimately show ?thesis by (simp add: fabric_def)
  qed
qed

lemma set_status_ok [simp]: "app_ok held (set_status H k c st) = app_ok held st"
  "proxies (set_status H k c st) = proxies st"
  by (simp_all add: app_ok_def set_status_def)

lemma reload_row_ok:
  assumes k: "kernel_ok (h_sys H) held" and st: "app_ok held st"
    and r: "reload_row H r (st, news) = Some (st', news')"
  shows "app_ok held st'"
proof -
  let ?E = "h_env H"
  let ?i = "db_col_int ?E r 0"
  let ?m = "map_of (proxies st)"
  have f: "fabric held (app_net st) ?m (sessions st) (next_session st)" using st by (simp add: app_ok_def)
  have n: "net_ok held (app_net st)" using f by (simp add: fabric_def)
  show ?thesis
  proof (cases "?m ?i")
    case None
    obtain ret cls n1 where i: "ProxyInit (h_sys H) ?i ''0.0.0.0'' (db_col_int ?E r 2) (cstr (db_col_text ?E r 3)) (cstr (db_col_text ?E r 4))
        (db_col_int ?E r 5) (cstr (db_col_text ?E r 6)) new_Proxy (app_net st) = (ret, cls, n1)" by (metis prod_cases3)
    note c = ProxyInit_fds [OF k n i]
    show ?thesis
    proof (cases ret)
      case True
      have "fabric held n1 (?m(?i \<mapsto> Some cls)) (sessions st) (next_session st)"
        using fabric_open_listen [OF f, of ?i n1 cls] c True None by (simp add: new_Proxy_def)
      then show ?thesis using r None True st sorted_map_put by (auto simp: reload_row_def Let_def i set_status_def app_ok_def)
    next
      case False
      have f1: "fabric held n1 ?m (sessions st) (next_session st)" using f c False by (simp add: fabric_def)
      have "fabric held n1 (?m(?i \<mapsto> Some cls)) (sessions st) (next_session st)"
      proof (rule fabric_listen [OF f1])
        have "fd_of (?m(?i \<mapsto> Some cls)) (sessions st) = fd_of ?m (sessions st)"
          unfolding fd_of_listen using c False None by (simp add: new_Proxy_def fd_set_def fun_upd_idem)
        then show "exact (fd_of (?m(?i \<mapsto> Some cls)) (sessions st)) (open_fds n1)" using f1 by (simp add: fabric_def)
      qed (use c None in \<open>simp_all add: new_Proxy_def\<close>)
      then obtain p' n2 ss g where cl: "Proxy_Close H cls (set_status H ?i 2 (st\<lparr>app_net := n1\<rparr>)) =
            Some (p', (set_status H ?i 2 (st\<lparr>app_net := n1\<rparr>))\<lparr>app_net := n2, sessions := ss, app_glob := g\<rparr>)"
          "fabric held n2 (?m(?i \<mapsto> Some p')) ss (next_session st)" "v_conn p' = []" "\<not> fd_set (serverEvent p')"
        using Proxy_Close_fabric [OF k, of "set_status H ?i 2 (st\<lparr>app_net := n1\<rparr>)" ?m ?i cls] by (auto simp: set_status_def)
      have "(?m(?i \<mapsto> Some p'))(?i := None) = ?m" using None by auto
      then have "fabric held n2 ?m ss (next_session st)" using fabric_drop [OF cl(2), of ?i p'] cl(3,4) by simp
      then show ?thesis using r None False st cl(1) by (auto simp: reload_row_def Let_def i set_status_def app_ok_def)
    qed
  next
    case (Some c)
    then obtain p where p: "c = Some p" "iProxyId p = ?i" using fabric_proxy [OF f] by blast
    obtain ret cls n1 where i: "ProxyReInit (h_sys H) ?i ''0.0.0.0'' (db_col_int ?E r 2) (cstr (db_col_text ?E r 3)) (cstr (db_col_text ?E r 4))
        (db_col_int ?E r 5) (cstr (db_col_text ?E r 6)) p (app_net st) = (ret, cls, n1)" by (metis prod_cases3)
    have m: "?m ?i = Some (Some p)" using Some p by simp
    show ?thesis
    proof (cases "sProxyIP p \<noteq> ''0.0.0.0'' \<or> iProxyPort p \<noteq> db_col_int ?E r 2 \<or> sDBType p \<noteq> cstr (db_col_text ?E r 6)")
      case True
      then show ?thesis using r m st sorted_map_put ProxyReInit_fabric [OF k f m i]
        by (auto simp: reload_row_def Let_def i app_ok_def set_status_def)
    next
      case False
      then show ?thesis using r m st sorted_map_put fabric_config [OF f m] p(2)
        by (auto simp: reload_row_def Let_def app_ok_def set_status_def)
    qed
  qed
qed

lemma reload_rows_ok:
  assumes k: "kernel_ok (h_sys H) held"
  shows "app_ok held (fst sn) \<Longrightarrow> reload_rows H rs sn = Some sn' \<Longrightarrow> app_ok held (fst sn')"
proof (induction rs arbitrary: sn)
  case (Cons r rs)
  obtain st news where sn: "sn = (st, news)" by (cases sn)
  from Cons.prems(2) obtain st1 news1 where r: "reload_row H r (st, news) = Some (st1, news1)" "reload_rows H rs (st1, news1) = Some sn'"
    unfolding sn by (auto split: bind_splits)
  show ?case using Cons.IH [OF _ r(2)] reload_row_ok [OF k _ r(1)] Cons.prems(1) by (simp add: sn)
qed simp

lemma remove_loop_ok:
  assumes k: "kernel_ok (h_sys H) held"
  shows "app_ok held st \<Longrightarrow> (\<forall>(i, c)\<in>set itr. map_of (proxies st) i = Some c) \<Longrightarrow> distinct (map fst itr) \<Longrightarrow>
    remove_loop H itr news st = Some st' \<Longrightarrow> app_ok held st'"
proof (induction itr arbitrary: news st)
  case (Cons ic itr)
  obtain i c where ic: "ic = (i, c)" by (cases ic)
  have f: "fabric held (app_net st) (map_of (proxies st)) (sessions st) (next_session st)" using Cons.prems(1) by (simp add: app_ok_def)
  have m: "map_of (proxies st) i = Some c" using Cons.prems(2) by (simp add: ic)
  then obtain p where p: "c = Some p" "iProxyId p = i" using fabric_proxy [OF f] by blast
  obtain v news1 where v: "map_at i news = (v, news1)" by force
  obtain p' n where s: "CloseServer (h_sys H) p (app_net st) = (p', n)" by force
  have n: "net_ok held (app_net st)" using f by (simp add: fabric_def)
  define st1 where "st1 = st\<lparr>app_net := n, proxies := map_put i (Some p') (proxies st)\<rparr>"
  have "fabric held n ((map_of (proxies st))(i \<mapsto> Some p')) (sessions st) (next_session st)"
    using fabric_close_listen [OF f, of i p n p'] CloseServer_fds [OF k n s] m p by simp
  then have ok1: "app_ok held st1" using Cons.prems(1) sorted_map_put by (simp add: st1_def app_ok_def)
  have itr: "\<forall>(j, d)\<in>set itr. map_of (proxies st1) j = Some d" using Cons.prems(2,3) by (force simp: st1_def ic)
  show ?case
    using Cons.prems Cons.IH [OF ok1 itr, of news1] Cons.IH [of st news1]
    by (auto simp: ic v p s st1_def [symmetric] Let_def split: if_splits)
qed simp

lemma proxymap_reload_ok:
  assumes k: "kernel_ok (h_sys H) held" and st: "app_ok held st" and r: "proxymap_reload H st = Some (ok, st')"
  shows "app_ok held st'"
proof -
  have glob: "app_ok held (x\<lparr>app_glob := g\<rparr>) = app_ok held x" for x g by (simp add: app_ok_def)
  obtain res g where q: "on_lib (db_query (h_env H) q_proxy 256) (app_glob st) = (res, g)" by force
  show ?thesis
  proof (cases res)
    case None
    then show ?thesis using r st by (auto simp: proxymap_reload_def q Let_def glob)
  next
    case (Some rows)
    then obtain st1 news where rr: "reload_rows H (fetch_rows (h_env H) rows) (st\<lparr>app_glob := g\<rparr>, []) = Some (st1, news)"
      using r by (auto simp: proxymap_reload_def q Let_def split: bind_splits)
    have ok1: "app_ok held st1" using reload_rows_ok [OF k _ rr] st by (simp add: glob)
    then have d: "distinct (map fst (proxies st1))" by (auto simp: app_ok_def strict_sorted_iff)
    then have "\<forall>(i, c)\<in>set (proxies st1). map_of (proxies st1) i = Some c" by auto
    then show ?thesis
      using r ok1 d remove_loop_ok [OF k, of "st1\<lparr>app_glob := g'\<rparr>" "proxies st1" news for g']
      by (auto simp: proxymap_reload_def q Let_def Some rr glob split: bind_splits if_splits)
  qed
qed

end
