(* ===== verification/FagoMain.thy ===== *)
theory FagoMain
  imports Fabric
begin

text \<open>
  The program (main.cpp): start, timer, signal and shutdown, and the runs of its event loop.  The
  files, the dynamic loader, the storage server, PCRE, the scanner, the log environment and the kernel
  are the parameters of \<open>main_start\<close>.

  \<open>app_step\<close> is one event of the loop of libevent: a client connects, a socket of a session is ready,
  the timer fires or a signal arrives.  It leaves open which events are registered and which flags they
  carry, so it has every run of the program and more; a step that is undefined has no successor.
\<close>

section \<open>Signals and the timer\<close>

definition Killer :: "('w, 'k) app \<Rightarrow> ('w, 'k) app" where
  "Killer st = st\<lparr>app_running := False\<rparr>"

text \<open>The calls \<open>dbmap_reload()\<close> or \<open>dbmap_init()\<close> on the globals.\<close>

definition on_dbmap :: "(dbmap \<Rightarrow> 'w dblib \<Rightarrow> bool \<times> dbmap \<times> 'w dblib) \<Rightarrow> 'w glob \<Rightarrow> 'w glob" where
  "on_dbmap f g = (let (ok, m, l) = f (dbsmap g) (lib (alerts g)) in g\<lparr>dbsmap := m, alerts := (alerts g)\<lparr>lib := l\<rparr>\<rparr>)"

definition h_db :: "('w, 're, 'k) host \<Rightarrow> backend_db" where
  "h_db H = sDbType (cx_conf (h_ctx H))"

definition reload_caches :: "('w, 're, 'k) host \<Rightarrow> ('w, 'k) app \<Rightarrow> ('w, 'k) app" where
  "reload_caches H st =
     (let g = on_dbmap (dbmap_reload (h_env H) (h_db H)) (app_glob st);
          g = on_alerts (agroupmap_reload (h_env H)) g
      in st\<lparr>app_glob := g\<rparr>)"

definition init_caches :: "('w, 're, 'k) host \<Rightarrow> ('w, 'k) app \<Rightarrow> ('w, 'k) app" where
  "init_caches H st =
     (let g = on_dbmap (dbmap_init (h_env H) (h_db H)) (app_glob st);
          g = on_alerts (agroupmap_init (h_env H)) g
      in st\<lparr>app_glob := g\<rparr>)"

definition clb_timeout :: "('w, 're, 'k) host \<Rightarrow> ('w, 'k) app \<Rightarrow> ('w, 'k) app option" where
  "clb_timeout H st =
     (let st = st\<lparr>timer_added := False\<rparr> in
      if \<not> app_running st then proxymap_close H st
      else let st = st\<lparr>timer_added := True, counter := counter st + 1\<rparr> in
        if counter st = 5 then do {
          (ok, st) \<leftarrow> proxymap_reload H (st\<lparr>counter := 0\<rparr>);
          Some (reload_caches H st)
        }
        else Some st)"

section \<open>The start\<close>

text \<open>\<open>conf_dir[len-1]\<close> of an empty name is out of bounds.\<close>

definition fix_dir_name :: "string \<Rightarrow> string option" where
  "fix_dir_name conf_dir =
     (if conf_dir = [] then None else if last conf_dir \<noteq> CHR ''/'' then Some (conf_dir @ ''/'') else Some conf_dir)"

definition conf_path_of :: "string list \<Rightarrow> string option" where
  "conf_path_of argv =
     (if length argv > 2 then (if cstr (argv ! 1) = ''-p'' then Some (cstr (argv ! 2)) else None)
      else if length argv > 1 then None else Some ''./'')"

definition app_start :: "'w glob \<Rightarrow> 'k \<Rightarrow> ('w, 'k) app" where
  "app_start g k = \<lparr>app_glob = g, app_net = \<lparr>kern = k, open_fds = {}\<rparr>, proxies = [], sessions = Map.empty,
     next_session = 0, app_running = True, counter = 0, timer_added = True\<rparr>"

record ('w, 're, 'k) platform =
  pf_files :: "string \<Rightarrow> string option"
  pf_dlopen :: "string \<Rightarrow> bool"
  pf_dlsym :: "string option \<Rightarrow> db_sym \<Rightarrow> bool"
  pf_server :: "'w server"
  pf_world :: 'w
  pf_pcre :: "'re pcre"
  pf_log :: logenv
  pf_sys :: "'k sys"
  pf_kern :: 'k

text \<open>\<open>main\<close> up to the event loop: \<open>Inl\<close> is the exit status of an early return.\<close>

definition main_start :: "('w, 're, 'k) platform \<Rightarrow> string list \<Rightarrow> (int + ('w, 're, 'k) host \<times> ('w, 'k) app) option" where
  "main_start F argv = (case conf_path_of argv of None \<Rightarrow> Some (Inl (-1)) | Some path0 \<Rightarrow> do {
     path \<leftarrow> fix_dir_name path0;
     let (cfg, ok) = config_load (pf_files F) path config_init;
     if \<not> ok then Some (Inl (-1)) else do {
     let (ok, ls) = log_init (pf_log F) (log_file cfg) (log_level cfg) log_start;
     if \<not> ok then Some (Inl (-1)) else do {
     let (ok, ls) = Log_init (pf_log F) (file_event cfg) (log_level cfg) ls;
     if \<not> ok then Some (Inl (-1)) else do {
     let (ok, ls) = LogInit (pf_log F) (file_alert cfg) (log_level cfg) ls;
     if \<not> ok then Some (Inl (-1)) else do {
     let (ok, E, l) = load_db (pf_dlopen F) (pf_dlsym F) cfg \<lparr>api = api_start, srv = pf_server F\<rparr>
                        \<lparr>pgres_temp = PgNull, ub = False, world = pf_world F\<rparr>;
     if \<not> ok then Some (Inl (-1)) else do {
     let (my, ok) = mysql_patterns_init (pf_pcre F) (pf_files F) path patterns_clear;
     if \<not> ok then Some (Inl (-1)) else do {
     let (pg, ok) = pgsql_patterns_init (pf_pcre F) (pf_files F) path patterns_clear;
     if \<not> ok then Some (Inl (-1)) else do {
     let H = \<lparr>h_ctx = \<lparr>cx_env = E, cx_conf = cfg, cx_pcre = pf_pcre F, cx_log = pf_log F\<rparr>,
              h_mysql_patterns = my, h_pgsql_patterns = pg, h_sys = pf_sys F\<rparr>;
     let g = \<lparr>alerts = \<lparr>agroupmap = Map.empty, lib = l\<rparr>, scanner = flex_start, parser = parse_start, dbsmap = dbmap_start, logs = ls, status = WARN\<rparr>;
     (ok, st) \<leftarrow> proxymap_init H (app_start g (pf_kern F));
     if \<not> ok then Some (Inl 0) else Some (Inr (H, init_caches H st))
   }}}}}}}})"

text \<open>\<open>main\<close> after the event loop.\<close>

definition main_finish :: "('w, 're, 'k) host \<Rightarrow> ('w, 'k) app \<Rightarrow> ('w, 'k) app option" where
  "main_finish H st = do {
     st \<leftarrow> proxymap_close H st;
     let g = app_glob st;
     let g = g\<lparr>dbsmap := snd (dbmap_close (dbsmap g))\<rparr>;
     let g = g\<lparr>logs := log_close (logs g)\<rparr>;
     let (obj, l) = config_free (h_env H) (Some (cx_conf (h_ctx H))) (lib (alerts g));
     Some (st\<lparr>app_glob := g\<lparr>alerts := (alerts g)\<lparr>lib := l\<rparr>\<rparr>\<rparr>)
   }"

section \<open>The event loop\<close>

inductive app_step :: "('w, 're, 'k) host \<Rightarrow> ('w, 'k) app \<Rightarrow> ('w, 'k) app \<Rightarrow> bool" for H :: "('w, 're, 'k) host" where
  accept: "map_of (proxies st) k = Some (Some p) \<Longrightarrow> fd_set (serverEvent p) \<Longrightarrow>
    wrap_Server H (ev_fd (serverEvent p)) (iProxyId p) st = Some st' \<Longrightarrow> app_step H st st'"
| client: "sessions st a = Some x \<Longrightarrow> wrap_Proxy H (front_fd x) w a st = Some st' \<Longrightarrow> app_step H st st'"
| backend: "sessions st a = Some x \<Longrightarrow> wrap_Backend H (back_fd x) w a st = Some st' \<Longrightarrow> app_step H st st'"
| timer: "timer_added st \<Longrightarrow> clb_timeout H st = Some st' \<Longrightarrow> app_step H st st'"
| signal: "app_step H st (Killer st)"

inductive app_run :: "('w, 're, 'k) host \<Rightarrow> 'w glob \<Rightarrow> 'k \<Rightarrow> ('w, 'k) app \<Rightarrow> bool" for H :: "('w, 're, 'k) host" and g k where
  start: "proxymap_init H (app_start g k) = Some (True, st) \<Longrightarrow> app_run H g k (init_caches H st)"
| step: "app_run H g k st \<Longrightarrow> app_step H st st' \<Longrightarrow> app_run H g k st'"

section \<open>The invariant of the runs\<close>

lemma app_start_ok: "app_ok held (app_start g k)"
proof -
  have "fd_of Map.empty Map.empty u = None" for u by (cases u) simp_all
  then show ?thesis by (simp add: app_ok_def app_start_def fabric_def net_ok_def exact_def ran_def dom_def)
qed

lemma app_ok_simps [simp]:
  "app_ok held (Killer st) = app_ok held st" "app_ok held (init_caches H st) = app_ok held st"
  "app_ok held (reload_caches H st) = app_ok held st" "app_ok held (st\<lparr>timer_added := b\<rparr>) = app_ok held st"
  "app_ok held (st\<lparr>counter := n\<rparr>) = app_ok held st"
  by (simp_all add: app_ok_def Killer_def init_caches_def reload_caches_def Let_def)

lemma clb_timeout_ok:
  assumes "kernel_ok (h_sys H) held" "app_ok held st" "clb_timeout H st = Some st'"
  shows "app_ok held st'"
  using assms proxymap_close_ok [OF assms(1), of "st\<lparr>timer_added := False\<rparr>"]
    proxymap_reload_ok [OF assms(1), of "st\<lparr>timer_added := True, counter := 0\<rparr>"]
  by (auto simp: clb_timeout_def Let_def split: if_splits bind_splits)

lemma app_step_ok:
  assumes k: "kernel_ok (h_sys H) held" and st: "app_ok held st" and s: "app_step H st st'"
  shows "app_ok held st'"
  using s
proof cases
  case (accept i p)
  then have "iProxyId p = i" "i \<in> dom (map_of (proxies st))" using st fabric_proxy by (fastforce simp: app_ok_def)+
  then show ?thesis using wrap_Server_ok [OF k st, of i "ev_fd (serverEvent p)"] accept by auto
next
  case (client a x w)
  then show ?thesis using wrap_ok [OF k st] by blast
next
  case (backend a x w)
  then show ?thesis using wrap_ok [OF k st] by blast
next
  case timer
  then show ?thesis using clb_timeout_ok [OF k st] by blast
next
  case signal
  then show ?thesis using st by simp
qed

lemma app_run_ok:
  assumes k: "kernel_ok (h_sys H) held"
  shows "app_run H g k0 st \<Longrightarrow> app_ok held st"
proof (induction rule: app_run.induct)
  case (start st)
  then show ?case using proxymap_reload_ok [OF k app_start_ok] by (auto simp: proxymap_init_def split: bind_splits)
next
  case (step st st')
  then show ?case using app_step_ok [OF k] by blast
qed

text \<open>The program that started is in its event loop.\<close>

lemma main_start_run: "main_start F argv = Some (Inr (H, st)) \<Longrightarrow> \<exists>g. app_run H g (pf_kern F) st"
  by (auto simp: main_start_def Let_def split: option.splits prod.splits if_splits bind_splits dest: app_run.start)

section \<open>A small run\<close>

text \<open>A kernel whose state is the list of the open descriptors: every socket call succeeds, a read delivers
  the bytes \<open>d\<close> and a write would block.  The proxy table has one row.\<close>

definition demo_fd :: "int list \<Rightarrow> int \<times> int list" where
  "demo_fd l = (let fd = fold max l 0 + 1 in (fd, fd # l))"

definition demo_sys :: "string \<Rightarrow> int list sys" where
  "demo_sys d = \<lparr>sys_socket = demo_fd, sys_setsockopt = (\<lambda>fd x l. l), sys_getfl = (\<lambda>fd l. (0, l)),
     sys_setfl_nonblock = (\<lambda>fd x l. (0, l)), sys_bind = (\<lambda>fd a x l. (0, l)), sys_listen = (\<lambda>fd x l. (0, l)),
     sys_connect = (\<lambda>fd a x l. (0, l)), sys_accept = (\<lambda>fd. demo_fd), sys_recv = (\<lambda>fd m l. if m < length d then (0, [], l) else (int (length d), d, l)),
     sys_send = (\<lambda>fd b l. (-1, l)), sys_close = (\<lambda>fd. filter (\<lambda>x. x \<noteq> fd)), sys_errno = (\<lambda>l. EAGAIN),
     sys_peer = (\<lambda>fd l. Some ''10.0.0.2'')\<rparr>"

lemma fold_max_ge: "(x :: int) \<in> insert b (set l) \<Longrightarrow> x \<le> fold max l b"
  using Max_ge [of "set (b # l)" x] unfolding Max.set_eq_fold by simp

lemma demo_fd_new: "new_fd set l (fst (demo_fd l)) (snd (demo_fd l))"
  using fold_max_ge [of _ 0 l] by (fastforce simp: new_fd_def demo_fd_def Let_def)

lemma demo_kernel: "kernel_ok (demo_sys d) set"
  using demo_fd_new by (auto simp: kernel_ok_def demo_sys_def)

definition demo_row :: "string \<Rightarrow> row" where
  "demo_row type = [''1'', [], ''3306'', ''db'', ''10.0.0.1'', ''3306'', type]"

definition demo_host :: "string \<Rightarrow> string \<Rightarrow> (unit, unit, int list) host" where
  "demo_host d type = \<lparr>h_ctx = demo_ctx (Tuples_ok [demo_row type]), h_mysql_patterns = patterns_clear,
     h_pgsql_patterns = patterns_clear, h_sys = (demo_sys d)\<rparr>"

definition demo_proxy :: "string \<Rightarrow> Proxy" where
  "demo_proxy type = \<lparr>v_conn = [], serverEvent = \<lparr>ev_fd = 1, ev_added = True\<rparr>, iProxyId = 1, sBackendName = ''db'',
     sBackendIP = ''10.0.0.1'', iBackendPort = 3306, sProxyIP = ''0.0.0.0'', iProxyPort = 3306, sDBType = type,
     DBType = (if type = ''pgsql'' then DBTypePGSQL else DBTypeMySQL)\<rparr>"

lemma demo_env_simps [simp]:
  "h_env (demo_host d type) = demo_env (Tuples_ok [demo_row type])" "h_sys (demo_host d type) = (demo_sys d)"
  by (simp_all add: h_env_def demo_host_def demo_ctx_def)

lemma demo_query [simp]: "on_lib (db_query (demo_env (Tuples_ok rows)) q_proxy 256) g =
    (Some rows, g\<lparr>alerts := (alerts g)\<lparr>lib := lib (alerts g)\<rparr>\<rparr>)"
  by (simp add: on_lib_def db_query_def lib_db_query_def run_server_def Let_def demo_defs q_proxy_def cstr_def)

lemma demo_fetch [simp]: "fetch_rows (demo_env r) rows = rows"
  by (rule fetch_rows_loaded) (simp add: demo_defs)

lemma demo_cols [simp]:
  "db_col_int (demo_env r) (demo_row t) 0 = 1" "db_col_int (demo_env r) (demo_row t) 2 = 3306" "db_col_int (demo_env r) (demo_row t) 5 = 3306"
  "db_col_text (demo_env r) (demo_row t) 3 = ''db''" "db_col_text (demo_env r) (demo_row t) 4 = ''10.0.0.1''"
  "db_col_text (demo_env r) (demo_row t) 6 = t"
  by (simp_all add: db_col_int_def lib_db_col_int_def db_col_text_def lib_db_col_text_def cell_def demo_defs demo_row_def atoi_def
      c_isspace_def is_digit_def byte_def)

lemma demo_listen: "server_socket (demo_sys d) ip port \<lparr>kern = [], open_fds = {}\<rparr> = (1, \<lparr>kern = [1], open_fds = {1}\<rparr>)"
  by (simp add: server_socket_def new_socket_def got_fd_def kcall_def set_nonblock_def setsockopts_def demo_sys_def demo_fd_def Let_def)

lemma demo_ProxyInit:
  assumes "type = ''mysql'' \<or> type = ''pgsql''"
  shows "ProxyInit (demo_sys d) 1 ''0.0.0.0'' 3306 ''db'' ''10.0.0.1'' 3306 type new_Proxy \<lparr>kern = [], open_fds = {}\<rparr> =
    (True, demo_proxy type, \<lparr>kern = [1], open_fds = {1}\<rparr>)"
  using assms
  by (auto simp: ProxyInit_def Let_def demo_listen new_Proxy_def demo_proxy_def strcaseeq_def cstr_def event_add_def event_set_def
      tolower_def is_upper_def byte_def)

lemma demo_reload_row:
  assumes "type = ''mysql'' \<or> type = ''pgsql''"
  shows "reload_row (demo_host d type) (demo_row type) (app_start g [], []) =
    Some ((set_status (demo_host d type) 1 1 ((app_start g [])\<lparr>app_net := \<lparr>kern = [1], open_fds = {1}\<rparr>\<rparr>))\<lparr>proxies := [(1, Some (demo_proxy type))]\<rparr>,
      [(1, Some (demo_proxy type))])"
proof -
  have c: "cstr ''db'' = ''db''" "cstr ''10.0.0.1'' = ''10.0.0.1''" "cstr type = type" using assms by (auto simp: cstr_def)
  show ?thesis
    by (simp add: reload_row_def Let_def c demo_ProxyInit [OF assms] app_start_def)
qed

lemma demo_init:
  assumes "type = ''mysql'' \<or> type = ''pgsql''"
  shows "\<exists>st. proxymap_init (demo_host d type) (app_start g []) = Some (True, st) \<and> app_net st = \<lparr>kern = [1], open_fds = {1}\<rparr> \<and>
    proxies st = [(1, Some (demo_proxy type))] \<and> sessions st = Map.empty \<and> next_session st = 0 \<and> app_running st"
proof -
  have g: "(app_start g [])\<lparr>app_glob := g\<lparr>alerts := (alerts g)\<lparr>lib := lib (alerts g)\<rparr>\<rparr>\<rparr> = app_start g []" by (simp add: app_start_def)
  show ?thesis
    by (simp add: proxymap_init_def proxymap_reload_def Let_def g demo_reload_row [OF assms] del: fetch_rows.simps)
       (simp add: app_start_def set_status_def)
qed

text \<open>A client connects and sends two bytes.\<close>

lemma demo_accept:
  assumes "fds = {1}"
  shows "PrepareNewConn (demo_sys d) (demo_proxy t) 1 \<lparr>kern = [1], open_fds = fds\<rparr> = (True, 2, 3, \<lparr>kern = [3, 2, 1], open_fds = {3, 2} \<union> fds\<rparr>)"
  by (simp add: PrepareNewConn_def socket_accept_def client_socket_def new_socket_def got_fd_def kcall_def set_nonblock_def
      setsockopts_def demo_sys_def demo_fd_def Let_def demo_proxy_def)

lemma demo_read: "d \<noteq> [] \<Longrightarrow> length d < 100 \<Longrightarrow>
    socket_read (demo_sys d) fd (min_buf_size - 1) n = (True, d, int (length d), n)"
  by (simp add: socket_read_def demo_sys_def min_buf_size_def)

lemma demo_short_pg:
  "pg_parseRequest X pats c g = Some (True, [], False, c, g)" if "length (buff (request_in c)) < 5" for c
  using that by (simp add: pg_parseRequest_def raw_def Let_def Buffer_size_def)

lemma demo_cb:
  assumes "buff (request_in (conn s)) = []" "from_client s = []"
    "\<And>c. length (buff (request_in c)) < 3 \<Longrightarrow> parseRequest V c g = Some (True, [], False, c, g)"
  shows "\<exists>s'. Proxy_cb V (demo_sys ''ab'') fd \<lparr>EV_READ = True, EV_WRITE = False\<rparr> s n g = Some (Some s', n, g) \<and> from_client s' = ''ab''"
  using assms
  by (simp add: Proxy_cb_def demo_read ProxyValidateClientRequest_def Let_def Buffer_append_def del: One_nat_def)

text \<open>The smallest packet: it is too short for a login, and forwarded nevertheless.\<close>

definition demo_packet :: string where
  "demo_packet = [CHR 0x01, NUL, NUL, NUL, CHR ''x'']"

lemma demo_parse:
  assumes "first_request c" "buff (request_in c) = demo_packet"
  shows "my_parseRequest X pats c g = Some (True, demo_packet, False, c\<lparr>request_in := (request_in c)\<lparr>buff := []\<rparr>\<rparr>, g)"
proof -
  have n: "le24 demo_packet 0 = 1" by (simp add: le24_def demo_packet_def numeral_2_eq_2 byte_def)
  have "ParseRequestPacket X pats demo_packet 5 c False g = Some (False, c, False, g)"
    using assms(1) by (simp add: ParseRequestPacket_def my_login_def)
  then have "my_request_loop X pats demo_packet 0 c False g = Some (5, c, False, g)"
    by (subst my_request_loop.simps) (simp add: n, simp add: demo_packet_def)
  then show ?thesis
    using pop_int [of _ "[]" 5] by (simp add: my_parseRequest_def raw_def assms(2) n Let_def) (simp add: demo_packet_def assms(2))
qed

lemma demo_cb_mysql:
  assumes "buff (request_in (conn s)) = []" "from_client s = []" "first_request (conn s)" "first_response (conn s)"
    "buff (request_out (conn s)) = []"
  shows "\<exists>s'. Proxy_cb (mysql_vtable H) (demo_sys demo_packet) fd \<lparr>EV_READ = True, EV_WRITE = False\<rparr> s n g = Some (Some s', n, g) \<and>
    from_client s' = demo_packet \<and> buff (request_out (conn s')) = demo_packet"
proof -
  have r: "socket_read (demo_sys demo_packet) fd (min_buf_size - 1) n = (True, demo_packet, 5, n)"
    using demo_read [of demo_packet fd n] by (simp add: demo_packet_def)
  have l: "take 5 demo_packet = demo_packet" "length demo_packet = 5" by (simp_all add: demo_packet_def)
  define c where "c = (conn s)\<lparr>request_in := Buffer_append (request_in (conn s)) demo_packet 5\<rparr>"
  have c: "first_request c" "buff (request_in c) = demo_packet" using assms l by (simp_all add: c_def Buffer_append_def)
  have p: "parseRequest (mysql_vtable H) c g = Some (True, demo_packet, False, c\<lparr>request_in := (request_in c)\<lparr>buff := []\<rparr>\<rparr>, g)"
    using demo_parse [OF c] by (simp add: mysql_vtable_def)
  have w: "socket_write (demo_sys demo_packet) f b n = (True, 0, n)" for f b
    by (simp add: socket_write_def demo_sys_def would_block_def)
  have e: "demo_packet \<noteq> []" by (simp add: demo_packet_def)
  show ?thesis
    using assms
    by (simp add: Proxy_cb_def r ProxyValidateClientRequest_def Let_def c_def [symmetric] p del: One_nat_def)
       (simp add: Backend_write_cb_def Let_def w c_def Buffer_append_def l e raw_def chop_back_def Buffer_size_def)
qed

definition demo_glob0 :: "unit glob" where
  "demo_glob0 = demo_glob new_DBPermObj"

lemma demo_accepted:
  assumes t: "type = ''mysql'' \<or> type = ''pgsql''"
  shows "\<exists>st. app_run (demo_host d type) demo_glob0 [] st \<and> app_running st \<and>
    (if type = ''mysql'' then \<exists>s. sessions st 0 = Some (MySQL_session s) \<and> buff (request_in (conn s)) = [] \<and> from_client s = [] \<and>
        first_request (conn s) \<and> first_response (conn s) \<and> buff (request_out (conn s)) = []
     else \<exists>s. sessions st 0 = Some (PgSQL_session s) \<and> buff (request_in (conn s)) = [] \<and> from_client s = [])"
proof -
  obtain st0 where i: "proxymap_init (demo_host d type) (app_start demo_glob0 []) = Some (True, st0)"
    and st0: "app_net st0 = \<lparr>kern = [1], open_fds = {1}\<rparr>" "proxies st0 = [(1, Some (demo_proxy type))]" "sessions st0 = Map.empty"
      "next_session st0 = 0" "app_running st0"
    using demo_init [OF t, of d demo_glob0] by blast
  define st1 where "st1 = init_caches (demo_host d type) st0"
  have r: "app_run (demo_host d type) demo_glob0 [] st1" unfolding st1_def by (rule app_run.start [OF i])
  have st1: "app_net st1 = \<lparr>kern = [1], open_fds = {1}\<rparr>" "proxies st1 = [(1, Some (demo_proxy type))]" "sessions st1 = Map.empty"
      "next_session st1 = 0" "app_running st1" "app_glob st1 = app_glob st1"
    using st0 by (simp_all add: st1_def init_caches_def Let_def)
  let ?p = "demo_proxy type"
  have p: "map_of (proxies st1) 1 = Some (Some ?p)" "fd_set (serverEvent ?p)" "ev_fd (serverEvent ?p) = 1" "iProxyId ?p = 1"
    using st1(2) by (simp_all add: demo_proxy_def fd_set_def)
  have at: "map_at 1 [(1, Some ?p)] = (Some ?p, [(1, Some ?p)])" by (simp add: map_at_def)
  show ?thesis
  proof (cases "type = ''mysql''")
    case True
    then have d: "DBType ?p = DBTypeMySQL" by (simp add: demo_proxy_def)
    obtain s p' where c: "Server_cb (demo_sys d) 0 (new_MySQLConnection (dbsmap (app_glob st1)) 1) 2 3 ?p \<lparr>kern = [3, 2, 1], open_fds = {1, 3, 2}\<rparr> = (s, p')"
      by force
    have s: "buff (request_in (conn s)) = []" "from_client s = []" "first_request (conn s)" "first_response (conn s)"
      "buff (request_out (conn s)) = []"
      using c new_connections
      by (auto simp: Server_cb_def Let_def new_MySQLConnection_def new_Connection_def Connection.Connection.defs split: option.splits)
    obtain st2 where w: "wrap_Server (demo_host d type) 1 1 st1 = Some st2" "sessions st2 0 = Some (MySQL_session s)" "app_running st2"
      using c st1 by (simp add: wrap_Server_def at demo_accept d Let_def)
    have "app_run (demo_host d type) demo_glob0 [] st2"
      using app_run.step [OF r app_step.accept [OF p(1,2), of "demo_host d type"]] w(1) p(3,4) by simp
    then show ?thesis using w s True by auto
  next
    case False
    then have d: "DBType ?p = DBTypePGSQL" using t by (simp add: demo_proxy_def)
    obtain s p' where c: "Server_cb (demo_sys d) 0 (new_PgSQLConnection (dbsmap (app_glob st1)) 1) 2 3 ?p \<lparr>kern = [3, 2, 1], open_fds = {1, 3, 2}\<rparr> = (s, p')"
      by force
    have s: "buff (request_in (conn s)) = []" "from_client s = []"
      using c new_connections by (auto simp: Server_cb_def Let_def split: option.splits)
    obtain st2 where w: "wrap_Server (demo_host d type) 1 1 st1 = Some st2" "sessions st2 0 = Some (PgSQL_session s)" "app_running st2"
      using c st1 by (simp add: wrap_Server_def at demo_accept d Let_def)
    have "app_run (demo_host d type) demo_glob0 [] st2"
      using app_run.step [OF r app_step.accept [OF p(1,2), of "demo_host d type"]] w(1) p(3,4) by simp
    then show ?thesis using w s False by auto
  qed
qed

lemma demo_mysql_run: "\<exists>st s. app_run (demo_host demo_packet ''mysql'') demo_glob0 [] st \<and> sessions st 0 = Some (MySQL_session s) \<and>
    from_client s = demo_packet \<and> buff (request_out (conn s)) = demo_packet"
proof -
  let ?H = "demo_host demo_packet ''mysql''"
  obtain st s where r: "app_run ?H demo_glob0 [] st" "app_running st" "sessions st 0 = Some (MySQL_session s)"
    "buff (request_in (conn s)) = []" "from_client s = []" "first_request (conn s)" "first_response (conn s)" "buff (request_out (conn s)) = []"
    using demo_accepted [of "''mysql''" demo_packet] by auto
  obtain s' where c: "Proxy_cb (mysql_vtable ?H) (demo_sys demo_packet) (front_fd (MySQL_session s)) \<lparr>EV_READ = True, EV_WRITE = False\<rparr> s
      (app_net st) (app_glob st) = Some (Some s', app_net st, app_glob st)"
      "from_client s' = demo_packet" "buff (request_out (conn s')) = demo_packet"
    using demo_cb_mysql [OF r(4-8)] by blast
  have "wrap_Proxy ?H (front_fd (MySQL_session s)) \<lparr>EV_READ = True, EV_WRITE = False\<rparr> 0 st =
      Some (st\<lparr>sessions := (sessions st)(0 \<mapsto> MySQL_session s')\<rparr>)"
    using r c by (simp add: wrap_Proxy_def put_session_def)
  from app_run.step [OF r(1) app_step.client [OF r(3) this]] c(2,3) show ?thesis by auto
qed

lemma demo_pgsql_run: "\<exists>st s. app_run (demo_host ''ab'' ''pgsql'') demo_glob0 [] st \<and> sessions st 0 = Some (PgSQL_session s) \<and> from_client s = ''ab''"
proof -
  let ?H = "demo_host ''ab'' ''pgsql''"
  obtain st s where r: "app_run ?H demo_glob0 [] st" "app_running st" "sessions st 0 = Some (PgSQL_session s)"
    "buff (request_in (conn s)) = []" "from_client s = []" using demo_accepted [of "''pgsql''" "''ab''"] by auto
  have sh: "parseRequest (pgsql_vtable ?H) c g = Some (True, [], False, c, g)" if "length (buff (request_in c)) < 3" for c g
    using that by (simp add: pgsql_vtable_def demo_short_pg)
  obtain s' where c: "Proxy_cb (pgsql_vtable ?H) (demo_sys ''ab'') (front_fd (PgSQL_session s)) \<lparr>EV_READ = True, EV_WRITE = False\<rparr> s (app_net st) (app_glob st) =
      Some (Some s', app_net st, app_glob st)" "from_client s' = ''ab''"
    using demo_cb [OF r(4,5) sh] by blast
  have "wrap_Proxy ?H (front_fd (PgSQL_session s)) \<lparr>EV_READ = True, EV_WRITE = False\<rparr> 0 st =
      Some (st\<lparr>sessions := (sessions st)(0 \<mapsto> PgSQL_session s')\<rparr>)"
    using r c by (simp add: wrap_Proxy_def put_session_def)
  from app_run.step [OF r(1) app_step.client [OF r(3) this]] c(2) show ?thesis by auto
qed

section \<open>The running firewall\<close>

text \<open>C2: at every point of every run of the firewall, under every interleaving of clients,
  servers, timer and signals, the bytes a MySQL client has sent are exactly those its server received,
  those waiting for the server and those not yet parsed, in this order.  So the proxy neither loses,
  duplicates, alters nor inserts a request byte, and it also forwards the queries it reports as blocked.\<close>

theorem mysql_requests_forwarded:
  assumes "kernel_ok (h_sys H) held" "app_run H g k st" "sessions st a = Some (MySQL_session s)"
  shows "from_client s = to_backend s @ buff (request_out (conn s)) @ buff (request_in (conn s))"
  using app_ok_session(1) [OF app_run_ok [OF assms(1,2)] assms(3)] by (simp add: any_session_views request_stream_def)

theorem mysql_requests_forwarded_witness:
  "\<exists>st s. sessions st 0 = Some (MySQL_session s) \<and> app_run (demo_host demo_packet ''mysql'') demo_glob0 [] st \<and>
     demo_packet = to_backend s @ buff (request_out (conn s)) @ buff (request_in (conn s))"
proof -
  obtain st s where r: "app_run (demo_host demo_packet ''mysql'') demo_glob0 [] st" "sessions st 0 = Some (MySQL_session s)" "from_client s = demo_packet"
    using demo_mysql_run by blast
  from mysql_requests_forwarded [of "demo_host demo_packet ''mysql''", OF _ r(1,2)] demo_kernel r show ?thesis by auto
qed

text \<open>C5: at every point of every run a PostgreSQL server has received only bytes its client
  sent, in the order the client sent them.\<close>

theorem pgsql_requests_in_order:
  assumes "kernel_ok (h_sys H) held" "app_run H g k st" "sessions st a = Some (PgSQL_session s)"
  shows "subseq (to_backend s @ buff (request_out (conn s)) @ buff (request_in (conn s))) (from_client s)"
  using app_ok_session(1) [OF app_run_ok [OF assms(1,2)] assms(3)] by (simp add: any_session_views request_stream_def)

theorem pgsql_requests_in_order_witness:
  "\<exists>st s. sessions st 0 = Some (PgSQL_session s) \<and> app_run (demo_host ''ab'' ''pgsql'') demo_glob0 [] st \<and>
     subseq (to_backend s @ buff (request_out (conn s)) @ buff (request_in (conn s))) ''ab''"
proof -
  obtain st s where r: "app_run (demo_host ''ab'' ''pgsql'') demo_glob0 [] st" "sessions st 0 = Some (PgSQL_session s)" "from_client s = ''ab''"
    using demo_pgsql_run by blast
  from pgsql_requests_in_order [of "demo_host ''ab'' ''pgsql''", OF _ r(1,2)] demo_kernel r show ?thesis by auto
qed

definition pending_request :: "any_session \<Rightarrow> bool" where
  "pending_request x = (case x of MySQL_session s \<Rightarrow> buff (request_out (conn s)) \<noteq> [] | PgSQL_session s \<Rightarrow> buff (request_out (conn s)) \<noteq> [])"

definition awaits_server :: "any_session \<Rightarrow> bool" where
  "awaits_server x = (case x of MySQL_session s \<Rightarrow> ev_added (backend_event_writer s) | PgSQL_session s \<Rightarrow> ev_added (backend_event_writer s))"

text \<open>C4: no lost wakeup towards the servers: whenever bytes wait for a server, in any state
  of any run, the writing event of its socket is registered, so they are sent as soon as the server
  takes them.\<close>

theorem pending_requests_armed:
  assumes "kernel_ok (h_sys H) held" "app_run H g k st" "sessions st a = Some x" "pending_request x"
  shows "awaits_server x"
  using app_ok_session(1) [OF app_run_ok [OF assms(1,2)] assms(3)] assms(4)
  by (cases x) (simp_all add: any_session_views request_armed_def pending_request_def awaits_server_def)

theorem pending_requests_armed_witness:
  "\<exists>st s. sessions st 0 = Some (MySQL_session s) \<and> app_run (demo_host demo_packet ''mysql'') demo_glob0 [] st \<and>
     buff (request_out (conn s)) \<noteq> [] \<and> awaits_server (MySQL_session s)"
proof -
  obtain st s where r: "app_run (demo_host demo_packet ''mysql'') demo_glob0 [] st" "sessions st 0 = Some (MySQL_session s)"
    "buff (request_out (conn s)) = demo_packet" using demo_mysql_run by blast
  have p: "pending_request (MySQL_session s)" using r(3) by (simp add: pending_request_def demo_packet_def)
  have k: "kernel_ok (h_sys (demo_host demo_packet ''mysql'')) set" by (simp add: demo_kernel)
  have "buff (request_out (conn s)) \<noteq> []" using r(3) by (simp add: demo_packet_def)
  with pending_requests_armed [OF k r(1,2) p] r(1,2) show ?thesis by blast
qed

text \<open>C3: no descriptor leaks or is used twice: in every state of every run, the error
  paths of accepting, connecting, listening and reloading included, every descriptor the process holds
  belongs to exactly one user, a listening proxy or one side of one live session.\<close>

theorem descriptors_exact:
  assumes "kernel_ok (h_sys H) held" "app_run H g k st"
  shows "ran (fd_of (map_of (proxies st)) (sessions st)) = open_fds (app_net st) \<and>
    inj_on (fd_of (map_of (proxies st)) (sessions st)) (dom (fd_of (map_of (proxies st)) (sessions st)))"
  using app_run_ok [OF assms] by (simp add: app_ok_def fabric_def exact_def)

theorem descriptors_exact_witness:
  "\<exists>st s. sessions st 0 = Some (MySQL_session s) \<and> app_run (demo_host demo_packet ''mysql'') demo_glob0 [] st \<and>
     ran (fd_of (map_of (proxies st)) (sessions st)) = open_fds (app_net st)"
proof -
  obtain st s where r: "app_run (demo_host demo_packet ''mysql'') demo_glob0 [] st" "sessions st 0 = Some (MySQL_session s)"
    using demo_mysql_run by blast
  from descriptors_exact [of "demo_host demo_packet ''mysql''", OF _ r(1)] demo_kernel r show ?thesis by auto
qed



text \<open>A reload that finds the proxy table empty while a proxy without sessions is first in
  the map is undefined: it erases the entry its loop iterator points to and then increments the iterator.\<close>

theorem idle_proxy_removal_undefined:
  assumes "fst (on_lib (db_query (h_env H) q_proxy 256) (app_glob st)) = Some []"
    and "proxies st = (i, Some p) # ps" "\<not> HasActiveConnections p"
  shows "proxymap_reload H st = None"
  using assms by (cases "on_lib (db_query (h_env H) q_proxy 256) (app_glob st)") (simp add: proxymap_reload_def Let_def map_at_def)

theorem idle_proxy_removal_undefined_witness:
  "proxymap_reload \<lparr>h_ctx = demo_ctx (Tuples_ok []), h_mysql_patterns = patterns_clear, h_pgsql_patterns = patterns_clear, h_sys = demo_sys []\<rparr>
     ((app_start demo_glob0 [])\<lparr>proxies := [(1, Some (demo_proxy ''mysql''))]\<rparr>) = None"
  by (rule idle_proxy_removal_undefined [of _ _ 1 "demo_proxy ''mysql''" "[]"])
     (simp_all add: h_env_def demo_ctx_def HasActiveConnections_def demo_proxy_def app_start_def)

text \<open>The status of a proxy that cannot listen never shows the failure: after status 2
  (failed) is written, \<open>Close\<close> overwrites it with 0, so every reload tries the row again.\<close>

theorem failed_proxy_status:
  assumes "map_of (proxies st) (db_col_int (h_env H) r 0) = None"
    and "fst (server_socket (h_sys H) ''0.0.0.0'' (db_col_int (h_env H) r 2) (app_net st)) = -1"
  shows "\<exists>st'. reload_row H r (st, news) = Some (st', news) \<and> proxies st' = proxies st \<and>
    app_glob st' = snd (proxymap_set_db_status (h_env H) (db_col_int (h_env H) r 0) 0
      (snd (proxymap_set_db_status (h_env H) (db_col_int (h_env H) r 0) 2 (app_glob st))))"
  using assms
  by (cases "server_socket (h_sys H) ''0.0.0.0'' (db_col_int (h_env H) r 2) (app_net st)")
     (simp add: reload_row_def Let_def ProxyInit_def Proxy_Close_def CloseServer_def ServerInitialized_def fd_set_def new_Proxy_def
       set_status_def split_beta)

theorem failed_proxy_status_witness:
  "\<exists>st'. reload_row ((demo_host [] ''mysql'')\<lparr>h_sys := (demo_sys [])\<lparr>sys_socket := (\<lambda>l. (-1, l))\<rparr>\<rparr>) (demo_row ''mysql'')
     (app_start demo_glob0 [], []) = Some (st', []) \<and> proxies st' = []"
proof -
  let ?H = "(demo_host [] ''mysql'')\<lparr>h_sys := (demo_sys [])\<lparr>sys_socket := (\<lambda>l. (-1, l))\<rparr>\<rparr>"
  have "map_of (proxies (app_start demo_glob0 [])) (db_col_int (h_env ?H) (demo_row ''mysql'') 0) = None" by (simp add: app_start_def)
  moreover have "fst (server_socket (h_sys ?H) ''0.0.0.0'' (db_col_int (h_env ?H) (demo_row ''mysql'') 2) (app_net (app_start demo_glob0 []))) = -1"
    by (simp add: server_socket_def new_socket_def got_fd_def demo_sys_def)
  ultimately show ?thesis using failed_proxy_status [of "app_start demo_glob0 []" ?H "demo_row ''mysql''" "[]"] by (auto simp: app_start_def)
qed

end
