(* ===== verification/Derive.thy ===== *)
theory Derive
  imports QueryParse
begin

text \<open>
  What \<open>yyparse\<close> accepts.  The states of its stack stand for symbols of the grammar of \<open>Grammar\<close> that
  derive, together, the tokens shifted so far; a run that returns 0 has read a sentence.
\<close>

section \<open>Derivations\<close>

inductive derives :: "int \<Rightarrow> int list \<Rightarrow> bool" where
  token: "\<lbrakk>0 \<le> y; y \<le> 83\<rbrakk> \<Longrightarrow> derives y [y]"
| rule: "\<lbrakk>tab_at sql_rules r = Some (a, xs); list_all2 derives xs ws\<rbrakk> \<Longrightarrow> derives a (concat ws)"

lemma rule_heads: "all_from (\<lambda>r (a, xs). 84 \<le> a) 0 sql_rules"
  unfolding sql_rules_rows by simp

lemma derives_token: "derives y w \<Longrightarrow> y \<le> 83 \<Longrightarrow> w = [y]"
  by (cases rule: derives.cases) (use all_fromD [OF rule_heads] in fastforce)+

section \<open>Tokens read\<close>

inductive lexed :: "'s yy_lexer \<Rightarrow> 's \<Rightarrow> int list \<Rightarrow> 's \<Rightarrow> bool" for next_token :: "'s yy_lexer" and s where
  none: "lexed next_token s [] s"
| more: "\<lbrakk>lexed next_token s ts s'; next_token s' st = Inr (t, v, s'', st')\<rbrakk> \<Longrightarrow> lexed next_token s (ts @ [t]) s''"

context lexer_refinement
begin

lemma lexed_refines: "lexed next_token s ts s' \<Longrightarrow> R s u \<Longrightarrow> \<exists>u'. lexed next' u ts u' \<and> R s' u'"
proof (induction rule: lexed.induct)
  case none
  then show ?case by (blast intro: lexed.none)
next
  case (more ts s' st t v s'' st')
  then obtain u' where u': "lexed next' u ts u'" "R s' u'" by blast
  obtain v2 u'' st2 where "next' u' st = Inr (t, v2, u'', st2)" "R s'' u''" using refines [OF u'(2), of st st] more.hyps(2) by auto
  then show ?case using lexed.more [OF u'(1)] by blast
qed

end

section \<open>The stack derives what was shifted\<close>

definition symbol :: "int \<Rightarrow> int" where
  "symbol t = the (YYTRANSLATE t)"

definition looked :: "'s yystate \<Rightarrow> int list" where
  "looked c = (if yychar c = YYEMPTY then [] else [yychar c])"

text \<open>The state 0 at the bottom stands for no symbol.\<close>

definition stack_derives :: "int list \<Rightarrow> int list \<Rightarrow> bool" where
  "stack_derives ss w \<longleftrightarrow> (\<exists>ws. list_all2 derives (map stos (rev (butlast ss))) ws \<and> w = concat ws)"

lemma stack_derives_push: "stack_derives ss w \<Longrightarrow> ss \<noteq> [] \<Longrightarrow> derives (stos q) u \<Longrightarrow> stack_derives (q # ss) (w @ u)"
  by (fastforce simp: stack_derives_def intro!: list_all2_appendI)

lemma stack_derives_reduce:
  assumes "stack_derives ss w" "length xs < length ss" "map stos (take (length xs) ss) = rev xs" "tab_at sql_rules r = Some (a, xs)"
    "stos q = a"
  shows "stack_derives (q # drop (length xs) ss) w"
proof -
  let ?n = "length xs"
  obtain ws where ws: "list_all2 derives (map stos (rev (butlast ss))) ws" "w = concat ws" using assms(1) by (auto simp: stack_derives_def)
  have "butlast ss = take ?n ss @ butlast (drop ?n ss)"
    using assms(2) by (metis append_take_drop_id butlast_append drop_eq_Nil not_le)
  then have "map stos (rev (butlast ss)) = map stos (rev (butlast (drop ?n ss))) @ xs"
    using assms(3) by (simp add: rev_map flip: rev_map [of stos "take ?n ss"])
  then obtain us vs where u: "ws = us @ vs" "list_all2 derives (map stos (rev (butlast (drop ?n ss)))) us" "list_all2 derives xs vs"
    using ws(1) by (auto simp: list_all2_append1)
  have "derives a (concat vs)" by (rule derives.rule [OF assms(4) u(3)])
  then have "stack_derives (q # drop ?n ss) (concat us @ concat vs)"
    using u(2) assms(2,5) by (intro stack_derives_push) (auto simp: stack_derives_def)
  then show ?thesis using ws(2) u(1) by simp
qed

section \<open>Runs\<close>

definition has_read :: "'s yy_lexer \<Rightarrow> 's \<Rightarrow> 's yystate \<Rightarrow> int list \<Rightarrow> bool" where
  "has_read next_token s c ts \<longleftrightarrow> lexed next_token s (ts @ looked c) (yylexer c) \<and> lr_path (yyss c) \<and>
     stack_derives (yyss c) (map symbol ts)"

context token_source
begin

lemma step_reads:
  assumes "yy_step next_token P conf p a b" "has_read next_token s (fst a) ts" "good (yylexer (fst a))"
  shows "(\<exists>ts'. has_read next_token s (fst b) ts') \<and> good (yylexer (fst b))"
  using assms
proof (induction rule: yy_step.induct)
  case (look c st t v s' st')
  have "lexed next_token s (ts @ [t]) s'"
    using lexed.more [where next_token = next_token, OF _ look.hyps(2)] look.prems(1) look.hyps(1) by (simp add: has_read_def looked_def)
  moreover have "good s' \<and> t \<noteq> YYEMPTY" using token [OF _ look.hyps(2)] look.prems by (auto simp: token_code_def YYEMPTY_def)
  ultimately show ?case using look.prems by (auto simp: has_read_def looked_def)
next
  case (grow c st n)
  then have "has_read next_token s (c\<lparr>yystacksize := n\<rparr>) ts" by (simp add: has_read_def looked_def split: if_splits)
  then show ?case using grow.prems by auto
next
  case (shift c q st)
  have c: "yychar c \<noteq> YYEMPTY" using shift.hyps(1) by (auto simp: token_code_def YYEMPTY_def)
  obtain y where y: "YYTRANSLATE (yychar c) = Some y" "0 \<le> y" "y \<le> 83" using translate_token [OF shift.hyps(1)] by metis
  then have "derives (stos q) [symbol (yychar c)]" using shift.hyps(2) derives.token by (simp add: symbol_def)
  moreover have "yyss c \<noteq> []" using shift.prems by (auto simp: has_read_def)
  ultimately have "stack_derives (q # yyss c) (map symbol (ts @ [yychar c]))"
    using shift.prems stack_derives_push by (simp add: has_read_def)
  then have "has_read next_token s (shifted q c) (ts @ [yychar c])"
    using shift.prems shift.hyps(3) c by (simp add: has_read_def looked_def shifted_def yypush_def)
  then show ?case using shift.prems by (auto simp: shifted_def yypush_def)
next
  case (reduce r a xs c q st v st')
  have "stack_derives (q # drop (length xs) (yyss c)) (map symbol ts)"
    using stack_derives_reduce [OF _ reduce.hyps(2,3,1,5)] reduce.prems by (simp add: has_read_def)
  then have "has_read next_token s (reduced q (length xs) v c) ts"
    using reduce.prems reduce.hyps(4) by (simp add: has_read_def looked_def reduced_def yypush_def split: if_splits)
  then show ?case using reduce.prems by (auto simp: reduced_def yypush_def)
qed

lemma steps_read:
  assumes "yy_steps next_token P conf p a b" "has_read next_token s (fst a) ts" "good (yylexer (fst a))"
  shows "\<exists>ts'. has_read next_token s (fst b) ts'"
proof -
  have "(\<exists>ts'. has_read next_token s (fst b) ts') \<and> good (yylexer (fst b))"
    using assms
  proof (induction rule: rtranclp_induct)
    case (step y z)
    then obtain us where "has_read next_token s (fst y) us" "good (yylexer (fst y))" by blast
    then show ?case using step_reads [OF step.hyps(2)] by blast
  qed blast
  then show ?thesis ..
qed

end

section \<open>Acceptance\<close>

text \<open>The final state is entered from state 6, on \<open>command\<close>, which is entered from the bottom.\<close>

lemma final_path:
  assumes "lr_path ss" "hd ss = YYFINAL"
  shows "ss = [24, 6, 0]"
proof -
  obtain ts where ss: "ss = 24 # ts" using assms by (cases ss) (auto simp: YYFINAL_def)
  have "ts \<noteq> []" using assms(1) ss by auto
  then obtain t us where ts: "ts = t # us" by (cases ts) auto
  have "preds 24 = [6]" "preds 6 = [0]" "preds 0 = []" by (simp_all add: preds_def)
  then show ?thesis using assms(1) ss ts by (cases us; cases "tl us") (auto split: if_splits)
qed

lemma translate_end: "all_from (\<lambda>t y. y = 0 \<longrightarrow> t = 0) 0 yytranslate"
  unfolding yytranslate_def by simp

lemma symbol_end: "token_code t \<Longrightarrow> symbol t = 0 \<Longrightarrow> t = 0"
  by (rule translate_token [of t]) (use all_fromD [OF translate_end, of t] in \<open>auto simp: symbol_def YYTRANSLATE_def token_code_def split: if_splits\<close>)

text \<open>The token codes read by a run.\<close>

context token_source
begin

lemma lexed_good: "lexed next_token s ts s' \<Longrightarrow> good s \<Longrightarrow> good s' \<and> list_all token_code ts"
  by (induction rule: lexed.induct) (auto dest: token)

lemma parse_sentence:
  assumes "good s" "24 * int (left s) + 48 < int k" "yyparse k next_token P conf p s st = Inr (0, s', st')"
  shows "\<exists>ts s''. lexed next_token s (ts @ [0]) s'' \<and> derives (sym ''command'') (map symbol ts)"
proof -
  obtain d where d: "yy_steps next_token P conf p (yy_start_state s, st) (d, st')" "s' = yylexer d" "hd (yyss d) = YYFINAL"
    using parse_ends [OF assms(1,2), of P conf p st] assms(3) by auto
  have "has_read next_token s (yy_start_state s) []"
    by (simp add: has_read_def looked_def yy_start_state_def stack_derives_def lexed.none)
  then obtain ts where r: "has_read next_token s d ts" using steps_read [OF d(1)] assms(1) by (auto simp: yy_start_state_def)
  have "yyss d = [24, 6, 0]" using r d(3) final_path by (simp add: has_read_def)
  then obtain u v where u: "map symbol ts = u @ v" "derives (stos 6) u" "derives (stos 24) v"
    using r by (auto simp: has_read_def stack_derives_def list_all2_Cons1)
  have "stos 6 = 85" "stos 24 = 0" by (simp_all add: stos_def)
  then have v: "v = [0]" "derives 85 u" using u derives_token by auto
  then obtain us t where ts: "ts = us @ [t]" "map symbol us = u" "symbol t = 0" using u(1) by (auto simp: map_eq_append_conv)
  have l: "lexed next_token s (ts @ looked d) s'" using r d(2) by (simp add: has_read_def)
  have "token_code t" using lexed_good [OF l assms(1)] ts(1) by simp
  then have t: "t = 0" using ts(3) symbol_end by simp
  have "\<exists>s''. lexed next_token s ts s''" using l by (cases "looked d = []") (auto simp: looked_def elim: lexed.cases split: if_splits)
  then show ?thesis using ts(1,2) t v(2) by auto
qed

end

end
