(* ===== verification/Queries.thy ===== *)
theory Queries
  imports Derive
begin

text \<open>
  Families of queries, scanned and parsed from the first byte to the end: queries that end with a closing
  quote, comparisons of two numbers, inserts.
\<close>

section \<open>Evaluation\<close>

lemma spec_lex_Nil: "spec_lex [] v st = Inr (0, v, Rest [], st)"
  by (simp add: spec_lex.simps)

lemma spec_lex_Cons:
  "spec_lex (ch # q) v st =
     (case longest (ch # q) of (a, n) \<Rightarrow>
        bindE (spec_action a (take n (ch # q)) (drop n (ch # q)) v st) (\<lambda>(t, src, v, st).
        case t of
          Some t \<Rightarrow> Inr (t, v, src, st)
        | None \<Rightarrow>
            (case src of
               Flushed \<Rightarrow> Inl Null_file
             | Rest r \<Rightarrow> if length r < length (ch # q) then spec_lex r v st else Inl No_fuel)))"
  by (subst spec_lex.simps) simp

text \<open>The same for the front of a query whose next character is known not to be a digit.\<close>

lemma spec_lex_plain: "ch \<noteq> SQ \<Longrightarrow> (case q of [] \<Rightarrow> True | c # r \<Rightarrow> c \<notin> set ''0123456789'') \<Longrightarrow> spec_lex (ch # q) v st =
     (case longest (ch # q) of (a, n) \<Rightarrow>
        bindE (spec_action a (take n (ch # q)) (drop n (ch # q)) v st) (\<lambda>(t, src, v, st).
        case t of
          Some t \<Rightarrow> Inr (t, v, src, st)
        | None \<Rightarrow>
            (case src of
               Flushed \<Rightarrow> Inl Null_file
             | Rest r \<Rightarrow> if length r < length (ch # q) then spec_lex r v st else Inl No_fuel)))"
  by (rule spec_lex_Cons)

lemma yyparse_run_numeral:
  "yyparse_run (numeral k) next_token P conf p c st =
     bindE (yyround next_token P conf p c st) (\<lambda>r. case r of
       Yy_return n c st \<Rightarrow> Inr (n, yylexer c, st)
     | Yy_newstate c st \<Rightarrow> yyparse_run (pred_numeral k) next_token P conf p c st)"
  by (simp add: numeral_eq_Suc)

lemmas parser_eval = yyparse_def yyparse_run_numeral yyround_def yysetstate_def yybackup_def yylookahead_def yyaction_def
  yydefault_def yyreduce_def yygoto_def YYTRANSLATE_def yyshift_def yypush_def yyerrlab_def yy_start_state_def
  YYINITDEPTH_def YYMAXDEPTH_def YYEMPTY_def YYFINAL_def YYLAST_def Let_def vsp_def

text \<open>The rules with an action of their own.\<close>

definition own_rule :: "int \<Rightarrow> bool" where
  "own_rule a \<longleftrightarrow> a = 79 \<or> a = 90 \<or> a = 91 \<or> (112 \<le> a \<and> a \<le> 122) \<or> a = 139 \<or> 144 \<le> a"

lemma plain_rules:
  "list_all (\<lambda>e. \<not> own_rule (fst e)) yy_return_1" "list_all (\<lambda>e. \<not> own_rule (fst e)) yy_return_2"
  "list_all (\<lambda>e. \<not> own_rule (fst e)) yy_return_3" "list_all (\<lambda>e. \<not> own_rule (fst e)) yy_return_4"
  "list_all (\<lambda>e. \<not> own_rule (fst e)) yy_return_5"
  by (simp_all add: own_rule_def yy_return_1_def yy_return_2_def yy_return_3_def yy_return_4_def yy_return_5_def)

lemma yy_return_own: "own_rule a \<Longrightarrow> yy_return a = None"
  using plain_rules by (force simp: yy_return_def map_of_eq_None_iff list_all_iff)

lemma yy_return_None:
  "yy_return 79 = None" "yy_return 90 = None" "yy_return 91 = None" "yy_return 114 = None" "yy_return 119 = None"
  "yy_return 120 = None" "yy_return 121 = None" "yy_return 139 = None" "yy_return 144 = None" "yy_return 147 = None" "yy_return 148 = None"
  by (rule yy_return_own, simp add: own_rule_def)+

lemma yy_return_Some:
  "yy_return 1 = Some ''SELECT''" "yy_return 80 = Some ''FROM''" "yy_return 81 = Some ''WHERE''" "yy_return 2 = Some ''INSERT''"
  "yy_return 84 = Some ''INTO''" "yy_return 123 = Some ''EQUAL''" "yy_return 5 = Some ''SHOW''" "yy_return 134 = Some ''MULTIPLY''"
  by (simp_all add: yy_return_def yy_return_1_def yy_return_2_def yy_return_3_def yy_return_4_def yy_return_5_def)

lemmas lexer_eval = spec_lexer_def spec_lex_Nil spec_lex_plain longest_def dnext_def acc_def sc_to_ui_def byte_def yy_next_code
  spec_action_def yy_return_None yy_return_Some spec_string_def spec_quote_def

text \<open>The effect of a table name on the risk.\<close>

definition sensitive :: "'re pcre \<Rightarrow> GreenSQLConfig \<Rightarrow> 're SQLPatterns option \<Rightarrow> string \<Rightarrow> bool" where
  "sensitive P conf p s \<longleftrightarrow> s \<noteq> [] \<and> (case p of None \<Rightarrow> False | Some p \<Rightarrow> re_s_tables conf \<ge> 0 \<and> Match P p SQL_S_TABLES s)"

lemma found_table_risk:
  "clb_found_table P conf p s st = set_risk (\<lambda>r. r\<lparr>has_s_table := has_s_table r \<or> sensitive P conf p s\<rparr>) st"
proof -
  have "set_risk (\<lambda>r. r) st = st" by (simp add: set_risk_def)
  moreover have "r\<lparr>has_s_table := has_s_table r\<rparr> = r" for r :: query_risk by simp
  moreover have "clb_found_table P conf p s st =
      (if sensitive P conf p s then set_risk (has_s_table_update (\<lambda>_. True)) st else st)"
    by (simp add: clb_found_table_def sensitive_def split: option.split)
  ultimately show ?thesis by (cases "sensitive P conf p s") simp_all
qed

lemmas action_eval = sem_defs new_exp_def exp_add_def exp_cmp_def add_fn_def table_exp_def check_bruteforce_def
  with_exp_def with_str_def with_string_def alloc_string_def alloc_expr_def
  AddField_def AddConst_str_def AddConst_int_def Add_def delete_string_def delete_expr_def set_expr_def
  found_table_risk clb_check_true_constant_def clb_check_bruteforce_function_def cmp_fn_def clb_defs set_risk_def
  parse_start_def risk_zero_def new_Expression_def insert_field_def add_const_str_def add_const_int_def merge_exp_def
  Comp_def IsTrue_def IsEmptyPwd_def

text \<open>More fuel does not change a result.\<close>

lemma run_more:
  "yyparse_run k next_token P conf p c st = r \<Longrightarrow> r \<noteq> Inl No_fuel \<Longrightarrow> yyparse_run (k + m) next_token P conf p c st = r"
proof (induction k arbitrary: c st)
  case (Suc k)
  show ?case
  proof (cases "yyround next_token P conf p c st")
    case (Inr x)
    then show ?thesis using Suc by (cases x) simp_all
  qed (use Suc.prems in simp)
qed simp

section \<open>A quote closed by the last character\<close>

lemma next_12: "list_all (\<lambda>c. yy_next 12 c = Some 631) [1..83]"
  by (simp add: yy_next_code upto.simps)

lemma longest_quote:
  assumes "NUL \<notin> set r"
  shows "longest (SQ # r) = (144, 1)"
proof -
  have s: "dnext 1 SQ = 12" "acc 12 = 144" by (simp_all add: dnext_def acc_def sc_to_ui_def byte_def yy_next_code)
  show ?thesis
  proof (cases r)
    case Nil
    then show ?thesis using s by (simp add: longest_def)
  next
    case (Cons ch w)
    obtain c where c: "tab_at yy_ec (sc_to_ui ch) = Some c" "0 \<le> c" "c \<le> 83" "c \<noteq> 0"
      using ec_at [of ch] assms Cons by auto
    then have "c \<in> set [1..83]" by simp
    then have "dnext 12 ch = 631" using next_12 c(1) by (simp add: list_all_iff dnext_def)
    then show ?thesis using s Cons by (simp add: longest_def)
  qed
qed

lemma q_scan_last: "d \<notin> set s \<Longrightarrow> BSL \<notin> set s \<Longrightarrow> d \<in> {SQ, DQ} \<Longrightarrow> q_scan d a False (s @ [d]) = Some (a @ s, Flushed)"
  by (induction s arbitrary: a) auto

lemma quote_lexeme:
  assumes "SQ \<notin> set s" "BSL \<notin> set s" "NUL \<notin> set s"
  shows "spec_lex (SQ # s @ [SQ]) v st = (let (i, st) = alloc_string s st in Inr (322, V_str i, Flushed, st))"
proof -
  have "longest (SQ # s @ [SQ]) = (144, 1)" using assms(3) by (intro longest_quote) simp
  then show ?thesis using q_scan_last [OF assms(1,2), of "[]"]
    by (simp add: spec_lex_Cons spec_action_def yy_return_None spec_quote_def spec_string_def Let_def split_beta)
qed

lemma scan_fault:
  assumes "yyparse_run k spec_lexer P conf None (yy_start_state (Rest q, V_none)) parse_start = Inl e" "e \<noteq> No_fuel"
    "k \<le> parse_fuel (length q)"
  shows "scan_string P conf p q v st = Inl e"
proof -
  have "scan_string P conf None q V_none parse_start = Inl e"
    using run_more [OF assms(1), of "parse_fuel (length q) - k"] assms(2,3) by (simp add: scan_string_def yyparse_def)
  then show ?thesis using scan_string_control [where P = P and conf = conf and p = None and q = q and v = V_none and st = parse_start
      and p' = p and v' = v and st' = st] by simp
qed

definition where_equals :: string where
  "where_equals = ''select a from b where c=''"

lemma closing_quote_scan:
  assumes "SQ \<notin> set s" "BSL \<notin> set s" "NUL \<notin> set s"
  shows "scan_string P conf p (where_equals @ SQ # s @ [SQ]) v st = Inl Null_file"
proof (rule scan_fault)
  show "yyparse_run 100 spec_lexer P conf None (yy_start_state (Rest (where_equals @ SQ # s @ [SQ]), V_none)) parse_start = Inl Null_file"
    using quote_lexeme [OF assms] by (simp add: parser_eval lexer_eval action_eval where_equals_def)
qed (simp_all add: parse_fuel_def where_equals_def)

text \<open>A string literal closed by the last character of the query ends the program: to tell a closing
  quote from a doubled one the scanner reads on, past the end of the query, which detaches the buffer from
  it, and the next token is read from the null file.\<close>

lemma closing_quote_parse:
  assumes "parser_ok s" "SQ \<notin> set x" "BSL \<notin> set x" "NUL \<notin> set x"
  shows "query_parse P conf p (where_equals @ SQ # x @ [SQ]) s = Inl Null_file"
proof -
  have "NUL \<notin> set (where_equals @ SQ # x @ [SQ])" using assms(4) by (simp add: where_equals_def)
  then have c: "cstr (where_equals @ SQ # x @ [SQ]) = where_equals @ SQ # x @ [SQ]" by (rule cstr_id)
  have s: "parser_ok (fst s, snd s)" using assms(1) by simp
  show ?thesis using query_parse_string [OF s, of P conf p "where_equals @ SQ # x @ [SQ]", unfolded c closing_quote_scan [OF assms(2-4)]]
    by simp
qed

section \<open>A comparison of two numbers\<close>

lemma digit_codes: "is_digit c \<longleftrightarrow> c \<in> set ''0123456789''"
proof
  assume "is_digit c"
  then have "byte c = 48 \<or> byte c = 49 \<or> byte c = 50 \<or> byte c = 51 \<or> byte c = 52 \<or> byte c = 53 \<or> byte c = 54 \<or>
      byte c = 55 \<or> byte c = 56 \<or> byte c = 57"
    unfolding is_digit_def by presburger
  then have "byte c \<in> byte ` set ''0123456789''" by (simp add: byte_def)
  then show "c \<in> set ''0123456789''" by (auto simp only: byte_inject image_iff)
qed (auto simp: is_digit_def byte_def)

text \<open>The states in which a number, a space or an equality sign has been read.\<close>

lemma digit_states:
  "list_all (\<lambda>s. list_all (\<lambda>c. dnext s c \<in> {20, 21, 66}) ''0123456789'') [20, 21, 66]"
  "list_all (\<lambda>s. dnext s (CHR ''='') = 631 \<and> acc s = 114) [20, 21, 66]"
  "list_all (\<lambda>c. dnext 1 c \<in> {20, 21, 66}) ''0123456789''"
  "list_all (\<lambda>c. dnext (dnext 1 SPC) c = 631) ''0123456789''"
  "list_all (\<lambda>c. dnext (dnext 1 (CHR ''='')) c = 631) ''0123456789''"
  by (simp_all add: dnext_def acc_def sc_to_ui_def byte_def yy_next_code)

lemma in_number:
  assumes "s \<in> {20, 21, 66}"
  shows "acc s = 114" "dnext s (CHR ''='') = 631" "is_digit d \<Longrightarrow> dnext s d \<in> {20, 21, 66}"
proof -
  have s: "s \<in> set [20, 21, 66]" using assms by simp
  show "acc s = 114" "dnext s (CHR ''='') = 631" using digit_states(2) s unfolding list_all_iff by blast+
  show "dnext s d \<in> {20, 21, 66}" if "is_digit d" using digit_states(1) s that unfolding list_all_iff digit_codes by blast
qed

lemma munch_digits:
  assumes "s \<in> {20, 21, 66}" "list_all is_digit ns" "r = [] \<or> (\<exists>r'. r = CHR ''='' # r')"
  shows "\<exists>s'. munch s las lac cp (ns @ r) = (s', cp + int (length ns)) \<and> acc s' = 114"
  using assms(1,2)
proof (induction ns arbitrary: s las lac cp)
  case Nil
  then show ?case using assms(3) in_number(1,2) [OF Nil.prems(1)] by (elim disjE exE) (simp_all add: Let_def)
next
  case (Cons d ns)
  have n: "dnext s d \<in> {20, 21, 66}" using Cons.prems in_number(3) by simp
  then have "dnext s d \<noteq> 631" by auto
  then show ?case using Cons.IH [OF n, of s cp "cp + 1"] Cons.prems(2) in_number(1) [OF Cons.prems(1)]
    by (simp add: Let_def algebra_simps)
qed

lemma longest_number:
  assumes "is_digit d" "list_all is_digit ns" "r = [] \<or> (\<exists>r'. r = CHR ''='' # r')"
  shows "longest (d # ns @ r) = (114, Suc (length ns))"
proof -
  have n: "dnext 1 d \<in> {20, 21, 66}" using assms(1) digit_states(3) unfolding list_all_iff digit_codes by blast
  then have "dnext 1 d \<noteq> 631" by auto
  moreover obtain s' where "munch (dnext 1 d) 0 0 1 (ns @ r) = (s', 1 + int (length ns))" "acc s' = 114"
    using munch_digits [OF n assms(2,3), of 0 0 1] by blast
  ultimately show ?thesis by (simp add: longest_def Let_def nat_add_distrib)
qed

lemma number_lexeme:
  assumes "is_digit d" "list_all is_digit ns"
  shows "spec_lex (d # ns @ CHR ''='' # r) v st = Inr (tok ''INTEGER'', V_int (atoi (d # ns)), Rest (CHR ''='' # r), st)"
    "spec_lex (d # ns) v st = Inr (tok ''INTEGER'', V_int (atoi (d # ns)), Rest [], st)"
  using longest_number [OF assms, of "CHR ''='' # r"] longest_number [OF assms, of "[]"]
  by (simp_all add: spec_lex_Cons spec_action_def yy_return_None)

lemma before_lexeme:
  assumes "is_digit d"
  shows "spec_lex (SPC # d # r) v st = spec_lex (d # r) v st"
    "spec_lex (CHR ''='' # d # r) v st = Inr (tok ''EQUAL'', v, Rest (d # r), st)"
proof -
  have d: "dnext (dnext 1 SPC) d = 631" "dnext (dnext 1 (CHR ''='')) d = 631"
    using assms digit_states(4,5) unfolding list_all_iff digit_codes by blast+
  have s: "dnext 1 SPC = 5" "dnext 1 (CHR ''='') = 24" "acc 5 = 147" "acc 24 = 123"
    by (simp_all add: dnext_def acc_def sc_to_ui_def byte_def yy_next_code)
  show "spec_lex (SPC # d # r) v st = spec_lex (d # r) v st"
    "spec_lex (CHR ''='' # d # r) v st = Inr (tok ''EQUAL'', v, Rest (d # r), st)"
    using d unfolding s by (simp_all add: spec_lex_Cons [of SPC] spec_lex_Cons [of "CHR ''=''"] longest_def Let_def s spec_action_def yy_return_None yy_return_Some)
qed

definition where_numbers :: "string \<Rightarrow> string \<Rightarrow> string" where
  "where_numbers ns ms = ''select * from b where '' @ ns @ ''='' @ ms"

lemma numbers_scan:
  assumes "is_digit d" "list_all is_digit ns" "is_digit e" "list_all is_digit ms"
  shows "case yyparse_run 100 spec_lexer P conf p (yy_start_state (Rest (where_numbers (d # ns) (e # ms)), v)) st of
      Inl e \<Rightarrow> False
    | Inr (n, s, st') \<Rightarrow> has_tautology (risk st')"
  using assms number_lexeme [OF assms(1,2)] number_lexeme(2) [OF assms(3,4)] before_lexeme
  by (simp add: parser_eval lexer_eval action_eval where_numbers_def)

lemma query_parse_cstr: "query_parse P conf p (cstr q) s = query_parse P conf p q s"
  by (simp add: query_parse_def scan_buffer_cstr)

lemma scan_result:
  assumes "yyparse_run k spec_lexer P conf p (yy_start_state (Rest q, v)) st = Inr r" "k \<le> parse_fuel (length q)"
  shows "scan_string P conf p q v st = Inr r"
  using run_more [OF assms(1), of "parse_fuel (length q) - k"] assms(2) by (simp add: scan_string_def yyparse_def)

lemma parse_result:
  assumes "parser_ok s" "NUL \<notin> set q" "100 \<le> parse_fuel (length q)"
    and "case yyparse_run 100 spec_lexer P conf p (yy_start_state (Rest q, yylval (fst s))) ((snd s)\<lparr>risk := risk_zero\<rparr>) of
      Inl e \<Rightarrow> False
    | Inr (n, l, st') \<Rightarrow> Q (risk st')"
  shows "\<exists>f st. query_parse P conf p q s = Inr (f, st) \<and> Q (risk st)"
proof -
  obtain n l st' where r: "yyparse_run 100 spec_lexer P conf p (yy_start_state (Rest q, yylval (fst s))) ((snd s)\<lparr>risk := risk_zero\<rparr>) = Inr (n, l, st')"
    "Q (risk st')"
    using assms(4) by (auto split: sum.splits prod.splits)
  have sc: "scan_string P conf p (cstr q) (yylval (fst s)) ((snd s)\<lparr>risk := risk_zero\<rparr>) = Inr (n, l, st')"
    using scan_result [OF r(1) assms(3)] assms(2) by (simp add: cstr_id)
  have s: "parser_ok (fst s, snd s)" using assms(1) by simp
  show ?thesis
  proof (rule query_parse_cases [OF assms(1), of P conf p q])
    show ?thesis if "query_parse P conf p q s = Inl Null_file" using query_parse_string [OF s, of P conf p q] sc that by auto
  next
    fix f st m k st''
    assume "query_parse P conf p q s = Inr (f, st)"
      "scan_string P conf p (cstr q) (yylval (fst s)) ((snd s)\<lparr>risk := risk_zero\<rparr>) = Inr (m, k, st'')" "risk st = risk st''"
    then show ?thesis using sc r(2) by auto
  qed
qed

lemma digits_NUL: "list_all is_digit ns \<Longrightarrow> NUL \<notin> set ns"
  by (auto simp: list_all_iff is_digit_def byte_def)



section \<open>Inserts\<close>

definition insert_into :: string where
  "insert_into = ''insert into t ''"

lemma insert_scan:
  "case yyparse_run 100 spec_lexer P conf p (yy_start_state (Rest (insert_into @ r), v)) (st\<lparr>risk := risk_zero\<rparr>) of
      Inl e \<Rightarrow> False
    | Inr (n, s, st') \<Rightarrow> risk st' = risk_zero"
  by (simp add: parser_eval lexer_eval action_eval insert_into_def)



section \<open>Sentences\<close>

text \<open>C14: the parser accepts sentences only: if \<open>yyparse\<close> returns 0 on a query, the tokens the generated
  scanner has returned, up to the end of the query, are derived from \<open>command\<close> by the rules of
  parser/sql.ypp.\<close>

theorem accepted_sentence:
  assumes "idle f" "yy_scan_string q f = Inr g"
    and "yyparse (parse_fuel (length (cstr q))) flex_lexer P conf p g st = Inr (0, g', st')"
  shows "\<exists>ts g''. lexed flex_lexer g (ts @ [0]) g'' \<and> derives (sym ''command'') (map symbol ts)"
proof -
  obtain h where h: "yy_scan_string (cstr q) f = Inr h" "scan_ready (cstr q) (Rest (cstr q), yylval f) h"
    using scan_string_ready [OF assms(1) cstr_no_NUL] by blast
  then have R: "scan_ready (cstr q) (Rest (cstr q), yylval f) g" using assms(2) by (simp add: yy_scan_string_def)
  have "case scan_string P conf p (cstr q) (yylval f) st of Inl e \<Rightarrow> False | Inr (n, s, st'') \<Rightarrow> n = 0"
    using scan.parse_refines [OF R, of st st p p "parse_fuel (length (cstr q))" P conf] assms(3)
    by (auto simp: scan_string_def split: sum.splits)
  then obtain s st'' where "scan_string P conf p (cstr q) (yylval f) st = Inr (0, s, st'')"
    by (auto split: sum.splits prod.splits)
  then have "yyparse (parse_fuel (length (cstr q))) spec_lexer P conf p (Rest (cstr q), yylval f) st = Inr (0, s, st'')"
    by (simp add: scan_string_def)
  from query.parse_sentence [OF _ _ this]
  obtain ts s'' where ts: "lexed spec_lexer (Rest (cstr q), yylval f) (ts @ [0]) s''" "derives (sym ''command'') (map symbol ts)"
    by (auto simp: parse_fuel_def)
  then show ?thesis using scan.lexed_refines [OF ts(1) R] by blast
qed

lemma show_scan:
  "yyparse_run 100 spec_lexer P conf p (yy_start_state (Rest ''show'', v)) st = Inr (0, (Rest [], v), st)"
  by (simp add: parser_eval lexer_eval sem_defs)

theorem accepted_sentence_witness:
  "\<exists>g ts g''. yy_scan_string ''show'' flex_start = Inr g \<and> lexed flex_lexer g (ts @ [0]) g'' \<and>
     derives (sym ''command'') (map symbol ts)"
proof -
  let ?P = "\<lparr>pcre_compile = Some, pcre_exec = (=)\<rparr>"
  obtain g where g: "yy_scan_string ''show'' flex_start = Inr g" "scan_ready ''show'' (Rest ''show'', yylval flex_start) g"
    using scan_string_ready [OF idle_start, of "''show''"] by auto
  have "scan_string ?P config_init None ''show'' (yylval flex_start) parse_start = Inr (0, (Rest [], yylval flex_start), parse_start)"
    by (rule scan_result [OF show_scan]) (simp add: parse_fuel_def)
  then obtain g' where "yyparse (parse_fuel (length (cstr ''show''))) flex_lexer ?P config_init None g parse_start = Inr (0, g', parse_start)"
    using scan.parse_refines [OF g(2), of parse_start parse_start None None "parse_fuel (length ''show'')" ?P config_init]
    by (auto simp: scan_string_def cstr_def)
  from accepted_sentence [OF idle_start g(1) this] g(1) show ?thesis by blast
qed

end
