(* ===== verification/RunChecks.thy ===== *)
theory RunChecks
  imports FagoMain Queries
begin

text \<open>
  What a check of a query relies on, in the running program: every step of the event loop leaves the
  generated scanner and parser ready for the next query, and every session points to a permission object
  that is allocated.  So the checks of the program are decided as \<open>Connection\<close> says, up to the queries
  that make the scanner read past its end.
\<close>

section \<open>What a check leaves\<close>

definition parser_ready :: "'w glob \<Rightarrow> bool" where
  "parser_ready g \<longleftrightarrow> parser_ok (scanner g, parser g) \<and> no_objects (parser g)"

text \<open>The map after \<open>dbmap_init\<close>, and a pointer to one of its objects.\<close>

definition dbs_ok :: "dbmap \<Rightarrow> bool" where
  "dbs_ok m \<longleftrightarrow> dbmap_wf m \<and> default_db m \<noteq> None"

definition db_live :: "dbmap \<Rightarrow> addr option \<Rightarrow> bool" where
  "db_live m a = (case a of None \<Rightarrow> False | Some x \<Rightarrow> heap m x \<noteq> None)"

text \<open>\<open>steady m c g\<close>: the globals have the map \<open>m\<close>, and a check on the connection \<open>c\<close> finds all it needs.\<close>

definition steady :: "dbmap \<Rightarrow> 'z Connection_scheme \<Rightarrow> 'w glob \<Rightarrow> bool" where
  "steady m c g \<longleftrightarrow> dbs_ok m \<and> dbsmap g = m \<and> parser_ready g \<and> db_live m (con_db c)"

lemma wf_pointer: "dbmap_wf m \<Longrightarrow> map_of (dbs m) k = Some a \<or> default_db m = Some a \<Longrightarrow> heap m a \<noteq> None"
proof -
  assume wf: "dbmap_wf m" and "map_of (dbs m) k = Some a \<or> default_db m = Some a"
  then have "a \<in> set (pointers m)" by (auto simp: pointers_def image_iff dest: map_of_SomeD intro: bexI [of _ "(k, a)"])
  with wf show ?thesis by (simp add: dbmap_wf_def)
qed

lemma dbmap_find_live: "dbs_ok m \<Longrightarrow> db_live m (dbmap_find m p n t)"
  by (auto simp: dbmap_find_def db_live_def dbs_ok_def Let_def dest: wf_pointer [OF _ disjI1] wf_pointer [OF _ disjI2] split: option.splits)

lemma dbmap_default_live: "dbs_ok m \<Longrightarrow> db_live m (dbmap_default m p t)"
  by (auto simp: dbmap_default_def db_live_def dbs_ok_def Let_def dest: wf_pointer [OF _ disjI1] wf_pointer [OF _ disjI2] split: option.splits)

lemma steady_cong: "con_db c' = con_db c \<Longrightarrow> steady m c' g = steady m c g"
  by (simp add: steady_def)

lemma steady_fields [simp]:
  "steady m (c\<lparr>request_in := b\<rparr>) g = steady m c g" "steady m (c\<lparr>request_out := b\<rparr>) g = steady m c g"
  "steady m (c\<lparr>response_in := b\<rparr>) g = steady m c g" "steady m (c\<lparr>response_out := b\<rparr>) g = steady m c g"
  "steady m (c\<lparr>con_db_user := x\<rparr>) g = steady m c g" "steady m (c\<lparr>con_db_name := x\<rparr>) g = steady m c g"
  "steady m (c\<lparr>db_new_name := x\<rparr>) g = steady m c g" "steady m (c\<lparr>original_query := x\<rparr>) g = steady m c g"
  "steady m (c\<lparr>db_srv_version := x\<rparr>) g = steady m c g" "steady m (c\<lparr>db_user_ip := x\<rparr>) g = steady m c g"
  "steady m (c\<lparr>first_request := f\<rparr>) g = steady m c g" "steady m (c\<lparr>first_response := f\<rparr>) g = steady m c g"
  "steady m (c\<lparr>SecondPacket := f\<rparr>) g = steady m c g"
  by (rule steady_cong, simp)+

lemma steady_pg_fields [simp]:
  "steady m (c\<lparr>pg_longResponse := f\<rparr>) g = steady m c g" "steady m (c\<lparr>pg_longResponseData := f\<rparr>) g = steady m c g"
  "steady m (c\<lparr>proto_version := x\<rparr>) g = steady m c g" "steady m (c\<lparr>db_options := x\<rparr>) g = steady m c g"
  by (rule steady_cong, simp)+

lemma steady_my_fields [simp]:
  "steady m (c\<lparr>mysql41 := f\<rparr>) g = steady m c g" "steady m (c\<lparr>my_longResponse := f\<rparr>) g = steady m c g"
  "steady m (c\<lparr>my_longResponseData := f\<rparr>) g = steady m c g" "steady m (c\<lparr>lastCommandId := n\<rparr>) g = steady m c g"
  "steady m (c\<lparr>StartResponse := f\<rparr>) g = steady m c g"
  by (rule steady_cong, simp)+

lemma steady_found [simp]:
  "steady m c g \<Longrightarrow> steady m (c\<lparr>con_db := dbmap_find m p n t\<rparr>) g"
  by (simp add: steady_def dbmap_find_live)

lemma steady_my_find [simp]: "steady m c g \<Longrightarrow> steady m (my_find_db m c) g"
  by (simp add: my_find_db_def)

lemma steady_dbs: "steady m c g \<Longrightarrow> dbsmap g = m"
  by (simp add: steady_def)

lemma parser_ready_cong: "scanner g' = scanner g \<Longrightarrow> parser g' = parser g \<Longrightarrow> parser_ready g' = parser_ready g"
  by (simp add: parser_ready_def)

lemma parser_ready_simps [simp]:
  "parser_ready (snd (on_lib f g)) = parser_ready g" "parser_ready (on_alerts f' g) = parser_ready g"
  "parser_ready (on_logs f'' g) = parser_ready g" "parser_ready (g\<lparr>status := b\<rparr>) = parser_ready g"
  "parser_ready (g\<lparr>alerts := a\<rparr>) = parser_ready g" "parser_ready (g\<lparr>dbsmap := m\<rparr>) = parser_ready g"
  "parser_ready (g\<lparr>logs := l\<rparr>) = parser_ready g"
  by (rule parser_ready_cong, simp_all add: on_logs_def)+

lemma on_lib_dbs: "on_lib f g = (r, g') \<Longrightarrow> dbsmap g' = dbsmap g"
  using on_lib_keeps(1) [of f g] by simp

lemma on_event_dbs: "on_event f g = Some g' \<Longrightarrow> dbsmap g' = dbsmap g"
  by (auto simp: on_event_def)

lemma on_lib_ready: "on_lib f g = (r, g') \<Longrightarrow> parser_ready g' = parser_ready g"
  using parser_ready_simps(1) [of f g] by simp

lemma on_event_ready: "on_event f g = Some g' \<Longrightarrow> parser_ready g' = parser_ready g"
  by (auto simp: on_event_def)

lemma calculateRisk_ready:
  assumes "calculateRisk X pats q reason g = Some (r, reason', g')" "parser_ready g"
  shows "parser_ready g'"
proof (cases "query_parse (cx_pcre X) (cx_conf X) (Some pats) (cstr q) (scanner g, parser g)")
  case (Inr s)
  obtain f st where s: "s = (f, st)" by (cases s)
  have g': "scanner g' = f" "parser g' = st" using assms(1) by (auto simp: calculateRisk_def Inr s Let_def)
  have ok: "parser_ok (scanner g, parser g)" using assms(2) by (simp add: parser_ready_def)
  show ?thesis
    by (rule query_parse_cases [OF ok, of "cx_pcre X" "cx_conf X" "Some pats" "cstr q"]) (auto simp: Inr s g' parser_ready_def)
qed (use assms(1) in \<open>simp add: calculateRisk_def\<close>)

lemma question_ready: "question X c q r g = Some (t, g') \<Longrightarrow> parser_ready g' = parser_ready g"
  by (auto simp: question_def Let_def split_beta split: if_splits option.splits)

lemma block_reason_ready: "block_reason X c q r g = Some (t, g') \<Longrightarrow> parser_ready g' = parser_ready g"
  by (auto simp: block_reason_def Let_def split_beta split: if_splits option.splits)

lemmas check_ready = on_lib_ready on_event_ready question_ready block_reason_ready

lemma check_query_ready:
  assumes "check_query X pats black c q g = Some (ok, p, g')" "parser_ready g"
  shows "parser_ready g'"
  using assms
  by (auto simp: check_query_def Let_def split_beta check_ready dest: calculateRisk_ready split: if_splits bind_splits)

lemma explain_dbs:
  "question X c q r g = Some (t, g') \<Longrightarrow> dbsmap g' = dbsmap g" "block_reason X c q r g = Some (t, g') \<Longrightarrow> dbsmap g' = dbsmap g"
  by (auto simp: question_def block_reason_def Let_def split_beta split: if_splits option.splits)

lemma calculateRisk_dbs: "calculateRisk X pats q reason g = Some (r, reason', g') \<Longrightarrow> dbsmap g' = dbsmap g"
  by (auto simp: calculateRisk_def Let_def split: sum.splits)

lemma check_query_dbs:
  assumes "check_query X pats black c q g = Some (ok, p, g')"
  shows "dbsmap g' = dbsmap g"
  using assms
  by (auto simp: check_query_def Let_def split_beta on_lib_dbs on_event_dbs explain_dbs calculateRisk_dbs split: if_splits bind_splits)

lemma check_query_steady: "check_query X pats black c q g = Some (ok, p, g') \<Longrightarrow> steady m c g \<Longrightarrow> steady m c g'"
  by (simp add: steady_def check_query_ready check_query_dbs)

lemma copy_sql_steady: "copy_sql X c q g = Some g' \<Longrightarrow> steady m c' g' = steady m c' g"
  by (auto simp: copy_sql_def steady_def split: option.splits)

lemma guard_query_steady:
  assumes "guard_query X pats reply c h g = Some (c', h', g')" "steady m c g"
  shows "steady m c' g'"
proof -
  obtain ok q g1 where q: "check_query X pats (blacklist_check (cx_pcre X) pats) c (original_query c) g = Some (ok, q, g1)"
      "(c', h', g') = (if ok then (c\<lparr>original_query := q\<rparr>, h, g1) else (push_reply reply (c\<lparr>original_query := []\<rparr>), True, g1))"
    using assms(1) by (auto simp: guard_query_def split: bind_splits)
  have "steady m c g1" using check_query_steady [OF q(1) assms(2)] .
  then show ?thesis using q(2) by (simp add: push_reply_def split: if_splits)
qed


section \<open>The virtual methods\<close>

lemma pg_startup_param_steady: "steady m c g \<Longrightarrow> steady m (snd (pg_startup_param m data n ind c)) g"
  by (simp add: pg_startup_param_def split_beta Let_def)

lemma pg_startup_loop_steady: "steady m c g \<Longrightarrow> steady m (pg_startup_loop m data n ind c) g"
proof (induction m data n ind c rule: pg_startup_loop.induct)
  case (1 m data n ind c)
  then show ?case
    using pg_startup_param_steady [OF "1.prems", of data n ind] by (cases "ind < n") (simp_all add: pg_startup_loop.simps [of m data n ind c])
qed

lemma pg_startup_steady:
  assumes "pg_startup data n c g = Some (ok, c')" "steady m c g"
  shows "steady m c' g"
  using assms unfolding pg_startup_def Let_def steady_dbs [OF assms(2)]
  by (auto simp: pg_startup_loop_steady split: if_splits bind_splits)

lemma pg_query_steady: "pg_query X pats q c h g = Some (c', h', g') \<Longrightarrow> steady m c g \<Longrightarrow> steady m c' g'"
  by (auto simp: pg_query_def Let_def copy_sql_steady dest: guard_query_steady split: bind_splits)

lemma pg_parse_request_steady:
  assumes "pg_parse_request X pats data n c h g = Some (ok, c', h', g')" "steady m c g"
  shows "steady m c' g'"
proof -
  have q: "pg_query X pats q c1 h1 g = Some (c2, h2, g2) \<Longrightarrow> steady m c1 g \<longrightarrow> steady m c2 g2"
    and s: "pg_startup data n c1 g = Some (ok, c2) \<Longrightarrow> steady m c1 g \<longrightarrow> steady m c2 g" for q c1 h1 c2 h2 g2 ok
    using pg_query_steady pg_startup_steady by blast+
  show ?thesis using assms unfolding pg_parse_request_def Let_def
    by (auto dest!: q s split: if_splits bind_splits)
qed

lemma pg_request_loop_steady:
  assumes "pg_request_loop X pats data full start n c h g = Some r" "steady m c g"
  shows "steady m (fst (snd r)) (snd (snd (snd r)))"
proof -
  let ?P = "\<lambda>(X :: ('a, 'b) ctx) (pats :: 'b SQLPatterns) (data :: string) (full :: nat) (start :: nat) (n :: nat) (c :: PgSQLConnection)
      (h :: bool) (g :: 'a glob) (r :: nat \<times> PgSQLConnection \<times> bool \<times> 'a glob). steady m c g \<longrightarrow> steady m (fst (snd r)) (snd (snd (snd r)))"
  have "?P X pats data full start n c h g r"
  proof (rule pg_request_loop.raw_induct [where P = ?P, OF _ assms(1)])
    fix loop X pats data full start n c h g r
    assume ih: "\<And>X pats data full start n c h g r. loop X pats data full start n c h g = Some r \<Longrightarrow> ?P X pats data full start n c h g r"
      and e: "(if szadd start n \<le> full then do {
         r \<leftarrow> pg_parse_request X pats (drop start data) n c h g;
         let c = fst (snd r);
         let h = fst (snd (snd r));
         let g = snd (snd (snd r));
         let start = szadd start n;
         if start = full then Some (start, c, h, g)
         else if start + 5 > full then Some (start, c, h, g)
         else do {
           v \<leftarrow> be32 data (start + 1);
           v \<leftarrow> int_succ v;
           loop X pats data full start (sz v) c h g
         }
       }
       else Some (start, c, h, g)) = Some r"
    show "?P X pats data full start n c h g r"
      using e by (auto simp: Let_def dest!: ih pg_parse_request_steady split: if_splits bind_splits)
  qed
  then show ?thesis using assms(2) by simp
qed

lemma pg_parseRequest_steady:
  "pg_parseRequest X pats c g = Some (ok, q, h, c', g') \<Longrightarrow> steady m c g \<Longrightarrow> steady m c' g'"
  by (auto simp: pg_parseRequest_def Let_def split_beta dest: pg_parse_request_steady pg_request_loop_steady
      split: bind_splits if_splits)

lemma pg_parseResponse_steady: "pg_parseResponse c g = Some (ok, q, c', g') \<Longrightarrow> steady m c g \<Longrightarrow> steady m c' g'"
  by (auto simp: pg_parseResponse_def pg_parse_response_def Let_def split_beta split: bind_splits if_splits)

lemma my_login_part_steady:
  "my_login41 m data n c = Some r \<Longrightarrow> steady m c g \<Longrightarrow> steady m (case r of Inl (c', ok) \<Rightarrow> c' | Inr c' \<Rightarrow> c') g"
  "my_login40 m data n c = Some r \<Longrightarrow> steady m c g \<Longrightarrow> steady m (case r of Inl (c', ok) \<Rightarrow> c' | Inr c' \<Rightarrow> c') g"
  by (auto simp: my_login41_def my_login40_def Let_def split: if_splits bind_splits)

lemma my_login_steady:
  assumes "my_login data n c g = Some (ok, c')" "steady m c g"
  shows "steady m c' g"
proof (cases "n < 10")
  case True
  then show ?thesis using assms by (simp add: my_login_def)
next
  case False
  define v41 where "v41 = (client_flags data AND MYSQL_CON_PROTOCOL_V41 \<noteq> 0)"
  define c1 where "c1 = (if v41 then c\<lparr>mysql41 := True\<rparr> else c)\<lparr>con_db_name := [], con_db_user := []\<rparr>"
  define l where "l = (if v41 \<and> n > 36 then my_login41 m data n c1 else if n > 10 then my_login40 m data n c1 else Some (Inr c1))"
  note dbs = steady_dbs [OF assms(2)]
  obtain r where r: "l = Some r" and post: "(case r of Inl (c, ok) \<Rightarrow> Some (ok, c)
      | Inr c \<Rightarrow> do {
          d \<leftarrow> deref_db c g;
          let c = (if db_name d \<noteq> con_db_name c then my_find_db m c else c);
          Some (True, c\<lparr>first_request := False, SecondPacket := True\<rparr>)
        }) = Some (ok, c')"
    using assms(1) False unfolding my_login_def Let_def l_def c1_def v41_def dbs by (auto split: bind_splits)
  have "steady m c1 g" using assms(2) by (simp add: c1_def)
  then have "steady m (case r of Inl (c', ok) \<Rightarrow> c' | Inr c' \<Rightarrow> c') g"
    using r my_login_part_steady by (auto simp: l_def split: if_splits)
  then show ?thesis using post by (cases r) (auto simp: Let_def split: bind_splits if_splits)
qed

lemma my_query_steady: "my_query X pats q c h g = Some (ok, c', h', g') \<Longrightarrow> steady m c g \<Longrightarrow> steady m c' g'"
  by (auto simp: my_query_def Let_def dest: guard_query_steady split: bind_splits)

lemma my_change_user_steady:
  assumes "my_change_user data n c g = Some c'" "steady m c g"
  shows "steady m c' g"
  using assms unfolding my_change_user_def Let_def steady_dbs [OF assms(2)] by (auto split: if_splits bind_splits)

lemma my_dispatch_globals:
  assumes "my_dispatch X pats t data n c h g = Some (ok, c', h', g')"
  obtains (same) "g' = g" "c' = c" | (db) d where "g' = g" "c' = c\<lparr>db_new_name := d\<rparr>"
  | (query) q where "my_query X pats q c h g = Some (ok, c', h', g')"
  | (user) "g' = g" "my_change_user data n c g = Some c'"
  using assms unfolding my_dispatch_def Let_def by (simp only: bind_eq_Some_conv option.inject prod.inject split: if_splits) blast+

lemma my_dispatch_steady:
  assumes "my_dispatch X pats t data n c h g = Some (ok, c', h', g')" "steady m c g"
  shows "steady m c' g'"
  using assms(1) by (rule my_dispatch_globals) (use assms(2) my_query_steady my_change_user_steady in auto)

lemma my_note_command_steady [simp]: "steady m (my_note_command t c) g = steady m c g"
  by (simp add: my_note_command_def Let_def)

lemma ParseRequestPacket_steady:
  "ParseRequestPacket X pats data n c h g = Some (ok, c', h', g') \<Longrightarrow> steady m c g \<Longrightarrow> steady m c' g'"
  by (auto simp: ParseRequestPacket_def my_command_def Let_def dest: my_dispatch_steady my_login_steady split: bind_splits if_splits)

lemma my_request_loop_steady:
  assumes "my_request_loop X pats data start c h g = Some r" "steady m c g"
  shows "steady m (fst (snd r)) (snd (snd (snd r)))"
  using assms
proof (induction X pats data start c h g rule: my_request_loop.induct)
  case (1 X pats data start c h g)
  let ?n = "le24 data 0 + 4"
  show ?case
  proof (cases "start + ?n \<le> length data")
    case False
    then show ?thesis using "1.prems" by (subst (asm) my_request_loop.simps) auto
  next
    case le: True
    then obtain ok c1 h1 g1 where p: "ParseRequestPacket X pats data ?n c h g = Some (ok, c1, h1, g1)"
      using "1.prems"(1) by (subst (asm) my_request_loop.simps) (auto simp: Let_def split: bind_splits)
    have k: "steady m c1 g1" using ParseRequestPacket_steady [OF p "1.prems"(2)] .
    show ?thesis
    proof (cases "start + ?n + 7 > length data")
      case True
      then show ?thesis
        using "1.prems"(1) le k by (subst (asm) my_request_loop.simps) (auto simp: p Let_def split: if_splits)
    next
      case False
      then have "my_request_loop X pats data (start + ?n) c1 h1 g1 = Some r"
        using "1.prems"(1) le by (subst (asm) my_request_loop.simps) (auto simp: p Let_def split: if_splits)
      then show ?thesis using "1.IH" [OF refl refl le, of "(ok, c1, h1, g1)"] le False p k by simp
    qed
  qed
qed

lemma my_parseRequest_steady:
  "my_parseRequest X pats c g = Some (ok, q, h, c', g') \<Longrightarrow> steady m c g \<Longrightarrow> steady m c' g'"
  by (auto simp: my_parseRequest_def Let_def split_beta dest: my_request_loop_steady split: bind_splits if_splits)

lemma my_greeting_steady: "my_greeting data n response c = Some (r, c') \<Longrightarrow> steady m c g \<Longrightarrow> steady m c' g"
  by (auto simp: my_greeting_def Let_def split_beta split: if_splits bind_splits)

lemma ParseResponsePacket_steady:
  "ParseResponsePacket m data n mx response c = Some (r, c') \<Longrightarrow> steady m c g \<Longrightarrow> steady m c' g"
  by (auto simp: ParseResponsePacket_def Let_def dest: my_greeting_steady split: if_splits bind_splits)

lemma my_response_loop_steady:
  "my_response_loop m full start response c = Some (s, r, c') \<Longrightarrow> steady m c g \<Longrightarrow> steady m c' g"
proof (induction m full start response c rule: my_response_loop.induct)
  case (1 m full start response c)
  let ?d = "drop start (raw (response_in c))"
  let ?n = "le24 ?d 0 + 4"
  show ?case
  proof (cases "start + ?n \<le> full \<and> 2 \<le> length ?d")
    case False
    then show ?thesis using "1.prems" by (subst (asm) my_response_loop.simps) (auto simp: Let_def split: if_splits)
  next
    case le: True
    then obtain r1 c1 where p: "ParseResponsePacket m ?d ?n (full - start) response c = Some (r1, c1)"
      using "1.prems"(1) by (subst (asm) my_response_loop.simps) (auto simp: Let_def split: bind_splits)
    note k = ParseResponsePacket_steady [OF p "1.prems"(2)]
    show ?thesis
    proof (cases "start + ?n + 5 < full")
      case False
      then show ?thesis
        using "1.prems"(1) le k by (subst (asm) my_response_loop.simps) (auto simp: p Let_def split: if_splits)
    next
      case True
      then have l: "my_response_loop m full (start + ?n) r1 (c1\<lparr>SecondPacket := False\<rparr>) = Some (s, r, c')"
        using "1.prems"(1) le by (subst (asm) my_response_loop.simps) (auto simp: p Let_def split: if_splits)
      then show ?thesis
        using "1.IH" [OF refl refl _ _ p, of r1 "c1\<lparr>SecondPacket := False\<rparr>"] le k True by simp
    qed
  qed
qed

lemma my_parseResponse_steady:
  assumes "my_parseResponse c g = Some (ok, q, c', g')" "steady m c g"
  shows "steady m c' g'"
  using assms unfolding my_parseResponse_def Let_def steady_dbs [OF assms(2)]
  by (auto simp: split_beta dest!: my_response_loop_steady split: bind_splits if_splits)

text \<open>A relation of a connection to the globals that does not look at the queues and that both virtual
  methods keep is kept by the callbacks.\<close>

locale steady_methods =
  fixes parse_req :: "'z Connection_scheme \<Rightarrow> 'g \<Rightarrow> (bool \<times> string \<times> bool \<times> 'z Connection_scheme \<times> 'g) option"
    and parse_resp :: "'z Connection_scheme \<Rightarrow> 'g \<Rightarrow> (bool \<times> string \<times> 'z Connection_scheme \<times> 'g) option"
    and good :: "'z Connection_scheme \<Rightarrow> 'g \<Rightarrow> bool"
  assumes req_good: "parse_req c g = Some (ok, request, hr, c', g') \<Longrightarrow> good c g \<Longrightarrow> good c' g'"
    and resp_good: "parse_resp c g = Some (ok, response, c', g') \<Longrightarrow> good c g \<Longrightarrow> good c' g'"
    and queues: "good (c\<lparr>request_in := b\<rparr>) g = good c g" "good (c\<lparr>request_out := b\<rparr>) g = good c g"
      "good (c\<lparr>response_in := b\<rparr>) g = good c g" "good (c\<lparr>response_out := b\<rparr>) g = good c g"
begin

lemma method_good:
  "parse_req c g = Some (ok, request, hr, c', g') \<Longrightarrow> good c g \<longrightarrow> good c' g'"
  "parse_resp c g = Some (ok, response, c', g') \<Longrightarrow> good c g \<longrightarrow> good c' g'"
  using req_good resp_good by blast+

lemma event_conn [simp]: "conn (enable_event_writer s b) = conn s" "conn (disable_event_writer s b) = conn s"
  by (simp_all add: enable_event_writer_def disable_event_writer_def)

lemma write_good [simp]:
  "good (conn (fst (snd (Proxy_write_cb S fd s n)))) g = good (conn s) g"
  "good (conn (fst (snd (Backend_write_cb S fd s n)))) g = good (conn s) g"
  by (simp_all add: Proxy_write_cb_def Backend_write_cb_def Let_def split_beta queues)

lemma response_good:
  "ProxyValidateServerResponse (vtable_of parse_req parse_resp) S s n g = Some (ok, s', n', g') \<Longrightarrow> good (conn s) g \<longrightarrow> good (conn s') g'"
  by (auto simp: ProxyValidateServerResponse_def Let_def split_beta queues dest!: method_good split: bind_splits if_splits)

lemma push_good:
  "push_response (vtable_of parse_req parse_resp) S s n g = Some (ok, s', n', g') \<Longrightarrow> good (conn s) g \<longrightarrow> good (conn s') g'"
  by (auto simp: push_response_def Let_def split_beta dest!: response_good split: if_splits)

lemma request_good:
  "ProxyValidateClientRequest (vtable_of parse_req parse_resp) S s n g = Some (ok, s', n', g') \<Longrightarrow> good (conn s) g \<longrightarrow> good (conn s') g'"
  by (auto simp: ProxyValidateClientRequest_def Let_def split_beta queues dest!: method_good push_good split: bind_splits if_splits)

lemma Proxy_cb_good:
  assumes "Proxy_cb (vtable_of parse_req parse_resp) S fd w s n g = Some (r, n', g')" "good (conn s) g"
  shows "\<exists>c'. good c' g' \<and> (\<forall>s'. r = Some s' \<longrightarrow> conn s' = c')"
  using assms
  by (auto simp: Proxy_cb_def Let_def split_beta queues dest!: request_good split: bind_splits if_splits)

lemma Backend_cb_good:
  assumes "Backend_cb (vtable_of parse_req parse_resp) S fd w s n g = Some (r, n', g')" "good (conn s) g"
  shows "\<exists>c'. good c' g' \<and> (\<forall>s'. r = Some s' \<longrightarrow> conn s' = c')"
  using assms
  by (auto simp: Backend_cb_def Let_def split_beta queues dest!: response_good split: bind_splits if_splits)

end

interpretation mysql_steady: steady_methods "my_parseRequest X pats" my_parseResponse "steady m"
  by unfold_locales (auto dest: my_parseRequest_steady my_parseResponse_steady)

interpretation pgsql_steady: steady_methods "pg_parseRequest X pats" pg_parseResponse "steady m"
  by unfold_locales (auto dest: pg_parseRequest_steady pg_parseResponse_steady)

section \<open>The steps of the program\<close>

definition session_db :: "any_session \<Rightarrow> addr option" where
  "session_db x = (case x of MySQL_session s \<Rightarrow> con_db (conn s) | PgSQL_session s \<Rightarrow> con_db (conn s))"

lemma session_db_simps [simp]:
  "session_db (MySQL_session s) = con_db (conn s)" "session_db (PgSQL_session t) = con_db (conn t)"
  by (simp_all add: session_db_def)

definition run_ok :: "('w, 'k) app \<Rightarrow> bool" where
  "run_ok st \<longleftrightarrow> dbs_ok (dbsmap (app_glob st)) \<and> parser_ready (app_glob st) \<and>
     (\<forall>a x. sessions st a = Some x \<longrightarrow> db_live (dbsmap (app_glob st)) (session_db x))"

text \<open>A step that checks no query and opens no session.\<close>

definition calm :: "('w, 'k) app \<Rightarrow> ('w, 'k) app \<Rightarrow> bool" where
  "calm st st' \<longleftrightarrow> parser_ready (app_glob st') = parser_ready (app_glob st) \<and> dbsmap (app_glob st') = dbsmap (app_glob st) \<and>
     (\<forall>a x. sessions st' a = Some x \<longrightarrow> sessions st a = Some x)"

lemma calm_refl [simp]: "calm st st"
  by (simp add: calm_def)

lemma calm_trans: "calm a b \<Longrightarrow> calm b c \<Longrightarrow> calm a c"
  by (auto simp: calm_def)

lemma calm_fields [simp]:
  "calm st (st'\<lparr>app_net := n\<rparr>) = calm st st'" "calm st (st'\<lparr>proxies := ps\<rparr>) = calm st st'"
  "calm st (st'\<lparr>counter := i\<rparr>) = calm st st'" "calm st (st'\<lparr>timer_added := b\<rparr>) = calm st st'"
  "calm (st\<lparr>app_net := n\<rparr>) st' = calm st st'" "calm (st\<lparr>proxies := ps\<rparr>) st' = calm st st'"
  "calm (st\<lparr>counter := i\<rparr>) st' = calm st st'" "calm (st\<lparr>timer_added := b\<rparr>) st' = calm st st'"
  by (simp_all add: calm_def)

lemma calm_glob:
  "parser_ready g = parser_ready (app_glob st) \<Longrightarrow> dbsmap g = dbsmap (app_glob st) \<Longrightarrow> calm st (st\<lparr>app_glob := g\<rparr>)"
  by (simp add: calm_def)

lemma run_ok_calm: "calm st st' \<Longrightarrow> run_ok st \<Longrightarrow> run_ok st'"
  by (auto simp: calm_def run_ok_def)

lemma set_db_status_keeps:
  "proxymap_set_db_status E k code g = (ok, g') \<Longrightarrow> parser_ready g' = parser_ready g \<and> dbsmap g' = dbsmap g"
  by (auto simp: proxymap_set_db_status_def Let_def split_beta)

lemma set_status_calm [simp]: "calm st (set_status H k code st') = calm st st'"
  using set_db_status_keeps [of "h_env H" k code "app_glob st'" "fst (proxymap_set_db_status (h_env H) k code (app_glob st'))"]
  by (simp add: set_status_def calm_def)

lemma close_sessions_calm: "close_sessions S as st = Some st' \<Longrightarrow> calm st st'"
proof (induction S as st rule: close_sessions.induct)
  case (2 S a as st)
  then obtain s where s: "sessions st a = Some s"
      "close_sessions S as (st\<lparr>app_net := session_close S s (app_net st), sessions := (sessions st)(a := None)\<rparr>) = Some st'"
    by (auto split: option.splits)
  then show ?case using "2.IH" [OF s] by (simp add: calm_def split: if_splits) (metis option.distinct(1))
qed simp

lemma Proxy_Close_calm:
  assumes "Proxy_Close H p st = Some (p', st')"
  shows "calm st st'"
proof -
  obtain ok g where g: "proxymap_set_db_status (h_env H) (iProxyId p) 0 (app_glob st) = (ok, g)" by force
  then obtain st1 n where s: "close_sessions (h_sys H) (v_conn p) (st\<lparr>app_glob := g\<rparr>) = Some st1" "st' = st1\<lparr>app_net := n\<rparr>"
    using assms by (auto simp: Proxy_Close_def Let_def split: bind_splits prod.splits)
  have "calm st (st\<lparr>app_glob := g\<rparr>)" using set_db_status_keeps [OF g] by (simp add: calm_glob)
  then show ?thesis using calm_trans close_sessions_calm [OF s(1)] s(2) by fastforce
qed

lemma close_proxy_at_calm: "close_proxy_at H k st = Some st' \<Longrightarrow> calm st st'"
  by (auto simp: close_proxy_at_def Let_def dest!: Proxy_Close_calm split: bind_splits prod.splits option.splits)

lemma proxymap_close_calm: "proxymap_close H st = Some st' \<Longrightarrow> calm st st'"
proof (induction "length (proxies st)" arbitrary: st)
  case 0
  then show ?case by (subst (asm) proxymap_close.simps) simp
next
  case (Suc n)
  then obtain k ps p p' st1 where p: "proxies st = (k, Some p) # ps" "Proxy_Close H p st = Some (p', st1)"
      "proxymap_close H (st1\<lparr>proxies := ps\<rparr>) = Some st'"
    by (subst (asm) (3) proxymap_close.simps) (auto split: list.splits option.splits)
  then show ?case using Suc(1) [of "st1\<lparr>proxies := ps\<rparr>"] Suc(2) calm_trans [OF Proxy_Close_calm [OF p(2)]] by simp
qed

text \<open>A new connection takes the default object of its database type.\<close>

lemma new_connection_db [simp]:
  "con_db (new_MySQLConnection m k) = dbmap_default m k ''mysql''" "con_db (new_PgSQLConnection m k) = dbmap_default m k ''pgsql''"
  by (simp_all add: new_MySQLConnection_def new_PgSQLConnection_def Connection.Connection.defs MySQLConnection.defs PgSQLConnection.defs)

lemma Server_cb_db: "Server_cb S a c sfd cfd p n = (s, p') \<Longrightarrow> con_db (conn s) = con_db c"
  by (auto simp: Server_cb_def split: option.splits)

lemma wrap_Server_run:
  assumes "wrap_Server H fd k st = Some st'" "run_ok st"
  shows "run_ok st'"
proof -
  have d: "db_live (dbsmap (app_glob st)) (dbmap_default (dbsmap (app_glob st)) k t)" for t
    using assms(2) by (intro dbmap_default_live) (simp add: run_ok_def)
  let ?a = "next_session st"
  have "calm st st' \<or> (app_glob st' = app_glob st \<and>
      (\<exists>t. sessions st' = (sessions st)(?a \<mapsto> the (sessions st' ?a)) \<and> session_db (the (sessions st' ?a)) = dbmap_default (dbsmap (app_glob st)) k t))"
    using assms(1)
    by (auto simp: wrap_Server_def Let_def dest!: close_proxy_at_calm Server_cb_db
        split: prod.splits option.splits if_splits DBProxyType.splits)
  then show ?thesis
  proof (elim disjE conjE exE)
    fix t
    assume g: "app_glob st' = app_glob st" and t: "session_db (the (sessions st' ?a)) = dbmap_default (dbsmap (app_glob st)) k t"
      and u: "sessions st' = (sessions st)(?a \<mapsto> the (sessions st' ?a))"
    have "sessions st b = Some y \<or> session_db y = dbmap_default (dbsmap (app_glob st)) k t" if "sessions st' b = Some y" for b y
      using that t by (cases "b = ?a") (simp, subst (asm) u, simp)
    with g d assms(2) show ?thesis unfolding run_ok_def by metis
  qed (use assms(2) run_ok_calm in blast)
qed

text \<open>What a callback leaves of a session.\<close>

lemma put_session_run:
  assumes "put_session a k x n g st = Some st'" "run_ok st" "dbsmap g = dbsmap (app_glob st)" "parser_ready g"
    and "\<And>y. x = Some y \<Longrightarrow> db_live (dbsmap g) (session_db y)"
  shows "run_ok st'"
proof -
  have "app_glob st' = g \<and> sessions st' = (sessions st)(a := x)"
    using assms(1) by (auto simp: put_session_def Let_def split: option.splits)
  then show ?thesis using assms(2-5) by (auto simp: run_ok_def split: if_splits)
qed

lemma callback_ok:
  assumes "\<exists>c'. steady m c' g \<and> (\<forall>s'. r = Some s' \<longrightarrow> conn s' = c')" "put_session a k (map_option f r) n g st = Some st'"
    and "\<And>s. session_db (f s) = con_db (conn s)" "run_ok st" "m = dbsmap (app_glob st)"
  shows "run_ok st'"
proof -
  obtain c' where c: "steady m c' g" "\<And>s'. r = Some s' \<Longrightarrow> conn s' = c'" using assms(1) by blast
  show ?thesis
  proof (rule put_session_run [OF assms(2,4)])
    show "db_live (dbsmap g) (session_db y)" if "map_option f r = Some y" for y
      using that c assms(3) by (auto simp: steady_def)
  qed (use c(1) assms(5) in \<open>simp_all add: steady_def\<close>)
qed

lemma session_steady:
  assumes "run_ok st" "sessions st a = Some x"
  shows "x = MySQL_session s \<Longrightarrow> steady (dbsmap (app_glob st)) (conn s) (app_glob st)"
    "x = PgSQL_session t \<Longrightarrow> steady (dbsmap (app_glob st)) (conn t) (app_glob st)"
  using assms by (fastforce simp: run_ok_def steady_def)+

lemma wrap_run:
  assumes "wrap_Proxy H fd w a st = Some st' \<or> wrap_Backend H fd w a st = Some st'" "run_ok st"
  shows "run_ok st'"
proof (cases "sessions st a")
  case None
  then show ?thesis using assms(1) by (simp add: wrap_Proxy_def wrap_Backend_def)
next
  case (Some x)
  show ?thesis
  proof (cases "app_running st")
    case False
    then have "calm st st'"
      using assms(1) by (cases x) (auto simp: wrap_Proxy_def wrap_Backend_def Some close_proxy_at_calm)
    then show ?thesis using assms(2) by (rule run_ok_calm)
  next
    case running: True
    show ?thesis
    proof (cases x)
      case (MySQL_session s)
      note k = session_steady(1) [OF assms(2) Some MySQL_session]
      obtain r n g where cb: "Proxy_cb (mysql_vtable H) (h_sys H) fd w s (app_net st) (app_glob st) = Some (r, n, g) \<or>
          Backend_cb (mysql_vtable H) (h_sys H) fd w s (app_net st) (app_glob st) = Some (r, n, g)"
        and put: "put_session a (connections s) (map_option MySQL_session r) n g st = Some st'"
        using assms(1) running by (auto simp: wrap_Proxy_def wrap_Backend_def Some MySQL_session split: bind_splits)
      have "\<exists>c'. steady (dbsmap (app_glob st)) c' g \<and> (\<forall>s'. r = Some s' \<longrightarrow> conn s' = c')"
        using cb unfolding mysql_vtable_def
        by (elim disjE) (rule mysql_steady.Proxy_cb_good [OF _ k] mysql_steady.Backend_cb_good [OF _ k], assumption)+
      from callback_ok [OF this put session_db_simps(1) assms(2) refl] show ?thesis .
    next
      case (PgSQL_session s)
      note k = session_steady(2) [OF assms(2) Some PgSQL_session]
      obtain r n g where cb: "Proxy_cb (pgsql_vtable H) (h_sys H) fd w s (app_net st) (app_glob st) = Some (r, n, g) \<or>
          Backend_cb (pgsql_vtable H) (h_sys H) fd w s (app_net st) (app_glob st) = Some (r, n, g)"
        and put: "put_session a (connections s) (map_option PgSQL_session r) n g st = Some st'"
        using assms(1) running by (auto simp: wrap_Proxy_def wrap_Backend_def Some PgSQL_session split: bind_splits)
      have "\<exists>c'. steady (dbsmap (app_glob st)) c' g \<and> (\<forall>s'. r = Some s' \<longrightarrow> conn s' = c')"
        using cb unfolding pgsql_vtable_def
        by (elim disjE) (rule pgsql_steady.Proxy_cb_good [OF _ k] pgsql_steady.Backend_cb_good [OF _ k], assumption)+
      from callback_ok [OF this put session_db_simps(2) assms(2) refl] show ?thesis .
    qed
  qed
qed

section \<open>Reloads\<close>

lemma set_status_calm_from [simp]: "calm (set_status H k code st) st' = calm st st'"
  using set_db_status_keeps [of "h_env H" k code "app_glob st" "fst (proxymap_set_db_status (h_env H) k code (app_glob st))"]
  by (simp add: set_status_def calm_def)

lemma calm_lib: "on_lib f (app_glob st) = (r, g) \<Longrightarrow> calm (st\<lparr>app_glob := g\<rparr>) st' = calm st st'"
  using on_lib_ready [of f "app_glob st" r g] on_lib_dbs [of f "app_glob st" r g] by (simp add: calm_def)

lemma calm_to_lib [simp]: "calm st (st'\<lparr>app_glob := snd (on_lib f (app_glob st'))\<rparr>) = calm st st'"
  by (simp add: calm_def)

lemma reload_row_calm: "reload_row H r (st, new) = Some (st', new') \<Longrightarrow> calm st st'"
  by (auto simp: reload_row_def Let_def dest!: Proxy_Close_calm split: bind_splits option.splits prod.splits if_splits)

lemma reload_rows_calm: "reload_rows H rs (st, new) = Some (st', new') \<Longrightarrow> calm st st'"
proof (induction rs arbitrary: st new)
  case (Cons r rs)
  then show ?case by (auto split: bind_splits intro: calm_trans [OF reload_row_calm])
qed simp

lemma remove_loop_calm: "remove_loop H ps new st = Some st' \<Longrightarrow> calm st st'"
  by (induction ps arbitrary: new st) (fastforce simp: Let_def split_beta split: if_splits option.splits)+

lemma proxymap_reload_calm:
  assumes "proxymap_reload H st = Some (ok, st')"
  shows "calm st st'"
proof -
  obtain res g where g: "on_lib (db_query (h_env H) q_proxy 256) (app_glob st) = (res, g)" by force
  have "calm (st\<lparr>app_glob := g\<rparr>) st'"
  proof (cases res)
    case None
    then show ?thesis using assms calm_to_lib [where st = "st\<lparr>app_glob := g\<rparr>" and st' = "st\<lparr>app_glob := g\<rparr>"] by (auto simp: proxymap_reload_def g)
  next
    case (Some rows)
    then obtain st1 new where rr: "reload_rows H (fetch_rows (h_env H) rows) (st\<lparr>app_glob := g\<rparr>, []) = Some (st1, new)"
      using assms by (auto simp: proxymap_reload_def g Let_def split: bind_splits)
    define st2 where "st2 = st1\<lparr>app_glob := snd (on_lib (\<lambda>l. ((), db_cleanup (h_env H) l)) (app_glob st1))\<rparr>"
    have "calm (st\<lparr>app_glob := g\<rparr>) st2" using reload_rows_calm [OF rr] by (simp add: st2_def)
    moreover have "calm st2 st'"
      using assms by (auto simp: proxymap_reload_def g Some rr Let_def st2_def [symmetric] split: bind_splits if_splits intro: remove_loop_calm)
    ultimately show ?thesis by (rule calm_trans)
  qed
  then show ?thesis by (simp add: calm_lib [OF g])
qed

lemma extends_live: "extends m m' \<Longrightarrow> db_live m a \<Longrightarrow> db_live m' a"
  by (auto simp: extends_def db_live_def split: option.splits)

lemma extends_ok: "extends m m' \<Longrightarrow> dbmap_wf m' \<Longrightarrow> dbs_ok m \<Longrightarrow> dbs_ok m'"
  by (auto simp: extends_def dbs_ok_def)

lemma reload_caches_ok: "run_ok st \<Longrightarrow> run_ok (reload_caches H st)"
proof -
  assume ok: "run_ok st"
  define m where "m = fst (snd (dbmap_reload (h_env H) (h_db H) (dbsmap (app_glob st)) (lib (alerts (app_glob st)))))"
  have "dbmap_wf (dbsmap (app_glob st))" using ok by (simp add: run_ok_def dbs_ok_def)
  then have e: "extends (dbsmap (app_glob st)) m" "dbmap_wf m" unfolding m_def using dbmap_reload_ok by blast+
  have "dbsmap (app_glob (reload_caches H st)) = m" "sessions (reload_caches H st) = sessions st"
    "parser_ready (app_glob (reload_caches H st)) = parser_ready (app_glob st)"
    by (simp_all add: reload_caches_def on_dbmap_def Let_def split_beta m_def parser_ready_def)
  then show ?thesis using ok extends_live [OF e(1)] extends_ok [OF e] by (auto simp: run_ok_def)
qed

text \<open>\<open>dbmap_init\<close> allocates the default object.\<close>

lemma dbmap_init_ok:
  assumes "dbmap_wf m"
  shows "dbs_ok (fst (snd (dbmap_init E t m s)))"
proof -
  let ?m = "m\<lparr>heap := (heap m)(next_addr m \<mapsto> new_DBPermObj), next_addr := Suc (next_addr m), default_db := Some (next_addr m)\<rparr>"
  have "a < next_addr m \<and> heap m a \<noteq> None" if "a \<in> snd ` set (dbs m)" for a
    using assms that by (auto simp: dbmap_wf_def pointers_def)
  moreover have "distinct (map fst (dbs m))" "distinct (map snd (dbs m))" using assms by (auto simp: dbmap_wf_def pointers_def)
  ultimately have wf: "dbmap_wf ?m" by (fastforce simp: dbmap_wf_def pointers_def less_Suc_eq)
  have "fst (snd (dbmap_init E t m s)) = fst (snd (dbmap_reload E t ?m s))"
    by (simp add: dbmap_init_def Let_def split_beta)
  then show ?thesis using dbmap_reload_ok [OF wf, of E t s] by (auto simp: dbs_ok_def extends_def)
qed

lemma init_caches_ok:
  assumes "dbmap_wf (dbsmap (app_glob st))" "parser_ready (app_glob st)" "sessions st = Map.empty"
  shows "run_ok (init_caches H st)"
proof -
  have "dbsmap (app_glob (init_caches H st)) = fst (snd (dbmap_init (h_env H) (h_db H) (dbsmap (app_glob st)) (lib (alerts (app_glob st)))))"
    "sessions (init_caches H st) = Map.empty" "parser_ready (app_glob (init_caches H st))"
    using assms(2,3) by (simp_all add: init_caches_def on_dbmap_def Let_def split_beta parser_ready_def)
  then show ?thesis using dbmap_init_ok [OF assms(1)] by (simp add: run_ok_def)
qed

section \<open>Runs\<close>

lemma clb_timeout_run: "clb_timeout H st = Some st' \<Longrightarrow> run_ok st \<Longrightarrow> run_ok st'"
proof -
  assume c: "clb_timeout H st = Some st'" and ok: "run_ok st"
  have "calm st st' \<or> (\<exists>st1. calm st st1 \<and> st' = reload_caches H st1)"
    using c by (auto simp: clb_timeout_def Let_def dest!: proxymap_close_calm proxymap_reload_calm split: bind_splits if_splits)
  then show "run_ok st'" using ok run_ok_calm reload_caches_ok by blast
qed

lemma app_step_run: "app_step H st st' \<Longrightarrow> run_ok st \<Longrightarrow> run_ok st'"
proof (induction rule: app_step.induct)
  case (signal st)
  then show ?case by (simp add: run_ok_def Killer_def)
qed (blast intro: wrap_Server_run wrap_run clb_timeout_run)+

lemma app_run_run:
  assumes "app_run H g k st" "parser_ready g" "dbmap_wf (dbsmap g)"
  shows "run_ok st"
  using assms
proof (induction rule: app_run.induct)
  case (start st)
  then have "calm (app_start g k) st" by (auto simp: proxymap_init_def dest!: proxymap_reload_calm split: bind_splits)
  then have "parser_ready (app_glob st)" "dbsmap (app_glob st) = dbsmap g" "sessions st = Map.empty"
    using start.prems by (auto simp: calm_def app_start_def fun_eq_iff)
  then show ?case using start.prems by (intro init_caches_ok) simp_all
next
  case (step st st')
  then show ?case using app_step_run by blast
qed

section \<open>Queries in the running program\<close>

lemma ready_start: "scanner g = flex_start \<Longrightarrow> parser g = parse_start \<Longrightarrow> parser_ready g"
  by (simp add: parser_ready_def parser_ok_start no_objects_def) (simp add: parse_start_def)

lemma run_started:
  assumes "app_run H g k st" "scanner g = flex_start" "parser g = parse_start" "dbmap_wf (dbsmap g)"
  shows "run_ok st"
  using app_run_run [OF assms(1) ready_start [OF assms(2,3)] assms(4)] .

lemma demo_started: "scanner demo_glob0 = flex_start" "parser demo_glob0 = parse_start" "dbmap_wf (dbsmap demo_glob0)"
  by (simp_all add: demo_glob0_def demo_glob_def dbmap_start_def dbmap_wf_def pointers_def)

text \<open>C10: in every run of the program, under every interleaving of clients, servers, timer and signals, each
  event is handled with the scanner and the parser between two queries: no buffer is current, their lists
  and flags are consistent, and no string or expression of an earlier query is left.\<close>

theorem runs_keep_parser:
  assumes "app_run H g k st" "scanner g = flex_start" "parser g = parse_start" "dbmap_wf (dbsmap g)"
  shows "parser_ok (scanner (app_glob st), parser (app_glob st)) \<and> no_objects (parser (app_glob st))"
  using run_started [OF assms] by (simp add: run_ok_def parser_ready_def)

theorem runs_keep_parser_witness:
  "\<exists>st s. app_run (demo_host demo_packet ''mysql'') demo_glob0 [] st \<and> sessions st 0 = Some (MySQL_session s) \<and>
     parser_ok (scanner (app_glob st), parser (app_glob st)) \<and> no_objects (parser (app_glob st))"
proof -
  obtain st s where r: "app_run (demo_host demo_packet ''mysql'') demo_glob0 [] st" "sessions st 0 = Some (MySQL_session s)"
    using demo_mysql_run by blast
  from runs_keep_parser [OF r(1) demo_started] r show ?thesis by blast
qed

text \<open>C9: in every run the permission object a session points to is allocated, from its creation on, through
  every login, change of the database and reload of the map: no check follows a null or dangling pointer.\<close>

theorem sessions_have_database:
  assumes "app_run H g k st" "scanner g = flex_start" "parser g = parse_start" "dbmap_wf (dbsmap g)"
    and "sessions st a = Some x"
  shows "\<exists>i d. session_db x = Some i \<and> heap (dbsmap (app_glob st)) i = Some d"
  using run_started [OF assms(1-4)] assms(5) by (fastforce simp: run_ok_def db_live_def split: option.splits)

theorem sessions_have_database_witness:
  "\<exists>st s i d. app_run (demo_host demo_packet ''mysql'') demo_glob0 [] st \<and> sessions st 0 = Some (MySQL_session s) \<and>
     session_db (MySQL_session s) = Some i \<and> heap (dbsmap (app_glob st)) i = Some d"
proof -
  obtain st s where r: "app_run (demo_host demo_packet ''mysql'') demo_glob0 [] st" "sessions st 0 = Some (MySQL_session s)"
    using demo_mysql_run by blast
  from sessions_have_database [OF r(1) demo_started r(2)] r show ?thesis by blast
qed



text \<open>A query that is not on the whitelist and has a string literal as its last characters.\<close>

lemma closing_quote_check:
  assumes "deref_db c g = Some d" "parser_ready g" "SQ \<notin> set x" "BSL \<notin> set x" "NUL \<notin> set x"
    and "normalizeQuery (str_lowercase (where_equals @ SQ # x @ [SQ])) = Some pattern" "CheckWhitelist d pattern = 0"
  shows "check_query X pats black c (where_equals @ SQ # x @ [SQ]) g = None"
proof -
  let ?q = "where_equals @ SQ # x @ [SQ]"
  have ok: "parser_ok (scanner g, parser g)" using assms(2) by (simp add: parser_ready_def)
  have "NUL \<notin> set ?q" using assms(5) by (simp add: where_equals_def)
  then have "cstr ?q = ?q" by (rule cstr_id)
  then have n: "\<not> parses X pats ?q g"
    using closing_quote_parse [OF ok assms(3-5), of "cx_pcre X"] by (simp add: parses_def)
  show ?thesis by (rule check_query_unparsed [OF assms(1,6,7) n])
qed

lemma my_query_undefined:
  assumes "\<not> first_request c" "buff (request_in c) = my_packet num (CHR 0x03 # sql)"
    and "sql \<noteq> []" "hd sql \<noteq> NUL" "length sql + 1 < 2 ^ 24"
    and "check_query X pats (blacklist_check (cx_pcre X) pats) c sql g = None"
  shows "my_parseRequest X pats c g = None"
proof -
  let ?m = "my_packet num (CHR 0x03 # sql)" and ?c = "(my_note_command 3 c)\<lparr>original_query := sql, StartResponse := True\<rparr>"
  have len: "le24 ?m 0 = length sql + 1" using le24_packet [of "CHR 0x03 # sql" num "[]"] assms(5) by simp
  have "check_query X pats (blacklist_check (cx_pcre X) pats) ?c sql g = None"
    using assms(6) check_query_cong [of ?c c X pats _ sql g] by (simp add: my_note_command_def)
  then have "my_query X pats sql (my_note_command 3 c) False g = None"
    by (simp add: my_query_def guard_query_def Let_def)
  then have "ParseRequestPacket X pats ?m (length sql + 5) c False g = None"
    using my_query_packet [OF assms(1,3-5), of X pats num "[]"] by simp
  then have "my_request_loop X pats ?m 0 c False g = None"
    by (subst my_request_loop.simps) (simp add: len Let_def add.commute)
  then show ?thesis by (simp add: my_parseRequest_def raw_def assms(2) len Let_def)
qed


definition demo_quoted :: string where
  "demo_quoted = ''select a from b where c='' @ SQ # ''x'' @ [SQ]"

definition demo_session :: "MySQLConnection session" where
  "demo_session = \<lparr>conn = my_demo [], proxy_event = event_add (event_set 2), proxy_event_writer = event_set 2,
     backend_event = event_add (event_set 3), backend_event_writer = event_set 3, connections = 1,
     from_client = [], to_backend = [], from_backend = [], to_client = []\<rparr>"


end
