(* ===== verification/Spec2Isabelle.thy ===== *)
theory Spec2Isabelle
  imports NormProps RiskEngine DbMap Alert Log RunChecks
begin

text \<open>
  Fago-DBFW is a database firewall: a proxy that listens in front of MySQL and PostgreSQL servers,
  cuts the requests of its clients into queries, decides about each query with a whitelist of query
  patterns, a risk score and the privileges of the user, and keeps its settings, whitelists and
  alerts in a storage database.  This development models its own code under \<^verbatim>\<open>src/src\<close>.

  \<^bold>\<open>Theories and sources.\<close>
  \<^item> \<open>Prelude\<close>: \<open>std::string\<close> and C string operations, integers, lemma collections.
  \<^item> \<open>Buffer\<close>: the byte queue of a connection (\<^verbatim>\<open>buffer.hpp, buffer.cpp\<close>).  The locale
    \<open>byte_queue\<close> is its contract.
  \<^item> \<open>StrMisc\<close>: string utilities (\<^verbatim>\<open>misc.cpp\<close>); \<open>RiskEngine\<close>: the token checks
    (\<^verbatim>\<open>riskengine.cpp\<close>), with the regular expressions as searches for whole words.
  \<^item> \<open>Normalization\<close>: the passes of \<open>normalizeQuery\<close> (\<^verbatim>\<open>normalization.cpp\<close>) as the index loops
    of the code; \<open>NormSpec\<close> states each pass as a structural function and proves the loops equal to
    it; \<open>NormProps\<close> derives the properties of patterns.
  \<^item> \<open>DbLib\<close>: the PostgreSQL build of the client library (\<^verbatim>\<open>lib/sql_api.c\<close>); \<open>SqlApi\<close>: its loader
    (\<^verbatim>\<open>sql_api.cpp\<close>); \<open>Config\<close>: settings (\<^verbatim>\<open>config.cpp\<close>).
  \<^item> \<open>Patterns\<close>: the pattern files (\<^verbatim>\<open>patterns.cpp\<close>); \<open>Parser\<close>: expressions and parser callbacks
    (\<^verbatim>\<open>parser/expression.hpp, parser/parser.cpp\<close>).
  \<^item> \<open>DbPerm\<close>: permissions and whitelist of a database (\<^verbatim>\<open>dbpermobj.cpp\<close>); \<open>DbMap\<close>: the map of
    databases with its heap of objects (\<^verbatim>\<open>dbmap.cpp\<close>); \<open>KeyedMap\<close>: the locale of maps with composed keys,
    interpreted by \<open>DbMap\<close> and \<open>Alert\<close>.
  \<^item> \<open>Alert\<close>: alert groups and alerts (\<^verbatim>\<open>alert.cpp\<close>); \<open>Log\<close>: log files and hex dumps (\<^verbatim>\<open>log.cpp\<close>).
  \<^item> \<open>Tables\<close>, \<open>FlexTables\<close>, \<open>BisonTables\<close>: the arrays of the generated scanner and parser.
    \<open>Scanner\<close>: the scanner (\<^verbatim>\<open>parser/sql.cpp\<close>) with its buffer, its end-of-buffer protocol, the actions of
    all rules and the reads inside them; \<open>Yacc\<close>: the parser (\<^verbatim>\<open>parser/sql.tab.cpp\<close>) with its
    stacks, error recovery and semantic actions; \<open>Grammar\<close>: the rules of \<^verbatim>\<open>parser/sql.ypp\<close>.
  \<^item> \<open>Dfa\<close>, \<open>ScanSpec\<close>, \<open>ScanRefine\<close>: the scanner specified by longest match on strings, and the proof
    that the buffered one implements it; \<open>YaccLexer\<close>: the parser over either of them.
    \<open>Lalr\<close>, \<open>YaccRun\<close>: a checked certificate of the parser tables, and what it gives for every run;
    \<open>Ownership\<close>, \<open>ParseSafe\<close>, \<open>ScanRun\<close>: types and owners of the semantic values; \<open>PlainQuery\<close>:
    queries that cannot make the scanner read on; \<open>QueryParse\<close>: \<open>query_parse\<close>
    (\<^verbatim>\<open>parser/parser.cpp\<close>) over the generated code; \<open>Derive\<close>: accepted queries are sentences;
    \<open>Queries\<close>: families of queries evaluated from the first byte to the risk.
  \<^item> \<open>Connection\<close>: a client session and the check of a query (\<^verbatim>\<open>connection.cpp\<close>).
  \<^item> \<open>Protocol\<close>: what the protocol classes share, and their contract as locales; \<open>PgSQLCon\<close>: the
    PostgreSQL protocol (\<^verbatim>\<open>pgsql/pgsql_con.cpp\<close>); \<open>MySQLCon\<close>: the MySQL protocol
    (\<^verbatim>\<open>mysql/mysql_con.cpp\<close>).
  \<^item> \<open>Socket\<close>: the socket calls (\<^verbatim>\<open>socket.cpp\<close>); \<open>Proxy\<close>: sessions, their libevent callbacks and the
    listening socket (\<^verbatim>\<open>proxy.cpp\<close>, \<^verbatim>\<open>Connection::close\<close>); \<open>ProxyMap\<close>: all proxies and sessions of the
    process, and the reload of the proxy table (\<^verbatim>\<open>proxymap.cpp\<close>); \<open>Fabric\<close>: the invariant of that state;
    \<open>FagoMain\<close>: start, timer, signals, shutdown and the runs of the event loop (\<^verbatim>\<open>main.cpp\<close>);
    \<open>RunChecks\<close>: what a check of a query relies on, in those runs.

  \<^bold>\<open>State.\<close>  Objects are records, updated functionally.  Where the code shares objects by pointer (the
  permission objects a connection keeps, the strings and expressions of the parser) the model has an
  explicit heap.  The globals a query check changes are the record \<open>glob\<close>, what it only reads is
  \<open>ctx\<close>.  An operation that may read out of bounds, dereference a dangling pointer or print with a bad
  format has an option result with \<open>None\<close> for undefined behaviour; the client library records it in
  its field \<open>ub\<close>, the generated code returns a
  \<open>yy_fault\<close>, whose \<open>Null_file\<close> is a read from a null \<open>FILE\<close>.  The state of the running process is \<open>app\<close>: the globals, the kernel, the map of the proxies
  and the sessions by address.  A session carries the history of its two sockets, which only the
  properties read.

  \<^bold>\<open>Parameters.\<close>  Code that is not in the repository is an argument: the PostgreSQL server and \<open>libpq\<close>
  (\<open>server\<close>), \<open>dlopen\<close> and \<open>dlsym\<close>, PCRE (\<open>pcre\<close>), the file system and clock (\<open>logenv\<close>), the kernel
  (\<open>sys\<close>, with \<open>kernel_ok\<close> for the documented behaviour of its calls).

  \<^bold>\<open>Lemmas.\<close>  Each theory proves what its operations keep (\<open>dbmap_wf\<close>, \<open>parse_wf\<close>, \<open>keeps_in\<close>) and
  what they compute; the properties rest on these.  The locales \<open>protocol\<close> and \<open>lossless_protocol\<close> are what
  the proxy relies on in the two protocol classes: its callbacks keep the request stream of any class
  that meets them, and \<open>steady_methods\<close> carries a relation of a connection to the globals through its callbacks.
  \<open>lexer_refinement\<close> is what lets two lexers be exchanged under the parser, \<open>token_source\<close> and
  \<open>typed_source\<close> are what its runs and its values need of a lexer; the scanner meets all three.
  \<open>app_step\<close> lets any event of any session, the timer and signals happen in any order,
  and the invariants hold along every \<open>app_run\<close>.  Examples are evaluated on small sessions
  (\<open>demo_env\<close>, \<open>demo_ctx\<close>, \<open>pg_demo\<close>, \<open>my_demo\<close>).

  \<^bold>\<open>Bounds and fuel.\<close>  \<open>join_to_comma\<close> takes the length of the list as fuel, every round shortens the
  list; \<open>free_list\<close> takes the number of objects, every round deletes one.  The message loop of the
  PostgreSQL protocol can diverge and is a partial function, the packet loops of MySQL always advance.
  Inside one call of the scanner every loop takes \<open>scan_fuel\<close>, eight times the buffer and eight more, as each
  round consumes a character or ends; the parser takes \<open>parse_fuel\<close>, 24 rounds for each character
  and 72 more, as the weights of \<open>lr_rho\<close> bound the rounds between two tokens.  \<open>query_parse_total\<close>
  states that no query runs out of either.  Buffers hold less than \<open>2 ^ 31\<close> bytes.

  \<^bold>\<open>Not modelled.\<close>  Progress output (\<open>std::cout\<close>, \<open>logevent\<close> at its call sites), the dispatch of libevent, the MySQL build of the client
  library, Windows code, tracing and the buffer stack and accessor functions of the generated scanner and
  parser, which the program never calls, the failure of memory allocation, and
  \<^verbatim>\<open>parser/parse_conf.cpp\<close>, which does not compile.
\<close>

end
